(* ===== verification/Go_Prelude.thy ===== *)
theory Go_Prelude
  imports Main "HOL-Library.Word" "HOL-Library.AList" "HOL-Library.Multiset"
begin

text \<open>
  The shared prelude of the development: machine integers, Go error values, the
  sequential monad in which the handlers of the vigilante daemons are written, Go maps as
  association lists, and the generic lemmas the component theories use.

  A Go error is modelled by the list of sentinel errors on its \<open>%w\<close> chain, which is what
  \<open>errors.Is\<close> and \<open>errors.As\<close> inspect, and by its text, which some handlers search with
  \<open>strings.Contains\<close>. Formatted arguments are left out of the text.

  A handler is a function from a state to an outcome and the next state. The outcome is the
  returned value, a returned error, a panic, or \<open>NoFuel\<close> when a loop that has no bound in
  the source was cut off; a statement that a handler returns always excludes \<open>NoFuel\<close>.
\<close>

named_theorems go_defs "definitions of the combinators, for unfolding a handler"
named_theorems cache_laws "laws of the caches"

subsection \<open>Machine integers\<close>

type_synonym u8 = "8 word"
type_synonym u32 = "32 word"
type_synonym u64 = "64 word"

subsection \<open>Errors\<close>

text \<open>
  The sentinel errors the sources compare against, those of the libraries the
  sources import by name included. \<open>RPCError\<close> is \<open>*btcjson.RPCError\<close> with its code.
\<close>

datatype sentinel =
    ErrEmptyCache | ErrInvalidMaxEntries | ErrTooManyEntries | ErrUnsortedBlocks
  | ErrInvalidMultiSig | ErrInsufficientPower | ErrInvalidEpochNum | ErrInconsistentBlockHash
  | ErrLivenessAttack
  | ErrHeaderParentDoesNotExist | ErrChainWithNotEnoughWork | ErrInvalidHeaderLC
  | ErrProvidedHeaderDoesNotHaveAncestor | ErrInvalidHeaderCkpt | ErrNoCheckpointsForPreviousEpoch
  | ErrInvalidCheckpointProof | ErrBlsPrivKeyDoesNotExist | ErrForkStartWithKnownHeader
  | ErrDuplicatedSubmission | ErrEpochAlreadyFinalized | ErrCheckpointNotReported
  | ErrTimeoutAfterWaitingForTxBroadcast | ErrContextCanceled
  | ErrTooManyDescendants | ErrInsufficientFee | ErrInsufficientFeerate | ErrFeeIncrementTooSmall
  | ErrTxNotInMempool | ErrRelayFeerate | ErrNoChangeOutput
  | ErrCorruptedDB | ErrNotFound
  | ErrSpendPathNotUnbonding | ErrHeaderNotKnownToBabylon | ErrHeaderOnBabylonLCFork
  | ErrBabylonBtcLightClientNotReady | ErrNotSlashable | ErrInvalidPoP
  | RPCError int

datatype goerr = GoErr (errChain: "sentinel list") (errText: string)

definition errors_is :: "goerr \<Rightarrow> sentinel \<Rightarrow> bool" where
  "errors_is e t \<longleftrightarrow> t \<in> set (errChain e)"

definition errorf :: "string \<Rightarrow> goerr" where
  "errorf m = GoErr [] m"

definition sentinelErr :: "sentinel \<Rightarrow> goerr" where
  "sentinelErr t = GoErr [t] []"

definition wrapf :: "string \<Rightarrow> goerr \<Rightarrow> goerr" where
  "wrapf m e = GoErr (errChain e) (m @ errText e)"

lemma errors_is_simps [simp]:
  "errors_is (errorf m) t = False"
  "errors_is (sentinelErr t') t = (t = t')"
  "errors_is (wrapf m e) t = errors_is e t"
  "errors_is (GoErr ts m) t = (t \<in> set ts)"
  by (auto simp: errors_is_def errorf_def sentinelErr_def wrapf_def)

subsection \<open>Outcomes and handlers\<close>

datatype 'a outcome = Ok 'a | Err goerr | Panic string | NoFuel

fun isOk :: "'a outcome \<Rightarrow> bool" where
  "isOk (Ok _) = True" | "isOk _ = False"

lemma isOk_run: "isOk (fst r) \<Longrightarrow> \<exists>x s. r = (Ok x, s)"
  by (cases r; cases "fst r") auto

type_synonym ('s, 'a) prog = "'s \<Rightarrow> 'a outcome \<times> 's"

definition retG :: "'a \<Rightarrow> ('s, 'a) prog" where
  [go_defs]: "retG x s = (Ok x, s)"

definition failG :: "goerr \<Rightarrow> ('s, 'a) prog" where
  [go_defs]: "failG e s = (Err e, s)"

definition panicG :: "string \<Rightarrow> ('s, 'a) prog" where
  [go_defs]: "panicG m s = (Panic m, s)"

definition noFuelG :: "('s, 'a) prog" where
  [go_defs]: "noFuelG s = (NoFuel, s)"

definition bindG :: "('s, 'a) prog \<Rightarrow> ('a \<Rightarrow> ('s, 'b) prog) \<Rightarrow> ('s, 'b) prog" where
  "bindG m f s = (case m s of
       (Ok x, s') \<Rightarrow> f x s'
     | (Err e, s') \<Rightarrow> (Err e, s')
     | (Panic p, s') \<Rightarrow> (Panic p, s')
     | (NoFuel, s') \<Rightarrow> (NoFuel, s'))"

text \<open>\<open>x, err := m()\<close> where the caller looks at \<open>err\<close> itself.\<close>

definition tryG :: "('s, 'a) prog \<Rightarrow> ('s, goerr + 'a) prog" where
  "tryG m s = (case m s of
       (Ok x, s') \<Rightarrow> (Ok (Inr x), s')
     | (Err e, s') \<Rightarrow> (Ok (Inl e), s')
     | (Panic p, s') \<Rightarrow> (Panic p, s')
     | (NoFuel, s') \<Rightarrow> (NoFuel, s'))"

text \<open>\<open>if err != nil { return fmt.Errorf("...: %w", err) }\<close>.\<close>

definition wrapG :: "string \<Rightarrow> ('s, 'a) prog \<Rightarrow> ('s, 'a) prog" where
  "wrapG msg m s = (case m s of
       (Err e, s') \<Rightarrow> (Err (wrapf msg e), s')
     | r \<Rightarrow> r)"

text \<open>\<open>if err != nil { panic(err) }\<close>.\<close>

definition mustG :: "string \<Rightarrow> ('s, 'a) prog \<Rightarrow> ('s, 'a) prog" where
  "mustG msg m s = (case m s of
       (Err e, s') \<Rightarrow> (Panic msg, s')
     | r \<Rightarrow> r)"

text \<open>A deferred cleanup that runs when the function returns an error or panics.\<close>

definition onFailG :: "('s \<Rightarrow> 's) \<Rightarrow> ('s, 'a) prog \<Rightarrow> ('s, 'a) prog" where
  "onFailG cleanup m s = (case m s of
       (Err e, s') \<Rightarrow> (Err e, cleanup s')
     | (Panic p, s') \<Rightarrow> (Panic p, cleanup s')
     | r \<Rightarrow> r)"

definition getG :: "('s \<Rightarrow> 'a) \<Rightarrow> ('s, 'a) prog" where
  [go_defs]: "getG f s = (Ok (f s), s)"

definition modG :: "('s \<Rightarrow> 's) \<Rightarrow> ('s, unit) prog" where
  [go_defs]: "modG f s = (Ok (), f s)"

text \<open>A pure computation that may fail, run inside a handler.\<close>

definition liftG :: "'a outcome \<Rightarrow> ('s, 'a) prog" where
  [go_defs]: "liftG r s = (r, s)"

text \<open>A remote call: it sees and changes only the world outside the daemon.\<close>

definition zoomG :: "('s \<Rightarrow> 'w) \<Rightarrow> ('w \<Rightarrow> 's \<Rightarrow> 's) \<Rightarrow> ('w, 'a) prog \<Rightarrow> ('s, 'a) prog" where
  [go_defs]: "zoomG get put m s = (let (r, w') = m (get s) in (r, put w' s))"

definition sumOutcome :: "goerr + 'a \<Rightarrow> 'a outcome" where
  "sumOutcome r = (case r of Inl e \<Rightarrow> Err e | Inr x \<Rightarrow> Ok x)"

lemma bindG_simps [simp]:
  "m s = (Ok x, s') \<Longrightarrow> bindG m f s = f x s'"
  "m s = (Err e, s') \<Longrightarrow> bindG m f s = (Err e, s')"
  "m s = (Panic p, s') \<Longrightarrow> bindG m f s = (Panic p, s')"
  "m s = (NoFuel, s') \<Longrightarrow> bindG m f s = (NoFuel, s')"
  by (simp_all add: bindG_def)

lemma tryG_simps [simp]:
  "m s = (Ok x, s') \<Longrightarrow> tryG m s = (Ok (Inr x), s')"
  "m s = (Err e, s') \<Longrightarrow> tryG m s = (Ok (Inl e), s')"
  "m s = (Panic p, s') \<Longrightarrow> tryG m s = (Panic p, s')"
  "m s = (NoFuel, s') \<Longrightarrow> tryG m s = (NoFuel, s')"
  by (simp_all add: tryG_def)

lemma prim_simps [simp]:
  "bindG (retG x) f = f x"
  "bindG (failG e) f = failG e"
  "bindG (panicG p) f = panicG p"
  "bindG noFuelG f = noFuelG"
  "bindG (getG g) f s = f (g s) s"
  "bindG (modG h) k s = k () (h s)"
  by (simp_all add: fun_eq_iff retG_def failG_def panicG_def noFuelG_def getG_def modG_def bindG_def)

lemma zoomG_simps [simp]:
  "m (get s) = (r, w') \<Longrightarrow> zoomG get put m s = (r, put w' s)"
  by (simp add: zoomG_def)

lemma wrapG_Ok [simp]: "wrapG msg m s = (Ok x, s') \<longleftrightarrow> m s = (Ok x, s')"
  by (auto simp: wrapG_def split: prod.splits outcome.splits)

lemma mustG_Ok [simp]: "mustG msg m s = (Ok x, s') \<longleftrightarrow> m s = (Ok x, s')"
  by (auto simp: mustG_def split: prod.splits outcome.splits)

lemma bindG_Ok_E:
  assumes "bindG m f s = (Ok y, s'')"
  obtains x s' where "m s = (Ok x, s')" and "f x s' = (Ok y, s'')"
  using assms by (auto simp: bindG_def split: prod.splits outcome.splits)

lemma tryG_Ok_iff:
  "tryG m s = (Ok r, s') \<longleftrightarrow> (case r of Inr x \<Rightarrow> m s = (Ok x, s') | Inl e \<Rightarrow> m s = (Err e, s'))"
  by (auto simp: tryG_def split: prod.splits outcome.splits sum.splits)

text \<open>
  A program keeps an invariant when every run does, whatever the outcome. The rules compose
  along the structure of a handler.
\<close>

definition keeps :: "('s \<Rightarrow> bool) \<Rightarrow> ('s, 'a) prog \<Rightarrow> bool" where
  "keeps I m \<longleftrightarrow> (\<forall>s. I s \<longrightarrow> I (snd (m s)))"

named_theorems keeps_rules "programs that keep an invariant"

lemma keepsD: "keeps I m \<Longrightarrow> I s \<Longrightarrow> m s = (r, s') \<Longrightarrow> I s'"
  by (metis keeps_def snd_conv)

lemma keeps_prims [keeps_rules]:
  "keeps I (retG x)" "keeps I (failG e)" "keeps I (panicG p)" "keeps I noFuelG"
  "keeps I (getG f)" "keeps I (liftG r)"
  by (simp_all add: keeps_def go_defs)

lemma keeps_bind [keeps_rules]:
  "keeps I m \<Longrightarrow> (\<And>x. keeps I (f x)) \<Longrightarrow> keeps I (bindG m f)"
proof (unfold keeps_def, intro allI impI)
  fix s assume I: "I s" and m: "\<forall>s. I s \<longrightarrow> I (snd (m s))" and f: "\<And>x. \<forall>s. I s \<longrightarrow> I (snd (f x s))"
  obtain r s' where r: "m s = (r, s')" by force
  with I m have "I s'" by (metis snd_conv)
  with r f show "I (snd (bindG m f s))" by (cases r) simp_all
qed

lemma keeps_try [keeps_rules]: "keeps I m \<Longrightarrow> keeps I (tryG m)"
  by (auto simp: keeps_def tryG_def split: prod.splits outcome.splits)

lemma keeps_wrap [keeps_rules]: "keeps I m \<Longrightarrow> keeps I (wrapG msg m)"
  by (auto simp: keeps_def wrapG_def split: prod.splits outcome.splits)

lemma keeps_must [keeps_rules]: "keeps I m \<Longrightarrow> keeps I (mustG msg m)"
  by (auto simp: keeps_def mustG_def split: prod.splits outcome.splits)

lemma keeps_if [keeps_rules]: "keeps I a \<Longrightarrow> keeps I b \<Longrightarrow> keeps I (if c then a else b)"
  by simp

lemma keeps_modG: "(\<And>s. I s \<Longrightarrow> I (f s)) \<Longrightarrow> keeps I (modG f)"
  by (simp add: keeps_def modG_def)

lemma keeps_zoomG: "(\<And>s w. I s \<Longrightarrow> I (put w s)) \<Longrightarrow> keeps I (zoomG get put m)"
  by (auto simp: keeps_def zoomG_def split: prod.splits)

lemma keeps_onFail: "keeps I m \<Longrightarrow> (\<And>s. I s \<Longrightarrow> I (f s)) \<Longrightarrow> keeps I (onFailG f m)"
  by (auto simp: keeps_def onFailG_def split: prod.splits outcome.splits)

lemma keeps_case [keeps_rules]:
  "keeps I a \<Longrightarrow> (\<And>x. keeps I (b x)) \<Longrightarrow> keeps I (case opt of None \<Rightarrow> a | Some x \<Rightarrow> b x)"
  "(\<And>x. keeps I (l x)) \<Longrightarrow> (\<And>y. keeps I (r y)) \<Longrightarrow> keeps I (case sm of Inl x \<Rightarrow> l x | Inr y \<Rightarrow> r y)"
  "(\<And>x y. keeps I (g x y)) \<Longrightarrow> keeps I (case pr of (x, y) \<Rightarrow> g x y)"
  "keeps I a \<Longrightarrow> (\<And>x xs. keeps I (c x xs)) \<Longrightarrow> keeps I (case lst of [] \<Rightarrow> a | x # xs \<Rightarrow> c x xs)"
  by (simp_all split: option.splits sum.splits prod.splits list.splits)

text \<open>
  Variants: \<open>preserves\<close> leaves out runs that never return, \<open>ends\<close> has a separate
  postcondition for normal returns, \<open>returns\<close> says that a run always comes to an end.
\<close>

definition preserves :: "('s \<Rightarrow> bool) \<Rightarrow> ('s, 'a) prog \<Rightarrow> bool" where
  "preserves I m \<longleftrightarrow> (\<forall>s r s'. I s \<longrightarrow> m s = (r, s') \<longrightarrow> r \<noteq> NoFuel \<longrightarrow> I s')"

definition ends :: "('s \<Rightarrow> bool) \<Rightarrow> ('s, 'a) prog \<Rightarrow> ('a \<Rightarrow> 's \<Rightarrow> bool) \<Rightarrow> bool" where
  "ends I m Q \<longleftrightarrow> (\<forall>s r s'. I s \<longrightarrow> m s = (r, s') \<longrightarrow> (case r of Ok x \<Rightarrow> Q x s' | _ \<Rightarrow> I s'))"

definition returns :: "('s, 'a) prog \<Rightarrow> bool" where
  "returns m \<longleftrightarrow> (\<forall>s. fst (m s) \<noteq> NoFuel)"

named_theorems preserves_rules "programs that preserve an invariant when they return"
named_theorems ends_rules "programs with a postcondition"
named_theorems returns_rules "programs that return"

lemma keeps_preserves [preserves_rules]: "keeps I m \<Longrightarrow> preserves I m"
  unfolding preserves_def using keepsD by metis

lemma keeps_ends [ends_rules]: "keeps I m \<Longrightarrow> ends I m (\<lambda>_. I)"
  by (auto simp: ends_def dest: keepsD split: outcome.splits)

lemma preservesD: "preserves I m \<Longrightarrow> I s \<Longrightarrow> m s = (r, s') \<Longrightarrow> r \<noteq> NoFuel \<Longrightarrow> I s'"
  unfolding preserves_def by blast

lemma bindG_cases:
  assumes "bindG m f s = (r, s'')"
  obtains (ok) x s' where "m s = (Ok x, s')" "f x s' = (r, s'')"
    | (err) e where "m s = (Err e, s'')" "r = Err e"
    | (panic) p where "m s = (Panic p, s'')" "r = Panic p"
    | (noFuel) "m s = (NoFuel, s'')" "r = NoFuel"
  using assms by (auto simp: bindG_def split: prod.splits outcome.splits)

lemma preserves_bind [preserves_rules]:
  "preserves I m \<Longrightarrow> (\<And>x. preserves I (f x)) \<Longrightarrow> preserves I (bindG m f)"
  unfolding preserves_def by (intro allI impI) (erule bindG_cases; metis outcome.distinct)

lemma preserves_try [preserves_rules]: "preserves I m \<Longrightarrow> preserves I (tryG m)"
  by (fastforce simp: preserves_def tryG_def split: prod.splits outcome.splits)

lemma preserves_if [preserves_rules]: "preserves I a \<Longrightarrow> preserves I b \<Longrightarrow> preserves I (if c then a else b)"
  by simp

lemma preserves_case [preserves_rules]:
  "(\<And>x. preserves I (l x)) \<Longrightarrow> (\<And>y. preserves I (r y)) \<Longrightarrow> preserves I (case sm of Inl x \<Rightarrow> l x | Inr y \<Rightarrow> r y)"
  "preserves I a \<Longrightarrow> (\<And>x. preserves I (b x)) \<Longrightarrow> preserves I (case opt of None \<Rightarrow> a | Some x \<Rightarrow> b x)"
  by (simp_all split: sum.splits option.splits)

lemma ends_bind:
  "ends I m (\<lambda>_. I) \<Longrightarrow> (\<And>x. ends I (f x) Q) \<Longrightarrow> ends I (bindG m f) Q"
proof (unfold ends_def, intro allI impI)
  fix s r s''
  assume m: "\<forall>s r s'. I s \<longrightarrow> m s = (r, s') \<longrightarrow> (case r of Ok x \<Rightarrow> I s' | _ \<Rightarrow> I s')"
    and f: "\<And>x. \<forall>s r s'. I s \<longrightarrow> f x s = (r, s') \<longrightarrow> (case r of Ok x \<Rightarrow> Q x s' | _ \<Rightarrow> I s')"
    and I: "I s" and run: "bindG m f s = (r, s'')"
  from run show "case r of Ok x \<Rightarrow> Q x s'' | _ \<Rightarrow> I s''"
  proof (cases rule: bindG_cases)
    case (ok x s')
    then have "I s'" using m I by fastforce
    with ok f show ?thesis by metis
  qed (use m I in \<open>force+\<close>)
qed

lemma ends_case:
  "(\<And>x. ends I (b x) Q) \<Longrightarrow> ends I a Q \<Longrightarrow> ends I (case opt of None \<Rightarrow> a | Some x \<Rightarrow> b x) Q"
  "(\<And>x. ends I (l x) Q) \<Longrightarrow> (\<And>y. ends I (rr y) Q) \<Longrightarrow> ends I (case sm of Inl x \<Rightarrow> l x | Inr y \<Rightarrow> rr y) Q"
  "(\<And>x y. ends I (g x y) Q) \<Longrightarrow> ends I (case pr of (x, y) \<Rightarrow> g x y) Q"
  by (simp_all split: sum.splits option.splits prod.splits)

lemma ends_failures: "ends I (failG e) Q" "ends I (panicG p) Q" "ends I noFuelG Q"
  by (simp_all add: ends_def go_defs)

lemma ends_modG: "(\<And>s. I s \<Longrightarrow> Q () (f s)) \<Longrightarrow> ends I (modG f) Q"
  by (simp add: ends_def modG_def)

lemma returns_prims [returns_rules]:
  "returns (retG x)" "returns (failG e)" "returns (panicG p)" "returns (getG f)" "returns (modG h)"
  by (simp_all add: returns_def go_defs)

lemma returns_bind [returns_rules]:
  "returns m \<Longrightarrow> (\<And>x. returns (f x)) \<Longrightarrow> returns (bindG m f)"
  by (simp add: returns_def bindG_def split: prod.splits outcome.splits)
     (metis fst_conv)

lemma returns_try [returns_rules]: "returns m \<Longrightarrow> returns (tryG m)"
  by (simp add: returns_def tryG_def split: prod.splits outcome.splits) (metis fst_conv)

lemma returns_case [returns_rules]:
  "returns a \<Longrightarrow> (\<And>x. returns (b x)) \<Longrightarrow> returns (case opt of None \<Rightarrow> a | Some x \<Rightarrow> b x)"
  "(\<And>x. returns (l x)) \<Longrightarrow> (\<And>y. returns (r y)) \<Longrightarrow> returns (case sm of Inl x \<Rightarrow> l x | Inr y \<Rightarrow> r y)"
  "returns c \<Longrightarrow> returns d \<Longrightarrow> returns (if p then c else d)"
  by (simp_all split: sum.splits option.splits)

lemma returns_zoom: "returns m \<Longrightarrow> returns (zoomG get put m)"
  by (simp add: returns_def zoomG_def split: prod.splits) (metis fst_conv)

lemma returns_lift: "r \<noteq> NoFuel \<Longrightarrow> returns (liftG r)"
  by (simp add: returns_def liftG_def)

lemma bindG_assoc: "bindG (bindG m f) g = bindG m (\<lambda>x. bindG (f x) g)"
  by (auto simp: fun_eq_iff bindG_def split: prod.splits outcome.splits)

definition sumG :: "goerr + 'a \<Rightarrow> ('s, 'a) prog" where
  "sumG r = liftG (sumOutcome r)"

text \<open>A dereference of a pointer that may be nil.\<close>

definition derefG :: "'a option \<Rightarrow> ('s, 'a) prog" where
  "derefG r = (case r of None \<Rightarrow> panicG ''nil pointer dereference'' | Some x \<Rightarrow> retG x)"

text \<open>
  Local variables that a callback assigns: \<open>withLocal\<close> runs a program on the state and the
  locals, and returns the locals; \<open>outerG\<close> is a call that does not touch them.
\<close>

definition withLocal :: "'l \<Rightarrow> ('s \<times> 'l, unit) prog \<Rightarrow> ('s, 'l) prog" where
  "withLocal l m s = (case m (s, l) of
       (Ok _, (s', l')) \<Rightarrow> (Ok l', s')
     | (Err e, (s', l')) \<Rightarrow> (Err e, s')
     | (Panic p, (s', l')) \<Rightarrow> (Panic p, s')
     | (NoFuel, (s', l')) \<Rightarrow> (NoFuel, s'))"

definition outerG :: "('s, 'a) prog \<Rightarrow> ('s \<times> 'l, 'a) prog" where
  "outerG m = zoomG fst (\<lambda>s p. (s, snd p)) m"

definition localG :: "('l \<Rightarrow> 'l) \<Rightarrow> ('s \<times> 'l, unit) prog" where
  "localG f = modG (\<lambda>(s, l). (s, f l))"

lemma outerG_eq: "m s = (r, s') \<Longrightarrow> outerG m (s, l) = (r, (s', l))"
  by (simp add: outerG_def)

lemma keeps_outerG: "keeps I m \<Longrightarrow> keeps (\<lambda>p. I (fst p)) (outerG m)"
  by (auto simp: keeps_def outerG_def zoomG_def split: prod.splits)

lemma keeps_localG: "keeps (\<lambda>p. I (fst p)) (localG f)"
  by (auto simp: keeps_def localG_def modG_def)

lemma localG_eq [simp]: "localG f (s, l) = (Ok (), (s, f l))"
  by (simp add: localG_def modG_def)

lemma sumG_Ok [simp]: "sumG r s = (Ok x, s') \<longleftrightarrow> r = Inr x \<and> s' = s"
  by (cases r) (auto simp: sumG_def liftG_def sumOutcome_def)

lemma derefG_Ok [simp]: "derefG p s = (Ok x, s') \<longleftrightarrow> p = Some x \<and> s' = s"
  by (cases p) (auto simp: derefG_def retG_def panicG_def)

lemma prims_Ok [simp]:
  "retG x s = (Ok y, s') \<longleftrightarrow> y = x \<and> s' = s" "failG e s \<noteq> (Ok y, s')" "panicG p s \<noteq> (Ok y, s')"
  "liftG r s = (Ok y, s') \<longleftrightarrow> r = Ok y \<and> s' = s"
  by (auto simp: go_defs)

lemma keeps_pure [keeps_rules]: "keeps I (sumG r)" "keeps I (derefG p)"
  unfolding sumG_def derefG_def by (intro keeps_rules)+

lemmas go_splits = prod.splits outcome.splits sum.splits option.splits if_splits

subsection \<open>Go maps\<close>

text \<open>
  A Go map is an association list with distinct keys. The order in which \<open>range\<close> visits
  it is not the order of the list: where it matters, the visiting order is an argument of
  the operation and the statements quantify over it.
\<close>

type_synonym ('k, 'v) gomap = "('k \<times> 'v) list"

definition keys_of :: "('k, 'v) gomap \<Rightarrow> 'k set" where
  "keys_of m = fst ` set m"

definition wf_map :: "('k, 'v) gomap \<Rightarrow> bool" where
  "wf_map m \<longleftrightarrow> distinct (map fst m)"

lemma keys_of_dom: "keys_of m = dom (map_of m)"
  by (simp add: keys_of_def dom_map_of_conv_image_fst)

lemma map_of_None_keys: "map_of m k = None \<longleftrightarrow> k \<notin> keys_of m"
  by (simp add: keys_of_def map_of_eq_None_iff)

lemma keys_of_simps [simp]:
  "keys_of [] = {}"
  "keys_of (AList.update k v m) = insert k (keys_of m)"
  "keys_of (AList.delete k m) = keys_of m - {k}"
  by (simp_all add: keys_of_def dom_update delete_keys)
     (auto simp: image_iff AList.delete_eq)

lemma wf_map_simps [simp]:
  "wf_map []"
  "wf_map m \<Longrightarrow> wf_map (AList.update k v m)"
  "wf_map m \<Longrightarrow> wf_map (AList.delete k m)"
  by (simp_all add: wf_map_def distinct_update distinct_delete)

lemma length_update_alist:
  "length (AList.update k v m) = (if k \<in> keys_of m then length m else Suc (length m))"
  by (induction m) (auto simp: keys_of_def)

lemma length_delete_alist:
  assumes "wf_map m"
  shows "length (AList.delete k m) = (if k \<in> keys_of m then length m - 1 else length m)"
  using assms
proof (induction m)
  case Nil
  then show ?case by (simp add: keys_of_def)
next
  case (Cons a m)
  then have wf: "wf_map m" and a: "fst a \<notin> keys_of m" by (auto simp: wf_map_def keys_of_def)
  show ?case
  proof (cases "fst a = k")
    case True
    with a have "AList.delete k m = m"
      by (intro delete_id) (simp add: keys_of_def)
    with True show ?thesis by (cases a) (simp add: keys_of_def)
  next
    case False
    with Cons.IH [OF wf] show ?thesis
      by (cases a; cases m) (auto simp: keys_of_def)
  qed
qed

subsection \<open>Slices\<close>

text \<open>\<open>sort.SliceIsSorted(xs, lt)\<close>: no element is less than the one before it.\<close>

fun SliceIsSorted :: "('a \<Rightarrow> 'a \<Rightarrow> bool) \<Rightarrow> 'a list \<Rightarrow> bool" where
  "SliceIsSorted lt (x # y # zs) = (\<not> lt y x \<and> SliceIsSorted lt (y # zs))"
| "SliceIsSorted lt _ = True"

lemma SliceIsSorted_key:
  fixes f :: "'a \<Rightarrow> 'k::linorder"
  shows "SliceIsSorted (\<lambda>x y. f x < f y) xs \<longleftrightarrow> sorted (map f xs)"
  by (induction "\<lambda>x y. f x < f y" xs rule: SliceIsSorted.induct)
     (auto simp: not_less intro: order_trans)

lemma sorted_key_last: "sorted (map f xs) \<Longrightarrow> x \<in> set xs \<Longrightarrow> f x \<le> f (last xs)"
  by (induction xs) auto

text \<open>
  \<open>sort.Slice\<close> is not stable: it may return any permutation that its \<open>less\<close> accepts.
  The routine is an argument of the operations that call it, with this contract.
\<close>

definition sorts_by :: "('a \<Rightarrow> 'k::linorder) \<Rightarrow> ('a list \<Rightarrow> 'a list) \<Rightarrow> bool" where
  "sorts_by f srt \<longleftrightarrow> (\<forall>xs. mset (srt xs) = mset xs \<and> sorted (map f (srt xs)))"

lemma sorts_by_sort_key: "sorts_by f (sort_key f)"
  by (simp add: sorts_by_def)

lemma sorts_by_set: "sorts_by f srt \<Longrightarrow> set (srt xs) = set xs"
  by (metis mset_eq_setD sorts_by_def)

lemma sorts_by_length: "sorts_by f srt \<Longrightarrow> length (srt xs) = length xs"
  by (metis mset_eq_length sorts_by_def)

subsection \<open>Unsigned arithmetic\<close>

lemma unat_of_nat_u32: "n < 2 ^ 32 \<Longrightarrow> unat (of_nat n :: u32) = n"
  by (simp add: unat_of_nat take_bit_nat_eq_self)

lemma unat_plus_one_iff:
  fixes a :: "'a::len word"
  shows "a \<noteq> - 1 \<Longrightarrow> unat (a + 1) = Suc (unat a)"
  using unatSuc [of a] by (simp add: add.commute eq_neg_iff_add_eq_0)

subsection \<open>Sending or quitting\<close>

text \<open>
  \<open>utils.PushOrQuit\<close>, a \<open>select\<close> on a send and on the quit channel. When quit is closed both
  can be ready, and Go may take either: \<open>send\<close> is its choice.
\<close>

definition PushOrQuit :: "bool \<Rightarrow> bool \<Rightarrow> 'a \<Rightarrow> 'a list \<Rightarrow> 'a list" where
  "PushOrQuit quit send msg c = (if quit \<and> \<not> send then c else c @ [msg])"

subsection \<open>Goroutines as step relations\<close>

text \<open>
  What the interleavings of the goroutines of a daemon have in common: a relation of single steps,
  and a property of its states that every step keeps. It then holds after every run.
\<close>

locale step_system =
  fixes step :: "'s \<Rightarrow> 's \<Rightarrow> bool" and inv :: "'s \<Rightarrow> bool"
  assumes step_keeps: "step s s' \<Longrightarrow> inv s \<Longrightarrow> inv s'"
begin

lemma run_keeps: "step\<^sup>*\<^sup>* s s' \<Longrightarrow> inv s \<Longrightarrow> inv s'"
  by (induction rule: rtranclp_induct) (blast intro: step_keeps)+

lemma run_entails: "step\<^sup>*\<^sup>* s s' \<Longrightarrow> inv s \<Longrightarrow> (\<And>t. inv t \<Longrightarrow> P t) \<Longrightarrow> P s'"
  using run_keeps by blast

lemma run_then_step: "step\<^sup>*\<^sup>* s s' \<Longrightarrow> inv s \<Longrightarrow> step s' s'' \<Longrightarrow> inv s''"
  using run_keeps step_keeps by blast

end

end
