(* ===== verification/Wire_Types.thy ===== *)
theory Wire_Types
  imports Go_Prelude
begin

text \<open>
  The Bitcoin data the daemons exchange: hashes, transactions and block headers as
  \<open>github.com/btcsuite/btcd/wire\<close> lays them out, and the repository's own indexed blocks
  (\<open>types/indexed_block.go\<close>, \<open>types/utils.go\<close>). Hash functions, serialisation and the
  Merkle proof builder belong to libraries and are arguments of the definitions that use
  them.
\<close>

type_synonym bytes = "u8 list"
type_synonym hash = "256 word"

text \<open>\<open>encoding/hex\<close> of the standard library: \<open>EncodeToString\<close> and \<open>DecodeString\<close>.\<close>

definition hexDigit :: "nat \<Rightarrow> char" where
  "hexDigit n = ''0123456789abcdef'' ! n"

definition hexVal :: "char \<Rightarrow> nat option" where
  "hexVal c = (let n = (of_char c :: nat) in
     if 48 \<le> n \<and> n \<le> 57 then Some (n - 48)
     else if 97 \<le> n \<and> n \<le> 102 then Some (n - 87)
     else if 65 \<le> n \<and> n \<le> 70 then Some (n - 55)
     else None)"

definition hexEncode :: "bytes \<Rightarrow> string" where
  "hexEncode bs = concat (map (\<lambda>b. [hexDigit (unat b div 16), hexDigit (unat b mod 16)]) bs)"

fun hexDecode :: "string \<Rightarrow> goerr + bytes" where
  "hexDecode [] = Inr []"
| "hexDecode [c] = Inl (errorf (case hexVal c of None \<Rightarrow> ''invalid byte'' | Some _ \<Rightarrow> ''odd length hex string''))"
| "hexDecode (c # d # cs) = (case hexVal c of
      None \<Rightarrow> Inl (errorf ''invalid byte'')
    | Some x \<Rightarrow> (case hexVal d of
        None \<Rightarrow> Inl (errorf ''invalid byte'')
      | Some y \<Rightarrow> (case hexDecode cs of
          Inl e \<Rightarrow> Inl e
        | Inr bs \<Rightarrow> Inr (of_nat (16 * x + y) # bs))))"

lemma hexVal_hexDigit: "n < 16 \<Longrightarrow> hexVal (hexDigit n) = Some n"
proof -
  have "\<forall>n < 16. hexVal (hexDigit n) = Some n" by code_simp
  then show "n < 16 \<Longrightarrow> hexVal (hexDigit n) = Some n" by blast
qed

lemma hexDecode_hexEncode: "hexDecode (hexEncode bs) = Inr bs"
proof (induction bs)
  case (Cons b bs)
  have "unat b < 2 ^ 8" using unsigned_less [of b] by simp
  then have "unat b div 16 < 16" by simp
  with Cons show ?case by (simp add: hexEncode_def hexVal_hexDigit)
qed (simp add: hexEncode_def)

record outPoint =
  op_Hash :: hash
  op_Index :: u32

record txIn =
  in_PreviousOutPoint :: outPoint
  in_SignatureScript :: bytes
  in_Witness :: "bytes list"
  in_Sequence :: u32

record txOut =
  out_Value :: int
  out_PkScript :: bytes

record msgTx =
  tx_Version :: int
  tx_TxIn :: "txIn list"
  tx_TxOut :: "txOut list"
  tx_LockTime :: u32

record blockHeader =
  bh_Version :: int
  bh_PrevBlock :: hash
  bh_MerkleRoot :: hash
  bh_Timestamp :: int
  bh_Bits :: u32
  bh_Nonce :: u32

record msgBlock =
  mb_Header :: blockHeader
  mb_Transactions :: "msgTx list"

text \<open>\<open>btcutil.Tx\<close>: a transaction with its position in the block.\<close>

record btcTx =
  bt_MsgTx :: msgTx
  bt_Index :: int

text \<open>\<open>types.IndexedBlock\<close>; an entry of \<open>Txs\<close> may be nil.\<close>

record indexedBlock =
  ib_Height :: u32
  ib_Header :: blockHeader
  ib_Txs :: "btcTx option list"

definition NewIndexedBlock :: "u32 \<Rightarrow> blockHeader \<Rightarrow> btcTx option list \<Rightarrow> indexedBlock" where
  "NewIndexedBlock height header txs = \<lparr>ib_Height = height, ib_Header = header, ib_Txs = txs\<rparr>"

definition GetWrappedTxs :: "msgBlock \<Rightarrow> btcTx option list" where
  "GetWrappedTxs msg =
     map (\<lambda>i. Some \<lparr>bt_MsgTx = mb_Transactions msg ! i, bt_Index = int i\<rparr>)
       [0..<length (mb_Transactions msg)]"

definition NewIndexedBlockFromMsgBlock :: "u32 \<Rightarrow> msgBlock \<Rightarrow> indexedBlock" where
  "NewIndexedBlockFromMsgBlock height block =
     \<lparr>ib_Height = height, ib_Header = mb_Header block, ib_Txs = GetWrappedTxs block\<rparr>"

text \<open>\<open>IndexedBlock.MsgBlock\<close> calls \<open>tx.MsgTx()\<close> on every entry; a nil entry panics.\<close>

fun unwrapTxs :: "btcTx option list \<Rightarrow> msgTx list outcome" where
  "unwrapTxs [] = Ok []"
| "unwrapTxs (None # txs) = Panic ''nil tx''"
| "unwrapTxs (Some tx # txs) = (case unwrapTxs txs of
      Ok ms \<Rightarrow> Ok (bt_MsgTx tx # ms) | r \<Rightarrow> r)"

definition MsgBlock :: "indexedBlock \<Rightarrow> msgBlock outcome" where
  "MsgBlock ib = (case unwrapTxs (ib_Txs ib) of
       Ok ms \<Rightarrow> Ok \<lparr>mb_Header = ib_Header ib, mb_Transactions = ms\<rparr>
     | Err e \<Rightarrow> Err e | Panic p \<Rightarrow> Panic p | NoFuel \<Rightarrow> NoFuel)"

text \<open>
  \<open>IndexedBlock.GenSPVProof\<close>. \<open>ser\<close> is \<open>MsgTx.Serialize\<close>, \<open>spv\<close> is
  \<open>SpvProofFromHeaderAndTransactions\<close>.
\<close>

fun serializeTxs :: "(msgTx \<Rightarrow> goerr + bytes) \<Rightarrow> btcTx option list \<Rightarrow> bytes list outcome" where
  "serializeTxs ser [] = Ok []"
| "serializeTxs ser (None # txs) = Panic ''nil tx''"
| "serializeTxs ser (Some tx # txs) = (case ser (bt_MsgTx tx) of
      Inl e \<Rightarrow> Err e
    | Inr b \<Rightarrow> (case serializeTxs ser txs of Ok bs \<Rightarrow> Ok (b # bs) | r \<Rightarrow> r))"

definition GenSPVProof ::
  "(msgTx \<Rightarrow> goerr + bytes) \<Rightarrow> (blockHeader \<Rightarrow> bytes list \<Rightarrow> nat \<Rightarrow> goerr + 'spv)
    \<Rightarrow> indexedBlock \<Rightarrow> int \<Rightarrow> 'spv outcome" where
  "GenSPVProof ser spv ib txIdx =
     (if txIdx < 0 then Err (errorf ''transaction index should not be negative'')
      else if txIdx \<ge> int (length (ib_Txs ib)) then Err (errorf ''transaction index is out of scope'')
      else (case serializeTxs ser (ib_Txs ib) of
              Ok txsBytes \<Rightarrow> sumOutcome (spv (ib_Header ib) txsBytes (nat txIdx))
            | Err e \<Rightarrow> Err e | Panic p \<Rightarrow> Panic p | NoFuel \<Rightarrow> NoFuel))"

text \<open>
  Blocks of a small chain for the concrete instances of the theorems: the block at height \<open>h\<close>
  has nonce \<open>h\<close>, and a hash function that reads the nonce links each block to the one below.
\<close>

definition sampleHeader :: "u32 \<Rightarrow> blockHeader" where
  "sampleHeader h = \<lparr>bh_Version = 1, bh_PrevBlock = ucast (h - 1), bh_MerkleRoot = 0,
     bh_Timestamp = 0, bh_Bits = 0, bh_Nonce = h\<rparr>"

definition sampleHash :: "blockHeader \<Rightarrow> hash" where
  "sampleHash bh = ucast (bh_Nonce bh)"

definition sampleBlock :: "u32 \<Rightarrow> indexedBlock" where
  "sampleBlock h = NewIndexedBlock h (sampleHeader h) []"

definition sampleTx :: btcTx where
  "sampleTx = \<lparr>bt_MsgTx = \<lparr>tx_Version = 1, tx_TxIn = [], tx_TxOut = [], tx_LockTime = 0\<rparr>, bt_Index = 0\<rparr>"

lemma sampleBlock_simps [simp]:
  "ib_Height (sampleBlock h) = h"
  "ib_Header (sampleBlock h) = sampleHeader h"
  "ib_Txs (sampleBlock h) = []"
  "bh_PrevBlock (sampleHeader h) = ucast (h - 1)"
  "sampleHash (sampleHeader h) = ucast h"
  by (simp_all add: sampleBlock_def NewIndexedBlock_def sampleHeader_def sampleHash_def)

lemma length_GetWrappedTxs [simp]: "length (GetWrappedTxs msg) = length (mb_Transactions msg)"
  by (simp add: GetWrappedTxs_def)

lemma nth_GetWrappedTxs [simp]:
  "i < length (mb_Transactions msg) \<Longrightarrow>
   GetWrappedTxs msg ! i = Some \<lparr>bt_MsgTx = mb_Transactions msg ! i, bt_Index = int i\<rparr>"
  by (simp add: GetWrappedTxs_def)

lemma unwrapTxs_map_Some: "unwrapTxs (map (Some \<circ> f) xs) = Ok (map (bt_MsgTx \<circ> f) xs)"
  by (induction xs) auto

lemma MsgBlock_roundtrip: "MsgBlock (NewIndexedBlockFromMsgBlock h block) = Ok block"
proof -
  have "GetWrappedTxs block =
      map (Some \<circ> (\<lambda>i. \<lparr>bt_MsgTx = mb_Transactions block ! i, bt_Index = int i\<rparr>))
        [0..<length (mb_Transactions block)]"
    by (simp add: GetWrappedTxs_def)
  moreover have "map (bt_MsgTx \<circ> (\<lambda>i. \<lparr>bt_MsgTx = mb_Transactions block ! i, bt_Index = int i\<rparr>))
      [0..<length (mb_Transactions block)] = mb_Transactions block"
    by (simp add: comp_def map_nth)
  ultimately have "unwrapTxs (GetWrappedTxs block) = Ok (mb_Transactions block)"
    by (simp only: unwrapTxs_map_Some)
  then show ?thesis by (simp add: MsgBlock_def NewIndexedBlockFromMsgBlock_def)
qed

end
