(* ===== verification/Ckpt_Bookkeeper.thy ===== *)
theory Ckpt_Bookkeeper
  imports Wire_Types
begin

text \<open>
  The monitor's checklist of checkpoints that Babylon has not reported yet:
  \<open>types/ckpt_record.go\<close> and \<open>types/ckpt_bookkeeper.go\<close>. The hash that identifies a raw
  checkpoint belongs to a library and is an argument.

  The locale \<open>keyed_store\<close> is the interface through which the daemons drop entries from
  their in-memory tables; the bookkeeper, the watcher's delegation trackers and the atomic
  slasher's index are its interpretations.

  Shown here: whatever is added, the checklist has exactly one record per identifier, the
  one seen at the lowest Bitcoin height.
\<close>

record rawCheckpoint =
  rc_EpochNum :: u64
  rc_BlockHash :: bytes
  rc_Bitmap :: bytes
  rc_BlsMultiSig :: bytes

record checkpointRecord =
  cr_RawCheckpoint :: rawCheckpoint
  cr_FirstSeenBtcHeight :: u32

definition NewCheckpointRecord :: "rawCheckpoint \<Rightarrow> u32 \<Rightarrow> checkpointRecord" where
  "NewCheckpointRecord ckpt height = \<lparr>cr_RawCheckpoint = ckpt, cr_FirstSeenBtcHeight = height\<rparr>"

definition CheckpointRecord_ID :: "(rawCheckpoint \<Rightarrow> string) \<Rightarrow> checkpointRecord \<Rightarrow> string" where
  "CheckpointRecord_ID hashStr cr = hashStr (cr_RawCheckpoint cr)"

definition CheckpointRecord_EpochNum :: "checkpointRecord \<Rightarrow> u64" where
  "CheckpointRecord_EpochNum cr = rc_EpochNum (cr_RawCheckpoint cr)"

type_synonym bookkeeper = "(string, checkpointRecord) gomap"

definition NewCheckpointsBookkeeper :: bookkeeper where
  "NewCheckpointsBookkeeper = []"

definition Bookkeeper_has :: "string \<Rightarrow> bookkeeper \<Rightarrow> bool" where
  "Bookkeeper_has ident b = (map_of b ident \<noteq> None)"

definition Bookkeeper_Add :: "(rawCheckpoint \<Rightarrow> string) \<Rightarrow> checkpointRecord \<Rightarrow> bookkeeper \<Rightarrow> bookkeeper" where
  "Bookkeeper_Add hashStr cr b =
     (let ident = CheckpointRecord_ID hashStr cr in
      if \<not> Bookkeeper_has ident b then AList.update ident cr b
      else if cr_FirstSeenBtcHeight (the (map_of b ident)) > cr_FirstSeenBtcHeight cr
        then AList.update ident cr b
      else b)"

definition Bookkeeper_Remove :: "string \<Rightarrow> bookkeeper \<Rightarrow> bookkeeper" where
  "Bookkeeper_Remove ident b = AList.delete ident b"

text \<open>\<open>GetAll\<close> in the order \<open>ord\<close> in which the map is visited.\<close>

definition Bookkeeper_GetAll :: "string list \<Rightarrow> bookkeeper \<Rightarrow> checkpointRecord list" where
  "Bookkeeper_GetAll ord b = List.map_filter (map_of b) ord"

subsection \<open>Tables from which entries are dropped\<close>

locale keyed_store =
  fixes ok :: "'s \<Rightarrow> bool" and lookup :: "'s \<Rightarrow> 'k \<Rightarrow> 'v option" and remove :: "'k \<Rightarrow> 's \<Rightarrow> 's"
  assumes ok_remove: "ok s \<Longrightarrow> ok (remove k s)"
    and lookup_remove: "ok s \<Longrightarrow> lookup (remove k s) k' = (if k' = k then None else lookup s k')"
begin

lemma ok_removes: "ok s \<Longrightarrow> ok (fold remove ks s)"
  by (induction ks arbitrary: s) (simp_all add: ok_remove)

lemma lookup_removes: "ok s \<Longrightarrow> lookup (fold remove ks s) k = (if k \<in> set ks then None else lookup s k)"
  by (induction ks arbitrary: s) (simp_all add: ok_remove lookup_remove)

lemma removed_stays: "ok s \<Longrightarrow> lookup s k = None \<Longrightarrow> lookup (fold remove ks s) k = None"
  by (simp add: lookup_removes)

end

interpretation bookkeeper_store: keyed_store wf_map map_of Bookkeeper_Remove
  by unfold_locales (simp_all add: Bookkeeper_Remove_def delete_conv')

subsection \<open>The earliest sighting wins\<close>

definition earliest :: "(rawCheckpoint \<Rightarrow> string) \<Rightarrow> string \<Rightarrow> checkpointRecord list \<Rightarrow> checkpointRecord option \<Rightarrow> bool" where
  "earliest hashStr ident crs r = (case r of
       None \<Rightarrow> \<forall>cr \<in> set crs. CheckpointRecord_ID hashStr cr \<noteq> ident
     | Some best \<Rightarrow> best \<in> set crs \<and> CheckpointRecord_ID hashStr best = ident \<and>
         (\<forall>cr \<in> set crs. CheckpointRecord_ID hashStr cr = ident \<longrightarrow>
            cr_FirstSeenBtcHeight best \<le> cr_FirstSeenBtcHeight cr))"

lemma map_of_Bookkeeper_Add:
  "map_of (Bookkeeper_Add hashStr cr b) ident =
     (if ident \<noteq> CheckpointRecord_ID hashStr cr then map_of b ident
      else case map_of b ident of
             None \<Rightarrow> Some cr
           | Some old \<Rightarrow> if cr_FirstSeenBtcHeight old > cr_FirstSeenBtcHeight cr then Some cr else Some old)"
  by (auto simp: Bookkeeper_Add_def Bookkeeper_has_def Let_def update_conv split: option.splits)

lemma wf_Bookkeeper_Add: "wf_map b \<Longrightarrow> wf_map (Bookkeeper_Add hashStr cr b)"
  by (simp add: Bookkeeper_Add_def Let_def)

lemma earliest_snoc:
  assumes "earliest hashStr ident crs (map_of b ident)"
  shows "earliest hashStr ident (crs @ [cr]) (map_of (Bookkeeper_Add hashStr cr b) ident)"
proof (cases "map_of b ident")
  case None
  with assms show ?thesis by (auto simp: map_of_Bookkeeper_Add earliest_def)
next
  case (Some old)
  with assms show ?thesis
    by (auto simp: map_of_Bookkeeper_Add earliest_def not_less) (metis less_le_trans less_imp_le)
qed

text \<open>
  From an empty checklist, after adding any records in any order, each identifier has a
  record exactly when one was added, it is one of those added, and none of them was seen at
  a lower Bitcoin height.
\<close>

theorem bookkeeper_keeps_earliest:
  "earliest hashStr ident crs (map_of (fold (Bookkeeper_Add hashStr) crs NewCheckpointsBookkeeper) ident)"
proof (induction crs rule: rev_induct)
  case Nil
  then show ?case by (simp add: earliest_def NewCheckpointsBookkeeper_def)
next
  case (snoc cr crs)
  then show ?case using earliest_snoc by simp
qed

end
