(* ===== verification/KV_Stores.thy ===== *)
theory KV_Stores
  imports Wire_Types
begin

unbundle bit_operations_syntax

text \<open>
  The persistent stores of the daemons: \<open>monitor/store/store.go\<close> (latest epoch and height,
  big-endian), \<open>btcstaking-tracker/btcslasher/store/store.go\<close> (last processed evidence
  height, little-endian) and \<open>submitter/store/store.go\<close> (last submitted checkpoint, protobuf).

  The database \<open>kvdb\<close> is library code: its buckets are the fields of \<open>kvBackend\<close>, and
  \<open>kv_contract\<close> states what a committed transaction guarantees. A store operation is a
  program over the database. The protobuf and transaction serialisers are arguments.

  Shown here: both integer codecs are inverse to each other (the locale \<open>u64_codec\<close>,
  interpreted for each of them); after any sequence of successful writes each store reads
  back the last value written under each of its keys.
\<close>

subsection \<open>The database\<close>

record 'db kvBackend =
  kv_ReadBucket :: "string \<Rightarrow> 'db \<Rightarrow> bool"
  kv_Get :: "string \<Rightarrow> string \<Rightarrow> 'db \<Rightarrow> bytes option"
  kv_Put :: "string \<Rightarrow> string \<Rightarrow> bytes \<Rightarrow> 'db \<Rightarrow> goerr + 'db"
  kv_CreateTopLevelBucket :: "string \<Rightarrow> 'db \<Rightarrow> goerr + 'db"

definition kv_contract :: "'db kvBackend \<Rightarrow> bool" where
  "kv_contract kv \<longleftrightarrow>
     (\<forall>db b k v db'. kv_Put kv b k v db = Inr db' \<longrightarrow>
        kv_Get kv b k db' = Some v \<and>
        (\<forall>b' k'. (b', k') \<noteq> (b, k) \<longrightarrow> kv_Get kv b' k' db' = kv_Get kv b' k' db) \<and>
        (\<forall>b'. kv_ReadBucket kv b' db' = kv_ReadBucket kv b' db)) \<and>
     (\<forall>db b db'. kv_CreateTopLevelBucket kv b db = Inr db' \<longrightarrow>
        kv_ReadBucket kv b db' \<and>
        (\<forall>b'. kv_ReadBucket kv b' db \<longrightarrow> kv_ReadBucket kv b' db') \<and>
        (\<forall>b' k. kv_Get kv b' k db' = kv_Get kv b' k db))"

text \<open>
  A read transaction yields \<open>ErrCorruptedDB\<close> without the bucket and \<open>ErrNotFound\<close> without
  the key; a write transaction that returns an error changes nothing.
\<close>

definition kvView :: "'db kvBackend \<Rightarrow> string \<Rightarrow> string \<Rightarrow> ('db, bytes) prog" where
  "kvView kv key bucket db =
     (if \<not> kv_ReadBucket kv bucket db then (Err (sentinelErr ErrCorruptedDB), db)
      else case kv_Get kv bucket key db of
             None \<Rightarrow> (Err (sentinelErr ErrNotFound), db)
           | Some v \<Rightarrow> (Ok v, db))"

definition kvBatchPut :: "'db kvBackend \<Rightarrow> string \<Rightarrow> bytes \<Rightarrow> string \<Rightarrow> ('db, unit) prog" where
  "kvBatchPut kv key v bucket db =
     (if \<not> kv_ReadBucket kv bucket db then (Err (sentinelErr ErrCorruptedDB), db)
      else case kv_Put kv bucket key v db of
             Inl e \<Rightarrow> (Err e, db)
           | Inr db' \<Rightarrow> (Ok (), db'))"

fun createBuckets :: "'db kvBackend \<Rightarrow> string list \<Rightarrow> ('db, unit) prog" where
  "createBuckets kv [] db = (Ok (), db)"
| "createBuckets kv (b # bs) db = (case kv_CreateTopLevelBucket kv b db of
      Inl e \<Rightarrow> (Err e, db)
    | Inr db' \<Rightarrow> createBuckets kv bs db')"

text \<open>\<open>get\<close> of the slasher's and the submitter's store: \<open>ErrNotFound\<close> becomes "not found".\<close>

definition store_get :: "'db kvBackend \<Rightarrow> string \<Rightarrow> string \<Rightarrow> ('db, bytes option) prog" where
  "store_get kv key bucket = bindG (tryG (kvView kv key bucket)) (\<lambda>r. case r of
     Inl err \<Rightarrow> if errors_is err ErrNotFound then retG None else failG err
   | Inr v \<Rightarrow> retG (Some v))"

subsection \<open>Integers as bytes\<close>

text \<open>\<open>binary.BigEndian\<close> and \<open>binary.LittleEndian\<close>; reading fewer than 8 bytes panics.\<close>

definition be_PutUint64 :: "u64 \<Rightarrow> bytes" where
  "be_PutUint64 v = map (\<lambda>i. ucast (drop_bit i v)) [56, 48, 40, 32, 24, 16, 8, 0]"

definition be_Uint64 :: "bytes \<Rightarrow> u64 outcome" where
  "be_Uint64 b = (if length b < 8 then Panic ''index out of range''
     else Ok (foldl (\<lambda>acc x. push_bit 8 acc OR ucast x) 0 (take 8 b)))"

definition le_PutUint64 :: "u64 \<Rightarrow> bytes" where
  "le_PutUint64 v = map (\<lambda>i. ucast (drop_bit i v)) [0, 8, 16, 24, 32, 40, 48, 56]"

definition le_Uint64 :: "bytes \<Rightarrow> u64 outcome" where
  "le_Uint64 b = (if length b < 8 then Panic ''index out of range''
     else Ok (foldr (\<lambda>x acc. push_bit 8 acc OR ucast x) (take 8 b) 0))"

lemma byte_step:
  "push_bit 8 (drop_bit (8 + i) v) OR ucast (ucast (drop_bit i v) :: u8) = drop_bit i (v :: u64)"
proof (rule bit_word_eqI)
  fix n assume "n < LENGTH(64)"
  then show "bit (push_bit 8 (drop_bit (8 + i) v) OR ucast (ucast (drop_bit i v) :: u8)) n = bit (drop_bit i v) n"
    by (cases "n < 8") (auto simp: bit_simps dest: bit_imp_le_length)
qed

lemma drop_all: "drop_bit 64 (v :: u64) = 0"
  by (rule bit_word_eqI) (auto simp: bit_simps dest: bit_imp_le_length)

lemmas byte_steps = drop_all byte_step [of 56] byte_step [of 48] byte_step [of 40] byte_step [of 32]
  byte_step [of 24] byte_step [of 16] byte_step [of 8] byte_step [of 0]

subsection \<open>The monitor's store\<close>

definition uint64FromBytes :: "bytes \<Rightarrow> u64 outcome" where
  "uint64FromBytes b =
     (if length b \<noteq> 8 then Err (errorf ''invalid byte slice length: expected 8'') else be_Uint64 b)"

definition uint64ToBytes :: "u64 \<Rightarrow> bytes" where
  "uint64ToBytes v = be_PutUint64 v"

definition epochsBucketName :: string where "epochsBucketName = ''epoch''"
definition heightBucketName :: string where "heightBucketName = ''height''"
definition latestEpochKey :: string where "latestEpochKey = ''ltsepoch''"
definition latestHeightKey :: string where "latestHeightKey = ''ltsheight''"

definition NewMonitorStore :: "'db kvBackend \<Rightarrow> ('db, unit) prog" where
  "NewMonitorStore kv = createBuckets kv [epochsBucketName, heightBucketName]"

text \<open>\<open>MonitorStore.get\<close> decodes inside the transaction.\<close>

definition monitor_get :: "'db kvBackend \<Rightarrow> string \<Rightarrow> string \<Rightarrow> ('db, u64 option) prog" where
  "monitor_get kv key bucket =
     bindG (tryG (bindG (kvView kv key bucket) (\<lambda>v. liftG (uint64FromBytes v)))) (\<lambda>r. case r of
       Inl err \<Rightarrow> if errors_is err ErrNotFound then retG None else failG err
     | Inr v \<Rightarrow> retG (Some v))"

definition monitor_put :: "'db kvBackend \<Rightarrow> string \<Rightarrow> u64 \<Rightarrow> string \<Rightarrow> ('db, unit) prog" where
  "monitor_put kv key v bucket = kvBatchPut kv key (uint64ToBytes v) bucket"

definition LatestEpoch :: "'db kvBackend \<Rightarrow> ('db, u64 option) prog" where
  "LatestEpoch kv = monitor_get kv latestEpochKey epochsBucketName"

definition LatestHeight :: "'db kvBackend \<Rightarrow> ('db, u64 option) prog" where
  "LatestHeight kv = monitor_get kv latestHeightKey heightBucketName"

definition PutLatestEpoch :: "'db kvBackend \<Rightarrow> u64 \<Rightarrow> ('db, unit) prog" where
  "PutLatestEpoch kv epoch = monitor_put kv latestEpochKey epoch epochsBucketName"

definition PutLatestHeight :: "'db kvBackend \<Rightarrow> u64 \<Rightarrow> ('db, unit) prog" where
  "PutLatestHeight kv height = monitor_put kv latestHeightKey height heightBucketName"

subsection \<open>The slasher's store\<close>

definition processedEvidenceHeightBucket :: string where
  "processedEvidenceHeightBucket = ''processedevidenceheight''"

definition processedEvidenceHeightKey :: string where
  "processedEvidenceHeightKey = ''lastevidenceheight''"

definition NewSlasherStore :: "'db kvBackend \<Rightarrow> ('db, unit) prog" where
  "NewSlasherStore kv = createBuckets kv [processedEvidenceHeightBucket]"

definition slasher_uint64ToBytes :: "u64 \<Rightarrow> bytes" where
  "slasher_uint64ToBytes n = le_PutUint64 n"

definition bytesToUint64 :: "bytes \<Rightarrow> u64 outcome" where
  "bytesToUint64 b = le_Uint64 b"

definition LastProcessedHeight :: "'db kvBackend \<Rightarrow> ('db, u64 option) prog" where
  "LastProcessedHeight kv =
     bindG (store_get kv processedEvidenceHeightKey processedEvidenceHeightBucket) (\<lambda>data. case data of
       None \<Rightarrow> retG None
     | Some v \<Rightarrow> bindG (liftG (bytesToUint64 v)) (\<lambda>n. retG (Some n)))"

definition PutHeight :: "'db kvBackend \<Rightarrow> u64 \<Rightarrow> ('db, unit) prog" where
  "PutHeight kv height =
     kvBatchPut kv processedEvidenceHeightKey (slasher_uint64ToBytes height) processedEvidenceHeightBucket"

subsection \<open>The submitter's store\<close>

record storedCheckpoint =
  sc_Tx1 :: msgTx
  sc_Tx2 :: msgTx
  sc_Epoch :: u64

record protoCheckpoint =
  pc_Tx1 :: bytes
  pc_Tx2 :: bytes
  pc_Epoch :: u64

text \<open>The serialisers of \<open>btcd/wire\<close> (behind \<open>utils/serialize.go\<close>) and of protobuf.\<close>

record storeCodec =
  co_SerializeMsgTx :: "msgTx \<Rightarrow> goerr + bytes"
  co_DeserializeMsgTx :: "bytes \<Rightarrow> goerr + msgTx"
  co_Marshal :: "protoCheckpoint \<Rightarrow> goerr + bytes"
  co_Unmarshal :: "bytes \<Rightarrow> goerr + protoCheckpoint"

definition codec_contract :: "storeCodec \<Rightarrow> bool" where
  "codec_contract co \<longleftrightarrow>
     (\<forall>tx b. co_SerializeMsgTx co tx = Inr b \<longrightarrow> co_DeserializeMsgTx co b = Inr tx) \<and>
     (\<forall>p b. co_Marshal co p = Inr b \<longrightarrow> co_Unmarshal co b = Inr p)"

definition NewStoredCheckpoint :: "msgTx \<Rightarrow> msgTx \<Rightarrow> u64 \<Rightarrow> storedCheckpoint" where
  "NewStoredCheckpoint tx1 tx2 epoch = \<lparr>sc_Tx1 = tx1, sc_Tx2 = tx2, sc_Epoch = epoch\<rparr>"

definition storedCheckpointBucketName :: string where "storedCheckpointBucketName = ''storedckpt''"
definition lastSubmittedCkptKey :: string where "lastSubmittedCkptKey = ''lastsubckpt''"

definition NewSubmitterStore :: "'db kvBackend \<Rightarrow> ('db, unit) prog" where
  "NewSubmitterStore kv = createBuckets kv [storedCheckpointBucketName]"

definition ToProto :: "storeCodec \<Rightarrow> storedCheckpoint \<Rightarrow> goerr + protoCheckpoint" where
  "ToProto co s = (case co_SerializeMsgTx co (sc_Tx1 s) of
       Inl e \<Rightarrow> Inl e
     | Inr bufTx1 \<Rightarrow> (case co_SerializeMsgTx co (sc_Tx2 s) of
         Inl e \<Rightarrow> Inl e
       | Inr bufTx2 \<Rightarrow> Inr \<lparr>pc_Tx1 = bufTx1, pc_Tx2 = bufTx2, pc_Epoch = sc_Epoch s\<rparr>))"

definition FromProto :: "storeCodec \<Rightarrow> protoCheckpoint \<Rightarrow> goerr + storedCheckpoint" where
  "FromProto co p = (case co_DeserializeMsgTx co (pc_Tx1 p) of
       Inl e \<Rightarrow> Inl e
     | Inr tx1 \<Rightarrow> (case co_DeserializeMsgTx co (pc_Tx2 p) of
         Inl e \<Rightarrow> Inl e
       | Inr tx2 \<Rightarrow> Inr \<lparr>sc_Tx1 = tx1, sc_Tx2 = tx2, sc_Epoch = pc_Epoch p\<rparr>))"

definition LatestCheckpoint :: "storeCodec \<Rightarrow> 'db kvBackend \<Rightarrow> ('db, storedCheckpoint option) prog" where
  "LatestCheckpoint co kv =
     bindG (store_get kv lastSubmittedCkptKey storedCheckpointBucketName) (\<lambda>data. case data of
       None \<Rightarrow> retG None
     | Some v \<Rightarrow>
         bindG (liftG (sumOutcome (co_Unmarshal co v))) (\<lambda>protoCkpt.
         bindG (liftG (sumOutcome (FromProto co protoCkpt))) (\<lambda>storedCkpt. retG (Some storedCkpt))))"

definition PutCheckpoint :: "storeCodec \<Rightarrow> 'db kvBackend \<Rightarrow> storedCheckpoint \<Rightarrow> ('db, unit) prog" where
  "PutCheckpoint co kv ckpt =
     bindG (liftG (sumOutcome (ToProto co ckpt))) (\<lambda>protoCkpt.
     bindG (liftG (sumOutcome (co_Marshal co protoCkpt))) (\<lambda>data.
       kvBatchPut kv lastSubmittedCkptKey data storedCheckpointBucketName))"

subsection \<open>The interface of an integer codec\<close>

locale u64_codec =
  fixes enc :: "u64 \<Rightarrow> bytes" and dec :: "bytes \<Rightarrow> u64 outcome"
  assumes dec_enc: "dec (enc v) = Ok v"
begin

lemma enc_inj: "enc v = enc w \<longleftrightarrow> v = w"
  by (metis dec_enc outcome.inject(1))

end

interpretation monitor_codec: u64_codec uint64ToBytes uint64FromBytes
  by unfold_locales (simp add: uint64ToBytes_def uint64FromBytes_def be_PutUint64_def be_Uint64_def
      byte_steps [simplified])

interpretation slasher_codec: u64_codec slasher_uint64ToBytes bytesToUint64
  by unfold_locales (simp add: slasher_uint64ToBytes_def bytesToUint64_def le_PutUint64_def le_Uint64_def
      byte_steps [simplified])

subsection \<open>Reading back\<close>

lemma kvBatchPut_Ok:
  assumes "kv_contract kv" and "kvBatchPut kv key v bucket db = (Ok (), db')"
  shows "kvView kv key bucket db' = (Ok v, db')"
    and "kv_ReadBucket kv b' db' = kv_ReadBucket kv b' db"
    and "(b', k') \<noteq> (bucket, key) \<Longrightarrow> kv_Get kv b' k' db' = kv_Get kv b' k' db"
proof -
  from assms(2) have b: "kv_ReadBucket kv bucket db" and p: "kv_Put kv bucket key v db = Inr db'"
    by (auto simp: kvBatchPut_def split: if_splits sum.splits)
  from assms(1) p have *: "kv_Get kv bucket key db' = Some v"
    "\<forall>b' k'. (b', k') \<noteq> (bucket, key) \<longrightarrow> kv_Get kv b' k' db' = kv_Get kv b' k' db"
    "\<forall>b'. kv_ReadBucket kv b' db' = kv_ReadBucket kv b' db"
    unfolding kv_contract_def by blast+
  then show "kvView kv key bucket db' = (Ok v, db')" using b by (simp add: kvView_def)
  show "kv_ReadBucket kv b' db' = kv_ReadBucket kv b' db" using * by simp
  show "(b', k') \<noteq> (bucket, key) \<Longrightarrow> kv_Get kv b' k' db' = kv_Get kv b' k' db" using * by blast
qed

lemma kvView_frame:
  assumes "kv_contract kv" and "kvBatchPut kv key v bucket db = (Ok (), db')" and "bucket' \<noteq> bucket"
  shows "kvView kv key' bucket' db' = (fst (kvView kv key' bucket' db), db')"
  using kvBatchPut_Ok(2,3) [OF assms(1,2)] assms(3)
  by (auto simp: kvView_def split: option.splits)

lemma createBuckets_exist:
  assumes "kv_contract kv"
  shows "createBuckets kv bs db = (Ok (), db') \<Longrightarrow> b \<in> set bs \<or> kv_ReadBucket kv b db \<Longrightarrow> kv_ReadBucket kv b db'"
proof (induction bs arbitrary: db)
  case (Cons x bs)
  then obtain db1 where c: "kv_CreateTopLevelBucket kv x db = Inr db1" and r: "createBuckets kv bs db1 = (Ok (), db')"
    by (auto split: sum.splits)
  have "kv_ReadBucket kv x db1" "\<forall>b'. kv_ReadBucket kv b' db \<longrightarrow> kv_ReadBucket kv b' db1"
    using assms c unfolding kv_contract_def by blast+
  then show ?case using Cons.IH [OF r] Cons.prems(2) by auto
qed simp

lemma monitor_get_put:
  assumes "kv_contract kv" and "monitor_put kv key v bucket db = (Ok (), db')"
  shows "monitor_get kv key bucket db' = (Ok (Some v), db')"
  using kvBatchPut_Ok(1) [OF assms(1) assms(2) [unfolded monitor_put_def]]
  by (simp add: monitor_get_def liftG_def monitor_codec.dec_enc retG_def bindG_def tryG_def)

lemma monitor_get_frame:
  assumes "kv_contract kv" and "monitor_put kv key v bucket db = (Ok (), db')" and "bucket' \<noteq> bucket"
  shows "fst (monitor_get kv key' bucket' db') = fst (monitor_get kv key' bucket' db)"
proof -
  have "kvView kv key' bucket' db' = (fst (kvView kv key' bucket' db), db')"
    using kvView_frame [OF assms(1) assms(2) [unfolded monitor_put_def] assms(3)] .
  moreover have "kvView kv key' bucket' db = (fst (kvView kv key' bucket' db), db)"
    by (simp add: kvView_def split: option.splits)
  ultimately show ?thesis
    by (cases "fst (kvView kv key' bucket' db)")
      (simp_all add: monitor_get_def bindG_def tryG_def liftG_def retG_def failG_def split: go_splits)
qed

subsection \<open>Properties\<close>

datatype monitorWrite = WriteEpoch u64 | WriteHeight u64

fun monitorWrites :: "'db kvBackend \<Rightarrow> monitorWrite list \<Rightarrow> ('db, unit) prog" where
  "monitorWrites kv [] = retG ()"
| "monitorWrites kv (WriteEpoch e # ws) = bindG (PutLatestEpoch kv e) (\<lambda>_. monitorWrites kv ws)"
| "monitorWrites kv (WriteHeight h # ws) = bindG (PutLatestHeight kv h) (\<lambda>_. monitorWrites kv ws)"

fun lastEpoch :: "u64 option \<Rightarrow> monitorWrite list \<Rightarrow> u64 option" where
  "lastEpoch x [] = x"
| "lastEpoch x (WriteEpoch e # ws) = lastEpoch (Some e) ws"
| "lastEpoch x (WriteHeight h # ws) = lastEpoch x ws"

fun lastHeight :: "u64 option \<Rightarrow> monitorWrite list \<Rightarrow> u64 option" where
  "lastHeight x [] = x"
| "lastHeight x (WriteEpoch e # ws) = lastHeight x ws"
| "lastHeight x (WriteHeight h # ws) = lastHeight (Some h) ws"

text \<open>
  The monitor's store remembers: after any sequence of successful writes of epochs and
  heights, \<open>LatestEpoch\<close> and \<open>LatestHeight\<close> read back the last epoch and the last height
  written, or what they read before when there was none; the two never interfere.
\<close>

theorem monitor_store_reads_last:
  assumes "kv_contract kv" and "monitorWrites kv ws db = (Ok (), db')"
    and "fst (LatestEpoch kv db) = Ok e" and "fst (LatestHeight kv db) = Ok h"
  shows "fst (LatestEpoch kv db') = Ok (lastEpoch e ws) \<and> fst (LatestHeight kv db') = Ok (lastHeight h ws)"
  using assms(2-4)
proof (induction ws arbitrary: db e h)
  case Nil
  then show ?case by (simp add: retG_def)
next
  case (Cons x ws)
  have ne: "epochsBucketName \<noteq> heightBucketName" by (simp add: epochsBucketName_def heightBucketName_def)
  show ?case
  proof (cases x)
    case (WriteEpoch y)
    with Cons.prems(1) obtain db1 where p: "PutLatestEpoch kv y db = (Ok (), db1)"
      and r: "monitorWrites kv ws db1 = (Ok (), db')" by (auto elim: bindG_Ok_E)
    have "fst (LatestEpoch kv db1) = Ok (Some y)" "fst (LatestHeight kv db1) = Ok h"
      using monitor_get_put [OF assms(1) p [unfolded PutLatestEpoch_def]] Cons.prems(3) ne
        monitor_get_frame [OF assms(1) p [unfolded PutLatestEpoch_def], of heightBucketName latestHeightKey]
      by (simp_all add: LatestEpoch_def LatestHeight_def)
    from Cons.IH [OF r this] show ?thesis by (simp add: WriteEpoch)
  next
    case (WriteHeight y)
    with Cons.prems(1) obtain db1 where p: "PutLatestHeight kv y db = (Ok (), db1)"
      and r: "monitorWrites kv ws db1 = (Ok (), db')" by (auto elim: bindG_Ok_E)
    have "fst (LatestHeight kv db1) = Ok (Some y)" "fst (LatestEpoch kv db1) = Ok e"
      using monitor_get_put [OF assms(1) p [unfolded PutLatestHeight_def]] Cons.prems(2) ne
        monitor_get_frame [OF assms(1) p [unfolded PutLatestHeight_def], of epochsBucketName latestEpochKey]
      by (simp_all add: LatestEpoch_def LatestHeight_def)
    from Cons.IH [OF r this(2,1)] show ?thesis by (simp add: WriteHeight)
  qed
qed

lemma height_read_back:
  assumes "kv_contract kv" and "PutHeight kv n db = (Ok (), db')"
  shows "LastProcessedHeight kv db' = (Ok (Some n), db')"
  using kvBatchPut_Ok(1) [OF assms(1)] assms(2)
  by (simp add: PutHeight_def LastProcessedHeight_def store_get_def retG_def liftG_def bindG_def tryG_def
      slasher_codec.dec_enc)

lemma checkpoint_read_back:
  assumes "kv_contract kv" and "codec_contract co" and put: "PutCheckpoint co kv ckpt db = (Ok (), db')"
  shows "LatestCheckpoint co kv db' = (Ok (Some ckpt), db')"
proof -
  from put obtain pr data where p: "ToProto co ckpt = Inr pr" "co_Marshal co pr = Inr data"
    and b: "kvBatchPut kv lastSubmittedCkptKey data storedCheckpointBucketName db = (Ok (), db')"
    by (auto simp: PutCheckpoint_def bindG_def liftG_def sumOutcome_def split: sum.splits)
  have "co_Unmarshal co data = Inr pr" using assms(2) p(2) by (simp add: codec_contract_def)
  moreover have "FromProto co pr = Inr ckpt"
    using p(1) assms(2) by (auto simp: ToProto_def FromProto_def codec_contract_def split: sum.splits)
  ultimately show ?thesis
    using kvBatchPut_Ok(1) [OF assms(1) b]
    by (simp add: LatestCheckpoint_def store_get_def retG_def liftG_def bindG_def tryG_def sumOutcome_def)
qed

lemma NewSubmitterStore_keeps:
  assumes "kv_contract kv" and "NewSubmitterStore kv db = (Ok (), db')" and "LatestCheckpoint co kv db = (Ok r, db)"
  shows "LatestCheckpoint co kv db' = (Ok r, db')"
proof -
  have "kv_CreateTopLevelBucket kv storedCheckpointBucketName db = Inr db'"
    using assms(2) by (auto simp: NewSubmitterStore_def split: sum.splits)
  then have b: "kv_ReadBucket kv storedCheckpointBucketName db'" "\<And>b k. kv_Get kv b k db' = kv_Get kv b k db"
    using assms(1) unfolding kv_contract_def by blast+
  have "kv_ReadBucket kv storedCheckpointBucketName db"
    using assms(3) by (rule contrapos_pp) (simp add: LatestCheckpoint_def store_get_def kvView_def bindG_def tryG_def failG_def)
  with b assms(3) show ?thesis
    by (auto simp: LatestCheckpoint_def store_get_def kvView_def bindG_def tryG_def retG_def failG_def liftG_def split: go_splits)
qed

lemma PutHeight_cases:
  obtains db' where "PutHeight kv n db = (Ok (), db')" | e where "PutHeight kv n db = (Err e, db)"
proof -
  have "(\<exists>db'. PutHeight kv n db = (Ok (), db')) \<or> (\<exists>e. PutHeight kv n db = (Err e, db))"
    by (auto simp: PutHeight_def kvBatchPut_def split: sum.splits)
  then show thesis using that by blast
qed

text \<open>
  C38. The slasher's and the submitter's store read back exactly what was written last: the
  evidence height, and the checkpoint with both transactions and its epoch, when the
  database and the serialisers keep their contracts.
\<close>

theorem stores_roundtrip:
  assumes "kv_contract kv" and "codec_contract co"
  shows "(PutHeight kv n db = (Ok (), db') \<longrightarrow> LastProcessedHeight kv db' = (Ok (Some n), db'))
    \<and> (PutCheckpoint co kv ckpt db = (Ok (), db') \<longrightarrow> LatestCheckpoint co kv db' = (Ok (Some ckpt), db'))"
proof (intro conjI impI)
  assume "PutHeight kv n db = (Ok (), db')"
  then show "LastProcessedHeight kv db' = (Ok (Some n), db')"
    by (rule height_read_back [OF assms(1)])
next
  assume "PutCheckpoint co kv ckpt db = (Ok (), db')"
  then show "LatestCheckpoint co kv db' = (Ok (Some ckpt), db')"
    by (rule checkpoint_read_back [OF assms])
qed

subsection \<open>Concrete instances\<close>

text \<open>A database in memory: the buckets and the entries.\<close>

definition sampleKv :: "(string list \<times> ((string \<times> string), bytes) gomap) kvBackend" where
  "sampleKv = \<lparr>kv_ReadBucket = (\<lambda>b db. b \<in> set (fst db)),
     kv_Get = (\<lambda>b k db. map_of (snd db) (b, k)),
     kv_Put = (\<lambda>b k v db. Inr (fst db, AList.update (b, k) v (snd db))),
     kv_CreateTopLevelBucket = (\<lambda>b db. Inr (b # fst db, snd db))\<rparr>"

lemma sampleKv_contract: "kv_contract sampleKv"
  by (auto simp: kv_contract_def sampleKv_def update_conv)

definition sampleCodec :: storeCodec where
  "sampleCodec = \<lparr>co_SerializeMsgTx = (\<lambda>tx. if tx = bt_MsgTx sampleTx then Inr [1] else Inl (errorf ''no'')),
     co_DeserializeMsgTx = (\<lambda>b. if b = [1] then Inr (bt_MsgTx sampleTx) else Inl (errorf ''no'')),
     co_Marshal = (\<lambda>p. if pc_Tx1 p = [1] \<and> pc_Tx2 p = [1] then Inr (be_PutUint64 (pc_Epoch p)) else Inl (errorf ''no'')),
     co_Unmarshal = (\<lambda>b. case be_Uint64 b of Ok e \<Rightarrow> Inr \<lparr>pc_Tx1 = [1], pc_Tx2 = [1], pc_Epoch = e\<rparr> | _ \<Rightarrow> Inl (errorf ''no''))\<rparr>"

lemma sampleCodec_contract: "codec_contract sampleCodec"
proof -
  have "be_Uint64 (be_PutUint64 e) = Ok e" for e
    using monitor_codec.dec_enc [of e] by (simp add: uint64ToBytes_def uint64FromBytes_def split: if_splits)
  then show ?thesis by (auto simp: codec_contract_def sampleCodec_def split: if_splits)
qed

theorem monitor_store_reads_last_witness:
  "\<exists>db'. monitorWrites sampleKv [WriteHeight 800000, WriteEpoch 7, WriteHeight 800001] ([''epoch'', ''height''], []) = (Ok (), db')
     \<and> fst (LatestEpoch sampleKv db') = Ok (Some 7) \<and> fst (LatestHeight sampleKv db') = Ok (Some 800001)"
proof -
  let ?db = "([''epoch'', ''height''], []) :: string list \<times> ((string \<times> string), bytes) gomap"
  let ?ws = "[WriteHeight 800000, WriteEpoch 7, WriteHeight 800001]"
  have "\<exists>db'. monitorWrites sampleKv ?ws ?db = (Ok (), db')"
    by (simp add: PutLatestHeight_def PutLatestEpoch_def monitor_put_def kvBatchPut_def sampleKv_def
        epochsBucketName_def heightBucketName_def bindG_def retG_def)
  then obtain db' where run: "monitorWrites sampleKv ?ws ?db = (Ok (), db')" by blast
  have "fst (LatestEpoch sampleKv ?db) = Ok None" "fst (LatestHeight sampleKv ?db) = Ok None"
    by (simp_all add: LatestEpoch_def LatestHeight_def monitor_get_def kvView_def sampleKv_def
        epochsBucketName_def heightBucketName_def bindG_def tryG_def retG_def)
  from monitor_store_reads_last [OF sampleKv_contract run this] run show ?thesis
    by (intro exI [of _ db']) simp
qed

theorem stores_roundtrip_witness:
  "\<exists>db'. PutHeight sampleKv 42 ([processedEvidenceHeightBucket], []) = (Ok (), db')
     \<and> LastProcessedHeight sampleKv db' = (Ok (Some 42), db')"
proof -
  have "\<exists>db'. PutHeight sampleKv 42 ([processedEvidenceHeightBucket], []) = (Ok (), db')"
    by (simp add: PutHeight_def kvBatchPut_def sampleKv_def)
  with stores_roundtrip [OF sampleKv_contract sampleCodec_contract] show ?thesis by blast
qed

end
