(* ===== verification/Retry_Wrap.thy ===== *)
theory Retry_Wrap
  imports Go_Prelude
begin

text \<open>
  The retry policy of \<open>retrywrap/retry.go\<close>: which errors end a series of attempts, and which
  are swallowed. The library \<open>retry-go\<close> itself is an argument of the definitions, one per
  result type of the retried call, with its documented behaviour as \<open>retry_contract\<close>.

  The retried closures assign their result to a variable of the caller. A run is therefore
  \<open>Ok (Some x)\<close> when an attempt succeeded, and \<open>Ok None\<close> when \<open>Do\<close> reports success for an
  expected error although the variable was never assigned.
\<close>

text \<open>Attempts (\<open>None\<close> is the library's default), the \<open>RetryIf\<close> predicate, the function.\<close>

type_synonym ('w, 'a) retryDo = "nat option \<Rightarrow> (goerr \<Rightarrow> bool) \<Rightarrow> ('w, 'a) prog \<Rightarrow> ('w, 'a) prog"

definition unrecoverableErrors :: "sentinel list" where
  "unrecoverableErrors =
     [ErrHeaderParentDoesNotExist, ErrChainWithNotEnoughWork, ErrInvalidHeaderLC,
      ErrProvidedHeaderDoesNotHaveAncestor, ErrInvalidHeaderCkpt, ErrNoCheckpointsForPreviousEpoch,
      ErrInvalidCheckpointProof, ErrBlsPrivKeyDoesNotExist, ErrForkStartWithKnownHeader]"

definition expectedErrors :: "sentinel list" where
  "expectedErrors = [ErrDuplicatedSubmission, ErrInvalidHeaderCkpt]"

fun containsErr :: "sentinel list \<Rightarrow> goerr \<Rightarrow> bool" where
  "containsErr [] err = False"
| "containsErr (e # errs) err = (if errors_is err e then True else containsErr errs err)"

definition retryable :: "goerr \<Rightarrow> bool" where
  "retryable err =
     (if containsErr unrecoverableErrors err \<or> containsErr expectedErrors err then False else True)"

definition retrywrap_Do :: "('w, 'a) retryDo \<Rightarrow> nat option \<Rightarrow> ('w, 'a) prog \<Rightarrow> ('w, 'a option) prog" where
  "retrywrap_Do rd n f = bindG (tryG (rd n retryable f))
     (\<lambda>r. case r of
        Inr x \<Rightarrow> retG (Some x)
      | Inl err \<Rightarrow> if containsErr expectedErrors err then retG None else failG err)"

text \<open>
  What the callers rely on: an attempt that succeeds ends the series with its result; an
  error on which \<open>RetryIf\<close> is false ends it with an error that matches the same sentinels; a
  panic passes through; a result is the result of some attempt, an error that of the last.
\<close>

definition retry_contract :: "('w, 'a) retryDo \<Rightarrow> bool" where
  "retry_contract rd \<longleftrightarrow> (\<forall>n p f s.
     (\<forall>x s'. f s = (Ok x, s') \<longrightarrow> rd n p f s = (Ok x, s')) \<and>
     (\<forall>e s'. f s = (Err e, s') \<and> \<not> p e \<longrightarrow>
        (\<exists>e'. rd n p f s = (Err e', s') \<and> set (errChain e') = set (errChain e))) \<and>
     (\<forall>m s'. f s = (Panic m, s') \<longrightarrow> rd n p f s = (Panic m, s')) \<and>
     (\<forall>x s'. rd n p f s = (Ok x, s') \<longrightarrow> (\<exists>t. f t = (Ok x, s'))) \<and>
     (\<forall>e s'. rd n p f s = (Err e, s') \<longrightarrow>
        (\<exists>t e0. f t = (Err e0, s') \<and> set (errChain e0) \<subseteq> set (errChain e))))"

text \<open>The instance for concrete runs: a single attempt.\<close>

definition retryOnce :: "('w, 'a) retryDo" where
  "retryOnce n p f = f"

lemma retryOnce_contract: "retry_contract retryOnce"
  unfolding retry_contract_def retryOnce_def by (intro allI conjI impI) auto

lemma retry_first_ok:
  assumes "retry_contract rd" and "f s = (Ok x, s')"
  shows "rd n p f s = (Ok x, s')"
  using assms(1) [unfolded retry_contract_def, rule_format, THEN conjunct1] assms(2) by simp

lemma retry_panic:
  assumes "retry_contract rd" and "f s = (Panic m, s')"
  shows "rd n p f s = (Panic m, s')"
  using assms(1) [unfolded retry_contract_def, THEN spec, THEN spec, THEN spec, THEN spec,
      THEN conjunct2, THEN conjunct2, THEN conjunct1] assms(2) by simp

lemma retry_stops:
  assumes "retry_contract rd" and "f s = (Err e, s')" and "\<not> p e"
  obtains e' where "rd n p f s = (Err e', s')" and "\<And>t. errors_is e' t = errors_is e t"
proof -
  from assms(1) [unfolded retry_contract_def, THEN spec, THEN spec, THEN spec, THEN spec,
      THEN conjunct2, THEN conjunct1, rule_format, of f s e s' p n] assms(2,3)
  obtain e' where "rd n p f s = (Err e', s')" "set (errChain e') = set (errChain e)" by auto
  then show thesis using that [of e'] by (simp add: errors_is_def)
qed

lemma retry_ok_attempt:
  assumes "retry_contract rd" and "rd n p f s = (Ok x, s')"
  obtains t where "f t = (Ok x, s')"
proof -
  from assms(1) [unfolded retry_contract_def, THEN spec, THEN spec, THEN spec, THEN spec,
      THEN conjunct2, THEN conjunct2, THEN conjunct2, THEN conjunct1, rule_format, of n p f s x s'] assms(2)
  show thesis using that by auto
qed

lemma containsErr_iff: "containsErr ts err \<longleftrightarrow> (\<exists>t \<in> set ts. errors_is err t)"
  by (induction ts) auto

lemma containsErr_cong: "(\<And>t. errors_is e t = errors_is e' t) \<Longrightarrow> containsErr ts e = containsErr ts e'"
  by (simp add: containsErr_iff)

lemma retrywrap_first_ok:
  "retry_contract rd \<Longrightarrow> f s = (Ok x, s') \<Longrightarrow> retrywrap_Do rd n f s = (Ok (Some x), s')"
  by (simp add: retrywrap_Do_def retry_first_ok bindG_def tryG_def retG_def)

lemma retrywrap_Some_attempt:
  assumes "retry_contract rd" and "retrywrap_Do rd n f s = (Ok (Some x), s')"
  obtains t where "f t = (Ok x, s')"
proof -
  from assms(2) have "rd n retryable f s = (Ok x, s')"
    by (auto simp: retrywrap_Do_def bindG_def tryG_def retG_def failG_def split: go_splits)
  with assms(1) that show thesis by (blast elim: retry_ok_attempt)
qed

text \<open>
  The library stops early when the context of the caller is cancelled. What is used here: a
  series that reports success ended with a successful attempt, and the state is only changed by
  attempts.
\<close>

definition retry_ctx_contract :: "('s, 'a) retryDo \<Rightarrow> bool" where
  "retry_ctx_contract rd \<longleftrightarrow>
     (\<forall>n p f s x s'. rd n p f s = (Ok x, s') \<longrightarrow> (\<exists>t. f t = (Ok x, s'))) \<and>
     (\<forall>n p f I. keeps I f \<longrightarrow> keeps I (rd n p f))"

lemma keeps_retry: "retry_ctx_contract rd \<Longrightarrow> keeps I f \<Longrightarrow> keeps I (rd n p f)"
  by (simp add: retry_ctx_contract_def)

lemma retry_ctx_ok: "retry_ctx_contract rd \<Longrightarrow> rd n p f s = (Ok x, s') \<Longrightarrow> \<exists>t. f t = (Ok x, s')"
  by (simp add: retry_ctx_contract_def)

text \<open>An attempt that succeeds ends the series, while the context is live.\<close>

definition retry_live :: "('s, 'a) retryDo \<Rightarrow> bool" where
  "retry_live rd \<longleftrightarrow> (\<forall>n p f s x s'. f s = (Ok x, s') \<longrightarrow> rd n p f s = (Ok x, s'))"

lemma retry_liveD: "retry_live rd \<Longrightarrow> f s = (Ok x, s') \<Longrightarrow> rd n p f s = (Ok x, s')"
  by (simp add: retry_live_def)

text \<open>A retry library that tries once; its endless series does not return after a failure.\<close>

definition retrySample :: "('s, 'a) retryDo" where
  "retrySample n p f s = (case f s of (Err e, s') \<Rightarrow> (if n = Some 0 then NoFuel else Err e, s') | x \<Rightarrow> x)"

lemma retrySample_ctx: "retry_ctx_contract (retrySample :: ('s, 'a) retryDo)"
  unfolding retry_ctx_contract_def
proof (intro conjI allI impI)
  fix n p and f :: "('s, 'a) prog" and s x s'
  assume "retrySample n p f s = (Ok x, s')"
  then show "\<exists>t. f t = (Ok x, s')" by (auto simp: retrySample_def split: prod.splits outcome.splits if_splits)
next
  fix n p and f :: "('s, 'a) prog" and I
  assume I: "keeps I f"
  have "snd (retrySample n p f s) = snd (f s)" for s
    by (simp add: retrySample_def split: prod.splits outcome.splits)
  then show "keeps I (retrySample n p f)" using I by (simp add: keeps_def)
qed

lemma retrySample_live: "retry_live retrySample"
  by (simp add: retry_live_def retrySample_def)

subsection \<open>Properties\<close>

text \<open>
  \<open>Do\<close> decides on the first error already when it is on one of the two lists: an expected
  error is reported as success after that single attempt, with no result assigned; any
  other unrecoverable error is returned after that single attempt and still matches
  exactly the same sentinels. In particular \<open>btcctypes.ErrInvalidHeader\<close>, which is on both
  lists, is swallowed.
\<close>

theorem retrywrap_classifies:
  assumes "retry_contract rd" and "f s = (Err e, s')"
  shows "(containsErr expectedErrors e \<longrightarrow> retrywrap_Do rd n f s = (Ok None, s'))
    \<and> (containsErr unrecoverableErrors e \<and> \<not> containsErr expectedErrors e \<longrightarrow>
        (\<exists>e'. retrywrap_Do rd n f s = (Err e', s') \<and> (\<forall>t. errors_is e' t = errors_is e t)))"
proof (cases "retryable e")
  case True
  then show ?thesis by (simp add: retryable_def split: if_splits)
next
  case False
  obtain e' where e': "rd n retryable f s = (Err e', s')"
    and same: "\<And>t. errors_is e' t = errors_is e t"
    using retry_stops [of rd f s e s' retryable n, OF assms False] by metis
  have "containsErr expectedErrors e' = containsErr expectedErrors e"
    using same by (rule containsErr_cong)
  then have "retrywrap_Do rd n f s =
      (if containsErr expectedErrors e then (Ok None, s') else (Err e', s'))"
    using e' by (simp add: retrywrap_Do_def bindG_def tryG_def retG_def failG_def)
  then show ?thesis using same by simp
qed

theorem retrywrap_classifies_witness:
  "retrywrap_Do retryOnce None (failG (sentinelErr ErrInvalidHeaderCkpt)) (0::nat)
      = ((Ok None :: unit option outcome), 0)
   \<and> (\<exists>e'. retrywrap_Do retryOnce None (failG (sentinelErr ErrForkStartWithKnownHeader)) (0::nat)
        = ((Err e' :: unit option outcome), 0) \<and> (\<forall>t. errors_is e' t = errors_is (sentinelErr ErrForkStartWithKnownHeader) t))"
  using retrywrap_classifies [OF retryOnce_contract, of "failG (sentinelErr ErrInvalidHeaderCkpt) :: (nat, unit) prog" 0
      "sentinelErr ErrInvalidHeaderCkpt" 0 None]
    retrywrap_classifies [OF retryOnce_contract, of "failG (sentinelErr ErrForkStartWithKnownHeader) :: (nat, unit) prog" 0
      "sentinelErr ErrForkStartWithKnownHeader" 0 None]
  by (simp add: failG_def expectedErrors_def unrecoverableErrors_def)

end
