(* ===== verification/Monitor.thy ===== *)
theory Monitor
  imports Ckpt_Bookkeeper KV_Stores Retry_Wrap
begin

text \<open>
  The monitor: epoch information and multi-signature checks (\<open>types/epoch_info.go\<close>), the
  retried Babylon queries (\<open>monitor/query.go\<close>), verification of checkpoints and headers and
  the start-up (\<open>monitor/monitor.go\<close>), and the liveness checker
  (\<open>monitor/liveness_checker.go\<close>, \<open>monitor/utils.go\<close>).

  \<open>monitor\<close> is the struct \<open>Monitor\<close> with the world and the database; \<open>monitorEnv\<close> holds the
  Babylon query client, the retry library and the cryptography. A retried query returns a
  zero value when an expected error was swallowed, because its result variable is a struct.

  Shown here: the monitor's epoch moves only to the next one, only after a verified
  checkpoint, and a restart resumes there; a verified checkpoint carries more than two thirds
  of the voting power; the liveness check raises the alarm exactly beyond the threshold;
  the search for the last confirmed epoch ends and finds the greatest one.
\<close>

subsection \<open>Epoch information\<close>

record valWithBlsKey =
  vk_ValidatorAddress :: string
  vk_BlsPubKey :: bytes
  vk_VotingPower :: u64

record epochInfo =
  ei_epochNum :: u64
  ei_valSet :: "valWithBlsKey list"

record blsLib =
  bl_FindSubsetWithPowerSum :: "valWithBlsKey list \<Rightarrow> bytes \<Rightarrow> goerr + (valWithBlsKey list \<times> u64)"
  bl_GetBLSKeySet :: "valWithBlsKey list \<Rightarrow> bytes list"
  bl_GetTotalPower :: "valWithBlsKey list \<Rightarrow> u64"
  bl_SignedMsg :: "rawCheckpoint \<Rightarrow> bytes"
  bl_VerifyMultiSig :: "bytes \<Rightarrow> bytes list \<Rightarrow> bytes \<Rightarrow> goerr + bool"

definition NewEpochInfo :: "u64 \<Rightarrow> valWithBlsKey list \<Rightarrow> epochInfo" where
  "NewEpochInfo epochNum valSet = \<lparr>ei_epochNum = epochNum, ei_valSet = valSet\<rparr>"

text \<open>\<open>GetSignersKeySetWithPowerSum\<close>: with an error the power is 0.\<close>

definition GetSignersKeySetWithPowerSum ::
  "blsLib \<Rightarrow> epochInfo \<Rightarrow> bytes \<Rightarrow> bytes list \<times> u64 \<times> goerr option" where
  "GetSignersKeySetWithPowerSum bl ei bm =
     (case bl_FindSubsetWithPowerSum bl (ei_valSet ei) bm of
        Inl err \<Rightarrow> ([], 0, Some err)
      | Inr (signers, powerSum) \<Rightarrow> (bl_GetBLSKeySet bl signers, powerSum, None))"

definition GetTotalPower :: "blsLib \<Rightarrow> epochInfo \<Rightarrow> u64" where
  "GetTotalPower bl ei = bl_GetTotalPower bl (ei_valSet ei)"

definition VerifyMultiSig :: "blsLib \<Rightarrow> epochInfo \<Rightarrow> rawCheckpoint \<Rightarrow> unit outcome" where
  "VerifyMultiSig bl ei ckpt =
     (let (signerKeySet, sumPower, err) = GetSignersKeySetWithPowerSum bl ei (rc_Bitmap ckpt) in
      if sumPower * 3 \<le> GetTotalPower bl ei * 2
      then Err (GoErr [ErrInsufficientPower] ''not enough voting power'')
      else case err of
             Some e \<Rightarrow> Err (GoErr [ErrInvalidMultiSig] ''failed to get signer set'')
           | None \<Rightarrow>
               (case bl_VerifyMultiSig bl (rc_BlsMultiSig ckpt) signerKeySet (bl_SignedMsg bl ckpt) of
                  Inl _ \<Rightarrow> Err (sentinelErr ErrInvalidMultiSig)
                | Inr valid \<Rightarrow> if \<not> valid then Err (sentinelErr ErrInvalidMultiSig) else Ok ()))"

text \<open>\<open>Equal\<close> indexes the other set by position; a shorter one panics.\<close>

fun sameVals :: "valWithBlsKey list \<Rightarrow> valWithBlsKey list \<Rightarrow> bool outcome" where
  "sameVals [] ws = Ok True"
| "sameVals (v # vs) [] = Panic ''index out of range''"
| "sameVals (v # vs) (w # ws) =
     (if vk_ValidatorAddress v \<noteq> vk_ValidatorAddress w then Ok False
      else if vk_BlsPubKey v \<noteq> vk_BlsPubKey w then Ok False
      else if vk_VotingPower v \<noteq> vk_VotingPower w then Ok False
      else sameVals vs ws)"

definition EpochInfo_Equal :: "epochInfo \<Rightarrow> epochInfo \<Rightarrow> bool outcome" where
  "EpochInfo_Equal ei epochInfo =
     (if ei_epochNum ei \<noteq> ei_epochNum epochInfo then Ok False
      else sameVals (ei_valSet ei) (ei_valSet epochInfo))"

subsection \<open>The monitor and what it calls\<close>

datatype ckptStatus = Accumulating | Sealed | Submitted | Confirmed | Finalized

record ckptResponse =
  rs_Ckpt :: rawCheckpoint
  rs_Status :: ckptStatus

record blsKeyResponse =
  bk_ValidatorAddress :: string
  bk_BlsPubKeyHex :: string
  bk_VotingPower :: u64

record 'w monitorEnv =
  me_CurrentEpoch :: "('w, u64) prog"
  me_RawCheckpoint :: "u64 \<Rightarrow> ('w, ckptResponse option) prog"
  me_BlsPublicKeyList :: "u64 \<Rightarrow> ('w, blsKeyResponse list) prog"
  me_EndedEpochBTCHeight :: "u64 \<Rightarrow> ('w, u32) prog"
  me_ReportedCheckpointBTCHeight :: "string \<Rightarrow> ('w, u32) prog"
  me_BTCHeaderChainTip :: "('w, u32) prog"
  me_ContainsBTCBlock :: "hash \<Rightarrow> ('w, bool) prog"
  me_retryU64 :: "('w, u64) retryDo"
  me_retryCkpt :: "('w, ckptResponse option) retryDo"
  me_retryKeys :: "('w, blsKeyResponse list) retryDo"
  me_retryU32 :: "('w, u32) retryDo"
  me_retryBool :: "('w, bool) retryDo"
  me_ToRawCheckpoint :: "rawCheckpoint \<Rightarrow> goerr + rawCheckpoint"
  me_HashStr :: "rawCheckpoint \<Rightarrow> string"
  me_BlockHash :: "blockHeader \<Rightarrow> hash"
  me_bls :: blsLib

record ('w, 'db) monitor =
  m_EnableLivenessChecker :: bool
  m_MaxLiveBtcHeights :: u64
  m_MaxRetryTimes :: nat
  m_curEpoch :: epochInfo
  m_checkpointChecklist :: bookkeeper
  m_started :: bool
  m_livenessAttacks :: nat
  m_world :: 'w
  m_db :: 'db

definition rpcM :: "('w, 'a) prog \<Rightarrow> (('w, 'db) monitor, 'a) prog" where
  "rpcM m = zoomG m_world (\<lambda>w s. s\<lparr>m_world := w\<rparr>) m"

definition dbM :: "('db, 'a) prog \<Rightarrow> (('w, 'db) monitor, 'a) prog" where
  "dbM m = zoomG m_db (\<lambda>d s. s\<lparr>m_db := d\<rparr>) m"

subsection \<open>Queries\<close>

definition queryWithRetry :: "('w, 'a) retryDo \<Rightarrow> 'a \<Rightarrow> ('w, 'a) prog \<Rightarrow> (('w, 'db) monitor, 'a) prog" where
  "queryWithRetry rd zero f = bindG (getG m_MaxRetryTimes) (\<lambda>n.
     bindG (rpcM (retrywrap_Do rd (Some n) f)) (\<lambda>r. retG (case r of None \<Rightarrow> zero | Some x \<Rightarrow> x)))"

definition queryCurrentEpochWithRetry :: "'w monitorEnv \<Rightarrow> (('w, 'db) monitor, u64) prog" where
  "queryCurrentEpochWithRetry env = queryWithRetry (me_retryU64 env) 0 (me_CurrentEpoch env)"

definition queryRawCheckpointWithRetry ::
  "'w monitorEnv \<Rightarrow> u64 \<Rightarrow> (('w, 'db) monitor, ckptResponse option) prog" where
  "queryRawCheckpointWithRetry env epoch = queryWithRetry (me_retryCkpt env) None (me_RawCheckpoint env epoch)"

definition queryBlsPublicKeyListWithRetry ::
  "'w monitorEnv \<Rightarrow> u64 \<Rightarrow> (('w, 'db) monitor, blsKeyResponse list) prog" where
  "queryBlsPublicKeyListWithRetry env epoch =
     queryWithRetry (me_retryKeys env) [] (me_BlsPublicKeyList env epoch)"

definition queryEndedEpochBTCHeightWithRetry :: "'w monitorEnv \<Rightarrow> u64 \<Rightarrow> (('w, 'db) monitor, u32) prog" where
  "queryEndedEpochBTCHeightWithRetry env epoch =
     queryWithRetry (me_retryU32 env) 0 (me_EndedEpochBTCHeight env epoch)"

definition queryReportedCheckpointBTCHeightWithRetry ::
  "'w monitorEnv \<Rightarrow> string \<Rightarrow> (('w, 'db) monitor, u32) prog" where
  "queryReportedCheckpointBTCHeightWithRetry env hashStr =
     queryWithRetry (me_retryU32 env) 0 (me_ReportedCheckpointBTCHeight env hashStr)"

definition queryBTCHeaderChainTipWithRetry :: "'w monitorEnv \<Rightarrow> (('w, 'db) monitor, u32) prog" where
  "queryBTCHeaderChainTipWithRetry env = queryWithRetry (me_retryU32 env) 0 (me_BTCHeaderChainTip env)"

definition queryContainsBTCBlockWithRetry :: "'w monitorEnv \<Rightarrow> hash \<Rightarrow> (('w, 'db) monitor, bool) prog" where
  "queryContainsBTCBlockWithRetry env blockHash =
     queryWithRetry (me_retryBool env) False (me_ContainsBTCBlock env blockHash)"

fun convertFromBlsPublicKeyListResponse :: "blsKeyResponse list \<Rightarrow> goerr + valWithBlsKey list" where
  "convertFromBlsPublicKeyListResponse [] = Inr []"
| "convertFromBlsPublicKeyListResponse (k # ks) = (case hexDecode (bk_BlsPubKeyHex k) of
      Inl err \<Rightarrow> Inl err
    | Inr blsKey \<Rightarrow> (case convertFromBlsPublicKeyListResponse ks of
        Inl err \<Rightarrow> Inl err
      | Inr vs \<Rightarrow> Inr (\<lparr>vk_ValidatorAddress = bk_ValidatorAddress k, vk_BlsPubKey = blsKey,
                      vk_VotingPower = bk_VotingPower k\<rparr> # vs)))"

definition QueryInfoForNextEpoch :: "'w monitorEnv \<Rightarrow> u64 \<Rightarrow> (('w, 'db) monitor, epochInfo) prog" where
  "QueryInfoForNextEpoch env epoch =
     bindG (wrapG ''failed to query BLS key set for epoch: '' (queryBlsPublicKeyListWithRetry env epoch)) (\<lambda>res.
     bindG (wrapG ''failed to convert BLS key response set for epoch: ''
              (liftG (sumOutcome (convertFromBlsPublicKeyListResponse res)))) (\<lambda>blsKeys.
       retG (NewEpochInfo epoch blsKeys)))"

text \<open>The downward loop of \<open>FindTipConfirmedEpoch\<close>; \<open>n\<close> is \<open>curEpoch\<close>.\<close>

fun findTipLoop :: "'w monitorEnv \<Rightarrow> nat \<Rightarrow> (('w, 'db) monitor, u64) prog" where
  "findTipLoop env 0 = failG (errorf ''cannot find a confirmed or finalized epoch from Babylon'')"
| "findTipLoop env (Suc n) =
     bindG (wrapG ''failed to query the checkpoint: '' (queryRawCheckpointWithRetry env (of_nat n))) (\<lambda>res.
       case res of
         None \<Rightarrow> panicG ''nil pointer dereference''
       | Some r \<Rightarrow> if rs_Status r = Confirmed \<or> rs_Status r = Finalized then retG (of_nat n)
                  else findTipLoop env n)"

definition FindTipConfirmedEpoch :: "'w monitorEnv \<Rightarrow> (('w, 'db) monitor, u64) prog" where
  "FindTipConfirmedEpoch env =
     bindG (wrapG ''failed to query the current epoch of Babylon: '' (queryCurrentEpochWithRetry env)) (\<lambda>curEpoch.
       findTipLoop env (unat curEpoch))"

subsection \<open>Verification\<close>

definition GetCurrentEpoch :: "('w, 'db) monitor \<Rightarrow> u64" where
  "GetCurrentEpoch s = ei_epochNum (m_curEpoch s)"

definition VerifyCheckpoint :: "'w monitorEnv \<Rightarrow> rawCheckpoint \<Rightarrow> (('w, 'db) monitor, unit) prog" where
  "VerifyCheckpoint env btcCkpt =
     bindG (getG m_curEpoch) (\<lambda>cur.
       if ei_epochNum cur \<noteq> rc_EpochNum btcCkpt
       then failG (GoErr [ErrInvalidEpochNum] ''found a checkpoint with another epoch'')
       else
         bindG (wrapG ''invalid BLS sig of BTC checkpoint: '' (liftG (VerifyMultiSig (me_bls env) cur btcCkpt))) (\<lambda>_.
         bindG (wrapG ''failed to query raw checkpoint from Babylon: ''
                  (queryRawCheckpointWithRetry env (rc_EpochNum btcCkpt))) (\<lambda>res. case res of
           None \<Rightarrow> panicG ''nil pointer dereference''
         | Some r \<Rightarrow>
             bindG (wrapG ''failed to parse raw checkpoint: ''
                      (liftG (sumOutcome (me_ToRawCheckpoint env (rs_Ckpt r))))) (\<lambda>ckpt.
             bindG (wrapG ''invalid BLS sig of Babylon raw checkpoint: ''
                      (liftG (VerifyMultiSig (me_bls env) cur ckpt))) (\<lambda>_.
               if rc_BlockHash ckpt \<noteq> rc_BlockHash btcCkpt
               then failG (GoErr [ErrInconsistentBlockHash] ''different block hash'')
               else retG ())))))"

definition UpdateEpochInfo :: "'w monitorEnv \<Rightarrow> u64 \<Rightarrow> (('w, 'db) monitor, unit) prog" where
  "UpdateEpochInfo env epoch =
     bindG (wrapG ''failed to query information of the epoch: '' (QueryInfoForNextEpoch env epoch)) (\<lambda>ei.
       modG (\<lambda>s. s\<lparr>m_curEpoch := ei\<rparr>))"

definition addCheckpointToCheckList :: "'w monitorEnv \<Rightarrow> checkpointRecord \<Rightarrow> (('w, 'db) monitor, unit) prog" where
  "addCheckpointToCheckList env ckpt =
     (let record = NewCheckpointRecord (cr_RawCheckpoint ckpt) (cr_FirstSeenBtcHeight ckpt) in
      modG (\<lambda>s. s\<lparr>m_checkpointChecklist := Bookkeeper_Add (me_HashStr env) record (m_checkpointChecklist s)\<rparr>))"

definition addIfEnabled :: "'w monitorEnv \<Rightarrow> checkpointRecord \<Rightarrow> (('w, 'db) monitor, unit) prog" where
  "addIfEnabled env ckpt = bindG (getG m_EnableLivenessChecker) (\<lambda>enabled.
     if enabled then addCheckpointToCheckList env ckpt else retG ())"

definition handleNewConfirmedCheckpoint ::
  "'w monitorEnv \<Rightarrow> 'db kvBackend \<Rightarrow> checkpointRecord \<Rightarrow> (('w, 'db) monitor, unit) prog" where
  "handleNewConfirmedCheckpoint env kv ckpt =
     bindG (tryG (VerifyCheckpoint env (cr_RawCheckpoint ckpt))) (\<lambda>r. case r of
       Inl err \<Rightarrow>
         if errors_is err ErrInconsistentBlockHash
         then bindG (addIfEnabled env ckpt) (\<lambda>_. failG (wrapf ''verification failed: '' err))
         else retG ()
     | Inr _ \<Rightarrow>
         bindG (addIfEnabled env ckpt) (\<lambda>_.
         bindG (getG GetCurrentEpoch) (\<lambda>currentEpoch.
         bindG (wrapG ''failed to update information of epoch: '' (UpdateEpochInfo env (currentEpoch + 1))) (\<lambda>_.
           wrapG ''failed to set epoch '' (dbM (PutLatestEpoch kv currentEpoch))))))"

definition monitor_checkHeaderConsistency :: "'w monitorEnv \<Rightarrow> blockHeader \<Rightarrow> (('w, 'db) monitor, unit) prog" where
  "monitor_checkHeaderConsistency env header =
     bindG (queryContainsBTCBlockWithRetry env (me_BlockHash env header)) (\<lambda>contains.
       if \<not> contains then failG (errorf ''BTC header does not exist on Babylon BTC light client'')
       else retG ())"

definition handleNewConfirmedHeader ::
  "'w monitorEnv \<Rightarrow> 'db kvBackend \<Rightarrow> indexedBlock \<Rightarrow> (('w, 'db) monitor, unit) prog" where
  "handleNewConfirmedHeader env kv block =
     bindG (monitor_checkHeaderConsistency env (ib_Header block)) (\<lambda>_.
       dbM (PutLatestHeight kv (ucast (ib_Height block))))"

text \<open>
  The part of \<open>Start\<close> before the goroutines: the epoch to verify and the height to scan from.
  \<open>Fatalf\<close> ends the process.
\<close>

definition initEpoch :: "'w monitorEnv \<Rightarrow> 'db kvBackend \<Rightarrow> (('w, 'db) monitor, unit) prog" where
  "initEpoch env kv =
     bindG (mustG ''getting epoch from db'' (dbM (LatestEpoch kv))) (\<lambda>stored. case stored of
       Some epochNumber \<Rightarrow> mustG ''error updating epoch'' (UpdateEpochInfo env (epochNumber + 1))
     | None \<Rightarrow>
         bindG (tryG (rpcM (me_CurrentEpoch env))) (\<lambda>r. case r of
           Inl _ \<Rightarrow> retG ()
         | Inr current \<Rightarrow>
             if current > 0 then mustG ''error updating epoch'' (UpdateEpochInfo env current) else retG ()))"

definition initHeight :: "'db kvBackend \<Rightarrow> u32 \<Rightarrow> (('w, 'db) monitor, u32) prog" where
  "initHeight kv baseHeight =
     bindG (mustG ''error getting latest height from db'' (dbM (LatestHeight kv))) (\<lambda>stored. case stored of
       None \<Rightarrow> retG baseHeight
     | Some dbHeight \<Rightarrow>
         if dbHeight > ucast (- 1 :: u32) then panicG ''dbHeight exceeds uint32 range''
         else retG (ucast dbHeight + 1))"

definition monitor_Start :: "'w monitorEnv \<Rightarrow> 'db kvBackend \<Rightarrow> ('w, unit) prog \<Rightarrow> u32
    \<Rightarrow> (('w, 'db) monitor, u32 option) prog" where
  "monitor_Start env kv querierStart baseHeight =
     bindG (getG m_started) (\<lambda>started.
       if started then retG None
       else
         bindG (modG (\<lambda>s. s\<lparr>m_started := True\<rparr>)) (\<lambda>_.
         bindG (mustG ''failed to start Babylon querier'' (rpcM querierStart)) (\<lambda>_.
         bindG (initEpoch env kv) (\<lambda>_.
         bindG (initHeight kv baseHeight) (\<lambda>startHeight. retG (Some startHeight))))))"

text \<open>
  \<open>GetSortedValSet\<close>: \<open>parse\<close> is \<open>ValAddressFromBech32\<close>; the comparison reads the first eight
  bytes of an address. Comparing an address that does not parse panics.
\<close>

definition addrKey :: "(string \<Rightarrow> goerr + bytes) \<Rightarrow> valWithBlsKey \<Rightarrow> u64 outcome" where
  "addrKey parse v = (case parse (vk_ValidatorAddress v) of
       Inl _ \<Rightarrow> Panic ''failed to parse validator address''
     | Inr b \<Rightarrow> if b = [] then Ok 0 else be_Uint64 b)"

definition GetSortedValSet ::
  "(string \<Rightarrow> goerr + bytes) \<Rightarrow> (valWithBlsKey list \<Rightarrow> valWithBlsKey list) \<Rightarrow> valWithBlsKey list
    \<Rightarrow> valWithBlsKey list outcome" where
  "GetSortedValSet parse srt valSet =
     (if length valSet \<ge> 2 \<and> (\<exists>v \<in> set valSet. \<not> isOk (addrKey parse v))
      then Panic ''failed to parse validator address'' else Ok (srt valSet))"

subsection \<open>Liveness\<close>

definition minBTCHeight :: "u32 \<Rightarrow> u32 \<Rightarrow> u32" where
  "minBTCHeight h1 h2 = (if h1 > h2 then h2 else h1)"

definition CheckLiveness :: "'w monitorEnv \<Rightarrow> checkpointRecord \<Rightarrow> (('w, 'db) monitor, unit) prog" where
  "CheckLiveness env cr =
     bindG (wrapG ''the epoch is not ended on Babylon: ''
              (queryEndedEpochBTCHeightWithRetry env (CheckpointRecord_EpochNum cr))) (\<lambda>btcHeightEpochEnded.
     (let minHeight = minBTCHeight btcHeightEpochEnded (cr_FirstSeenBtcHeight cr) in
      bindG (tryG (queryReportedCheckpointBTCHeightWithRetry env (CheckpointRecord_ID (me_HashStr env) cr))) (\<lambda>rep.
      bindG (case rep of
               Inr btcHeightCkptReported \<Rightarrow> retG (uint btcHeightCkptReported - uint minHeight)
             | Inl err \<Rightarrow>
                 if \<not> errors_is err ErrCheckpointNotReported
                 then failG (wrapf ''failed to query checkpoint reported BTC height: '' err)
                 else bindG (wrapG ''failed to query the current tip height of BTC light client: ''
                               (queryBTCHeaderChainTipWithRetry env)) (\<lambda>currentBtcTipHeight.
                        retG (uint currentBtcTipHeight - uint minHeight))) (\<lambda>gap.
        if gap < 0 then failG (errorf ''the gap between two BTC heights should not be negative'')
        else bindG (getG m_MaxLiveBtcHeights) (\<lambda>maxLive.
          if (word_of_int gap :: u64) > maxLive then failG (GoErr [ErrLivenessAttack] ''the gap is larger than the threshold'')
          else retG ())))))"

text \<open>One tick of \<open>runLivenessChecker\<close> over the records in the order they are visited.\<close>

fun livenessTick :: "'w monitorEnv \<Rightarrow> checkpointRecord list \<Rightarrow> (('w, 'db) monitor, unit) prog" where
  "livenessTick env [] = retG ()"
| "livenessTick env (c # cs) =
     bindG (tryG (CheckLiveness env c)) (\<lambda>r. case r of
       Inl _ \<Rightarrow> bindG (modG (\<lambda>s. s\<lparr>m_livenessAttacks := Suc (m_livenessAttacks s)\<rparr>)) (\<lambda>_. livenessTick env cs)
     | Inr _ \<Rightarrow>
         bindG (modG (\<lambda>s. s\<lparr>m_checkpointChecklist :=
             Bookkeeper_Remove (CheckpointRecord_ID (me_HashStr env) c) (m_checkpointChecklist s)\<rparr>)) (\<lambda>_.
           livenessTick env cs))"

definition runLivenessTick :: "'w monitorEnv \<Rightarrow> string list \<Rightarrow> (('w, 'db) monitor, unit) prog" where
  "runLivenessTick env ord = bindG (getG m_checkpointChecklist) (\<lambda>b. livenessTick env (Bookkeeper_GetAll ord b))"

subsection \<open>What queries leave alone\<close>

definition rpc_frame :: "(('w, 'db) monitor \<Rightarrow> bool) \<Rightarrow> bool" where
  "rpc_frame I \<longleftrightarrow> (\<forall>s w. I s \<longrightarrow> I (s\<lparr>m_world := w\<rparr>))"

lemma keeps_rpcM: "rpc_frame I \<Longrightarrow> keeps I (rpcM m)"
  unfolding rpcM_def by (rule keeps_zoomG) (simp add: rpc_frame_def)

lemma keeps_queryWithRetry: "rpc_frame I \<Longrightarrow> keeps I (queryWithRetry rd zero f)"
  unfolding queryWithRetry_def by (intro keeps_rules keeps_rpcM)

lemma queryWithRetry_ok:
  assumes "retry_contract rd" and "f (m_world s) = (Ok x, w')"
  shows "queryWithRetry rd zero f s = (Ok x, s\<lparr>m_world := w'\<rparr>)"
  using retrywrap_first_ok [of rd f "m_world s" x w' "Some (m_MaxRetryTimes s)"] assms
  by (simp add: queryWithRetry_def rpcM_def zoomG_def bindG_def getG_def retG_def)

lemmas query_defs = queryCurrentEpochWithRetry_def queryRawCheckpointWithRetry_def
  queryBlsPublicKeyListWithRetry_def queryEndedEpochBTCHeightWithRetry_def
  queryReportedCheckpointBTCHeightWithRetry_def queryBTCHeaderChainTipWithRetry_def
  queryContainsBTCBlockWithRetry_def

lemma keeps_VerifyCheckpoint: "rpc_frame I \<Longrightarrow> keeps I (VerifyCheckpoint env ckpt)"
  unfolding VerifyCheckpoint_def query_defs by (intro keeps_rules keeps_queryWithRetry)

lemma keeps_QueryInfo: "rpc_frame I \<Longrightarrow> keeps I (QueryInfoForNextEpoch env epoch)"
  unfolding QueryInfoForNextEpoch_def query_defs by (intro keeps_rules keeps_queryWithRetry)

lemma keeps_CheckLiveness: "rpc_frame I \<Longrightarrow> keeps I (CheckLiveness env c)"
  unfolding CheckLiveness_def query_defs Let_def by (intro keeps_rules keeps_queryWithRetry)

lemma QueryInfo_epoch:
  "QueryInfoForNextEpoch env epoch s = (Ok ei, s') \<Longrightarrow> ei_epochNum ei = epoch"
  by (auto simp: QueryInfoForNextEpoch_def NewEpochInfo_def retG_def elim!: bindG_Ok_E)

lemma UpdateEpochInfo_spec:
  assumes "UpdateEpochInfo env epoch s = (r, s')"
  shows "m_db s' = m_db s \<and> m_checkpointChecklist s' = m_checkpointChecklist s
    \<and> m_EnableLivenessChecker s' = m_EnableLivenessChecker s
    \<and> (if r = Ok () then ei_epochNum (m_curEpoch s') = epoch else m_curEpoch s' = m_curEpoch s)"
proof -
  let ?I = "\<lambda>t. m_db t = m_db s \<and> m_checkpointChecklist t = m_checkpointChecklist s
    \<and> m_EnableLivenessChecker t = m_EnableLivenessChecker s \<and> m_curEpoch t = m_curEpoch s"
  have keeps: "keeps ?I (wrapG msg (QueryInfoForNextEpoch env epoch))" for msg
    by (intro keeps_rules keeps_QueryInfo) (simp add: rpc_frame_def)
  from assms show ?thesis unfolding UpdateEpochInfo_def
  proof (cases rule: bindG_cases)
    case (ok ei s1)
    then show ?thesis using keepsD [OF keeps _ ok(1)] by (auto simp: modG_def dest: QueryInfo_epoch)
  next
    case (err e)
    then show ?thesis using keepsD [OF keeps _ err(1)] by auto
  next
    case (panic m)
    then show ?thesis using keepsD [OF keeps _ panic(1)] by auto
  next
    case noFuel
    then show ?thesis using keepsD [OF keeps _ noFuel(1)] by auto
  qed
qed

lemma VerifyCheckpoint_frame:
  assumes "VerifyCheckpoint env ckpt s = (r, s')"
  shows "m_db s' = m_db s \<and> m_curEpoch s' = m_curEpoch s \<and> m_checkpointChecklist s' = m_checkpointChecklist s
    \<and> m_EnableLivenessChecker s' = m_EnableLivenessChecker s"
proof -
  have "keeps (\<lambda>t. m_db t = m_db s \<and> m_curEpoch t = m_curEpoch s \<and> m_checkpointChecklist t = m_checkpointChecklist s
    \<and> m_EnableLivenessChecker t = m_EnableLivenessChecker s) (VerifyCheckpoint env ckpt)"
    by (rule keeps_VerifyCheckpoint) (simp add: rpc_frame_def)
  from keepsD [OF this _ assms] show ?thesis by simp
qed

lemma addIfEnabled_spec:
  "addIfEnabled env ckpt s = (Ok (), s') \<Longrightarrow> m_db s' = m_db s \<and> m_curEpoch s' = m_curEpoch s"
  "\<exists>s'. addIfEnabled env ckpt s = (Ok (), s')"
  by (auto simp: addIfEnabled_def addCheckpointToCheckList_def modG_def retG_def split: if_splits)

subsection \<open>Properties of verification\<close>

text \<open>
  C34. A multi-signature that verifies has more than two thirds of the voting power behind it
  (as numbers, not only modulo 64 bits, when three times the total power fits) and was
  accepted by the BLS verification for exactly the signers of the bitmap.
\<close>

theorem VerifyMultiSig_two_thirds:
  assumes "VerifyMultiSig bl ei ckpt = Ok ()" and "3 * unat (GetTotalPower bl ei) < 2 ^ 64"
    and "\<And>vs p. bl_FindSubsetWithPowerSum bl (ei_valSet ei) (rc_Bitmap ckpt) = Inr (vs, p) \<Longrightarrow> p \<le> GetTotalPower bl ei"
  shows "\<exists>signers p. bl_FindSubsetWithPowerSum bl (ei_valSet ei) (rc_Bitmap ckpt) = Inr (signers, p)
    \<and> 2 * unat (GetTotalPower bl ei) < 3 * unat p
    \<and> bl_VerifyMultiSig bl (rc_BlsMultiSig ckpt) (bl_GetBLSKeySet bl signers) (bl_SignedMsg bl ckpt) = Inr True"
proof -
  let ?T = "GetTotalPower bl ei"
  from assms(1) obtain signers p where
    f: "bl_FindSubsetWithPowerSum bl (ei_valSet ei) (rc_Bitmap ckpt) = Inr (signers, p)"
    and le: "\<not> p * 3 \<le> ?T * 2"
    and v: "bl_VerifyMultiSig bl (rc_BlsMultiSig ckpt) (bl_GetBLSKeySet bl signers) (bl_SignedMsg bl ckpt) = Inr True"
    by (auto simp: VerifyMultiSig_def GetSignersKeySetWithPowerSum_def Let_def split: sum.splits prod.splits if_splits option.splits)
  have "unat p \<le> unat ?T" using assms(3) f by (simp add: word_le_nat_alt)
  then have "unat p * unat (3 :: u64) < 2 ^ 64" "unat ?T * unat (2 :: u64) < 2 ^ 64" using assms(2) by simp_all
  then have "unat (p * 3) = unat p * 3" "unat (?T * 2) = unat ?T * 2"
    using unat_mult_lem [of p 3] unat_mult_lem [of ?T 2] by simp_all
  with le have "unat ?T * 2 < unat p * 3" by (simp add: word_le_nat_alt)
  with f v show ?thesis by auto
qed

text \<open>
  A bitmap that does not select a signer set is always reported as insufficient power,
  never as an invalid multi-signature: the power sum is 0 on that path, and the branch that
  would report the failure is never reached.
\<close>

theorem VerifyMultiSig_bad_bitmap:
  assumes "bl_FindSubsetWithPowerSum bl (ei_valSet ei) (rc_Bitmap ckpt) = Inl e"
  shows "VerifyMultiSig bl ei ckpt = Err (GoErr [ErrInsufficientPower] ''not enough voting power'')"
  using assms by (simp add: VerifyMultiSig_def GetSignersKeySetWithPowerSum_def)

text \<open>
  The monitor's epoch never skips or falls back: handling a checkpoint leaves the epoch
  alone or moves it to the next number, the latter only when the checkpoint passed
  verification; and an inconsistent block hash is reported as an error without moving.
\<close>

theorem checkpoint_moves_one_epoch:
  assumes "handleNewConfirmedCheckpoint env kv ckpt s = (r, s')"
  shows "(m_curEpoch s' = m_curEpoch s
      \<or> GetCurrentEpoch s' = GetCurrentEpoch s + 1 \<and> (\<exists>s1. VerifyCheckpoint env (cr_RawCheckpoint ckpt) s = (Ok (), s1)))
    \<and> (\<forall>e s1. VerifyCheckpoint env (cr_RawCheckpoint ckpt) s = (Err e, s1) \<and> errors_is e ErrInconsistentBlockHash
         \<longrightarrow> (\<exists>e'. r = Err e') \<and> m_curEpoch s' = m_curEpoch s
           \<and> (m_EnableLivenessChecker s \<longrightarrow> CheckpointRecord_ID (me_HashStr env) ckpt \<in> keys_of (m_checkpointChecklist s')))"
proof -
  obtain v s1 where v: "VerifyCheckpoint env (cr_RawCheckpoint ckpt) s = (v, s1)" by force
  note fr = VerifyCheckpoint_frame [OF v]
  show ?thesis
  proof (cases v)
    case (Ok x)
    then have v': "VerifyCheckpoint env (cr_RawCheckpoint ckpt) s = (Ok (), s1)" using v by simp
    obtain s2 where s2: "addIfEnabled env ckpt s1 = (Ok (), s2)" using addIfEnabled_spec(2) by blast
    then have cur: "m_curEpoch s2 = m_curEpoch s" using addIfEnabled_spec(1) fr by metis
    obtain u s3 where u: "UpdateEpochInfo env (GetCurrentEpoch s2 + 1) s2 = (u, s3)" by force
    have run: "handleNewConfirmedCheckpoint env kv ckpt s =
        bindG (wrapG ''failed to update information of epoch: '' (UpdateEpochInfo env (GetCurrentEpoch s2 + 1))) (\<lambda>_.
           wrapG ''failed to set epoch '' (dbM (PutLatestEpoch kv (GetCurrentEpoch s2)))) s2"
      using v' s2 by (simp add: handleNewConfirmedCheckpoint_def)
    show ?thesis
    proof (cases "u = Ok ()")
      case True
      obtain q d' where "PutLatestEpoch kv (GetCurrentEpoch s2) (m_db s3) = (q, d')" by force
      then have "m_curEpoch s' = m_curEpoch s3" using assms run u True
        by (cases q) (auto simp: wrapG_def bindG_def dbM_def zoomG_def)
      moreover have "ei_epochNum (m_curEpoch s3) = GetCurrentEpoch s2 + 1"
        using UpdateEpochInfo_spec [OF u] True by simp
      ultimately show ?thesis using v' cur by (auto simp: GetCurrentEpoch_def)
    next
      case False
      then have "s' = s3" using assms run u by (cases u) (auto simp: wrapG_def bindG_def)
      moreover have "m_curEpoch s3 = m_curEpoch s" using UpdateEpochInfo_spec [OF u] False cur by simp
      ultimately show ?thesis using v' by auto
    qed
  next
    case (Err e)
    then show ?thesis using assms v fr
      by (auto simp: handleNewConfirmedCheckpoint_def addIfEnabled_def addCheckpointToCheckList_def modG_def
          retG_def failG_def bindG_def tryG_def getG_def Let_def Bookkeeper_Add_def Bookkeeper_has_def
          CheckpointRecord_ID_def NewCheckpointRecord_def keys_of_dom update_conv split: if_splits)
  qed (use assms v fr in \<open>auto simp: handleNewConfirmedCheckpoint_def bindG_def tryG_def\<close>)
qed

text \<open>
  A restart resumes where the monitor stopped: after a checkpoint was handled and its
  epoch advanced, a monitor started on the same database asks Babylon for the validators of
  exactly the epoch the stopped one was waiting for.
\<close>

theorem restart_resumes_epoch:
  assumes "kv_contract kv" and "VerifyCheckpoint env (cr_RawCheckpoint ckpt) s = (Ok (), s1)"
    and "handleNewConfirmedCheckpoint env kv ckpt s = (Ok (), s')"
    and "m_db t = m_db s'" and "initEpoch env' kv t = (Ok (), t')"
  shows "GetCurrentEpoch s' = GetCurrentEpoch s + 1 \<and> GetCurrentEpoch t' = GetCurrentEpoch s'"
proof -
  note fr = VerifyCheckpoint_frame [OF assms(2)]
  obtain s2 where s2: "addIfEnabled env ckpt s1 = (Ok (), s2)" using addIfEnabled_spec(2) by blast
  then have cur: "m_curEpoch s2 = m_curEpoch s" using addIfEnabled_spec(1) fr by metis
  then have g: "GetCurrentEpoch s2 = GetCurrentEpoch s" by (simp add: GetCurrentEpoch_def)
  have "bindG (wrapG ''failed to update information of epoch: '' (UpdateEpochInfo env (GetCurrentEpoch s + 1))) (\<lambda>_.
           wrapG ''failed to set epoch '' (dbM (PutLatestEpoch kv (GetCurrentEpoch s)))) s2 = (Ok (), s')"
    using assms(2,3) s2 g by (simp add: handleNewConfirmedCheckpoint_def)
  then obtain s3 where u: "UpdateEpochInfo env (GetCurrentEpoch s + 1) s2 = (Ok (), s3)"
    and p: "dbM (PutLatestEpoch kv (GetCurrentEpoch s)) s3 = (Ok (), s')"
    by (auto elim!: bindG_Ok_E)
  from p obtain d' where d': "PutLatestEpoch kv (GetCurrentEpoch s) (m_db s3) = (Ok (), d')"
    and s': "s' = s3\<lparr>m_db := d'\<rparr>" by (auto simp: dbM_def zoomG_def split: prod.splits)
  have cur': "GetCurrentEpoch s' = GetCurrentEpoch s + 1"
    using UpdateEpochInfo_spec [OF u] s' by (simp add: GetCurrentEpoch_def)
  have "LatestEpoch kv d' = (Ok (Some (GetCurrentEpoch s)), d')"
    using monitor_get_put [OF assms(1) d' [unfolded PutLatestEpoch_def]] by (simp add: LatestEpoch_def)
  then have "dbM (LatestEpoch kv) t = (Ok (Some (GetCurrentEpoch s)), t\<lparr>m_db := d'\<rparr>)"
    using assms(4) s' by (simp add: dbM_def zoomG_def)
  then have "UpdateEpochInfo env' (GetCurrentEpoch s + 1) (t\<lparr>m_db := d'\<rparr>) = (Ok (), t')"
    using assms(5) by (simp add: initEpoch_def mustG_def bindG_def split: prod.splits outcome.splits)
  then have "GetCurrentEpoch t' = GetCurrentEpoch s + 1"
    using UpdateEpochInfo_spec by (fastforce simp: GetCurrentEpoch_def)
  with cur' show ?thesis by simp
qed

subsection \<open>Properties of the liveness checker\<close>

lemma gap_word:
  fixes h m :: u32
  assumes "m \<le> h"
  shows "(word_of_int (uint h - uint m) :: u64) > x \<longleftrightarrow> unat h - unat m > unat x"
proof -
  have le: "unat m \<le> unat h" using assms by (simp add: word_le_nat_alt)
  then have eq: "uint h - uint m = int (unat h - unat m)" unfolding uint_nat by linarith
  have "unat h < 2 ^ 32" using unsigned_less [where 'a = nat and w = h] by simp
  then have lt: "unat h - unat m < 2 ^ 64" by simp
  have "unat (word_of_int (int (unat h - unat m)) :: u64) = unat h - unat m"
    using lt by (simp add: unat_of_nat take_bit_nat_eq_self)
  then show ?thesis by (simp add: word_less_nat_alt eq del: of_int_of_nat_eq)
qed

text \<open>
  C1. The liveness alarm is exact: with \<open>H1\<close> the height at which the epoch ended, \<open>H2\<close> the
  first sighting and \<open>H\<close> the height at which the checkpoint was reported, or the current tip
  when it was not, the check passes exactly when \<open>H\<close> is between \<open>min H1 H2\<close> and \<open>min H1 H2\<close>
  plus the threshold, and raises \<open>ErrLivenessAttack\<close> exactly when \<open>H\<close> is beyond.
\<close>

theorem CheckLiveness_exact:
  assumes "queryEndedEpochBTCHeightWithRetry env (CheckpointRecord_EpochNum cr) s = (Ok h1, s1)"
    and "queryReportedCheckpointBTCHeightWithRetry env (CheckpointRecord_ID (me_HashStr env) cr) s1 = (Ok h, s2)
       \<or> (\<exists>e s1'. queryReportedCheckpointBTCHeightWithRetry env (CheckpointRecord_ID (me_HashStr env) cr) s1 = (Err e, s1')
            \<and> errors_is e ErrCheckpointNotReported \<and> queryBTCHeaderChainTipWithRetry env s1' = (Ok h, s2))"
    and "m = min (unat h1) (unat (cr_FirstSeenBtcHeight cr))" and "limit = unat (m_MaxLiveBtcHeights s2)"
  shows "(CheckLiveness env cr s = (Ok (), s2) \<longleftrightarrow> m \<le> unat h \<and> unat h \<le> m + limit)
    \<and> ((\<exists>e. CheckLiveness env cr s = (Err e, s2) \<and> errors_is e ErrLivenessAttack) \<longleftrightarrow> m + limit < unat h)"
proof -
  let ?mh = "minBTCHeight h1 (cr_FirstSeenBtcHeight cr)"
  have m: "unat ?mh = m" by (auto simp: minBTCHeight_def assms(3) word_less_nat_alt min_def)
  let ?gap = "uint h - uint ?mh"
  have run: "CheckLiveness env cr s =
      (if ?gap < 0 then (Err (errorf ''the gap between two BTC heights should not be negative''), s2)
       else if (word_of_int ?gap :: u64) > m_MaxLiveBtcHeights s2
         then (Err (GoErr [ErrLivenessAttack] ''the gap is larger than the threshold''), s2)
       else (Ok (), s2))"
    using assms(1,2)
    by (auto simp: CheckLiveness_def Let_def bindG_def wrapG_def tryG_def retG_def failG_def getG_def)
  show ?thesis
  proof (cases "?gap < 0")
    case True
    then have "unat h < m" using m unfolding uint_nat by linarith
    with run True show ?thesis by auto
  next
    case False
    then have le: "?mh \<le> h" by (simp add: word_le_def)
    then have "m \<le> unat h" using m by (simp add: word_le_nat_alt)
    moreover have "(word_of_int ?gap :: u64) > m_MaxLiveBtcHeights s2 \<longleftrightarrow> m + limit < unat h"
      using gap_word [OF le] m assms(4) by (simp add: less_diff_conv add.commute)
    ultimately show ?thesis using run False by auto
  qed
qed

lemma Bookkeeper_Remove_lookup:
  "map_of (Bookkeeper_Remove ident b) k = (if k = ident then None else map_of b k)"
  by (simp add: Bookkeeper_Remove_def delete_conv')

text \<open>
  A round of the liveness checker clears exactly the checkpoints that pass: when each
  visited record either passes or fails the check, afterwards the checklist has lost
  precisely the records that passed, the failing ones stay for the next round, and each
  failure was counted once.
\<close>

theorem livenessTick_clears_passed:
  fixes s :: "('w, 'db) monitor"
  assumes "\<And>c (t :: ('w, 'db) monitor). c \<in> set cs \<Longrightarrow> m_MaxLiveBtcHeights t = limit
      \<Longrightarrow> fst (CheckLiveness env c t) = (if pass c then Ok () else Err (alarm c))"
    and "m_MaxLiveBtcHeights s = limit"
  shows "\<exists>s'. livenessTick env cs s = (Ok (), s')
    \<and> (\<forall>k. map_of (m_checkpointChecklist s') k =
         (if \<exists>c \<in> set cs. pass c \<and> CheckpointRecord_ID (me_HashStr env) c = k then None
          else map_of (m_checkpointChecklist s) k))
    \<and> m_livenessAttacks s' = m_livenessAttacks s + length (filter (\<lambda>c. \<not> pass c) cs)"
  using assms
proof (induction cs arbitrary: s)
  case Nil
  then show ?case by (simp add: retG_def)
next
  case (Cons c cs)
  let ?i = "CheckpointRecord_ID (me_HashStr env) c"
  let ?I = "\<lambda>t. m_checkpointChecklist t = m_checkpointChecklist s \<and> m_livenessAttacks t = m_livenessAttacks s
    \<and> m_MaxLiveBtcHeights t = limit"
  have "keeps ?I (CheckLiveness env c)" by (rule keeps_CheckLiveness) (simp add: rpc_frame_def)
  moreover obtain o1 s1 where c: "CheckLiveness env c s = (o1, s1)" by force
  ultimately have s1: "?I s1" using keepsD [where I = ?I] Cons.prems(2) by blast
  have o1: "o1 = (if pass c then Ok () else Err (alarm c))" using Cons.prems(1) [of c s] Cons.prems(2) c by simp
  let ?s2 = "if pass c then s1\<lparr>m_checkpointChecklist := Bookkeeper_Remove ?i (m_checkpointChecklist s1)\<rparr>
             else s1\<lparr>m_livenessAttacks := Suc (m_livenessAttacks s1)\<rparr>"
  have step: "livenessTick env (c # cs) s = livenessTick env cs ?s2"
    using c o1 by (simp add: modG_def)
  have lim: "m_MaxLiveBtcHeights ?s2 = limit" using s1 by simp
  have prem: "fst (CheckLiveness env c t) = (if pass c then Ok () else Err (alarm c))"
    if "c \<in> set cs" "m_MaxLiveBtcHeights t = limit" for c and t :: "('w, 'db) monitor"
    using Cons.prems(1) that by simp
  obtain s' where "livenessTick env cs ?s2 = (Ok (), s')"
    "\<forall>k. map_of (m_checkpointChecklist s') k =
       (if \<exists>c \<in> set cs. pass c \<and> CheckpointRecord_ID (me_HashStr env) c = k then None
        else map_of (m_checkpointChecklist ?s2) k)"
    "m_livenessAttacks s' = m_livenessAttacks ?s2 + length (filter (\<lambda>c. \<not> pass c) cs)"
    using Cons.IH [OF prem lim] by blast
  then show ?case using s1 unfolding step
    by (intro exI [of _ s']) (auto simp: Bookkeeper_Remove_lookup split: if_splits)
qed

lemma findTipLoop_spec:
  assumes "\<And>e (s :: ('w, 'db) monitor). queryRawCheckpointWithRetry env e s = (Ok (Some (R e)), s)"
    and conf: "conf = (\<lambda>e. rs_Status (R (of_nat e)) = Confirmed \<or> rs_Status (R (of_nat e)) = Finalized)"
  shows "(\<exists>e. findTipLoop env n s = (Ok (of_nat e), s) \<and> e < n \<and> conf e \<and> (\<forall>e'. e < e' \<and> e' < n \<longrightarrow> \<not> conf e'))
    \<or> ((\<forall>e < n. \<not> conf e) \<and> (\<exists>err. findTipLoop env n (s :: ('w, 'db) monitor) = (Err err, s)))"
proof (induction n)
  case 0
  then show ?case by (simp add: failG_def)
next
  case (Suc n)
  have step: "findTipLoop env (Suc n) s = (if conf n then (Ok (of_nat n), s) else findTipLoop env n s)"
    using assms(1) [of "of_nat n" s] by (simp add: conf bindG_def wrapG_def retG_def)
  show ?case
  proof (cases "conf n")
    case True
    then show ?thesis using step by (intro disjI1 exI [of _ n]) auto
  next
    case False
    then show ?thesis using Suc step by (auto simp: less_Suc_eq)
  qed
qed

text \<open>
  The search for the tip always ends, and returns the greatest epoch below the current
  one whose checkpoint is confirmed or finalized, or an error when there is none.
\<close>

theorem FindTipConfirmedEpoch_greatest:
  assumes "\<And>e (s :: ('w, 'db) monitor). queryRawCheckpointWithRetry env e s = (Ok (Some (R e)), s)"
    and "\<And>s :: ('w, 'db) monitor. queryCurrentEpochWithRetry env s = (Ok cur, s)"
    and "conf = (\<lambda>e. rs_Status (R (of_nat e)) = Confirmed \<or> rs_Status (R (of_nat e)) = Finalized)"
  shows "(\<exists>e. FindTipConfirmedEpoch env s = (Ok (of_nat e), s) \<and> e < unat cur \<and> conf e
            \<and> (\<forall>e'. e < e' \<and> e' < unat cur \<longrightarrow> \<not> conf e'))
    \<or> ((\<forall>e < unat cur. \<not> conf e) \<and> (\<exists>err. FindTipConfirmedEpoch env (s :: ('w, 'db) monitor) = (Err err, s)))"
proof -
  have "FindTipConfirmedEpoch env s = findTipLoop env (unat cur) s"
    using assms(2) [of s] by (simp add: FindTipConfirmedEpoch_def bindG_def wrapG_def)
  then show ?thesis using findTipLoop_spec [OF assms(1,3)] by simp
qed

subsection \<open>Concrete instances\<close>

definition sampleBls :: blsLib where
  "sampleBls = \<lparr>bl_FindSubsetWithPowerSum = (\<lambda>vs bm. if bm = [] then Inl (errorf ''empty bitmap'') else Inr (vs, 9)),
     bl_GetBLSKeySet = map vk_BlsPubKey, bl_GetTotalPower = (\<lambda>_. 10),
     bl_SignedMsg = rc_BlockHash, bl_VerifyMultiSig = (\<lambda>sig _ _. Inr (sig = [1]))\<rparr>"

definition sampleRaw :: "u64 \<Rightarrow> rawCheckpoint" where
  "sampleRaw e = \<lparr>rc_EpochNum = e, rc_BlockHash = [5], rc_Bitmap = [1], rc_BlsMultiSig = [1]\<rparr>"

definition sampleMonitorEnv :: "unit monitorEnv" where
  "sampleMonitorEnv = \<lparr>me_CurrentEpoch = retG 5,
     me_RawCheckpoint = (\<lambda>e. retG (Some \<lparr>rs_Ckpt = sampleRaw e, rs_Status = (if e < 3 then Finalized else Sealed)\<rparr>)),
     me_BlsPublicKeyList = (\<lambda>_. retG []), me_EndedEpochBTCHeight = (\<lambda>_. retG 100),
     me_ReportedCheckpointBTCHeight = (\<lambda>_. retG 130), me_BTCHeaderChainTip = retG 200,
     me_ContainsBTCBlock = (\<lambda>_. retG True), me_retryU64 = retryOnce, me_retryCkpt = retryOnce,
     me_retryKeys = retryOnce, me_retryU32 = retryOnce, me_retryBool = retryOnce,
     me_ToRawCheckpoint = Inr, me_HashStr = (\<lambda>_. ''ck''), me_BlockHash = sampleHash, me_bls = sampleBls\<rparr>"

type_synonym sampleDb = "string list \<times> ((string \<times> string), bytes) gomap"

definition sampleMonitor :: "(unit, sampleDb) monitor" where
  "sampleMonitor = \<lparr>m_EnableLivenessChecker = True, m_MaxLiveBtcHeights = 20, m_MaxRetryTimes = 1,
     m_curEpoch = NewEpochInfo 4 [], m_checkpointChecklist = [], m_started = False, m_livenessAttacks = 0,
     m_world = (), m_db = ([''epoch'', ''height''], [])\<rparr>"

definition sampleRecord :: checkpointRecord where
  "sampleRecord = NewCheckpointRecord (sampleRaw 4) 105"

lemma sampleMonitor_query:
  "queryRawCheckpointWithRetry sampleMonitorEnv e s
     = (Ok (Some \<lparr>rs_Ckpt = sampleRaw e, rs_Status = (if e < 3 then Finalized else Sealed)\<rparr>), s)"
  "queryCurrentEpochWithRetry sampleMonitorEnv s = (Ok 5, s)"
  "queryEndedEpochBTCHeightWithRetry sampleMonitorEnv e s = (Ok 100, s)"
  "queryReportedCheckpointBTCHeightWithRetry sampleMonitorEnv i s = (Ok 130, s)"
  "queryBlsPublicKeyListWithRetry sampleMonitorEnv e s = (Ok [], s)"
proof -
  have id: "s\<lparr>m_world := ()\<rparr> = s" by (cases s) simp
  have q: "queryWithRetry retryOnce zero (retG x) s = (Ok x, s)" for zero x
    using queryWithRetry_ok [OF retryOnce_contract, of "retG x" s x "()" zero] id by (simp add: retG_def)
  show "queryRawCheckpointWithRetry sampleMonitorEnv e s
     = (Ok (Some \<lparr>rs_Ckpt = sampleRaw e, rs_Status = (if e < 3 then Finalized else Sealed)\<rparr>), s)"
    "queryCurrentEpochWithRetry sampleMonitorEnv s = (Ok 5, s)"
    "queryEndedEpochBTCHeightWithRetry sampleMonitorEnv e s = (Ok 100, s)"
    "queryReportedCheckpointBTCHeightWithRetry sampleMonitorEnv i s = (Ok 130, s)"
    "queryBlsPublicKeyListWithRetry sampleMonitorEnv e s = (Ok [], s)"
    by (simp_all add: query_defs sampleMonitorEnv_def q)
qed

theorem VerifyMultiSig_two_thirds_witness:
  "\<exists>signers p. bl_FindSubsetWithPowerSum sampleBls [] [1] = Inr (signers, p) \<and> 2 * 10 < 3 * unat p"
  using VerifyMultiSig_two_thirds [of sampleBls "NewEpochInfo 4 []" "sampleRaw 4"]
  by (simp add: VerifyMultiSig_def GetSignersKeySetWithPowerSum_def GetTotalPower_def sampleBls_def sampleRaw_def
      NewEpochInfo_def)

theorem VerifyMultiSig_bad_bitmap_witness:
  "VerifyMultiSig sampleBls (NewEpochInfo 4 []) (sampleRaw 4\<lparr>rc_Bitmap := []\<rparr>)
     = Err (GoErr [ErrInsufficientPower] ''not enough voting power'')"
  by (rule VerifyMultiSig_bad_bitmap [where e = "errorf ''empty bitmap''"]) (simp add: sampleBls_def)

lemma sampleMonitor_verify:
  "VerifyCheckpoint sampleMonitorEnv (cr_RawCheckpoint sampleRecord) sampleMonitor = (Ok (), sampleMonitor)"
proof -
  have "VerifyMultiSig sampleBls (NewEpochInfo 4 []) (sampleRaw 4) = Ok ()"
    by (simp add: VerifyMultiSig_def GetSignersKeySetWithPowerSum_def GetTotalPower_def sampleBls_def
        sampleRaw_def)
  moreover have "me_bls sampleMonitorEnv = sampleBls" "me_ToRawCheckpoint sampleMonitorEnv = Inr"
    "m_curEpoch sampleMonitor = NewEpochInfo 4 []" "cr_RawCheckpoint sampleRecord = sampleRaw 4"
    "rc_EpochNum (sampleRaw 4) = 4" "ei_epochNum (NewEpochInfo 4 []) = 4"
    by (simp_all add: sampleMonitorEnv_def sampleMonitor_def sampleRecord_def NewCheckpointRecord_def
        sampleRaw_def NewEpochInfo_def)
  ultimately show ?thesis
    by (simp add: VerifyCheckpoint_def sampleMonitor_query liftG_def wrapG_def bindG_def getG_def retG_def sumOutcome_def)
qed

definition sampleDbAfter :: sampleDb where
  "sampleDbAfter = ([''epoch'', ''height''], [((''epoch'', ''ltsepoch''), uint64ToBytes 4)])"

lemma sampleMonitor_update:
  "UpdateEpochInfo sampleMonitorEnv e t = (Ok (), t\<lparr>m_curEpoch := NewEpochInfo e []\<rparr>)"
  by (simp add: UpdateEpochInfo_def QueryInfoForNextEpoch_def sampleMonitor_query liftG_def wrapG_def bindG_def
      sumOutcome_def retG_def modG_def)

lemma sampleMonitor_handle:
  "\<exists>s'. handleNewConfirmedCheckpoint sampleMonitorEnv sampleKv sampleRecord sampleMonitor = (Ok (), s')
     \<and> m_db s' = sampleDbAfter"
proof -
  let ?s2 = "sampleMonitor\<lparr>m_checkpointChecklist := [(''ck'', sampleRecord)]\<rparr>"
  let ?s3 = "?s2\<lparr>m_curEpoch := NewEpochInfo 5 []\<rparr>"
  have add: "addIfEnabled sampleMonitorEnv sampleRecord sampleMonitor = (Ok (), ?s2)"
    by (simp add: addIfEnabled_def addCheckpointToCheckList_def sampleMonitor_def modG_def Let_def Bookkeeper_Add_def
        Bookkeeper_has_def CheckpointRecord_ID_def sampleMonitorEnv_def sampleRecord_def NewCheckpointRecord_def)
  have cur: "GetCurrentEpoch ?s2 = 4" by (simp add: GetCurrentEpoch_def sampleMonitor_def NewEpochInfo_def)
  have "PutLatestEpoch sampleKv 4 (m_db ?s3) = (Ok (), sampleDbAfter)"
    by (simp add: PutLatestEpoch_def monitor_put_def kvBatchPut_def sampleKv_def epochsBucketName_def
        latestEpochKey_def sampleMonitor_def sampleDbAfter_def)
  then have "dbM (PutLatestEpoch sampleKv 4) ?s3 = (Ok (), ?s3\<lparr>m_db := sampleDbAfter\<rparr>)"
    by (simp add: dbM_def zoomG_def)
  then show ?thesis
    by (simp add: handleNewConfirmedCheckpoint_def sampleMonitor_verify add cur sampleMonitor_update)
qed

theorem checkpoint_moves_one_epoch_witness:
  "\<exists>s'. handleNewConfirmedCheckpoint sampleMonitorEnv sampleKv sampleRecord sampleMonitor = (Ok (), s')
     \<and> (m_curEpoch s' = m_curEpoch sampleMonitor \<or> GetCurrentEpoch s' = GetCurrentEpoch sampleMonitor + 1)"
proof -
  obtain s' where run: "handleNewConfirmedCheckpoint sampleMonitorEnv sampleKv sampleRecord sampleMonitor = (Ok (), s')"
    using sampleMonitor_handle by blast
  from checkpoint_moves_one_epoch [OF run] run show ?thesis by blast
qed

theorem restart_resumes_epoch_witness:
  "\<exists>s' t'. handleNewConfirmedCheckpoint sampleMonitorEnv sampleKv sampleRecord sampleMonitor = (Ok (), s')
     \<and> initEpoch sampleMonitorEnv sampleKv (sampleMonitor\<lparr>m_db := m_db s'\<rparr>) = (Ok (), t')
     \<and> GetCurrentEpoch t' = 5"
proof -
  obtain s' where run: "handleNewConfirmedCheckpoint sampleMonitorEnv sampleKv sampleRecord sampleMonitor = (Ok (), s')"
    and db: "m_db s' = sampleDbAfter" using sampleMonitor_handle by blast
  let ?t = "sampleMonitor\<lparr>m_db := m_db s'\<rparr>"
  have "LatestEpoch sampleKv sampleDbAfter = (Ok (Some 4), sampleDbAfter)"
    by (simp add: LatestEpoch_def monitor_get_def kvView_def sampleKv_def epochsBucketName_def sampleDbAfter_def
        latestEpochKey_def bindG_def tryG_def liftG_def retG_def monitor_codec.dec_enc)
  then have "dbM (LatestEpoch sampleKv) ?t = (Ok (Some 4), ?t)" by (simp add: dbM_def zoomG_def db)
  then have "\<exists>t'. initEpoch sampleMonitorEnv sampleKv ?t = (Ok (), t')"
    by (simp add: initEpoch_def sampleMonitor_update)
  then obtain t' where t': "initEpoch sampleMonitorEnv sampleKv ?t = (Ok (), t')" by blast
  have "GetCurrentEpoch sampleMonitor = 4" by (simp add: GetCurrentEpoch_def sampleMonitor_def NewEpochInfo_def)
  with restart_resumes_epoch [OF sampleKv_contract sampleMonitor_verify run _ t'] run t' show ?thesis by simp
qed

theorem CheckLiveness_exact_witness:
  "\<exists>e. CheckLiveness sampleMonitorEnv sampleRecord sampleMonitor = (Err e, sampleMonitor) \<and> errors_is e ErrLivenessAttack"
  using CheckLiveness_exact [where cr = sampleRecord and s = sampleMonitor and m = 100 and limit = 20,
      OF sampleMonitor_query(3) disjI1 [OF sampleMonitor_query(4)]]
  by (simp add: sampleRecord_def NewCheckpointRecord_def sampleMonitor_def)

theorem livenessTick_clears_passed_witness:
  "\<exists>s'. livenessTick sampleMonitorEnv [sampleRecord] (sampleMonitor\<lparr>m_checkpointChecklist := [(''ck'', sampleRecord)]\<rparr>) = (Ok (), s')
     \<and> map_of (m_checkpointChecklist s') ''ck'' = Some sampleRecord \<and> m_livenessAttacks s' = 1"
proof -
  let ?s = "sampleMonitor\<lparr>m_checkpointChecklist := [(''ck'', sampleRecord)]\<rparr>"
  let ?alarm = "GoErr [ErrLivenessAttack] ''the gap is larger than the threshold''"
  have check: "fst (CheckLiveness sampleMonitorEnv c t) = (if False then Ok () else Err ?alarm)"
    if "c \<in> set [sampleRecord]" "m_MaxLiveBtcHeights t = 20" for c and t :: "(unit, sampleDb) monitor"
    using that by (simp add: CheckLiveness_def sampleMonitor_query wrapG_def bindG_def tryG_def retG_def failG_def getG_def
        Let_def minBTCHeight_def sampleRecord_def NewCheckpointRecord_def)
  have "\<exists>s'. livenessTick sampleMonitorEnv [sampleRecord] ?s = (Ok (), s')
    \<and> (\<forall>k. map_of (m_checkpointChecklist s') k =
         (if \<exists>c \<in> set [sampleRecord]. False \<and> CheckpointRecord_ID (me_HashStr sampleMonitorEnv) c = k then None
          else map_of (m_checkpointChecklist ?s) k))
    \<and> m_livenessAttacks s' = m_livenessAttacks ?s + length (filter (\<lambda>c. \<not> False) [sampleRecord])"
    by (rule livenessTick_clears_passed [where alarm = "\<lambda>_. ?alarm" and limit = 20])
       (rule check, assumption+, simp add: sampleMonitor_def)
  then show ?thesis by (auto simp: sampleMonitor_def)
qed

theorem FindTipConfirmedEpoch_greatest_witness:
  "\<exists>e. FindTipConfirmedEpoch sampleMonitorEnv sampleMonitor = (Ok (of_nat e), sampleMonitor) \<and> e < 5"
  using FindTipConfirmedEpoch_greatest [where env = sampleMonitorEnv and s = sampleMonitor and cur = 5,
      OF sampleMonitor_query(1,2) refl]
  by (auto dest: spec [of _ 0])

end
