(* ===== verification/Genesis.thy ===== *)
theory Genesis
  imports Monitor
begin

text \<open>
  The genesis information the monitor starts from: \<open>types/genesis_info.go\<close> and the check of the
  proofs of possession in \<open>types/pop.go\<close>. The genesis file, the decoders of the Cosmos modules,
  their \<open>Validate\<close> functions and the signature schemes are fields of \<open>genesisEnv\<close>; \<open>'j\<close> is a
  raw JSON message, and an application state maps module names to messages.

  Shown here: the validator set has exactly one entry per genesis transaction, in order, with
  its exact power; a genesis is only accepted if its keys pass one of the two formats of the
  proof of possession.
\<close>

subsection \<open>Data\<close>

record genesisInfo =
  gi_baseBTCHeight :: u32
  gi_epochInterval :: u64
  gi_checkpointTag :: string
  gi_valSet :: "valWithBlsKey list"

record proofOfPossession =
  pop_Ed25519Sig :: bytes
  pop_BlsSig :: "bytes option"

record blsKey =
  blk_Pubkey :: "bytes option"
  blk_Pop :: "proofOfPossession option"

record genesisKey =
  gk_ValidatorAddress :: string
  gk_BlsKey :: "blsKey option"
  gk_ValPubkey :: "bytes option"

record createValidator =
  cv_ValidatorAddress :: string
  cv_Pubkey :: "bytes option"
  cv_Amount :: int

datatype genMsg = MsgCreateValidator createValidator | MsgWrappedCreateValidator "createValidator option" | OtherMsg

record ('w, 'j) genesisEnv =
  ge_GenesisStateFromGenFile :: "string \<Rightarrow> ('w, string \<Rightarrow> 'j option) prog"
  ge_genutilModule :: bool
  ge_UnmarshalMap :: "'j \<Rightarrow> goerr + (string \<Rightarrow> 'j option)"
  ge_UnmarshalList :: "'j \<Rightarrow> goerr + 'j list"
  ge_DecodeGenesisKey :: "'j \<Rightarrow> goerr + genesisKey"
  ge_ValidateCheckpointing :: "genesisKey list \<Rightarrow> goerr + unit"
  ge_VerifyBls :: "bytes \<Rightarrow> bytes \<Rightarrow> bytes \<Rightarrow> bool"
  ge_VerifyEd25519 :: "bytes \<Rightarrow> bytes \<Rightarrow> bytes \<Rightarrow> bool"
  ge_GenTxs :: "(string \<Rightarrow> 'j option) \<Rightarrow> 'j list outcome"
  ge_GenTxValidator :: "genMsg list \<Rightarrow> goerr + unit"
  ge_ValidateAndGetGenTx :: "'j \<Rightarrow> (genMsg list \<Rightarrow> goerr + unit) \<Rightarrow> goerr + genMsg list"
  ge_TokensToConsensusPower :: "int \<Rightarrow> int"
  ge_MustDecodeLightclient :: "'j \<Rightarrow> u32 list outcome"
  ge_ValidateLightclient :: "u32 list \<Rightarrow> goerr + unit"
  ge_DecodeEpochingParams :: "'j \<Rightarrow> goerr + u64"
  ge_DecodeBtccheckpointParams :: "'j \<Rightarrow> goerr + string"
  ge_ValidateBtccheckpointParams :: "string \<Rightarrow> goerr + unit"

definition NewGenesisInfo :: "u32 \<Rightarrow> u64 \<Rightarrow> string \<Rightarrow> valWithBlsKey list \<Rightarrow> genesisInfo" where
  "NewGenesisInfo baseBTCHeight epochInterval checkpointTag valSet =
     \<lparr>gi_baseBTCHeight = baseBTCHeight, gi_epochInterval = epochInterval, gi_checkpointTag = checkpointTag, gi_valSet = valSet\<rparr>"

definition SetBaseBTCHeight :: "u32 \<Rightarrow> genesisInfo \<Rightarrow> genesisInfo" where
  "SetBaseBTCHeight height gi = gi\<lparr>gi_baseBTCHeight := height\<rparr>"

subsection \<open>Proofs of possession\<close>

text \<open>The key of the validator is only read after the BLS signature has been verified.\<close>

definition validPop :: "('w, 'j) genesisEnv \<Rightarrow> bytes \<Rightarrow> bytes option \<Rightarrow> bytes \<Rightarrow> bytes \<Rightarrow> bool outcome" where
  "validPop env blsPubkey valPubkey ed25519Sig blsSig =
     (if \<not> ge_VerifyBls env blsSig blsPubkey ed25519Sig then Ok False
      else case valPubkey of None \<Rightarrow> Panic ''nil pointer dereference'' | Some pk \<Rightarrow> Ok (ge_VerifyEd25519 env pk blsPubkey ed25519Sig))"

text \<open>The public key, the Ed25519 and the BLS signature of a genesis key; \<open>None\<close> if a pointer to one is nil.\<close>

definition popOf :: "genesisKey \<Rightarrow> (bytes \<times> bytes \<times> bytes) option" where
  "popOf gk = (case gk_BlsKey gk of None \<Rightarrow> None
     | Some key \<Rightarrow> (case blk_Pubkey key of None \<Rightarrow> None
       | Some pubkey \<Rightarrow> (case blk_Pop key of None \<Rightarrow> None
         | Some pop \<Rightarrow> (case pop_BlsSig pop of None \<Rightarrow> None | Some blsSig \<Rightarrow> Some (pubkey, pop_Ed25519Sig pop, blsSig)))))"

fun genesisKeysLoop :: "('w, 'j) genesisEnv \<Rightarrow> string set \<Rightarrow> genesisKey list \<Rightarrow> unit outcome" where
  "genesisKeysLoop env addresses [] = Ok ()"
| "genesisKeysLoop env addresses (gk # gks) =
     (if gk_ValidatorAddress gk \<in> addresses then Err (errorf ''duplicate genesis key'')
      else case popOf gk of None \<Rightarrow> Panic ''nil pointer dereference''
        | Some (pubkey, ed25519Sig, blsSig) \<Rightarrow> (case validPop env pubkey (gk_ValPubkey gk) ed25519Sig blsSig of
             Ok valid \<Rightarrow> if valid then genesisKeysLoop env (insert (gk_ValidatorAddress gk) addresses) gks else Err (sentinelErr ErrInvalidPoP)
           | Err e \<Rightarrow> Err e | Panic p \<Rightarrow> Panic p | NoFuel \<Rightarrow> NoFuel))"

definition validateGenesisKeys :: "('w, 'j) genesisEnv \<Rightarrow> genesisKey list \<Rightarrow> unit outcome" where
  "validateGenesisKeys env genesisKeys = genesisKeysLoop env {} genesisKeys"

subsection \<open>Reading the modules\<close>

fun decodeKeys :: "('w, 'j) genesisEnv \<Rightarrow> 'j list \<Rightarrow> goerr + genesisKey list" where
  "decodeKeys env [] = Inr []"
| "decodeKeys env (rk # rks) = (case ge_DecodeGenesisKey env rk of
       Inl e \<Rightarrow> Inl (wrapf ''failed to decode genesis key: '' e)
     | Inr key \<Rightarrow> (case decodeKeys env rks of Inl e \<Rightarrow> Inl e | Inr keys \<Rightarrow> Inr (key # keys)))"

definition getCheckpointGenState :: "('w, 'j) genesisEnv \<Rightarrow> (string \<Rightarrow> 'j option) \<Rightarrow> goerr + genesisKey list" where
  "getCheckpointGenState env appState = (case appState ''checkpointing'' of None \<Rightarrow> Inr []
     | Some msg \<Rightarrow> (case ge_UnmarshalMap env msg of Inl e \<Rightarrow> Inl e
       | Inr raw \<Rightarrow> (case raw ''genesis_keys'' of None \<Rightarrow> Inl (errorf ''genesis_keys not found'')
         | Some genKeysRaw \<Rightarrow> (case ge_UnmarshalList env genKeysRaw of
               Inl e \<Rightarrow> Inl (wrapf ''failed to unmarshal genesis_keys array: '' e)
             | Inr rawKeys \<Rightarrow> decodeKeys env rawKeys))))"

text \<open>The two modules of which only the parameters are read.\<close>

definition paramsOf :: "('w, 'j) genesisEnv \<Rightarrow> ('j \<Rightarrow> goerr + 'p) \<Rightarrow> 'p \<Rightarrow> string \<Rightarrow> (string \<Rightarrow> 'j option) \<Rightarrow> goerr + 'p" where
  "paramsOf env decode zero moduleName appState = (case appState moduleName of None \<Rightarrow> Inr zero
     | Some msg \<Rightarrow> (case ge_UnmarshalMap env msg of Inl e \<Rightarrow> Inl e
       | Inr raw \<Rightarrow> (case raw ''params'' of None \<Rightarrow> Inl (errorf ''params not found'') | Some paramsRaw \<Rightarrow> decode paramsRaw)))"

definition getEpochingParamsFromAppState :: "('w, 'j) genesisEnv \<Rightarrow> (string \<Rightarrow> 'j option) \<Rightarrow> goerr + u64" where
  "getEpochingParamsFromAppState env = paramsOf env (ge_DecodeEpochingParams env) 0 ''epoching''"

definition getBtccheckpointParamsFromAppState :: "('w, 'j) genesisEnv \<Rightarrow> (string \<Rightarrow> 'j option) \<Rightarrow> goerr + string" where
  "getBtccheckpointParamsFromAppState env = paramsOf env (ge_DecodeBtccheckpointParams env) [] ''btccheckpoint''"

text \<open>The heights of the Bitcoin headers in the genesis; \<open>MustUnmarshalJSON\<close> panics.\<close>

definition GetBtclightclientGenesisStateFromAppState :: "('w, 'j) genesisEnv \<Rightarrow> (string \<Rightarrow> 'j option) \<Rightarrow> u32 list outcome" where
  "GetBtclightclientGenesisStateFromAppState env appState = (case appState ''btclightclient'' of
       None \<Rightarrow> Ok [] | Some msg \<Rightarrow> ge_MustDecodeLightclient env msg)"

subsection \<open>Genesis transactions\<close>

definition messageValidatorCreateValidator :: "genMsg list \<Rightarrow> goerr + unit" where
  "messageValidatorCreateValidator msgs =
     (if length msgs \<noteq> 1 then Inl (errorf ''unexpected number of GenTx messages'')
      else case hd msgs of MsgCreateValidator _ \<Rightarrow> Inr () | _ \<Rightarrow> Inl (errorf ''unexpected GenTx message type''))"

text \<open>The message that creates the validator: wrapped in the new format, bare in the old one.\<close>

definition createValidatorOf :: "bool \<Rightarrow> genMsg list \<Rightarrow> createValidator outcome" where
  "createValidatorOf oldFormat msgs = (case msgs of
       [] \<Rightarrow> Err (errorf ''invalid genesis transaction'')
     | msg # _ \<Rightarrow> (if oldFormat then (case msg of MsgCreateValidator cv \<Rightarrow> Ok cv | _ \<Rightarrow> Err (errorf ''unexpected message type''))
         else (case msg of MsgWrappedCreateValidator (Some cv) \<Rightarrow> Ok cv
                 | MsgWrappedCreateValidator None \<Rightarrow> Panic ''nil pointer dereference''
                 | _ \<Rightarrow> Err (errorf ''unexpected message type''))))"

definition keyWithPower :: "('w, 'j) genesisEnv \<Rightarrow> createValidator \<Rightarrow> valWithBlsKey outcome" where
  "keyWithPower env cv =
     (let power = ge_TokensToConsensusPower env (cv_Amount cv) in
      if power < 0 then Err (errorf ''consensus power calculation returned a negative value'')
      else case cv_Pubkey cv of None \<Rightarrow> Panic ''nil pointer dereference''
        | Some key \<Rightarrow> Ok \<lparr>vk_ValidatorAddress = cv_ValidatorAddress cv, vk_BlsPubKey = key, vk_VotingPower = word_of_int power\<rparr>)"

definition genTxValidator :: "('w, 'j) genesisEnv \<Rightarrow> bool \<Rightarrow> 'j \<Rightarrow> ('s, valWithBlsKey) prog" where
  "genTxValidator env oldFormat tx =
     bindG (wrapG ''invalid genesis tx '' (sumG (ge_ValidateAndGetGenTx env tx
         (if oldFormat then messageValidatorCreateValidator else ge_GenTxValidator env)))) (\<lambda>msgs.
     bindG (liftG (createValidatorOf oldFormat msgs)) (\<lambda>cv. liftG (keyWithPower env cv)))"

fun genTxLoop :: "('w, 'j) genesisEnv \<Rightarrow> bool \<Rightarrow> 'j list \<Rightarrow> ('s, valWithBlsKey list) prog" where
  "genTxLoop env oldFormat [] = retG []"
| "genTxLoop env oldFormat (tx # txs) =
     bindG (genTxValidator env oldFormat tx) (\<lambda>v. bindG (genTxLoop env oldFormat txs) (\<lambda>vs. retG (v # vs)))"

subsection \<open>The genesis file\<close>

text \<open>
  The two checks of the keys: \<open>err1\<close> of the module's own \<open>Validate\<close>, \<open>err2\<close> of the other format.
  One of them may fail, with \<open>ErrInvalidPoP\<close> only. The result says whether \<open>err1\<close> was set.
\<close>

definition checkGenesisKeys :: "('w, 'j) genesisEnv \<Rightarrow> genesisKey list \<Rightarrow> ('s, bool) prog" where
  "checkGenesisKeys env keys =
     bindG (tryG (liftG (validateGenesisKeys env keys))) (\<lambda>r2.
       case (ge_ValidateCheckpointing env keys, r2) of
         (Inl e1, Inl e2) \<Rightarrow> failG (GoErr (errChain e1 @ errChain e2) (''invalid checkpointing genesis '' @ errText e1 @ errText e2))
       | (Inl e1, Inr _) \<Rightarrow> if \<not> errors_is e1 ErrInvalidPoP then failG (wrapf ''invalid checkpointing genesis '' e1) else retG True
       | (Inr _, Inl e2) \<Rightarrow> if \<not> errors_is e2 ErrInvalidPoP then failG (wrapf ''invalid checkpointing genesis '' e2) else retG False
       | (Inr _, Inr _) \<Rightarrow> retG False)"

definition baseHeightOf :: "('w, 'j) genesisEnv \<Rightarrow> (string \<Rightarrow> 'j option) \<Rightarrow> ('s, u32) prog" where
  "baseHeightOf env appState =
     bindG (liftG (GetBtclightclientGenesisStateFromAppState env appState)) (\<lambda>headers.
     bindG (wrapG ''invalid btclightclient genesis '' (sumG (ge_ValidateLightclient env headers))) (\<lambda>_. case headers of
       [] \<Rightarrow> panicG ''index out of range'' | h # _ \<Rightarrow> retG h))"

definition GetGenesisInfoFromFile :: "('w, 'j) genesisEnv \<Rightarrow> string \<Rightarrow> ('w, genesisInfo) prog" where
  "GetGenesisInfoFromFile env filePath =
     bindG (wrapG ''failed to read genesis file '' (ge_GenesisStateFromGenFile env filePath)) (\<lambda>appState.
     if \<not> ge_genutilModule env then failG (errorf ''unexpected message type'')
     else
       bindG (wrapG ''invalid checkpointing genesis '' (sumG (getCheckpointGenState env appState))) (\<lambda>keys.
       bindG (checkGenesisKeys env keys) (\<lambda>oldFormat.
       bindG (liftG (ge_GenTxs env appState)) (\<lambda>gentxs.
       bindG (genTxLoop env oldFormat gentxs) (\<lambda>valSet.
       bindG (baseHeightOf env appState) (\<lambda>baseBTCHeight.
       bindG (wrapG ''invalid epoching genesis '' (sumG (getEpochingParamsFromAppState env appState))) (\<lambda>epochInterval.
       bindG (wrapG ''invalid btccheckpoint genesis '' (sumG (getBtccheckpointParamsFromAppState env appState))) (\<lambda>checkpointTag.
       bindG (wrapG ''invalid btccheckpoint params '' (sumG (ge_ValidateBtccheckpointParams env checkpointTag))) (\<lambda>_.
         retG (NewGenesisInfo baseBTCHeight epochInterval checkpointTag valSet))))))))))"

subsection \<open>What is accepted\<close>

text \<open>The proof of possession of a key in the format of \<open>types/pop.go\<close>.\<close>

definition popHolds :: "('w, 'j) genesisEnv \<Rightarrow> genesisKey \<Rightarrow> bool" where
  "popHolds env gk \<longleftrightarrow> (case (popOf gk, gk_ValPubkey gk) of
       (Some (pubkey, ed25519Sig, blsSig), Some pk) \<Rightarrow> ge_VerifyBls env blsSig pubkey ed25519Sig \<and> ge_VerifyEd25519 env pk pubkey ed25519Sig
     | _ \<Rightarrow> False)"

lemma genesisKeysLoop_Ok:
  "genesisKeysLoop env as keys = Ok () \<Longrightarrow> (\<forall>gk\<in>set keys. popHolds env gk) \<and> distinct (map gk_ValidatorAddress keys) \<and> as \<inter> gk_ValidatorAddress ` set keys = {}"
proof (induction keys arbitrary: as)
  case (Cons gk keys)
  then obtain pubkey ed bls pk where p: "gk_ValidatorAddress gk \<notin> as" "popOf gk = Some (pubkey, ed, bls)" "gk_ValPubkey gk = Some pk"
    "ge_VerifyBls env bls pubkey ed" "ge_VerifyEd25519 env pk pubkey ed"
    and rest: "genesisKeysLoop env (insert (gk_ValidatorAddress gk) as) keys = Ok ()"
    by (auto simp: validPop_def split: if_splits option.splits outcome.splits)
  from Cons.IH [OF rest] p show ?case by (auto simp: popHolds_def)
qed simp

text \<open>The entry of a genesis transaction.\<close>

definition entryOf :: "('w, 'j) genesisEnv \<Rightarrow> bool \<Rightarrow> 'j \<Rightarrow> valWithBlsKey \<Rightarrow> bool" where
  "entryOf env oldFormat tx v \<longleftrightarrow> (\<exists>cv msgs. ge_ValidateAndGetGenTx env tx (if oldFormat then messageValidatorCreateValidator else ge_GenTxValidator env) = Inr msgs
     \<and> msgs \<noteq> [] \<and> hd msgs = (if oldFormat then MsgCreateValidator cv else MsgWrappedCreateValidator (Some cv))
     \<and> vk_ValidatorAddress v = cv_ValidatorAddress cv \<and> cv_Pubkey cv = Some (vk_BlsPubKey v)
     \<and> 0 \<le> ge_TokensToConsensusPower env (cv_Amount cv) \<and> vk_VotingPower v = word_of_int (ge_TokensToConsensusPower env (cv_Amount cv)))"

lemma createValidatorOf_Ok:
  "createValidatorOf old msgs = Ok cv \<longleftrightarrow> msgs \<noteq> [] \<and> hd msgs = (if old then MsgCreateValidator cv else MsgWrappedCreateValidator (Some cv))"
  by (cases msgs) (auto simp: createValidatorOf_def split: genMsg.splits option.splits)

lemma keyWithPower_Ok:
  "keyWithPower env cv = Ok v \<Longrightarrow> 0 \<le> ge_TokensToConsensusPower env (cv_Amount cv) \<and> vk_ValidatorAddress v = cv_ValidatorAddress cv
     \<and> cv_Pubkey cv = Some (vk_BlsPubKey v) \<and> vk_VotingPower v = word_of_int (ge_TokensToConsensusPower env (cv_Amount cv))"
  by (auto simp: keyWithPower_def Let_def split: if_splits option.splits)

lemma genTxLoop_Ok:
  "genTxLoop env old txs s = (Ok vs, s') \<Longrightarrow> s' = s \<and> list_all2 (entryOf env old) txs vs"
proof (induction txs arbitrary: vs)
  case (Cons tx txs)
  then obtain v ws s1 s2 where v: "genTxValidator env old tx s = (Ok v, s1)" and ws: "genTxLoop env old txs s1 = (Ok ws, s2)" "vs = v # ws" "s' = s2"
    by (auto elim!: bindG_Ok_E)
  from v obtain msgs cv where "s1 = s" "ge_ValidateAndGetGenTx env tx (if old then messageValidatorCreateValidator else ge_GenTxValidator env) = Inr msgs"
    "createValidatorOf old msgs = Ok cv" "keyWithPower env cv = Ok v"
    unfolding genTxValidator_def by (auto elim!: bindG_Ok_E)
  then have "entryOf env old tx v" "s1 = s" using keyWithPower_Ok unfolding entryOf_def createValidatorOf_Ok by blast+
  with Cons.IH ws show ?case by simp
qed simp

lemma checkGenesisKeys_Ok:
  assumes "checkGenesisKeys env keys s = (Ok old, s')"
  shows "s' = s \<and> (if old then \<exists>e. ge_ValidateCheckpointing env keys = Inl e \<and> errors_is e ErrInvalidPoP else ge_ValidateCheckpointing env keys = Inr ())
    \<and> (old \<longrightarrow> validateGenesisKeys env keys = Ok ())"
  using assms by (cases "ge_ValidateCheckpointing env keys"; cases "validateGenesisKeys env keys")
    (auto simp: checkGenesisKeys_def bindG_def tryG_def liftG_def split: if_splits)

lemma genesis_parts:
  assumes "GetGenesisInfoFromFile env filePath w = (Ok info, w')"
  shows "\<exists>appState keys gentxs old headers. ge_GenesisStateFromGenFile env filePath w = (Ok appState, w')
    \<and> getCheckpointGenState env appState = Inr keys \<and> ge_GenTxs env appState = Ok gentxs
    \<and> (if old then (\<forall>gk\<in>set keys. popHolds env gk) \<and> distinct (map gk_ValidatorAddress keys) else ge_ValidateCheckpointing env keys = Inr ())
    \<and> list_all2 (entryOf env old) gentxs (gi_valSet info)
    \<and> GetBtclightclientGenesisStateFromAppState env appState = Ok headers \<and> headers \<noteq> [] \<and> gi_baseBTCHeight info = hd headers
    \<and> getBtccheckpointParamsFromAppState env appState = Inr (gi_checkpointTag info) \<and> ge_ValidateBtccheckpointParams env (gi_checkpointTag info) = Inr ()"
proof -
  from assms obtain appState keys old s1 gentxs valSet s2 height s3 interval tag where
    gf: "ge_GenesisStateFromGenFile env filePath w = (Ok appState, s1)" and keys: "getCheckpointGenState env appState = Inr keys"
    and chk: "checkGenesisKeys env keys s1 = (Ok old, s2)" and txs: "ge_GenTxs env appState = Ok gentxs"
    and loop: "genTxLoop env old gentxs s2 = (Ok valSet, s3)" and base: "baseHeightOf env appState s3 = (Ok height, w')"
    and tag: "getBtccheckpointParamsFromAppState env appState = Inr tag" "ge_ValidateBtccheckpointParams env tag = Inr ()"
    and info: "info = NewGenesisInfo height interval tag valSet"
    unfolding GetGenesisInfoFromFile_def by (auto elim!: bindG_Ok_E split: if_splits)
  from base obtain headers where h: "GetBtclightclientGenesisStateFromAppState env appState = Ok headers" "headers \<noteq> []" "height = hd headers" "w' = s3"
    unfolding baseHeightOf_def by (auto elim!: bindG_Ok_E split: list.splits)
  have same: "s2 = s1" "s3 = s2" using checkGenesisKeys_Ok [OF chk] genTxLoop_Ok [OF loop] by auto
  have "if old then (\<forall>gk\<in>set keys. popHolds env gk) \<and> distinct (map gk_ValidatorAddress keys) else ge_ValidateCheckpointing env keys = Inr ()"
    using checkGenesisKeys_Ok [OF chk] genesisKeysLoop_Ok [of env "{}" keys] by (auto simp: validateGenesisKeys_def split: if_splits)
  with gf keys txs genTxLoop_Ok [OF loop] h tag info same show ?thesis
    by (intro exI [of _ appState] exI [of _ keys] exI [of _ gentxs] exI [of _ old] exI [of _ headers]) (simp add: NewGenesisInfo_def)
qed

lemma genesis_entries:
  "GetGenesisInfoFromFile env filePath w = (Ok info, w') \<Longrightarrow> \<exists>appState gentxs old.
     ge_GenesisStateFromGenFile env filePath w = (Ok appState, w') \<and> ge_GenTxs env appState = Ok gentxs
     \<and> list_all2 (entryOf env old) gentxs (gi_valSet info)"
  by (drule genesis_parts) blast

text \<open>
  A genesis file is accepted only if the keys in it pass the check of the checkpointing
  module, or fail it with an invalid proof of possession and then all pass the older format,
  with no address twice. The validator set has exactly one entry per genesis transaction, in
  order, with the address, the key and the power of the validator it creates.
\<close>

theorem genesis_accepted:
  assumes "GetGenesisInfoFromFile env filePath w = (Ok info, w')"
  shows "\<exists>appState keys gentxs old headers. ge_GenesisStateFromGenFile env filePath w = (Ok appState, w')
    \<and> getCheckpointGenState env appState = Inr keys \<and> ge_GenTxs env appState = Ok gentxs
    \<and> (if old then (\<forall>gk\<in>set keys. popHolds env gk) \<and> distinct (map gk_ValidatorAddress keys) else ge_ValidateCheckpointing env keys = Inr ())
    \<and> list_all2 (entryOf env old) gentxs (gi_valSet info)
    \<and> GetBtclightclientGenesisStateFromAppState env appState = Ok headers \<and> headers \<noteq> [] \<and> gi_baseBTCHeight info = hd headers
    \<and> getBtccheckpointParamsFromAppState env appState = Inr (gi_checkpointTag info) \<and> ge_ValidateBtccheckpointParams env (gi_checkpointTag info) = Inr ()"
  by (rule genesis_parts [OF assms])

subsection \<open>Concrete instances\<close>

definition sampleGenesisKey :: "string \<Rightarrow> genesisKey" where
  "sampleGenesisKey a = \<lparr>gk_ValidatorAddress = a, gk_BlsKey = Some \<lparr>blk_Pubkey = Some [7],
     blk_Pop = Some \<lparr>pop_Ed25519Sig = [8], pop_BlsSig = Some [9]\<rparr>\<rparr>, gk_ValPubkey = Some [6]\<rparr>"

definition sampleGenTx :: "nat \<Rightarrow> genMsg list" where
  "sampleGenTx j = [MsgCreateValidator \<lparr>cv_ValidatorAddress = (if j = 30 then ''b'' else ''a''), cv_Pubkey = Some [7], cv_Amount = 5000000\<rparr>]"

definition sampleAppState :: "string \<Rightarrow> nat option" where
  "sampleAppState = [''checkpointing'' \<mapsto> 1, ''btclightclient'' \<mapsto> 2, ''epoching'' \<mapsto> 3, ''btccheckpoint'' \<mapsto> 4]"

definition sampleGenesisEnv :: "(unit, nat) genesisEnv" where
  "sampleGenesisEnv = \<lparr>ge_GenesisStateFromGenFile = (\<lambda>_. retG sampleAppState), ge_genutilModule = True,
     ge_UnmarshalMap = (\<lambda>j. Inr (if j = 1 then [''genesis_keys'' \<mapsto> 10] else [''params'' \<mapsto> 11])),
     ge_UnmarshalList = (\<lambda>_. Inr [20, 21]), ge_DecodeGenesisKey = (\<lambda>j. Inr (sampleGenesisKey (if j = 20 then ''b'' else ''a''))),
     ge_ValidateCheckpointing = (\<lambda>_. Inl (sentinelErr ErrInvalidPoP)), ge_VerifyBls = (\<lambda>sig pk m. sig = [9]),
     ge_VerifyEd25519 = (\<lambda>pk m sig. sig = [8]), ge_GenTxs = (\<lambda>_. Ok [30, 31]), ge_GenTxValidator = (\<lambda>_. Inr ()),
     ge_ValidateAndGetGenTx = (\<lambda>j f. case f (sampleGenTx j) of Inl e \<Rightarrow> Inl e | Inr _ \<Rightarrow> Inr (sampleGenTx j)),
     ge_TokensToConsensusPower = (\<lambda>a. a div 1000000), ge_MustDecodeLightclient = (\<lambda>_. Ok [100]),
     ge_ValidateLightclient = (\<lambda>_. Inr ()), ge_DecodeEpochingParams = (\<lambda>_. Inr 10), ge_DecodeBtccheckpointParams = (\<lambda>_. Inr ''62627434''),
     ge_ValidateBtccheckpointParams = (\<lambda>_. Inr ())\<rparr>"

definition sampleGenesis :: genesisInfo where
  "sampleGenesis = NewGenesisInfo 100 10 ''62627434''
     [\<lparr>vk_ValidatorAddress = ''b'', vk_BlsPubKey = [7], vk_VotingPower = 5\<rparr>, \<lparr>vk_ValidatorAddress = ''a'', vk_BlsPubKey = [7], vk_VotingPower = 5\<rparr>]"

lemma sampleGenesis_read: "GetGenesisInfoFromFile sampleGenesisEnv ''genesis.json'' () = (Ok sampleGenesis, ())"
  by code_simp

theorem genesis_accepted_witness:
  "\<exists>keys old. getCheckpointGenState sampleGenesisEnv sampleAppState = Inr keys
     \<and> (if old then (\<forall>gk\<in>set keys. popHolds sampleGenesisEnv gk) \<and> distinct (map gk_ValidatorAddress keys) else ge_ValidateCheckpointing sampleGenesisEnv keys = Inr ())
     \<and> list_all2 (entryOf sampleGenesisEnv old) [30, 31] (gi_valSet sampleGenesis) \<and> gi_baseBTCHeight sampleGenesis = 100"
proof -
  have "ge_GenesisStateFromGenFile sampleGenesisEnv ''genesis.json'' () = (Ok sampleAppState, ())" "ge_GenTxs sampleGenesisEnv sampleAppState = Ok [30, 31]"
    "gi_baseBTCHeight sampleGenesis = 100" by (simp_all add: sampleGenesisEnv_def retG_def sampleGenesis_def NewGenesisInfo_def)
  note sample = this
  from genesis_accepted [OF sampleGenesis_read] obtain appState keys gentxs old where
    parts: "ge_GenesisStateFromGenFile sampleGenesisEnv ''genesis.json'' () = (Ok appState, ())" "ge_GenTxs sampleGenesisEnv appState = Ok gentxs"
    and keys: "getCheckpointGenState sampleGenesisEnv appState = Inr keys"
    "if old then (\<forall>gk\<in>set keys. popHolds sampleGenesisEnv gk) \<and> distinct (map gk_ValidatorAddress keys) else ge_ValidateCheckpointing sampleGenesisEnv keys = Inr ()"
    "list_all2 (entryOf sampleGenesisEnv old) gentxs (gi_valSet sampleGenesis)"
    by (elim exE conjE) (rule that)
  moreover have "appState = sampleAppState" "gentxs = [30, 31]" using parts sample by simp_all
  ultimately show ?thesis using sample(3) by (intro exI [of _ keys] exI [of _ old] conjI) simp_all
qed

end
