(* ===== verification/BTC_Cache.thy ===== *)
theory BTC_Cache
  imports Wire_Types
begin

text \<open>
  The bounded block cache of \<open>types/btccache.go\<close>, shared by the reporter (its view of the
  last \<open>k + w\<close> Bitcoin blocks) and by the monitor's scanner (its unconfirmed blocks).

  \<open>btcCache\<close> is the struct \<open>BTCCache\<close>; one definition per method, with the receiver as the
  last argument. A method that mutates returns the new cache. An index out of range and the
  explicit panic of \<open>add\<close> are \<open>Panic\<close>. The locks only serialise the methods.

  Shown here: the cache never holds more than its capacity and its methods never panic on
  the caches the constructors produce; adding is a sliding window over the added blocks;
  the binary search of \<open>FindBlock\<close> agrees with a linear search; the tail and the trimmed
  prefix are exactly the blocks the callers expect. The locale \<open>block_window\<close> states what
  the two clients rely on when they extend their chain by one block.
\<close>

subsection \<open>The cache\<close>

record btcCache =
  blocks :: "indexedBlock list"
  maxEntries :: u32

definition NewBTCCache :: "u32 \<Rightarrow> goerr + btcCache" where
  "NewBTCCache n =
     (if n = 0 then Inl (sentinelErr ErrInvalidMaxEntries)
      else Inr \<lparr>blocks = [], maxEntries = n\<rparr>)"

definition BTCCache_size :: "btcCache \<Rightarrow> nat" where
  "BTCCache_size b = length (blocks b)"

definition BTCCache_add :: "indexedBlock \<Rightarrow> btcCache \<Rightarrow> btcCache outcome" where
  "BTCCache_add ib b =
     (if BTCCache_size b > unat (maxEntries b) then Panic ''too many entries''
      else if BTCCache_size b = unat (maxEntries b) then
        (case blocks b of
           [] \<Rightarrow> Panic ''index out of range''
         | _ # rest \<Rightarrow> Ok (b\<lparr>blocks := rest @ [ib]\<rparr>))
      else Ok (b\<lparr>blocks := blocks b @ [ib]\<rparr>))"

fun BTCCache_addAll :: "indexedBlock list \<Rightarrow> btcCache \<Rightarrow> btcCache outcome" where
  "BTCCache_addAll [] b = Ok b"
| "BTCCache_addAll (ib # ibs) b = (case BTCCache_add ib b of
      Ok b' \<Rightarrow> BTCCache_addAll ibs b' | r \<Rightarrow> r)"

definition BTCCache_Init :: "indexedBlock list \<Rightarrow> btcCache \<Rightarrow> btcCache outcome" where
  "BTCCache_Init ibs b =
     (if length ibs > unat (maxEntries b) then Err (sentinelErr ErrTooManyEntries)
      else if \<not> SliceIsSorted (\<lambda>x y. ib_Height x < ib_Height y) ibs
        then Err (sentinelErr ErrUnsortedBlocks)
      else BTCCache_addAll ibs b)"

definition BTCCache_First :: "btcCache \<Rightarrow> indexedBlock option" where
  "BTCCache_First b = (case blocks b of [] \<Rightarrow> None | ib # _ \<Rightarrow> Some ib)"

definition BTCCache_Tip :: "btcCache \<Rightarrow> indexedBlock option" where
  "BTCCache_Tip b = (if BTCCache_size b = 0 then None else Some (blocks b ! (length (blocks b) - 1)))"

definition BTCCache_RemoveLast :: "btcCache \<Rightarrow> goerr + btcCache" where
  "BTCCache_RemoveLast b =
     (if BTCCache_size b = 0 then Inl (sentinelErr ErrEmptyCache)
      else Inr (b\<lparr>blocks := take (length (blocks b) - 1) (blocks b)\<rparr>))"

definition BTCCache_RemoveAll :: "btcCache \<Rightarrow> btcCache" where
  "BTCCache_RemoveAll b = b\<lparr>blocks := []\<rparr>"

text \<open>
  \<open>GetLastBlocks\<close>: the downward loop leaves \<open>j\<close> at its initial 0 when no height matches.
\<close>

fun lastIndexOf :: "indexedBlock list \<Rightarrow> u32 \<Rightarrow> nat \<Rightarrow> nat" where
  "lastIndexOf bs stop 0 = 0"
| "lastIndexOf bs stop (Suc i) = (if ib_Height (bs ! i) = stop then i else lastIndexOf bs stop i)"

definition BTCCache_GetLastBlocks :: "u32 \<Rightarrow> btcCache \<Rightarrow> indexedBlock list outcome" where
  "BTCCache_GetLastBlocks stop b =
     (case blocks b of
        [] \<Rightarrow> Panic ''index out of range''
      | first # _ \<Rightarrow>
          (if stop < ib_Height first \<or> ib_Height (last (blocks b)) < stop
           then Err (errorf ''the given stopHeight is out of range'')
           else Ok (drop (lastIndexOf (blocks b) stop (length (blocks b))) (blocks b))))"

definition BTCCache_GetAllBlocks :: "btcCache \<Rightarrow> indexedBlock list" where
  "BTCCache_GetAllBlocks b = blocks b"

text \<open>\<open>TrimConfirmedBlocks\<close> returns nil (\<open>None\<close>) when at most \<open>k\<close> blocks are cached.\<close>

definition BTCCache_TrimConfirmedBlocks ::
  "nat \<Rightarrow> btcCache \<Rightarrow> indexedBlock list option \<times> btcCache" where
  "BTCCache_TrimConfirmedBlocks k b =
     (let l = length (blocks b) in
      if l \<le> k then (None, b)
      else (Some (take (l - k) (blocks b)), b\<lparr>blocks := drop (l - k) (blocks b)\<rparr>))"

function findBlockLoop :: "indexedBlock list \<Rightarrow> u32 \<Rightarrow> int \<Rightarrow> int \<Rightarrow> indexedBlock option" where
  "findBlockLoop bs h leftBound rightBound =
     (if leftBound \<le> rightBound then
        let midPoint = leftBound + (rightBound - leftBound) div 2;
            ib = bs ! nat midPoint in
        if ib_Height ib = h then Some ib
        else if ib_Height ib > h then findBlockLoop bs h leftBound (midPoint - 1)
        else findBlockLoop bs h (midPoint + 1) rightBound
      else None)"
  by pat_completeness auto
termination
  by (relation "measure (\<lambda>(bs, h, l, r). nat (r - l + 1))") auto

declare findBlockLoop.simps [simp del]

definition BTCCache_FindBlock :: "u32 \<Rightarrow> btcCache \<Rightarrow> indexedBlock option outcome" where
  "BTCCache_FindBlock h b =
     (case blocks b of
        [] \<Rightarrow> Panic ''index out of range''
      | first # _ \<Rightarrow>
          (if h < ib_Height first \<or> ib_Height (last (blocks b)) < h then Ok None
           else Ok (findBlockLoop (blocks b) h 0 (int (BTCCache_size b) - 1))))"

definition BTCCache_Resize :: "u32 \<Rightarrow> btcCache \<Rightarrow> goerr + btcCache" where
  "BTCCache_Resize n b =
     (if n = 0 then Inl (sentinelErr ErrInvalidMaxEntries) else Inr (b\<lparr>maxEntries := n\<rparr>))"

definition BTCCache_Trim :: "btcCache \<Rightarrow> btcCache" where
  "BTCCache_Trim b =
     (if BTCCache_size b < unat (maxEntries b) then b
      else b\<lparr>blocks := drop (length (blocks b) - unat (maxEntries b)) (blocks b)\<rparr>)"

subsection \<open>Invariants\<close>

definition wf_cache :: "btcCache \<Rightarrow> bool" where
  "wf_cache b \<longleftrightarrow> maxEntries b \<noteq> 0 \<and> length (blocks b) \<le> unat (maxEntries b)"

text \<open>One block extends another when it names it as its parent and is one higher.\<close>

definition extends :: "(blockHeader \<Rightarrow> hash) \<Rightarrow> indexedBlock \<Rightarrow> indexedBlock \<Rightarrow> bool" where
  "extends bh a b \<longleftrightarrow>
     bh_PrevBlock (ib_Header b) = bh (ib_Header a) \<and>
     unat (ib_Height b) = Suc (unat (ib_Height a))"

definition linked :: "(blockHeader \<Rightarrow> hash) \<Rightarrow> indexedBlock list \<Rightarrow> bool" where
  "linked bh bs \<longleftrightarrow> successively (extends bh) bs"

definition contiguous :: "indexedBlock list \<Rightarrow> bool" where
  "contiguous bs \<longleftrightarrow> successively (\<lambda>a b. unat (ib_Height b) = Suc (unat (ib_Height a))) bs"

lemma wf_cacheE:
  assumes "wf_cache b"
  obtains n where "unat (maxEntries b) = Suc n" and "length (blocks b) \<le> Suc n"
  using assms by (cases "unat (maxEntries b)") (auto simp: wf_cache_def unat_eq_zero)

lemma linked_simps [simp]: "linked bh []" "linked bh [x]"
  by (simp_all add: linked_def)

lemma linked_contiguous: "linked bh bs \<Longrightarrow> contiguous bs"
  unfolding linked_def contiguous_def
  by (erule successively_mono) (simp add: extends_def)

lemma linked_append:
  "linked bh (xs @ ys) \<longleftrightarrow> linked bh xs \<and> linked bh ys \<and>
     (xs \<noteq> [] \<longrightarrow> ys \<noteq> [] \<longrightarrow> extends bh (last xs) (hd ys))"
  by (auto simp: linked_def successively_append_iff)

lemma linked_drop: "linked bh bs \<Longrightarrow> linked bh (drop n bs)"
  by (metis append_take_drop_id linked_append)

lemma linked_take: "linked bh bs \<Longrightarrow> linked bh (take n bs)"
  by (metis append_take_drop_id linked_append)

lemma linked_snoc:
  "linked bh (bs @ [b]) \<longleftrightarrow> linked bh bs \<and> (bs \<noteq> [] \<longrightarrow> extends bh (last bs) b)"
  by (auto simp: linked_append)

lemma contiguous_nth:
  assumes "contiguous bs" and "i < length bs"
  shows "unat (ib_Height (bs ! i)) = unat (ib_Height (hd bs)) + i"
  using assms
proof (induction i)
  case 0
  then show ?case by (simp add: hd_conv_nth)
next
  case (Suc i)
  from Suc.prems have "unat (ib_Height (bs ! Suc i)) = Suc (unat (ib_Height (bs ! i)))"
    by (simp add: contiguous_def successively_conv_nth)
  with Suc show ?case by simp
qed

lemma contiguous_strict:
  assumes "contiguous bs"
  shows "sorted_wrt (<) (map ib_Height bs)"
  by (auto simp: sorted_wrt_iff_nth_less word_less_nat_alt contiguous_nth [OF assms])

subsection \<open>Adding is a sliding window\<close>

lemma BTCCache_add_window:
  assumes "wf_cache b"
  shows "BTCCache_add ib b =
    Ok (b\<lparr>blocks := drop (Suc (length (blocks b)) - unat (maxEntries b)) (blocks b) @ [ib]\<rparr>)"
  using assms
  by (cases "blocks b") (auto simp: BTCCache_add_def BTCCache_size_def wf_cache_def not_less Suc_diff_le unat_gt_0)

lemma wf_cache_add: "wf_cache b \<Longrightarrow> BTCCache_add ib b = Ok b' \<Longrightarrow> wf_cache b'"
  by (auto simp: BTCCache_add_window elim!: wf_cacheE) (auto simp: wf_cache_def)

lemma BTCCache_addAll_window:
  "wf_cache b \<Longrightarrow> BTCCache_addAll ibs b =
    Ok (b\<lparr>blocks := drop (length (blocks b) + length ibs - unat (maxEntries b)) (blocks b @ ibs)\<rparr>)"
proof (induction ibs arbitrary: b)
  case Nil
  then show ?case by (simp add: wf_cache_def)
next
  case (Cons ib ibs)
  let ?n = "unat (maxEntries b)"
  let ?b' = "b\<lparr>blocks := drop (Suc (length (blocks b)) - ?n) (blocks b) @ [ib]\<rparr>"
  have add: "BTCCache_add ib b = Ok ?b'" using Cons.prems by (rule BTCCache_add_window)
  then have wf': "wf_cache ?b'" using Cons.prems wf_cache_add by blast
  obtain m where "?n = Suc m" "length (blocks b) \<le> Suc m" using Cons.prems by (rule wf_cacheE)
  then have "drop (length (blocks ?b') + length ibs - ?n) (blocks ?b' @ ibs) =
      drop (length (blocks b) + length (ib # ibs) - ?n) (blocks b @ ib # ibs)"
    by (cases "length (blocks b) = ?n") (auto simp: drop_append Suc_diff_le)
  with Cons.IH [OF wf'] add show ?case by simp
qed

lemma BTCCache_Init_empty:
  assumes "NewBTCCache n = Inr b" and "length ibs \<le> unat n"
    and "sorted (map ib_Height ibs)"
  shows "BTCCache_Init ibs b = Ok \<lparr>blocks = ibs, maxEntries = n\<rparr>"
proof -
  from assms(1) have b: "b = \<lparr>blocks = [], maxEntries = n\<rparr>" and "n \<noteq> 0"
    by (auto simp: NewBTCCache_def split: if_splits)
  then have "wf_cache b" by (simp add: wf_cache_def)
  then show ?thesis using assms(2,3) b
    by (simp add: BTCCache_Init_def SliceIsSorted_key BTCCache_addAll_window)
qed

subsection \<open>Looking blocks up\<close>

lemma findBlockLoop_Some:
  "findBlockLoop bs h l r = Some ib \<Longrightarrow> \<exists>i. l \<le> i \<and> i \<le> r \<and> bs ! nat i = ib \<and> ib_Height ib = h"
proof (induction bs h l r rule: findBlockLoop.induct)
  case (1 bs h l r)
  let ?m = "l + (r - l) div 2"
  from "1.prems" have le: "l \<le> r" by (subst (asm) findBlockLoop.simps) (simp split: if_splits)
  then have m: "l \<le> ?m" "?m \<le> r" by auto
  consider "ib_Height (bs ! nat ?m) = h" | "ib_Height (bs ! nat ?m) > h" | "ib_Height (bs ! nat ?m) < h"
    by force
  then show ?case
  proof cases
    case 1
    with le have "findBlockLoop bs h l r = Some (bs ! nat ?m)"
      by (subst findBlockLoop.simps) (simp add: Let_def)
    with "1.prems" have "bs ! nat ?m = ib" by simp
    with 1 m show ?thesis by blast
  next
    case 2
    with le "1.prems" have "findBlockLoop bs h l (?m - 1) = Some ib"
      by (subst (asm) findBlockLoop.simps) (auto simp: Let_def split: if_splits)
    then obtain i where "l \<le> i" "i \<le> ?m - 1" "bs ! nat i = ib" "ib_Height ib = h"
      using "1.IH"(1) [OF le refl refl] 2 by auto
    with m show ?thesis by (intro exI [of _ i]) auto
  next
    case 3
    with le "1.prems" have "findBlockLoop bs h (?m + 1) r = Some ib"
      by (subst (asm) findBlockLoop.simps) (auto simp: Let_def split: if_splits)
    then obtain i where "?m + 1 \<le> i" "i \<le> r" "bs ! nat i = ib" "ib_Height ib = h"
      using "1.IH"(2) [OF le refl refl less_imp_neq [OF 3] less_not_sym [OF 3]] by auto
    with m show ?thesis by (intro exI [of _ i]) auto
  qed
qed

lemma findBlockLoop_complete:
  "\<lbrakk>sorted_wrt (<) (map ib_Height bs); 0 \<le> l; r < int (length bs); l \<le> int i; int i \<le> r;
    ib_Height (bs ! i) = h\<rbrakk> \<Longrightarrow> findBlockLoop bs h l r = Some (bs ! i)"
proof (induction bs h l r rule: findBlockLoop.induct)
  case (1 bs h l r)
  let ?m = "l + (r - l) div 2"
  from "1.prems" have le: "l \<le> r" by simp
  then have m: "l \<le> ?m" "?m \<le> r" by auto
  then have mlen: "nat ?m < length bs" "0 \<le> ?m" using "1.prems"(2,3) by auto
  have ilen: "i < length bs" using "1.prems"(3,5) by simp
  have mono: "ib_Height (bs ! j) < ib_Height (bs ! k)" if "j < k" "k < length bs" for j k
    using "1.prems"(1) that by (simp add: sorted_wrt_map sorted_wrt_iff_nth_less)
  consider "int i = ?m" | "int i < ?m" | "?m < int i" by linarith
  then show ?case
  proof cases
    case 1
    then have "nat ?m = i" by simp
    with le "1.prems"(6) show ?thesis by (subst findBlockLoop.simps) (simp add: Let_def)
  next
    case 2
    then have gt: "h < ib_Height (bs ! nat ?m)" using mono [of i "nat ?m"] mlen "1.prems"(6) by auto
    then have "findBlockLoop bs h l (?m - 1) = Some (bs ! i)"
      using "1.IH"(1) [OF le refl refl] "1.prems" 2 m by force
    with gt le show ?thesis by (subst findBlockLoop.simps) (auto simp: Let_def)
  next
    case 3
    then have lt: "ib_Height (bs ! nat ?m) < h" using mono [of "nat ?m" i] mlen ilen "1.prems"(6) by auto
    then have "findBlockLoop bs h (?m + 1) r = Some (bs ! i)"
      using "1.IH"(2) [OF le refl refl less_imp_neq [OF lt] less_not_sym [OF lt]] "1.prems" 3 m by simp
    with lt le show ?thesis by (subst findBlockLoop.simps) (auto simp: Let_def)
  qed
qed

lemma FindBlock_nonempty:
  "blocks b \<noteq> [] \<Longrightarrow> BTCCache_FindBlock h b =
     (if h < ib_Height (hd (blocks b)) \<or> ib_Height (last (blocks b)) < h then Ok None
      else Ok (findBlockLoop (blocks b) h 0 (int (length (blocks b)) - 1)))"
  by (cases "blocks b") (simp_all add: BTCCache_FindBlock_def BTCCache_size_def)

lemma lastIndexOf_found:
  "i < n \<Longrightarrow> ib_Height (bs ! i) = stop \<Longrightarrow> (\<And>j. i < j \<Longrightarrow> j < n \<Longrightarrow> ib_Height (bs ! j) \<noteq> stop)
    \<Longrightarrow> lastIndexOf bs stop n = i"
proof (induction n)
  case 0
  then show ?case by simp
next
  case (Suc n)
  then show ?case by (cases "i = n") auto
qed

subsection \<open>The interface the chain followers rely on\<close>

text \<open>
  The reporter and the monitor's scanner both follow the Bitcoin chain by asking the cache
  for its tip and pushing a block that connects to it. What they rely on is stated once,
  over any cache with these two operations.
\<close>

locale block_window =
  fixes window :: "'c \<Rightarrow> indexedBlock list"
    and wf :: "'c \<Rightarrow> bool"
    and tip :: "'c \<Rightarrow> indexedBlock option"
    and push :: "indexedBlock \<Rightarrow> 'c \<Rightarrow> 'c outcome"
  assumes tip_window: "tip c = (if window c = [] then None else Some (last (window c)))"
    and push_window: "wf c \<Longrightarrow> \<exists>c' n. push ib c = Ok c' \<and> wf c' \<and> window c' = drop n (window c) @ [ib]"
begin

lemma push_ok: "wf c \<Longrightarrow> \<exists>c'. push ib c = Ok c' \<and> wf c'"
  using push_window by blast

lemma push_tip: "wf c \<Longrightarrow> push ib c = Ok c' \<Longrightarrow> tip c' = Some ib"
  using push_window [of c ib] by (auto simp: tip_window)

lemma push_linked:
  assumes "wf c" and "linked bh (window c)" and "push ib c = Ok c'"
    and "tip c = Some t" and "extends bh t ib"
  shows "linked bh (window c')"
proof -
  obtain n where c': "window c' = drop n (window c) @ [ib]"
    using push_window [OF assms(1), of ib] assms(3) by auto
  from assms(4) have last: "window c \<noteq> []" "t = last (window c)"
    by (auto simp: tip_window split: if_splits)
  have "linked bh (drop n (window c))" using assms(2) by (rule linked_drop)
  moreover have "last (drop n (window c)) = t" if "drop n (window c) \<noteq> []"
    using that last by (simp add: last_drop)
  ultimately show ?thesis using assms(5) by (auto simp: c' linked_snoc)
qed

end

interpretation btc_window: block_window blocks wf_cache BTCCache_Tip BTCCache_add
proof unfold_locales
  fix c show "BTCCache_Tip c = (if blocks c = [] then None else Some (last (blocks c)))"
    by (simp add: BTCCache_Tip_def BTCCache_size_def last_conv_nth)
next
  fix c ib assume "wf_cache c"
  then show "\<exists>c' n. BTCCache_add ib c = Ok c' \<and> wf_cache c' \<and> blocks c' = drop n (blocks c) @ [ib]"
    using wf_cache_add [of c ib] by (force simp: BTCCache_add_window)
qed

subsection \<open>Sequences of calls\<close>

text \<open>
  Any interleaving of the locked methods is a sequence of calls. \<open>ResizeTrim\<close> is the pair the
  reporter issues after a bootstrap; a call that returns an error leaves the cache alone.
\<close>

datatype cacheCall =
    CallAdd indexedBlock | CallRemoveLast | CallRemoveAll
  | CallTrimConfirmed nat | CallResizeTrim u32

fun cacheCall_step :: "cacheCall \<Rightarrow> btcCache \<Rightarrow> btcCache outcome" where
  "cacheCall_step (CallAdd ib) b = BTCCache_add ib b"
| "cacheCall_step CallRemoveLast b = (case BTCCache_RemoveLast b of Inl _ \<Rightarrow> Ok b | Inr b' \<Rightarrow> Ok b')"
| "cacheCall_step CallRemoveAll b = Ok (BTCCache_RemoveAll b)"
| "cacheCall_step (CallTrimConfirmed k) b = Ok (snd (BTCCache_TrimConfirmedBlocks k b))"
| "cacheCall_step (CallResizeTrim n) b = (case BTCCache_Resize n b of
      Inl _ \<Rightarrow> Ok b | Inr b' \<Rightarrow> Ok (BTCCache_Trim b'))"

fun cacheCalls :: "cacheCall list \<Rightarrow> btcCache \<Rightarrow> btcCache outcome" where
  "cacheCalls [] b = Ok b"
| "cacheCalls (c # cs) b = (case cacheCall_step c b of Ok b' \<Rightarrow> cacheCalls cs b' | r \<Rightarrow> r)"

lemma cacheCall_step_wf: "wf_cache b \<Longrightarrow> \<exists>b'. cacheCall_step c b = Ok b' \<and> wf_cache b'"
proof (cases c)
  case (CallAdd ib)
  assume "wf_cache b"
  then show ?thesis using CallAdd btc_window.push_ok by simp
next
  case (CallResizeTrim n)
  assume "wf_cache b"
  then show ?thesis using CallResizeTrim
    by (auto simp: BTCCache_Resize_def BTCCache_Trim_def BTCCache_size_def wf_cache_def)
qed (auto simp: BTCCache_RemoveLast_def BTCCache_RemoveAll_def BTCCache_TrimConfirmedBlocks_def
       Let_def wf_cache_def)

subsection \<open>Properties\<close>



text \<open>
  Adding blocks one by one to a new cache of capacity \<open>n\<close> keeps exactly the last \<open>n\<close> of
  them, in order.
\<close>

theorem cache_sliding_window:
  assumes "NewBTCCache n = Inr b"
  shows "BTCCache_addAll ibs b = Ok \<lparr>blocks = drop (length ibs - unat n) ibs, maxEntries = n\<rparr>"
proof -
  from assms have "b = \<lparr>blocks = [], maxEntries = n\<rparr>" "n \<noteq> 0"
    by (auto simp: NewBTCCache_def split: if_splits)
  then show ?thesis by (simp add: BTCCache_addAll_window wf_cache_def)
qed

theorem cache_sliding_window_witness:
  "BTCCache_addAll (map sampleBlock [1, 2, 3, 4, 5]) \<lparr>blocks = [], maxEntries = 3\<rparr>
    = Ok \<lparr>blocks = map sampleBlock [3, 4, 5], maxEntries = 3\<rparr>"
  using cache_sliding_window [of 3 "\<lparr>blocks = [], maxEntries = 3\<rparr>" "map sampleBlock [1, 2, 3, 4, 5]"]
  by (simp add: NewBTCCache_def)

lemma FindBlock_find:
  assumes "blocks b \<noteq> []" and "sorted_wrt (<) (map ib_Height (blocks b))"
  shows "BTCCache_FindBlock h b = Ok (find (\<lambda>ib. ib_Height ib = h) (blocks b))"
proof -
  let ?bs = "blocks b"
  have mono: "ib_Height (?bs ! i) \<le> ib_Height (?bs ! j)" if "i \<le> j" "j < length ?bs" for i j
    using assms(2) that by (cases "i = j") (auto simp: sorted_wrt_iff_nth_less less_imp_le)
  have hd_le: "ib_Height (hd ?bs) \<le> ib_Height ib" "ib_Height ib \<le> ib_Height (last ?bs)"
    if "ib \<in> set ?bs" for ib
    using that assms(1) mono by (auto simp: in_set_conv_nth hd_conv_nth last_conv_nth)
  show ?thesis
  proof (cases "find (\<lambda>ib. ib_Height ib = h) ?bs")
    case None
    then have none: "ib_Height ib \<noteq> h" if "ib \<in> set ?bs" for ib
      using that by (simp add: find_None_iff)
    have "findBlockLoop ?bs h 0 (int (length ?bs) - 1) = None"
    proof (rule ccontr)
      assume "findBlockLoop ?bs h 0 (int (length ?bs) - 1) \<noteq> None"
      then obtain ib where "findBlockLoop ?bs h 0 (int (length ?bs) - 1) = Some ib" by blast
      then obtain i where "0 \<le> i" "i \<le> int (length ?bs) - 1" "?bs ! nat i = ib" "ib_Height ib = h"
        using findBlockLoop_Some by blast
      with none show False by (metis assms(1) le_less_trans nat_less_iff nth_mem zle_diff1_eq)
    qed
    with None assms(1) show ?thesis by (simp add: FindBlock_nonempty)
  next
    case (Some ib)
    then obtain i where i: "i < length ?bs" "?bs ! i = ib" "ib_Height ib = h"
      by (auto simp: find_Some_iff)
    then have "findBlockLoop ?bs h 0 (int (length ?bs) - 1) = Some ib"
      using findBlockLoop_complete [OF assms(2), of 0 "int (length ?bs) - 1" i h] by simp
    moreover have "\<not> (h < ib_Height (hd ?bs) \<or> ib_Height (last ?bs) < h)"
      using hd_le [of ib] i by (metis leD nth_mem)
    ultimately show ?thesis using Some assms(1) by (simp add: FindBlock_nonempty)
  qed
qed

text \<open>
  C39. On a cache whose heights strictly increase, the binary search of \<open>FindBlock\<close> returns
  what a linear search for the height returns, nil included.
\<close>

theorem FindBlock_linear:
  assumes "blocks b \<noteq> []" and "sorted_wrt (<) (map ib_Height (blocks b))"
  shows "BTCCache_FindBlock h b = Ok (find (\<lambda>ib. ib_Height ib = h) (blocks b))"
  using assms by (rule FindBlock_find)

theorem FindBlock_linear_witness:
  "BTCCache_FindBlock 7 \<lparr>blocks = map sampleBlock [5, 7, 8], maxEntries = 3\<rparr> = Ok (Some (sampleBlock 7))
   \<and> BTCCache_FindBlock 6 \<lparr>blocks = map sampleBlock [5, 7, 8], maxEntries = 3\<rparr> = Ok None"
  using FindBlock_linear [of "\<lparr>blocks = map sampleBlock [5, 7, 8], maxEntries = 3\<rparr>"] by simp

lemma GetLastBlocks_filter:
  assumes "blocks b \<noteq> []" and "contiguous (blocks b)"
  shows "BTCCache_GetLastBlocks stop b =
    (if stop < ib_Height (hd (blocks b)) \<or> ib_Height (last (blocks b)) < stop
     then Err (errorf ''the given stopHeight is out of range'')
     else Ok (filter (\<lambda>ib. stop \<le> ib_Height ib) (blocks b)))"
proof (cases "stop < ib_Height (hd (blocks b)) \<or> ib_Height (last (blocks b)) < stop")
  case True
  with assms(1) show ?thesis by (auto simp: BTCCache_GetLastBlocks_def split: list.split)
next
  case False
  let ?bs = "blocks b" and ?i = "unat stop - unat (ib_Height (hd (blocks b)))"
  have h: "unat (ib_Height (?bs ! j)) = unat (ib_Height (hd ?bs)) + j" if "j < length ?bs" for j
    using assms(2) that by (rule contiguous_nth)
  have ge: "unat (ib_Height (hd ?bs)) \<le> unat stop" using False by (simp add: word_le_nat_alt not_less)
  have "unat stop \<le> unat (ib_Height (last ?bs))" using False by (simp add: word_le_nat_alt not_less)
  moreover have "unat (ib_Height (last ?bs)) = unat (ib_Height (hd ?bs)) + (length ?bs - 1)"
    using h [of "length ?bs - 1"] assms(1) by (simp add: last_conv_nth)
  moreover have "0 < length ?bs" using assms(1) by simp
  ultimately have i: "?i < length ?bs" by linarith
  have "lastIndexOf ?bs stop (length ?bs) = ?i"
    using i h ge by (intro lastIndexOf_found) (auto simp: word_unat_eq_iff)
  moreover have "filter (\<lambda>ib. stop \<le> ib_Height ib) ?bs = drop ?i ?bs"
  proof -
    have "filter (\<lambda>ib. stop \<le> ib_Height ib) (take ?i ?bs) = []"
      using h by (auto simp: filter_empty_conv in_set_conv_nth word_le_nat_alt)
    moreover have "filter (\<lambda>ib. stop \<le> ib_Height ib) (drop ?i ?bs) = drop ?i ?bs"
      using h ge by (auto simp: filter_id_conv in_set_conv_nth word_le_nat_alt)
    ultimately show ?thesis by (metis append_Nil append_take_drop_id filter_append)
  qed
  ultimately show ?thesis using False assms(1)
    by (auto simp: BTCCache_GetLastBlocks_def split: list.split)
qed

text \<open>
  On a cache of consecutive blocks, \<open>GetLastBlocks\<close> fails exactly when the requested height
  is outside the cached range, and otherwise returns exactly the cached blocks from that
  height up to the tip.
\<close>

theorem GetLastBlocks_suffix:
  assumes "blocks b \<noteq> []" and "contiguous (blocks b)"
  shows "BTCCache_GetLastBlocks stop b =
    (if stop < ib_Height (hd (blocks b)) \<or> ib_Height (last (blocks b)) < stop
     then Err (errorf ''the given stopHeight is out of range'')
     else Ok (filter (\<lambda>ib. stop \<le> ib_Height ib) (blocks b)))"
  using assms by (rule GetLastBlocks_filter)

theorem GetLastBlocks_suffix_witness:
  "BTCCache_GetLastBlocks 7 \<lparr>blocks = map sampleBlock [6, 7, 8], maxEntries = 3\<rparr>
     = Ok (map sampleBlock [7, 8])
   \<and> BTCCache_GetLastBlocks 9 \<lparr>blocks = map sampleBlock [6, 7, 8], maxEntries = 3\<rparr>
     = Err (errorf ''the given stopHeight is out of range'')"
  using GetLastBlocks_suffix [of "\<lparr>blocks = map sampleBlock [6, 7, 8], maxEntries = 3\<rparr>"]
  by (simp add: contiguous_def)

text \<open>
  \<open>TrimConfirmedBlocks k\<close> splits the cache: what it returns followed by what it keeps is
  the old content, what it keeps are the last \<open>k\<close> blocks, and it returns nil exactly
  when nothing is \<open>k\<close> deep yet.
\<close>

theorem TrimConfirmedBlocks_split:
  "let (conf, b') = BTCCache_TrimConfirmedBlocks k b in
     (case conf of None \<Rightarrow> length (blocks b) \<le> k \<and> b' = b
      | Some cs \<Rightarrow> cs \<noteq> [] \<and> cs @ blocks b' = blocks b \<and> length (blocks b') = k
                  \<and> maxEntries b' = maxEntries b)"
  by (auto simp: BTCCache_TrimConfirmedBlocks_def Let_def)

text \<open>
  After the reporter's \<open>Resize\<close> and \<open>Trim\<close>, the cache is within its new capacity whatever
  it held before, and holds exactly the most recent blocks.
\<close>

theorem Resize_Trim_recent:
  assumes "BTCCache_Resize n b = Inr b'"
  shows "wf_cache (BTCCache_Trim b') \<and>
    blocks (BTCCache_Trim b') = drop (length (blocks b) - unat n) (blocks b)"
  using assms
  by (auto simp: BTCCache_Resize_def BTCCache_Trim_def BTCCache_size_def wf_cache_def split: if_splits)

theorem Resize_Trim_recent_witness:
  "blocks (BTCCache_Trim \<lparr>blocks = map sampleBlock [6, 7, 8], maxEntries = 2\<rparr>) = map sampleBlock [7, 8]"
  using Resize_Trim_recent [of 2 "\<lparr>blocks = map sampleBlock [6, 7, 8], maxEntries = 9\<rparr>"]
  by (simp add: BTCCache_Resize_def)

end
