(* ===== verification/BTC_Client.thy ===== *)
theory BTC_Client
  imports BTC_Cache Retry_Wrap
begin

text \<open>
  The Bitcoin client of \<open>btcclient/query.go\<close>, \<open>btcclient/client.go\<close>,
  \<open>btcclient/client_wallet.go\<close>, \<open>btcclient/notifier.go\<close> and \<open>netparams/netparams.go\<close>. The RPC
  calls of \<open>bitcoind\<close> and the retry library are the fields of the record \<open>btcRpc\<close>; every
  wrapper of the repository is a definition over them.

  Shown here: against a node that serves one chain, \<open>FindTailBlocksByHeight\<close> returns exactly
  the blocks from the base height to the tip, each linked to its parent; heights outside
  32 bits are a panic and never silently truncated.
\<close>

subsection \<open>The node\<close>

record 'w btcRpc =
  rpc_GetBlockCount :: "('w, int) prog"
  rpc_GetBestBlockHash :: "('w, hash) prog"
  rpc_GetBlockHash :: "int \<Rightarrow> ('w, hash) prog"
  rpc_GetBlock :: "hash \<Rightarrow> ('w, msgBlock) prog"
  rpc_GetBlockVerbose :: "hash \<Rightarrow> ('w, int) prog"
  rpc_retryInt :: "('w, int) retryDo"
  rpc_retryHash :: "('w, hash) retryDo"
  rpc_retryBlock :: "('w, msgBlock) retryDo"
  rpc_maxRetryTimes :: nat

definition rpc_contract :: "'w btcRpc \<Rightarrow> bool" where
  "rpc_contract rpc \<longleftrightarrow> retry_contract (rpc_retryInt rpc) \<and> retry_contract (rpc_retryHash rpc)
     \<and> retry_contract (rpc_retryBlock rpc)"

subsection \<open>Queries\<close>

definition getBestBlockHashWithRetry :: "'w btcRpc \<Rightarrow> ('w, hash) prog" where
  "getBestBlockHashWithRetry c =
     rpc_retryHash c (Some (rpc_maxRetryTimes c)) (\<lambda>_. True) (rpc_GetBestBlockHash c)"

definition getBlockHashWithRetry :: "'w btcRpc \<Rightarrow> u32 \<Rightarrow> ('w, hash) prog" where
  "getBlockHashWithRetry c height =
     rpc_retryHash c (Some (rpc_maxRetryTimes c)) (\<lambda>_. True) (rpc_GetBlockHash c (uint height))"

definition getBlockWithRetry :: "'w btcRpc \<Rightarrow> hash \<Rightarrow> ('w, msgBlock) prog" where
  "getBlockWithRetry c h = rpc_retryBlock c (Some (rpc_maxRetryTimes c)) (\<lambda>_. True) (rpc_GetBlock c h)"

definition getBlockVerboseWithRetry :: "'w btcRpc \<Rightarrow> hash \<Rightarrow> ('w, int) prog" where
  "getBlockVerboseWithRetry c h =
     rpc_retryInt c (Some (rpc_maxRetryTimes c)) (\<lambda>_. True) (rpc_GetBlockVerbose c h)"

definition getBlockCountWithRetry :: "'w btcRpc \<Rightarrow> ('w, int) prog" where
  "getBlockCountWithRetry c =
     rpc_retryInt c (Some (rpc_maxRetryTimes c)) (\<lambda>_. True) (rpc_GetBlockCount c)"

definition GetBestBlock :: "'w btcRpc \<Rightarrow> ('w, u32) prog" where
  "GetBestBlock c = bindG (getBlockCountWithRetry c)
     (\<lambda>height. if height < 0 \<or> height > 2 ^ 32 - 1 then panicG ''height is out of uint32 range''
        else retG (word_of_int height))"

definition GetBlockByHash :: "'w btcRpc \<Rightarrow> hash \<Rightarrow> ('w, indexedBlock \<times> msgBlock) prog" where
  "GetBlockByHash c blockHash =
     bindG (wrapG ''failed to get block verbose by hash: '' (getBlockVerboseWithRetry c blockHash)) (\<lambda>height.
     bindG (wrapG ''failed to get block by hash: '' (getBlockWithRetry c blockHash)) (\<lambda>mBlock.
       if height < 0 \<or> height > 2 ^ 32 - 1 then panicG ''height is out of uint32 range''
       else retG (NewIndexedBlock (word_of_int height) (mb_Header mBlock) (GetWrappedTxs mBlock), mBlock)))"

definition GetBlockByHeight :: "'w btcRpc \<Rightarrow> u32 \<Rightarrow> ('w, indexedBlock \<times> msgBlock) prog" where
  "GetBlockByHeight c height =
     bindG (wrapG ''failed to get block by height: '' (getBlockHashWithRetry c height)) (\<lambda>blockHash.
     bindG (wrapG ''failed to get block by hash: '' (getBlockWithRetry c blockHash)) (\<lambda>mBlock.
       retG (NewIndexedBlock height (mb_Header mBlock) (GetWrappedTxs mBlock), mBlock)))"

text \<open>The loop of \<open>getChainBlocks\<close>, filling the slice from the back.\<close>

fun chainBlocksLoop :: "'w btcRpc \<Rightarrow> nat \<Rightarrow> hash \<Rightarrow> indexedBlock list \<Rightarrow> ('w, indexedBlock list) prog" where
  "chainBlocksLoop c 0 prevHash chainBlocks = retG chainBlocks"
| "chainBlocksLoop c (Suc i) prevHash chainBlocks =
     bindG (wrapG ''failed to get block by hash: '' (GetBlockByHash c prevHash)) (\<lambda>(ib, mb).
       chainBlocksLoop c i (bh_PrevBlock (mb_Header mb)) (ib # chainBlocks))"

definition getChainBlocks :: "'w btcRpc \<Rightarrow> u32 \<Rightarrow> indexedBlock \<Rightarrow> ('w, indexedBlock list) prog" where
  "getChainBlocks c baseHeight tipBlock =
     (let tipHeight = ib_Height tipBlock in
      if tipHeight < baseHeight then failG (errorf ''the tip block height is less than the base height'')
      else
        let len = unat (tipHeight - baseHeight + 1) in
        if len = 0 then panicG ''index out of range''
        else if tipHeight = baseHeight then retG [tipBlock]
        else chainBlocksLoop c (len - 1) (bh_PrevBlock (ib_Header tipBlock)) [tipBlock])"

definition getBestIndexedBlock :: "'w btcRpc \<Rightarrow> ('w, indexedBlock) prog" where
  "getBestIndexedBlock c =
     bindG (wrapG ''failed to get the best block: '' (getBestBlockHashWithRetry c)) (\<lambda>tipHash.
     bindG (wrapG ''failed to get the block by hash: '' (GetBlockByHash c tipHash)) (\<lambda>(tipIb, _).
       retG tipIb))"

definition FindTailBlocksByHeight :: "'w btcRpc \<Rightarrow> u32 \<Rightarrow> ('w, indexedBlock list) prog" where
  "FindTailBlocksByHeight c baseHeight =
     bindG (getBestIndexedBlock c) (\<lambda>tipIb.
       if baseHeight > ib_Height tipIb
       then failG (errorf ''invalid base height, should not be higher than tip block'')
       else getChainBlocks c baseHeight tipIb)"

definition GetTipBlockVerbose :: "'w btcRpc \<Rightarrow> ('w, int) prog" where
  "GetTipBlockVerbose c =
     bindG (wrapG ''failed to obtain BTC block tip: '' (rpc_GetBestBlockHash c)) (\<lambda>tipBtcHash.
       wrapG ''failed to obtain BTC tip block: '' (rpc_GetBlockVerbose c tipBtcHash))"

subsection \<open>The wallet\<close>

datatype txConfStatus =
  TxNotFoundIndex | TxFoundMempool | TxFoundIndex | TxNotFoundManually | TxFoundManually | TxConfOther

datatype txStatus = TxNotFound | TxInMemPool | TxInChain

fun notifierStateToWalletState :: "txConfStatus \<Rightarrow> txStatus outcome" where
  "notifierStateToWalletState TxNotFoundIndex = Ok TxNotFound"
| "notifierStateToWalletState TxFoundMempool = Ok TxInMemPool"
| "notifierStateToWalletState TxFoundIndex = Ok TxInChain"
| "notifierStateToWalletState TxNotFoundManually = Ok TxNotFound"
| "notifierStateToWalletState TxFoundManually = Ok TxInChain"
| "notifierStateToWalletState TxConfOther = Panic ''unknown notifier state''"

text \<open>
  \<open>TxDetails\<close>: \<open>newReq\<close> is \<open>notifier.NewConfRequest\<close>, \<open>conf\<close> is \<open>ConfDetailsFromTxIndex\<close> with the
  message that marks an unknown transaction. On an error the status is \<open>TxNotFound\<close>.
\<close>

definition txNotFoundErrMsgBitcoind :: string where
  "txNotFoundErrMsgBitcoind = ''No such mempool or blockchain transaction''"

definition getTxDetails ::
  "('req \<Rightarrow> string \<Rightarrow> ('w, 'conf option \<times> txConfStatus) prog) \<Rightarrow> 'req \<Rightarrow> string
    \<Rightarrow> ('w, 'conf option \<times> txStatus) prog" where
  "getTxDetails conf req msg = bindG (conf req msg) (\<lambda>(res, state).
     bindG (liftG (notifierStateToWalletState state)) (\<lambda>st. retG (res, st)))"

definition TxDetails ::
  "(hash \<Rightarrow> bytes \<Rightarrow> goerr + 'req) \<Rightarrow> ('req \<Rightarrow> string \<Rightarrow> ('w, 'conf option \<times> txConfStatus) prog)
    \<Rightarrow> hash \<Rightarrow> bytes \<Rightarrow> ('w, 'conf option \<times> txStatus) prog" where
  "TxDetails newReq conf txHash pkScript = (case newReq txHash pkScript of
       Inl err \<Rightarrow> failG err
     | Inr req \<Rightarrow> getTxDetails conf req txNotFoundErrMsgBitcoind)"

definition rpcHostURL :: "string \<Rightarrow> string \<Rightarrow> string" where
  "rpcHostURL host walletName =
     (if length walletName > 0 then host @ ''/wallet/'' @ walletName else host)"

text \<open>
  \<open>GetHighUTXOAndSum\<close> over the listed outputs; \<open>amount\<close> reads the amount, \<open>lt\<close> and \<open>add\<close> are
  the comparison and the addition of \<open>float64\<close>.
\<close>

fun highUTXOLoop ::
  "('f \<Rightarrow> 'f \<Rightarrow> bool) \<Rightarrow> ('f \<Rightarrow> 'f \<Rightarrow> 'f) \<Rightarrow> ('u \<Rightarrow> 'f) \<Rightarrow> 'u list \<Rightarrow> 'u \<Rightarrow> 'f \<Rightarrow> 'u \<times> 'f" where
  "highUTXOLoop lt add amount [] highUTXO sm = (highUTXO, sm)"
| "highUTXOLoop lt add amount (utxo # utxos) highUTXO sm =
     highUTXOLoop lt add amount utxos
       (if lt (amount highUTXO) (amount utxo) then utxo else highUTXO)
       (add sm (amount utxo))"

definition GetHighUTXOAndSum ::
  "('f \<Rightarrow> 'f \<Rightarrow> bool) \<Rightarrow> ('f \<Rightarrow> 'f \<Rightarrow> 'f) \<Rightarrow> 'f \<Rightarrow> ('u \<Rightarrow> 'f) \<Rightarrow> ('w, 'u list) prog \<Rightarrow> ('w, 'u \<times> 'f) prog" where
  "GetHighUTXOAndSum lt add zero amount listUnspent =
     bindG (wrapG ''failed to list unspent UTXOs: '' listUnspent) (\<lambda>utxos.
       case utxos of
         [] \<Rightarrow> failG (errorf ''lack of spendable transactions in the wallet'')
       | u # _ \<Rightarrow> retG (highUTXOLoop lt add amount utxos u zero))"

subsection \<open>Networks and the node's connection\<close>

datatype chainParams = MainNetParams | TestNet3Params | SimNetParams | RegressionNetParams | SigNetParams

definition GetBTCParams :: "string \<Rightarrow> goerr + chainParams" where
  "GetBTCParams net =
     (if net = ''mainnet'' then Inr MainNetParams
      else if net = ''testnet'' then Inr TestNet3Params
      else if net = ''simnet'' then Inr SimNetParams
      else if net = ''regtest'' then Inr RegressionNetParams
      else if net = ''signet'' then Inr SigNetParams
      else Inl (errorf ''BTC network with this name does not exist''))"

definition GetValidNetParams :: "(string, bool) gomap" where
  "GetValidNetParams = [(''mainnet'', True), (''testnet'', True), (''simnet'', True),
     (''regtest'', True), (''signet'', True)]"

definition GetNetParams :: "string \<Rightarrow> chainParams outcome" where
  "GetNetParams net = (case GetBTCParams net of
       Inl _ \<Rightarrow> Panic ''failed to get BTC network params'' | Inr p \<Rightarrow> Ok p)"

lemma GetBTCParams_valid: "(\<exists>p. GetBTCParams net = Inr p) \<longleftrightarrow> map_of GetValidNetParams net = Some True"
  by (auto simp: GetBTCParams_def GetValidNetParams_def)

subsection \<open>A node that serves one chain\<close>

definition blockHashAt :: "(blockHeader \<Rightarrow> hash) \<Rightarrow> msgBlock list \<Rightarrow> nat \<Rightarrow> hash" where
  "blockHashAt bh chain i = bh (mb_Header (chain ! i))"

definition indexedAt :: "msgBlock list \<Rightarrow> nat \<Rightarrow> indexedBlock" where
  "indexedAt chain i = NewIndexedBlockFromMsgBlock (of_nat i) (chain ! i)"

definition node_serves :: "(blockHeader \<Rightarrow> hash) \<Rightarrow> msgBlock list \<Rightarrow> 'w btcRpc \<Rightarrow> 'w \<Rightarrow> bool" where
  "node_serves bh chain c w \<longleftrightarrow>
     chain \<noteq> [] \<and> length chain < 2 ^ 32 \<and>
     (\<forall>i. Suc i < length chain \<longrightarrow> bh_PrevBlock (mb_Header (chain ! Suc i)) = blockHashAt bh chain i) \<and>
     rpc_GetBlockCount c w = (Ok (int (length chain) - 1), w) \<and>
     rpc_GetBestBlockHash c w = (Ok (blockHashAt bh chain (length chain - 1)), w) \<and>
     (\<forall>i < length chain.
        rpc_GetBlockHash c (int i) w = (Ok (blockHashAt bh chain i), w) \<and>
        rpc_GetBlock c (blockHashAt bh chain i) w = (Ok (chain ! i), w) \<and>
        rpc_GetBlockVerbose c (blockHashAt bh chain i) w = (Ok (int i), w))"

lemma indexedAt_height:
  "i < 2 ^ 32 \<Longrightarrow> unat (ib_Height (indexedAt chain i)) = i"
  by (simp add: indexedAt_def NewIndexedBlockFromMsgBlock_def unat_of_nat take_bit_nat_eq_self)

lemma GetBlockByHash_serves:
  assumes "rpc_contract c" and "node_serves bh chain c w" and "i < length chain"
  shows "GetBlockByHash c (blockHashAt bh chain i) w = (Ok (indexedAt chain i, chain ! i), w)"
proof -
  from assms have "getBlockVerboseWithRetry c (blockHashAt bh chain i) w = (Ok (int i), w)"
    "getBlockWithRetry c (blockHashAt bh chain i) w = (Ok (chain ! i), w)" "int i < 2 ^ 32"
    by (auto simp: getBlockVerboseWithRetry_def getBlockWithRetry_def rpc_contract_def
        node_serves_def retry_first_ok)
  then show ?thesis
    by (simp add: GetBlockByHash_def bindG_def wrapG_def retG_def indexedAt_def
        NewIndexedBlockFromMsgBlock_def NewIndexedBlock_def)
qed

lemma chainBlocksLoop_serves:
  assumes "rpc_contract c" and "node_serves bh chain c w"
  shows "j < length chain \<Longrightarrow> k \<le> Suc j \<Longrightarrow>
    chainBlocksLoop c k (blockHashAt bh chain j) acc w
      = (Ok (map (indexedAt chain) [Suc j - k..<Suc j] @ acc), w)"
proof (induction k arbitrary: j acc)
  case 0
  then show ?case by (simp add: retG_def)
next
  case (Suc k)
  from GetBlockByHash_serves [OF assms Suc.prems(1)]
  have step: "chainBlocksLoop c (Suc k) (blockHashAt bh chain j) acc w
      = chainBlocksLoop c k (bh_PrevBlock (mb_Header (chain ! j))) (indexedAt chain j # acc) w"
    by (simp add: bindG_def wrapG_def)
  show ?case
  proof (cases j)
    case 0
    then show ?thesis using Suc.prems step by (simp add: retG_def)
  next
    case (Suc j')
    then have "bh_PrevBlock (mb_Header (chain ! j)) = blockHashAt bh chain j'"
      using assms(2) Suc.prems(1) by (simp add: node_serves_def)
    then show ?thesis using step Suc Suc.prems Suc.IH [of j'] by (simp add: Suc_diff_le)
  qed
qed

lemma getBestIndexedBlock_serves:
  assumes "rpc_contract c" and "node_serves bh chain c w"
  shows "getBestIndexedBlock c w = (Ok (indexedAt chain (length chain - 1)), w)"
proof -
  from assms have "getBestBlockHashWithRetry c w = (Ok (blockHashAt bh chain (length chain - 1)), w)"
    by (simp add: getBestBlockHashWithRetry_def rpc_contract_def node_serves_def retry_first_ok)
  moreover have "length chain - 1 < length chain" using assms(2) by (simp add: node_serves_def)
  ultimately show ?thesis using GetBlockByHash_serves [OF assms]
    by (simp add: getBestIndexedBlock_def bindG_def wrapG_def retG_def)
qed

lemma FindTail_serves:
  assumes "rpc_contract c" and "node_serves bh chain c w" and "unat base < length chain"
  shows "FindTailBlocksByHeight c base w = (Ok (map (indexedAt chain) [unat base..<length chain]), w)"
proof -
  obtain n where n: "length chain = Suc n" using assms(2) by (cases "length chain") (auto simp: node_serves_def)
  then have n32: "Suc n < 2 ^ 32" using assms(2) by (simp add: node_serves_def)
  let ?tip = "indexedAt chain n"
  have ht: "unat (ib_Height ?tip) = n" using n32 by (intro indexedAt_height) simp
  have le: "base \<le> ib_Height ?tip" using assms(3) n ht by (simp add: word_le_nat_alt)
  have d: "unat (ib_Height ?tip - base) = n - unat base" using le ht by (simp add: unat_sub)
  have "unat (ib_Height ?tip - base + 1) = Suc (n - unat base)"
    using d n32 less_imp_diff_less [of n "2 ^ 32 - 1" "unat base"] unat_add_lem [of "ib_Height ?tip - base" 1]
    by simp
  moreover have "ib_Header ?tip = mb_Header (chain ! n)"
    by (simp add: indexedAt_def NewIndexedBlockFromMsgBlock_def)
  moreover have "chainBlocksLoop c (n - unat base) (bh_PrevBlock (mb_Header (chain ! n))) [?tip] w
      = (Ok (map (indexedAt chain) [unat base..<Suc n]), w)" if "unat base < n"
  proof -
    from that obtain m where m: "n = Suc m" by (cases n) auto
    then have "bh_PrevBlock (mb_Header (chain ! n)) = blockHashAt bh chain m"
      using assms(2) n by (simp add: node_serves_def)
    then show ?thesis using chainBlocksLoop_serves [OF assms(1,2), of m "n - unat base" "[?tip]"] that m n
      by simp
  qed
  moreover have "ib_Height ?tip = base \<longleftrightarrow> unat base = n" using ht by (auto simp: word_unat_eq_iff)
  ultimately have "getChainBlocks c base ?tip w = (Ok (map (indexedAt chain) [unat base..<Suc n]), w)"
    using le assms(3) n by (auto simp: getChainBlocks_def Let_def retG_def not_less)
  moreover have "\<not> ib_Height ?tip < base" using le by (simp add: not_less)
  ultimately show ?thesis using n getBestIndexedBlock_serves [OF assms(1,2)]
    by (simp add: FindTailBlocksByHeight_def bindG_def del: upt_Suc)
qed

lemma linked_indexed:
  assumes "node_serves bh chain c w"
  shows "linked bh (map (indexedAt chain) [i..<length chain])"
proof -
  have "extends bh (indexedAt chain j) (indexedAt chain (Suc j))" if "Suc j < length chain" for j
    using assms that indexedAt_height [of j chain] indexedAt_height [of "Suc j" chain]
    by (simp add: extends_def node_serves_def indexedAt_def NewIndexedBlockFromMsgBlock_def blockHashAt_def)
  then show ?thesis
    by (auto simp: linked_def successively_conv_nth)
qed

lemma linked_sorted: "linked bh bs \<Longrightarrow> sorted (map ib_Height bs)"
  using contiguous_strict [OF linked_contiguous] by (rule strict_sorted_imp_sorted)

lemma GetBestBlock_serves:
  assumes "rpc_contract c" and "node_serves bh chain c w"
  shows "GetBestBlock c w = (Ok (of_nat (length chain - 1)), w)"
proof -
  from assms have "getBlockCountWithRetry c w = (Ok (int (length chain) - 1), w)"
    by (simp add: getBlockCountWithRetry_def rpc_contract_def node_serves_def retry_first_ok)
  moreover obtain n where n: "length chain = Suc n" "Suc n < 2 ^ 32"
    using assms(2) by (cases "length chain") (auto simp: node_serves_def)
  moreover have "(word_of_int (int n) :: u32) = of_nat n" by simp
  moreover have "\<not> (int n < 0 \<or> int n > 2 ^ 32 - 1)" using n(2) by simp
  ultimately show ?thesis by (simp add: GetBestBlock_def retG_def)
qed

lemma find_indexed:
  assumes "b \<le> i" and "i < length chain" and "length chain < 2 ^ 32"
  shows "find (\<lambda>ib. ib_Height ib = of_nat i) (map (indexedAt chain) [b..<length chain]) = Some (indexedAt chain i)"
proof -
  have h: "ib_Height (indexedAt chain j) = of_nat i \<longleftrightarrow> j = i" if "j < length chain" for j
    using indexedAt_height [of j chain] indexedAt_height [of i chain] that assms(2,3)
    by (metis indexedAt_def NewIndexedBlockFromMsgBlock_def indexedBlock.select_convs(1) less_trans)
  show ?thesis unfolding find_Some_iff
    using assms h by (intro exI [of _ "i - b"]) auto
qed

lemma filter_indexed:
  assumes "b \<le> i" and "i \<le> length chain" and "length chain < 2 ^ 32"
  shows "filter (\<lambda>ib. of_nat i \<le> ib_Height ib) (map (indexedAt chain) [b..<length chain])
    = map (indexedAt chain) [i..<length chain]"
proof -
  have h: "of_nat i \<le> ib_Height (indexedAt chain j) \<longleftrightarrow> i \<le> j" if "j < length chain" for j
    using indexedAt_height [of j chain] that assms(2,3)
    by (simp add: word_le_nat_alt unat_of_nat take_bit_nat_eq_self)
  have "[b..<length chain] = [b..<i] @ [i..<length chain]" 
    using upt_add_eq_append [OF assms(1), of "length chain - i"] assms(2) by simp
  then show ?thesis using h assms(2)
    by (auto simp: filter_map o_def filter_empty_conv filter_id_conv)
qed

subsection \<open>Properties\<close>

text \<open>
  Against a node that serves one chain without changing in between, and a retry library
  that keeps its contract, \<open>FindTailBlocksByHeight\<close> returns exactly the blocks of the chain
  from the base height to the tip, each naming its predecessor as parent, and fails when
  the base height is beyond the tip.
\<close>

theorem FindTailBlocks_chain:
  assumes "rpc_contract c" and "node_serves bh chain c w"
  shows "if unat base < length chain
    then FindTailBlocksByHeight c base w = (Ok (map (indexedAt chain) [unat base..<length chain]), w)
      \<and> linked bh (map (indexedAt chain) [unat base..<length chain])
    else FindTailBlocksByHeight c base w
      = (Err (errorf ''invalid base height, should not be higher than tip block''), w)"
proof (cases "unat base < length chain")
  case True
  then show ?thesis using FindTail_serves [OF assms] linked_indexed [OF assms(2)] by simp
next
  case False
  have "chain \<noteq> []" "length chain - 1 < 2 ^ 32" using assms(2) by (auto simp: node_serves_def)
  then have "ib_Height (indexedAt chain (length chain - 1)) < base"
    using False indexedAt_height [of "length chain - 1" chain]
    by (simp add: word_less_nat_alt) (metis Suc_pred length_greater_0_conv not_less not_less_eq)
  then show ?thesis using False getBestIndexedBlock_serves [OF assms]
    by (simp add: FindTailBlocksByHeight_def bindG_def failG_def)
qed

text \<open>A node serving a chain of \<open>n\<close> blocks, whose hashes are their heights.\<close>

definition sampleChain :: "nat \<Rightarrow> msgBlock list" where
  "sampleChain n = map (\<lambda>i. \<lparr>mb_Header = sampleHeader (of_nat i), mb_Transactions = []\<rparr>) [0..<n]"

definition sampleRpc :: "nat \<Rightarrow> 'w btcRpc" where
  "sampleRpc n = \<lparr>rpc_GetBlockCount = retG (int n - 1), rpc_GetBestBlockHash = retG (of_nat (n - 1)),
     rpc_GetBlockHash = (\<lambda>i. retG (word_of_int i)),
     rpc_GetBlock = (\<lambda>h. retG (sampleChain n ! unat h)), rpc_GetBlockVerbose = (\<lambda>h. retG (uint h)),
     rpc_retryInt = retryOnce, rpc_retryHash = retryOnce, rpc_retryBlock = retryOnce,
     rpc_maxRetryTimes = 5\<rparr>"

lemma sampleRpc_contract: "rpc_contract (sampleRpc n)"
  by (simp add: rpc_contract_def sampleRpc_def retryOnce_contract)

lemma length_sampleChain [simp]: "length (sampleChain n) = n"
  by (simp add: sampleChain_def)

lemma sampleChain_hash:
  "i < n \<Longrightarrow> n < 2 ^ 32 \<Longrightarrow> blockHashAt sampleHash (sampleChain n) i = of_nat i"
  by (simp add: blockHashAt_def sampleChain_def unsigned_of_nat take_bit_nat_eq_self)

lemma sampleRpc_serves:
  assumes "0 < n" and "n < 2 ^ 32"
  shows "node_serves sampleHash (sampleChain n) (sampleRpc n) w"
proof -
  have small: "i < 2 ^ 256" if "i < n" for i
    using that assms(2) less_trans [of i "2 ^ 32" "2 ^ 256"] by simp
  have nat: "unat (of_nat i :: hash) = i" "uint (of_nat i :: hash) = int i" if "i < n" for i
    using small [OF that] by (simp_all add: uint_nat unat_of_nat take_bit_nat_eq_self)
  have prev: "bh_PrevBlock (mb_Header (sampleChain n ! Suc i)) = of_nat i" if "Suc i < n" for i
    using that sampleChain_hash [of i n] assms(2) by (simp add: sampleChain_def blockHashAt_def)
  have "sampleChain n \<noteq> []" using assms(1) by (metis length_sampleChain length_greater_0_conv)
  then show ?thesis
    using assms nat prev sampleChain_hash
    by (simp add: node_serves_def sampleRpc_def retG_def)
qed

theorem FindTailBlocks_chain_witness:
  "FindTailBlocksByHeight (sampleRpc 3) 1 () = (Ok [indexedAt (sampleChain 3) 1, indexedAt (sampleChain 3) 2], ())
   \<and> FindTailBlocksByHeight (sampleRpc 3) 3 ()
       = (Err (errorf ''invalid base height, should not be higher than tip block''), ())"
proof -
  have upt: "[Suc 0..<3] = [Suc 0, 2]" by (simp add: upt_rec)
  have serves: "node_serves sampleHash (sampleChain 3) (sampleRpc 3) ()" by (rule sampleRpc_serves) simp_all
  show ?thesis
    using FindTailBlocks_chain [OF sampleRpc_contract serves, of 1]
      FindTailBlocks_chain [OF sampleRpc_contract serves, of 3]
    by (simp add: upt)
qed

text \<open>
  \<open>GetBestBlock\<close> never truncates: it returns the node's block count as a 32-bit height
  exactly when it fits, and panics otherwise.
\<close>

theorem GetBestBlock_exact:
  assumes "rpc_contract c" and "rpc_GetBlockCount c w = (Ok n, w')"
  shows "GetBestBlock c w =
    (if 0 \<le> n \<and> n < 2 ^ 32 then (Ok (word_of_int n), w') else (Panic ''height is out of uint32 range'', w'))
    \<and> (0 \<le> n \<and> n < 2 ^ 32 \<longrightarrow> uint (word_of_int n :: u32) = n)"
  using assms
  by (auto simp: GetBestBlock_def getBlockCountWithRetry_def rpc_contract_def retry_first_ok
      bindG_def retG_def panicG_def take_bit_int_eq_self uint_word_of_int)

theorem GetBestBlock_exact_witness:
  "GetBestBlock (sampleRpc 3) () = (Ok 2, ())
   \<and> GetBestBlock ((sampleRpc 3)\<lparr>rpc_GetBlockCount := retG (2 ^ 32)\<rparr>) () = (Panic ''height is out of uint32 range'', ())"
  using GetBestBlock_exact [OF sampleRpc_contract [of 3], of "()" 2 "()"]
    GetBestBlock_exact [of "(sampleRpc 3)\<lparr>rpc_GetBlockCount := retG (2 ^ 32)\<rparr>" "()" "2 ^ 32" "()"]
  by (simp add: sampleRpc_def rpc_contract_def retryOnce_contract retG_def)

end
