(* ===== verification/Ckpt_Cache.thy ===== *)
theory Ckpt_Cache
  imports Wire_Types
begin

text \<open>
  Checkpoint segments and their matching: \<open>types/ckpt_segment.go\<close>, \<open>types/ckpt.go\<close>,
  \<open>types/ckpt_cache.go\<close>, and the messages built from them
  (\<open>types/btccheckpoint.go\<close>, \<open>types/btclightclient.go\<close>).

  A Babylon checkpoint reaches Bitcoin as two transactions, each carrying one segment. The
  cache collects segments by their index and the hash of their data, joins the pairs that
  decode, and hands the checkpoints out in the order of their epochs. The codec
  (\<open>btctxformatter\<close>, \<open>btccheckpoint\<close>) and the hash are library code, collected in the
  record \<open>formatter\<close> that the definitions take as their first argument.

  \<open>Match\<close> ranges over two Go maps and deletes from both while it does; the visiting orders
  are arguments, and the statements hold for every order that visits all keys.

  Shown here: after \<open>Match\<close> no joinable pair is left behind; every checkpoint comes from a
  pair that was cached, and a segment leaves the cache only as part of a checkpoint;
  checkpoints are popped in epoch order; the cleanup removes exactly the expired segments.
\<close>

subsection \<open>Segments and checkpoints\<close>

record babylonData =
  bd_Data :: bytes
  bd_Index :: u8

record formatter =
  f_NumberOfParts :: u8
  f_ConnectParts :: "u8 \<Rightarrow> bytes \<Rightarrow> bytes \<Rightarrow> goerr + bytes"
  f_DecodeRawCheckpoint :: "u8 \<Rightarrow> bytes \<Rightarrow> goerr + u64"
  f_ExtractStandardOpReturnData :: "btcTx \<Rightarrow> goerr + bytes"
  f_IsBabylonCheckpointData :: "bytes \<Rightarrow> u8 \<Rightarrow> bytes \<Rightarrow> goerr + babylonData"
  f_Sum256 :: "bytes \<Rightarrow> hash"

record ckptSegment =
  seg_BabylonData :: babylonData
  seg_TxIdx :: int
  seg_AssocBlock :: indexedBlock
  seg_Timestamp :: int

definition NewCkptSegment ::
  "formatter \<Rightarrow> bytes \<Rightarrow> u8 \<Rightarrow> indexedBlock \<Rightarrow> btcTx \<Rightarrow> ckptSegment option" where
  "NewCkptSegment fmt tag version block tx =
     (case f_ExtractStandardOpReturnData fmt tx of
        Inl _ \<Rightarrow> None
      | Inr opReturnData \<Rightarrow>
          (case f_IsBabylonCheckpointData fmt tag version opReturnData of
             Inl _ \<Rightarrow> None
           | Inr bbnData \<Rightarrow>
               Some \<lparr>seg_BabylonData = bbnData, seg_TxIdx = bt_Index tx,
                     seg_AssocBlock = block, seg_Timestamp = 0\<rparr>))"

record ckpt =
  ck_Segments :: "ckptSegment list"
  ck_Epoch :: u64

definition NewCkpt :: "ckptSegment \<Rightarrow> ckptSegment \<Rightarrow> u64 \<Rightarrow> ckpt" where
  "NewCkpt s1 s2 epochNumber = \<lparr>ck_Segments = [s1, s2], ck_Epoch = epochNumber\<rparr>"

text \<open>\<open>Ckpt.MustGenSPVProofs\<close>: any failure is a panic.\<close>

fun mustProofs :: "(indexedBlock \<Rightarrow> int \<Rightarrow> 'spv outcome) \<Rightarrow> ckptSegment list \<Rightarrow> 'spv list outcome" where
  "mustProofs gen [] = Ok []"
| "mustProofs gen (s # ss) = (case gen (seg_AssocBlock s) (seg_TxIdx s) of
      Ok p \<Rightarrow> (case mustProofs gen ss of Ok ps \<Rightarrow> Ok (p # ps) | r \<Rightarrow> r)
    | Err _ \<Rightarrow> Panic ''spv proof''
    | Panic m \<Rightarrow> Panic m
    | NoFuel \<Rightarrow> NoFuel)"

definition MustGenSPVProofs ::
  "formatter \<Rightarrow> (indexedBlock \<Rightarrow> int \<Rightarrow> 'spv outcome) \<Rightarrow> ckpt \<Rightarrow> 'spv list outcome" where
  "MustGenSPVProofs fmt gen ck =
     (if length (ck_Segments ck) \<noteq> unat (f_NumberOfParts fmt)
      then Panic ''incorrect number of segments''
      else mustProofs gen (ck_Segments ck))"

record 'spv msgInsertBTCSpvProof =
  sp_Submitter :: string
  sp_Proofs :: "'spv list"

definition MustNewMsgInsertBTCSpvProof ::
  "formatter \<Rightarrow> string \<Rightarrow> 'spv list \<Rightarrow> 'spv msgInsertBTCSpvProof outcome" where
  "MustNewMsgInsertBTCSpvProof fmt submitter proofs =
     (if length proofs \<noteq> unat (f_NumberOfParts fmt) then Panic ''incorrect number of proofs''
      else Ok \<lparr>sp_Submitter = submitter, sp_Proofs = proofs\<rparr>)"

record msgInsertHeaders =
  ih_Signer :: string
  ih_Headers :: "blockHeader list"

definition NewMsgInsertHeaders :: "string \<Rightarrow> indexedBlock list \<Rightarrow> msgInsertHeaders" where
  "NewMsgInsertHeaders signer ibs = \<lparr>ih_Signer = signer, ih_Headers = map ib_Header ibs\<rparr>"

subsection \<open>The cache\<close>

record ckptCache =
  cc_Tag :: bytes
  cc_Version :: u8
  cc_Checkpoints :: "ckpt list"
  cc_Segments :: "(u8, (hash, ckptSegment) gomap) gomap"

definition NewCheckpointCache :: "formatter \<Rightarrow> bytes \<Rightarrow> u8 \<Rightarrow> ckptCache" where
  "NewCheckpointCache fmt tag version =
     \<lparr>cc_Tag = tag, cc_Version = version, cc_Checkpoints = [],
      cc_Segments = map (\<lambda>i. (of_nat i, [])) [0..<unat (f_NumberOfParts fmt)]\<rparr>"

text \<open>Reading an absent outer entry gives a nil map, which reads as empty.\<close>

definition segMap :: "ckptCache \<Rightarrow> u8 \<Rightarrow> (hash, ckptSegment) gomap" where
  "segMap c i = (case map_of (cc_Segments c) i of None \<Rightarrow> [] | Some m \<Rightarrow> m)"

definition CheckpointCache_AddSegment ::
  "formatter \<Rightarrow> int \<Rightarrow> ckptSegment \<Rightarrow> ckptCache \<Rightarrow> ckptCache outcome" where
  "CheckpointCache_AddSegment fmt now s c =
     (let idx = bd_Index (seg_BabylonData s) in
      if idx \<ge> f_NumberOfParts fmt
      then Err (errorf ''the index of the ckpt segment is out of scope'')
      else
        let h = f_Sum256 fmt (bd_Data (seg_BabylonData s)); s' = s\<lparr>seg_Timestamp := now\<rparr> in
        (case map_of (cc_Segments c) idx of
           None \<Rightarrow> Panic ''assignment to entry in nil map''
         | Some m \<Rightarrow> Ok (c\<lparr>cc_Segments := AList.update idx (AList.update h s' m) (cc_Segments c)\<rparr>)))"

definition CheckpointCache_AddCheckpoint :: "ckpt \<Rightarrow> ckptCache \<Rightarrow> ckptCache" where
  "CheckpointCache_AddCheckpoint ck c = c\<lparr>cc_Checkpoints := cc_Checkpoints c @ [ck]\<rparr>"

definition CheckpointCache_sortCheckpoints :: "(ckpt list \<Rightarrow> ckpt list) \<Rightarrow> ckptCache \<Rightarrow> ckptCache" where
  "CheckpointCache_sortCheckpoints srt c = c\<lparr>cc_Checkpoints := srt (cc_Checkpoints c)\<rparr>"

text \<open>\<open>delete(c.Segments[i], h)\<close>.\<close>

definition delSegment :: "u8 \<Rightarrow> hash \<Rightarrow> ckptCache \<Rightarrow> ckptCache" where
  "delSegment i h c = (case map_of (cc_Segments c) i of
       None \<Rightarrow> c
     | Some m \<Rightarrow> c\<lparr>cc_Segments := AList.update i (AList.delete h m) (cc_Segments c)\<rparr>)"

text \<open>\<open>ConnectParts\<close> followed by \<open>DecodeRawCheckpoint\<close>: the epoch when both succeed.\<close>

definition joinSegments :: "formatter \<Rightarrow> u8 \<Rightarrow> ckptSegment \<Rightarrow> ckptSegment \<Rightarrow> u64 option" where
  "joinSegments fmt version s1 s2 =
     (case f_ConnectParts fmt version (bd_Data (seg_BabylonData s1)) (bd_Data (seg_BabylonData s2)) of
        Inl _ \<Rightarrow> None
      | Inr connected \<Rightarrow>
          (case f_DecodeRawCheckpoint fmt version connected of Inl _ \<Rightarrow> None | Inr epoch \<Rightarrow> Some epoch))"

fun matchInner :: "formatter \<Rightarrow> hash \<Rightarrow> ckptSegment \<Rightarrow> hash list \<Rightarrow> ckptCache \<Rightarrow> ckptCache" where
  "matchInner fmt h1 s1 [] c = c"
| "matchInner fmt h1 s1 (h2 # hs) c = (case map_of (segMap c 1) h2 of
      None \<Rightarrow> matchInner fmt h1 s1 hs c
    | Some s2 \<Rightarrow> (case joinSegments fmt (cc_Version c) s1 s2 of
          None \<Rightarrow> matchInner fmt h1 s1 hs c
        | Some epoch \<Rightarrow> matchInner fmt h1 s1 hs
            (delSegment 1 h2 (delSegment 0 h1
              (CheckpointCache_AddCheckpoint (NewCkpt s1 s2 epoch) c)))))"

fun matchOuter ::
  "formatter \<Rightarrow> (hash \<Rightarrow> hash list) \<Rightarrow> hash list \<Rightarrow> ckptCache \<Rightarrow> ckptCache" where
  "matchOuter fmt ord1 [] c = c"
| "matchOuter fmt ord1 (h1 # hs) c = (case map_of (segMap c 0) h1 of
      None \<Rightarrow> matchOuter fmt ord1 hs c
    | Some s1 \<Rightarrow> matchOuter fmt ord1 hs (matchInner fmt h1 s1 (ord1 h1) c))"

definition CheckpointCache_Match ::
  "formatter \<Rightarrow> (ckpt list \<Rightarrow> ckpt list) \<Rightarrow> hash list \<Rightarrow> (hash \<Rightarrow> hash list) \<Rightarrow> ckptCache \<Rightarrow> ckptCache" where
  "CheckpointCache_Match fmt srt ord0 ord1 c =
     CheckpointCache_sortCheckpoints srt (matchOuter fmt ord1 ord0 c)"

definition CheckpointCache_PopEarliestCheckpoint :: "ckptCache \<Rightarrow> ckpt option \<times> ckptCache" where
  "CheckpointCache_PopEarliestCheckpoint c = (case cc_Checkpoints c of
       [] \<Rightarrow> (None, c)
     | ck # cks \<Rightarrow> (Some ck, c\<lparr>cc_Checkpoints := cks\<rparr>))"

definition CheckpointCache_NumSegments :: "ckptCache \<Rightarrow> nat" where
  "CheckpointCache_NumSegments c = sum_list (map (length \<circ> snd) (cc_Segments c))"

definition CheckpointCache_NumCheckpoints :: "ckptCache \<Rightarrow> nat" where
  "CheckpointCache_NumCheckpoints c = length (cc_Checkpoints c)"

text \<open>One tick of \<open>StartCleanupRoutine\<close> at time \<open>now\<close>.\<close>

definition CheckpointCache_cleanup :: "int \<Rightarrow> int \<Rightarrow> ckptCache \<Rightarrow> ckptCache" where
  "CheckpointCache_cleanup segmentTTL now c = c\<lparr>cc_Segments :=
     map (\<lambda>(i, m). (i, filter (\<lambda>(h, s). \<not> now - seg_Timestamp s > segmentTTL) m)) (cc_Segments c)\<rparr>"

text \<open>The callers drain the cache by popping until nil.\<close>

fun popAll :: "nat \<Rightarrow> ckptCache \<Rightarrow> ckpt list" where
  "popAll 0 c = []"
| "popAll (Suc n) c = (case CheckpointCache_PopEarliestCheckpoint c of
      (None, _) \<Rightarrow> [] | (Some ck, c') \<Rightarrow> ck # popAll n c')"

text \<open>A toy codec and a cache for the concrete instances: a pair joins when the first bytes agree.\<close>

definition sampleFormatter :: formatter where
  "sampleFormatter = \<lparr>f_NumberOfParts = 2,
     f_ConnectParts = (\<lambda>_ d1 d2. if d1 = d2 then Inr d1 else Inl (errorf ''mismatch'')),
     f_DecodeRawCheckpoint = (\<lambda>_ d. case d of [] \<Rightarrow> Inl (errorf ''empty'') | x # _ \<Rightarrow> Inr (ucast x)),
     f_ExtractStandardOpReturnData = (\<lambda>_. Inr [1]),
     f_IsBabylonCheckpointData = (\<lambda>_ _ d. Inr \<lparr>bd_Data = d, bd_Index = 0\<rparr>),
     f_Sum256 = (\<lambda>d. case d of [] \<Rightarrow> 0 | x # _ \<Rightarrow> ucast x)\<rparr>"

definition sampleSegment :: "u8 \<Rightarrow> u8 \<Rightarrow> ckptSegment" where
  "sampleSegment i d = \<lparr>seg_BabylonData = \<lparr>bd_Data = [d], bd_Index = i\<rparr>, seg_TxIdx = 0,
     seg_AssocBlock = (sampleBlock 1)\<lparr>ib_Txs := [Some sampleTx]\<rparr>, seg_Timestamp = 10\<rparr>"

definition sampleCkptCache :: ckptCache where
  "sampleCkptCache = \<lparr>cc_Tag = [], cc_Version = 0, cc_Checkpoints = [],
     cc_Segments = [(0, [(4, sampleSegment 0 4), (9, sampleSegment 0 9)]),
                    (1, [(4, sampleSegment 1 4), (7, sampleSegment 1 7)])]\<rparr>"

lemmas sample_ckpt_defs = sampleFormatter_def sampleSegment_def sampleCkptCache_def

subsection \<open>Lemmas on the maps\<close>

lemma segMap_delSegment [simp]:
  "segMap (delSegment i h c) j = (if i = j then AList.delete h (segMap c j) else segMap c j)"
  by (auto simp: segMap_def delSegment_def update_conv split: option.splits)

lemma map_of_delete_alist [simp]: "map_of (AList.delete k m) k' = (if k' = k then None else map_of m k')"
  by (simp add: delete_conv')

lemma ckpt_frame_simps [simp]:
  "cc_Checkpoints (delSegment i h c) = cc_Checkpoints c"
  "cc_Version (delSegment i h c) = cc_Version c"
  "cc_Tag (delSegment i h c) = cc_Tag c"
  "segMap (CheckpointCache_AddCheckpoint ck c) j = segMap c j"
  "cc_Checkpoints (CheckpointCache_AddCheckpoint ck c) = cc_Checkpoints c @ [ck]"
  "cc_Version (CheckpointCache_AddCheckpoint ck c) = cc_Version c"
  "segMap (CheckpointCache_sortCheckpoints srt c) j = segMap c j"
  "cc_Checkpoints (CheckpointCache_sortCheckpoints srt c) = srt (cc_Checkpoints c)"
  "cc_Version (CheckpointCache_sortCheckpoints srt c) = cc_Version c"
  by (auto simp: delSegment_def CheckpointCache_AddCheckpoint_def CheckpointCache_sortCheckpoints_def
        segMap_def split: option.splits)

lemma matchInner_version [simp]: "cc_Version (matchInner fmt h1 s1 hs c) = cc_Version c"
  by (induction fmt h1 s1 hs c rule: matchInner.induct) (simp_all split: option.splits)

lemma matchOuter_version [simp]: "cc_Version (matchOuter fmt ord1 hs c) = cc_Version c"
  by (induction fmt ord1 hs c rule: matchOuter.induct) (simp_all split: option.splits)

subsection \<open>What matching does\<close>

text \<open>Segments are only ever removed, and the second half of a removed pair is recorded.\<close>

lemma matchInner_shrinks:
  "map_of (segMap (matchInner fmt h1 s1 hs c) i) h = Some s \<Longrightarrow> map_of (segMap c i) h = Some s"
proof (induction fmt h1 s1 hs c rule: matchInner.induct)
  case (2 fmt h1 s1 h2 hs c)
  show ?case
  proof (cases "\<exists>s2 epoch. map_of (segMap c 1) h2 = Some s2 \<and> joinSegments fmt (cc_Version c) s1 s2 = Some epoch")
    case False
    then show ?thesis using 2 by (auto split: option.splits)
  next
    case True
    then obtain s2 epoch where s2: "map_of (segMap c 1) h2 = Some s2"
      and join: "joinSegments fmt (cc_Version c) s1 s2 = Some epoch" by blast
    from "2.IH"(3) [OF s2 join] "2.prems" s2 join show ?thesis by (simp split: if_splits)
  qed
qed simp

lemma matchOuter_shrinks:
  "map_of (segMap (matchOuter fmt ord1 hs c) i) h = Some s \<Longrightarrow> map_of (segMap c i) h = Some s"
proof (induction fmt ord1 hs c rule: matchOuter.induct)
  case (2 fmt ord1 h1 hs c)
  then show ?case
    by (cases "map_of (segMap c 0) h1") (auto dest: matchInner_shrinks)
qed simp

lemma matchInner_complete:
  "\<lbrakk>h2 \<in> set hs; map_of (segMap (matchInner fmt h1 s1 hs c) 1) h2 = Some s2\<rbrakk>
    \<Longrightarrow> joinSegments fmt (cc_Version c) s1 s2 = None"
proof (induction fmt h1 s1 hs c rule: matchInner.induct)
  case (2 fmt h1 s1 h hs c)
  show ?case
  proof (cases "h2 = h")
    case True
    have "map_of (segMap c 1) h = Some s2" using "2.prems"(2) True matchInner_shrinks by metis
    then show ?thesis using 2 True
      by (cases "joinSegments fmt (cc_Version c) s1 s2") (auto dest: matchInner_shrinks)
  next
    case False
    then show ?thesis using 2 by (auto split: option.splits)
  qed
qed simp

lemma matchOuter_complete:
  "\<lbrakk>h1 \<in> set hs; h2 \<in> set (ord1 h1);
    map_of (segMap (matchOuter fmt ord1 hs c) 0) h1 = Some s1;
    map_of (segMap (matchOuter fmt ord1 hs c) 1) h2 = Some s2\<rbrakk>
    \<Longrightarrow> joinSegments fmt (cc_Version c) s1 s2 = None"
proof (induction fmt ord1 hs c rule: matchOuter.induct)
  case (2 fmt ord1 h hs c)
  show ?case
  proof (cases "h1 = h")
    case True
    have s1: "map_of (segMap c 0) h = Some s1" using "2.prems"(3) True matchOuter_shrinks by metis
    let ?c = "matchInner fmt h s1 (ord1 h) c"
    have "map_of (segMap ?c 1) h2 = Some s2"
      using "2.prems"(4) s1 by (auto dest: matchOuter_shrinks)
    then show ?thesis using matchInner_complete "2.prems"(2) True by metis
  next
    case False
    then show ?thesis using 2 by (cases "map_of (segMap c 0) h") auto
  qed
qed simp

text \<open>Where checkpoints come from, and where segments go.\<close>

definition joined_from :: "formatter \<Rightarrow> ckptCache \<Rightarrow> ckpt \<Rightarrow> bool" where
  "joined_from fmt c ck \<longleftrightarrow>
     (\<exists>h1 h2 s1 s2 epoch. map_of (segMap c 0) h1 = Some s1 \<and> map_of (segMap c 1) h2 = Some s2 \<and>
        joinSegments fmt (cc_Version c) s1 s2 = Some epoch \<and> ck = NewCkpt s1 s2 epoch)"

lemma matchInner_sound:
  "\<lbrakk>ck \<in> set (cc_Checkpoints (matchInner fmt h1 s1 hs c)); map_of (segMap c0 0) h1 = Some s1;
    \<And>h s. map_of (segMap c 1) h = Some s \<Longrightarrow> map_of (segMap c0 1) h = Some s;
    cc_Version c = cc_Version c0\<rbrakk>
    \<Longrightarrow> ck \<in> set (cc_Checkpoints c) \<or> joined_from fmt c0 ck"
proof (induction fmt h1 s1 hs c rule: matchInner.induct)
  case (2 fmt h1 s1 h2 hs c)
  show ?case
  proof (cases "map_of (segMap c 1) h2")
    case None
    then show ?thesis using 2 by simp
  next
    case (Some s2)
    show ?thesis
    proof (cases "joinSegments fmt (cc_Version c) s1 s2")
      case None
      then show ?thesis using 2 Some by simp
    next
      case join: (Some epoch)
      then have "joined_from fmt c0 (NewCkpt s1 s2 epoch)"
        using "2.prems"(2,4) "2.prems"(3) [OF Some] unfolding joined_from_def by metis
      moreover have "ck \<in> set (cc_Checkpoints c @ [NewCkpt s1 s2 epoch]) \<or> joined_from fmt c0 ck"
      proof -
        have "map_of (segMap c0 1) h = Some s"
          if "map_of (segMap (delSegment 1 h2 (delSegment 0 h1
                (CheckpointCache_AddCheckpoint (NewCkpt s1 s2 epoch) c))) 1) h = Some s" for h s
          using that "2.prems"(3) by (simp split: if_splits)
        from "2.IH"(3) [OF Some join _ "2.prems"(2) this] "2.prems"(1,4) Some join
        show ?thesis by simp
      qed
      ultimately show ?thesis by auto
    qed
  qed
qed simp

lemma matchOuter_sound:
  "\<lbrakk>ck \<in> set (cc_Checkpoints (matchOuter fmt ord1 hs c));
    \<And>i h s. map_of (segMap c i) h = Some s \<Longrightarrow> map_of (segMap c0 i) h = Some s;
    cc_Version c = cc_Version c0\<rbrakk>
    \<Longrightarrow> ck \<in> set (cc_Checkpoints c) \<or> joined_from fmt c0 ck"
proof (induction fmt ord1 hs c rule: matchOuter.induct)
  case (2 fmt ord1 h1 hs c)
  show ?case
  proof (cases "map_of (segMap c 0) h1")
    case None
    then show ?thesis using 2 by simp
  next
    case (Some s1)
    let ?c = "matchInner fmt h1 s1 (ord1 h1) c"
    have "ck \<in> set (cc_Checkpoints ?c) \<or> joined_from fmt c0 ck"
      using "2.IH"(2) [OF Some] "2.prems" Some by (auto dest: matchInner_shrinks)
    then show ?thesis using matchInner_sound "2.prems"(2,3) Some by blast
  qed
qed simp

lemma matchInner_checkpoints_mono: "set (cc_Checkpoints c) \<subseteq> set (cc_Checkpoints (matchInner fmt h1 s1 hs c))"
  by (induction fmt h1 s1 hs c rule: matchInner.induct) (auto split: option.splits)

lemma matchOuter_checkpoints_mono: "set (cc_Checkpoints c) \<subseteq> set (cc_Checkpoints (matchOuter fmt ord1 hs c))"
proof (induction fmt ord1 hs c rule: matchOuter.induct)
  case (2 fmt ord1 h1 hs c)
  then show ?case using matchInner_checkpoints_mono by (auto split: option.splits) blast
qed simp

definition used_in :: "ckptSegment \<Rightarrow> ckpt list \<Rightarrow> bool" where
  "used_in s cks \<longleftrightarrow> (\<exists>ck \<in> set cks. s \<in> set (ck_Segments ck))"

lemma used_in_mono: "used_in s cks \<Longrightarrow> set cks \<subseteq> set cks' \<Longrightarrow> used_in s cks'"
  by (auto simp: used_in_def)

lemma matchInner_conserves:
  "\<lbrakk>map_of (segMap c i) h = Some s; i = 0 \<or> i = 1; map_of (segMap c 0) h1 = None \<or> map_of (segMap c 0) h1 = Some s1\<rbrakk>
    \<Longrightarrow> map_of (segMap (matchInner fmt h1 s1 hs c) i) h = Some s
      \<or> used_in s (cc_Checkpoints (matchInner fmt h1 s1 hs c))"
proof (induction fmt h1 s1 hs c rule: matchInner.induct)
  case (2 fmt h1 s1 h2 hs c)
  show ?case
  proof (cases "\<exists>s2 epoch. map_of (segMap c 1) h2 = Some s2 \<and> joinSegments fmt (cc_Version c) s1 s2 = Some epoch")
    case False
    then show ?thesis using 2 by (auto split: option.splits)
  next
    case True
    then obtain s2 epoch where s2: "map_of (segMap c 1) h2 = Some s2"
      and join: "joinSegments fmt (cc_Version c) s1 s2 = Some epoch" by blast
    let ?c = "delSegment 1 h2 (delSegment 0 h1 (CheckpointCache_AddCheckpoint (NewCkpt s1 s2 epoch) c))"
    have eq: "matchInner fmt h1 s1 (h2 # hs) c = matchInner fmt h1 s1 hs ?c"
      using s2 join by simp
    show ?thesis
    proof (cases "(i = 0 \<and> h = h1) \<or> (i = 1 \<and> h = h2)")
      case True
      then have "s = s1 \<or> s = s2" using "2.prems" s2 by auto
      then have "used_in s (cc_Checkpoints ?c)" by (auto simp: used_in_def NewCkpt_def)
      then show ?thesis unfolding eq using matchInner_checkpoints_mono used_in_mono by blast
    next
      case False
      then have "map_of (segMap ?c i) h = Some s" using "2.prems"(1) by auto
      then show ?thesis unfolding eq using "2.IH"(3) [OF s2 join] "2.prems"(2) by simp
    qed
  qed
qed simp

lemma matchOuter_conserves:
  "\<lbrakk>map_of (segMap c i) h = Some s; i = 0 \<or> i = 1\<rbrakk>
    \<Longrightarrow> map_of (segMap (matchOuter fmt ord1 hs c) i) h = Some s
      \<or> used_in s (cc_Checkpoints (matchOuter fmt ord1 hs c))"
proof (induction fmt ord1 hs c rule: matchOuter.induct)
  case (2 fmt ord1 h1 hs c)
  show ?case
  proof (cases "map_of (segMap c 0) h1")
    case None
    then show ?thesis using 2 by simp
  next
    case (Some s1)
    let ?c = "matchInner fmt h1 s1 (ord1 h1) c"
    have eq: "matchOuter fmt ord1 (h1 # hs) c = matchOuter fmt ord1 hs ?c" using Some by simp
    from matchInner_conserves [OF "2.prems", of h1 s1 fmt "ord1 h1"] Some
    consider "map_of (segMap ?c i) h = Some s" | "used_in s (cc_Checkpoints ?c)" by auto
    then show ?thesis
    proof cases
      case 1
      then show ?thesis unfolding eq using "2.IH"(2) [OF Some] "2.prems"(2) by simp
    next
      case 2
      then show ?thesis unfolding eq using matchOuter_checkpoints_mono used_in_mono by blast
    qed
  qed
qed simp

lemma popAll_all: "length (cc_Checkpoints c) \<le> n \<Longrightarrow> popAll n c = cc_Checkpoints c"
  by (induction n c rule: popAll.induct)
     (auto simp: CheckpointCache_PopEarliestCheckpoint_def split: list.splits)

lemma map_of_map_snd: "map_of (map (\<lambda>(i, m). (i, f m)) xs) k = map_option f (map_of xs k)"
  by (induction xs) auto

lemma map_of_filter_wf:
  "wf_map m \<Longrightarrow> map_of (filter (\<lambda>(k, v). P v) m) k =
     (case map_of m k of None \<Rightarrow> None | Some v \<Rightarrow> if P v then Some v else None)"
  by (induction m) (auto simp: wf_map_def map_of_eq_None_iff split: option.splits)

subsection \<open>Pairs that matching finds\<close>

text \<open>The inner loop goes on after a match, so a first half meets every second half of the cache.\<close>

lemma matchInner_finds:
  "\<lbrakk>h2 \<in> set hs; map_of (segMap c 1) h2 = Some s2; joinSegments fmt (cc_Version c) s1 s2 = Some e\<rbrakk>
    \<Longrightarrow> NewCkpt s1 s2 e \<in> set (cc_Checkpoints (matchInner fmt h1 s1 hs c))"
proof (induction fmt h1 s1 hs c rule: matchInner.induct)
  case (2 fmt h1 s1 h hs c)
  show ?case
  proof (cases "h = h2")
    case True
    let ?c = "delSegment 1 h (delSegment 0 h1 (CheckpointCache_AddCheckpoint (NewCkpt s1 s2 e) c))"
    have "NewCkpt s1 s2 e \<in> set (cc_Checkpoints (matchInner fmt h1 s1 hs ?c))"
      using matchInner_checkpoints_mono [of ?c fmt h1 s1 hs] by auto
    then show ?thesis using "2.prems" True by simp
  next
    case False
    then show ?thesis using 2 by (auto split: option.splits)
  qed
qed simp

lemma matchInner_other_first:
  "h \<noteq> h1 \<Longrightarrow> map_of (segMap (matchInner fmt h1 s1 hs c) 0) h = map_of (segMap c 0) h"
  by (induction fmt h1 s1 hs c rule: matchInner.induct) (auto split: option.splits)

lemma matchInner_unmatched_second:
  "\<lbrakk>map_of (segMap c 1) h2 = Some s2; joinSegments fmt (cc_Version c) s1 s2 = None\<rbrakk>
    \<Longrightarrow> map_of (segMap (matchInner fmt h1 s1 hs c) 1) h2 = Some s2"
proof (induction fmt h1 s1 hs c rule: matchInner.induct)
  case (2 fmt h1 s1 h hs c)
  then show ?case by (cases "h = h2") (auto split: option.splits)
qed simp

text \<open>
  A pair is found when no other first half takes its second half away. Another second half for
  the same first half does no harm: it gives a further checkpoint.
\<close>

lemma matchOuter_finds:
  "\<lbrakk>h1 \<in> set hs; h2 \<in> set (ord1 h1); map_of (segMap c 0) h1 = Some s1; map_of (segMap c 1) h2 = Some s2;
    joinSegments fmt (cc_Version c) s1 s2 = Some e;
    \<And>h s. h \<noteq> h1 \<Longrightarrow> map_of (segMap c 0) h = Some s \<Longrightarrow> joinSegments fmt (cc_Version c) s s2 = None\<rbrakk>
    \<Longrightarrow> NewCkpt s1 s2 e \<in> set (cc_Checkpoints (matchOuter fmt ord1 hs c))"
proof (induction fmt ord1 hs c rule: matchOuter.induct)
  case (2 fmt ord1 h hs c)
  show ?case
  proof (cases "h = h1")
    case True
    let ?c = "matchInner fmt h1 s1 (ord1 h1) c"
    have "NewCkpt s1 s2 e \<in> set (cc_Checkpoints ?c)" using "2.prems" by (intro matchInner_finds)
    then have "NewCkpt s1 s2 e \<in> set (cc_Checkpoints (matchOuter fmt ord1 hs ?c))"
      using matchOuter_checkpoints_mono by blast
    then show ?thesis using "2.prems" True by simp
  next
    case False
    with "2.prems"(1) have h1: "h1 \<in> set hs" by simp
    show ?thesis
    proof (cases "map_of (segMap c 0) h")
      case None
      with "2.IH"(1) [OF None h1] "2.prems" show ?thesis by simp
    next
      case (Some s)
      let ?c = "matchInner fmt h s (ord1 h) c"
      have "map_of (segMap ?c 0) h1 = Some s1" using matchInner_other_first [of h1 h] False "2.prems"(3) by simp
      moreover have "map_of (segMap ?c 1) h2 = Some s2"
        using "2.prems"(4) "2.prems"(6) [OF False Some] by (rule matchInner_unmatched_second)
      moreover have "joinSegments fmt (cc_Version ?c) t s2 = None" if "k \<noteq> h1" "map_of (segMap ?c 0) k = Some t" for k t
        using "2.prems"(6) [OF that(1) matchInner_shrinks [OF that(2)]] by simp
      ultimately show ?thesis using "2.IH"(2) [OF Some h1 "2.prems"(2)] "2.prems"(5) Some by simp
    qed
  qed
qed simp

subsection \<open>Properties\<close>

text \<open>
  \<open>Match\<close> is complete: when the two \<open>range\<close> loops visit every cached key, in whatever
  order, no two segments that could be joined into a checkpoint are both left in the cache.
\<close>

theorem Match_complete:
  assumes "keys_of (segMap c 0) \<subseteq> set ord0" and "\<And>h. keys_of (segMap c 1) \<subseteq> set (ord1 h)"
    and "map_of (segMap (CheckpointCache_Match fmt srt ord0 ord1 c) 0) h1 = Some s1"
    and "map_of (segMap (CheckpointCache_Match fmt srt ord0 ord1 c) 1) h2 = Some s2"
  shows "joinSegments fmt (cc_Version c) s1 s2 = None"
proof (rule matchOuter_complete)
  from assms(3,4) show *:
    "map_of (segMap (matchOuter fmt ord1 ord0 c) 0) h1 = Some s1"
    "map_of (segMap (matchOuter fmt ord1 ord0 c) 1) h2 = Some s2"
    by (simp_all add: CheckpointCache_Match_def)
  from * have "h1 \<in> keys_of (segMap c 0)" "h2 \<in> keys_of (segMap c 1)"
    by (metis matchOuter_shrinks map_of_None_keys option.distinct(1))+
  then show "h1 \<in> set ord0" "h2 \<in> set (ord1 h1)" using assms(1,2) by blast+
qed

theorem Match_complete_witness:
  "joinSegments sampleFormatter 0 (sampleSegment 0 9) (sampleSegment 1 7) = None"
  using Match_complete [of sampleCkptCache "[4, 9]" "\<lambda>_. [4, 7]" sampleFormatter "sort_key ck_Epoch"
      9 "sampleSegment 0 9" 7 "sampleSegment 1 7"]
  by (simp add: sample_ckpt_defs segMap_def keys_of_def CheckpointCache_Match_def joinSegments_def
      CheckpointCache_sortCheckpoints_def delSegment_def CheckpointCache_AddCheckpoint_def)

text \<open>
  C32. \<open>Match\<close> is sound and loses nothing: each checkpoint was cached before or joins a segment
  of index 0 with one of index 1 that were both cached and decode to its epoch; and each
  cached segment is afterwards still cached or part of a checkpoint.
\<close>

theorem Match_sound_conserving:
  assumes "sorts_by ck_Epoch srt" and "c' = CheckpointCache_Match fmt srt ord0 ord1 c"
  shows "(\<forall>ck. ck \<in> set (cc_Checkpoints c') \<longrightarrow> ck \<in> set (cc_Checkpoints c) \<or> joined_from fmt c ck)
    \<and> (\<forall>i h s. map_of (segMap c i) h = Some s \<and> (i = 0 \<or> i = 1) \<longrightarrow>
         map_of (segMap c' i) h = Some s \<or> used_in s (cc_Checkpoints c'))"
proof -
  have set: "set (cc_Checkpoints c') = set (cc_Checkpoints (matchOuter fmt ord1 ord0 c))"
    by (simp add: assms(2) CheckpointCache_Match_def sorts_by_set [OF assms(1)])
  have seg: "segMap c' i = segMap (matchOuter fmt ord1 ord0 c) i" for i
    by (simp add: assms(2) CheckpointCache_Match_def)
  have used: "used_in s (cc_Checkpoints c') = used_in s (cc_Checkpoints (matchOuter fmt ord1 ord0 c))" for s
    by (simp add: used_in_def set)
  show ?thesis unfolding set seg used
    using matchOuter_sound [of _ fmt ord1 ord0 c c] matchOuter_conserves [of c _ _ _ fmt ord1 ord0] by blast
qed

theorem Match_sound_conserving_witness:
  "used_in (sampleSegment 0 4)
     (cc_Checkpoints (CheckpointCache_Match sampleFormatter (sort_key ck_Epoch) [9, 4] (\<lambda>_. [7, 4]) sampleCkptCache))
   \<and> map_of (segMap (CheckpointCache_Match sampleFormatter (sort_key ck_Epoch) [9, 4] (\<lambda>_. [7, 4]) sampleCkptCache) 0) 9
     = Some (sampleSegment 0 9)"
  using Match_sound_conserving [OF sorts_by_sort_key refl, of sampleFormatter "[9, 4]" "\<lambda>_. [7, 4]" sampleCkptCache]
  by (simp add: sample_ckpt_defs segMap_def CheckpointCache_Match_def joinSegments_def used_in_def NewCkpt_def
      CheckpointCache_sortCheckpoints_def delSegment_def CheckpointCache_AddCheckpoint_def)

text \<open>
  Checkpoints leave the cache in order: after \<open>Match\<close>, popping until nil yields all
  checkpoints with non-decreasing epochs, as Babylon requires of the submissions.
\<close>

theorem Match_pop_in_order:
  assumes "sorts_by ck_Epoch srt" and "c' = CheckpointCache_Match fmt srt ord0 ord1 c"
  shows "sorted (map ck_Epoch (popAll (CheckpointCache_NumCheckpoints c') c'))
    \<and> mset (popAll (CheckpointCache_NumCheckpoints c') c') = mset (cc_Checkpoints c')"
  using assms(1) by (simp add: assms(2) CheckpointCache_NumCheckpoints_def popAll_all
      CheckpointCache_Match_def sorts_by_def)

theorem Match_pop_in_order_witness:
  "sorted (map ck_Epoch (popAll (Suc (Suc 0)) (CheckpointCache_Match sampleFormatter (sort_key ck_Epoch) [] (\<lambda>_. [])
     (sampleCkptCache\<lparr>cc_Checkpoints := [\<lparr>ck_Segments = [], ck_Epoch = 8\<rparr>, \<lparr>ck_Segments = [], ck_Epoch = 3\<rparr>]\<rparr>))))"
  using Match_pop_in_order [OF sorts_by_sort_key refl, of sampleFormatter "[]" "\<lambda>_. []"
      "sampleCkptCache\<lparr>cc_Checkpoints := [\<lparr>ck_Segments = [], ck_Epoch = 8\<rparr>, \<lparr>ck_Segments = [], ck_Epoch = 3\<rparr>]\<rparr>"]
  by (simp add: CheckpointCache_NumCheckpoints_def CheckpointCache_Match_def CheckpointCache_sortCheckpoints_def)

text \<open>
  A cleanup tick removes a segment exactly when it has been in the cache for longer than
  the time to live, and leaves every other segment and all checkpoints alone.
\<close>

theorem cleanup_exact:
  assumes "wf_map (segMap c i)"
  shows "map_of (segMap (CheckpointCache_cleanup ttl now c) i) h =
      (case map_of (segMap c i) h of
         None \<Rightarrow> None
       | Some s \<Rightarrow> if now - seg_Timestamp s > ttl then None else Some s)
    \<and> cc_Checkpoints (CheckpointCache_cleanup ttl now c) = cc_Checkpoints c"
proof -
  have "segMap (CheckpointCache_cleanup ttl now c) i =
      filter (\<lambda>(h, s). \<not> now - seg_Timestamp s > ttl) (segMap c i)"
    by (auto simp: segMap_def CheckpointCache_cleanup_def map_of_map_snd split: option.splits)
  with assms show ?thesis
    by (auto simp: map_of_filter_wf CheckpointCache_cleanup_def split: option.splits)
qed

theorem cleanup_exact_witness:
  "map_of (segMap (CheckpointCache_cleanup 5 16 sampleCkptCache) 0) 4 = None
   \<and> map_of (segMap (CheckpointCache_cleanup 5 15 sampleCkptCache) 0) 4 = Some (sampleSegment 0 4)"
  using cleanup_exact [of sampleCkptCache 0 5 16 4] cleanup_exact [of sampleCkptCache 0 5 15 4]
  by (simp add: sampleCkptCache_def segMap_def wf_map_def sampleSegment_def)

text \<open>
  A segment that was accepted can be found again: \<open>AddSegment\<close> on a new cache, or on any
  cache with the entries the constructor made, succeeds exactly for the indices in scope,
  and then the segment is stored under the hash of its data with its insertion time.
\<close>

theorem AddSegment_lookup:
  assumes "keys_of (cc_Segments c) = keys_of (cc_Segments (NewCheckpointCache fmt tag ver))"
  shows "(if bd_Index (seg_BabylonData s) \<ge> f_NumberOfParts fmt
          then CheckpointCache_AddSegment fmt now s c
                 = Err (errorf ''the index of the ckpt segment is out of scope'')
          else \<exists>c'. CheckpointCache_AddSegment fmt now s c = Ok c' \<and>
                 map_of (segMap c' (bd_Index (seg_BabylonData s))) (f_Sum256 fmt (bd_Data (seg_BabylonData s)))
                   = Some (s\<lparr>seg_Timestamp := now\<rparr>))"
proof (cases "bd_Index (seg_BabylonData s) \<ge> f_NumberOfParts fmt")
  case True
  then show ?thesis by (simp add: CheckpointCache_AddSegment_def)
next
  case False
  let ?i = "bd_Index (seg_BabylonData s)"
  have "?i \<in> of_nat ` {0..<unat (f_NumberOfParts fmt)}"
    using False by (intro image_eqI [of _ _ "unat ?i"]) (auto simp: word_less_nat_alt not_le)
  then have "?i \<in> keys_of (cc_Segments c)"
    unfolding assms by (simp add: NewCheckpointCache_def keys_of_def image_image)
  then obtain m where "map_of (cc_Segments c) ?i = Some m"
    by (metis map_of_None_keys not_None_eq)
  with False show ?thesis
    by (auto simp: CheckpointCache_AddSegment_def Let_def segMap_def update_conv)
qed

theorem AddSegment_lookup_witness:
  "\<exists>c'. CheckpointCache_AddSegment sampleFormatter 33 (sampleSegment 1 5)
        (NewCheckpointCache sampleFormatter [] 0) = Ok c'
     \<and> map_of (segMap c' 1) 5 = Some (sampleSegment 1 5\<lparr>seg_Timestamp := 33\<rparr>)"
proof -
  have [simp]: "bd_Index (seg_BabylonData (sampleSegment 1 5)) = 1" "f_NumberOfParts sampleFormatter = 2"
    "f_Sum256 sampleFormatter (bd_Data (seg_BabylonData (sampleSegment 1 5))) = 5"
    by (simp_all add: sampleFormatter_def sampleSegment_def)
  have [simp]: "\<not> (2 :: u8) \<le> 1" by code_simp
  show ?thesis
    using AddSegment_lookup [of "NewCheckpointCache sampleFormatter [] 0" sampleFormatter "[]" 0 "sampleSegment 1 5" 33]
    by simp
qed

end
