(* ===== verification/BTC_Scanner.thy ===== *)
theory BTC_Scanner
  imports BTC_Client Ckpt_Cache Ckpt_Bookkeeper
begin

text \<open>
  The monitor's Bitcoin scanner: \<open>monitor/btcscanner/btc_scanner.go\<close> and
  \<open>monitor/btcscanner/block_handler.go\<close>. The three channels appear in the state as the log of
  everything sent on them; what receivers see of \<open>confirmedBlocksChan\<close>, and the blocking of full
  channels, is the step relation \<open>chan_step\<close> at the end.

  Shown here: whatever the node answers and whatever blocks are announced, the confirmed
  blocks form one hash-linked chain; a bootstrap against a serving node confirms exactly the
  blocks that are \<open>k\<close> deep and caches the rest; each further block confirms exactly one more,
  unless the cache has no room for \<open>k + 1\<close> blocks; and which goroutine sees a confirmed block.
\<close>

subsection \<open>State\<close>

record 'w scanner =
  bs_baseHeight :: u32
  bs_k :: u32
  bs_confirmedTipBlock :: "indexedBlock option"
  bs_confirmedBlocks :: "indexedBlock list"
  bs_ckptCache :: ckptCache
  bs_unconfirmedBlockCache :: btcCache
  bs_blockHeaders :: "blockHeader list"
  bs_checkpoints :: "checkpointRecord list"
  bs_started :: bool
  bs_world :: 'w

text \<open>
  The scanner's libraries: the Bitcoin node, the hash of a header, the checkpoint format, the
  sort routine, the clock, and the orders in which \<open>Match\<close> visits the segment maps.
\<close>

record 'w scannerEnv =
  se_rpc :: "'w btcRpc"
  se_BlockHash :: "blockHeader \<Rightarrow> hash"
  se_fmt :: formatter
  se_sort :: "ckpt list \<Rightarrow> ckpt list"
  se_ord0 :: "ckptCache \<Rightarrow> hash list"
  se_ord1 :: "ckptCache \<Rightarrow> hash \<Rightarrow> hash list"
  se_Now :: "('w, int) prog"
  se_FromBTCCkptBytes :: "bytes \<Rightarrow> goerr + rawCheckpoint"

definition rpcS :: "('w, 'a) prog \<Rightarrow> ('w scanner, 'a) prog" where
  "rpcS m = zoomG bs_world (\<lambda>w s. s\<lparr>bs_world := w\<rparr>) m"

definition scanner_New :: "formatter \<Rightarrow> u8 \<Rightarrow> u32 \<Rightarrow> u32 \<Rightarrow> bytes \<Rightarrow> 'w \<Rightarrow> 'w scanner outcome" where
  "scanner_New fmt version btcCacheSize confirmationDepth checkpointTag w =
     (case NewBTCCache btcCacheSize of
        Inl _ \<Rightarrow> Panic ''failed to create BTC cache for tail blocks''
      | Inr c \<Rightarrow> Ok \<lparr>bs_baseHeight = 0, bs_k = confirmationDepth, bs_confirmedTipBlock = None,
          bs_confirmedBlocks = [], bs_ckptCache = NewCheckpointCache fmt checkpointTag version,
          bs_unconfirmedBlockCache = c, bs_blockHeaders = [], bs_checkpoints = [],
          bs_started = False, bs_world = w\<rparr>)"

definition SetBaseHeight :: "u32 \<Rightarrow> ('w scanner, unit) prog" where
  "SetBaseHeight h = modG (\<lambda>s. s\<lparr>bs_baseHeight := h\<rparr>)"

subsection \<open>Bootstrapping\<close>

fun sendConfirmedBlocksToChan :: "indexedBlock list \<Rightarrow> ('w scanner, unit) prog" where
  "sendConfirmedBlocksToChan [] = retG ()"
| "sendConfirmedBlocksToChan (b # bs) =
     bindG (modG (\<lambda>s. s\<lparr>bs_confirmedBlocks := bs_confirmedBlocks s @ [b], bs_confirmedTipBlock := Some b\<rparr>)) (\<lambda>_.
       sendConfirmedBlocksToChan bs)"

definition cacheAdd :: "indexedBlock \<Rightarrow> ('w scanner, unit) prog" where
  "cacheAdd ib = bindG (getG bs_unconfirmedBlockCache) (\<lambda>c.
     bindG (liftG (BTCCache_add ib c)) (\<lambda>c'. modG (\<lambda>s. s\<lparr>bs_unconfirmedBlockCache := c'\<rparr>)))"

definition firstUnconfirmedHeight :: "'w scanner \<Rightarrow> u32" where
  "firstUnconfirmedHeight s = (case bs_confirmedTipBlock s of
       Some tip \<Rightarrow> ib_Height tip + 1 | None \<Rightarrow> bs_baseHeight s)"

text \<open>
  The two loops of \<open>Bootstrap\<close> count a 32-bit height up to a bound; with the bound \<open>2^32 - 1\<close>
  they never end, so they carry fuel.
\<close>

fun confirmLoop :: "nat \<Rightarrow> 'w scannerEnv \<Rightarrow> u32 \<Rightarrow> u32 \<Rightarrow> ('w scanner, unit) prog" where
  "confirmLoop 0 env i bestConfirmedHeight = noFuelG"
| "confirmLoop (Suc fuel) env i bestConfirmedHeight =
     (if i \<le> bestConfirmedHeight then
        bindG (mustG ''block by height'' (rpcS (GetBlockByHeight (se_rpc env) i))) (\<lambda>(ib, _).
        bindG (getG bs_confirmedTipBlock) (\<lambda>tip.
          if (case tip of None \<Rightarrow> False
                | Some t \<Rightarrow> se_BlockHash env (ib_Header t) \<noteq> bh_PrevBlock (ib_Header ib))
          then panicG ''invalid canonical chain''
          else bindG (sendConfirmedBlocksToChan [ib]) (\<lambda>_. confirmLoop fuel env (i + 1) bestConfirmedHeight)))
      else retG ())"

fun cacheLoop :: "nat \<Rightarrow> 'w scannerEnv \<Rightarrow> u32 \<Rightarrow> u32 \<Rightarrow> ('w scanner, unit) prog" where
  "cacheLoop 0 env i bestHeight = noFuelG"
| "cacheLoop (Suc fuel) env i bestHeight =
     (if i \<le> bestHeight then
        bindG (mustG ''block by height'' (rpcS (GetBlockByHeight (se_rpc env) i))) (\<lambda>(ib, _).
        bindG (getG (BTCCache_Tip \<circ> bs_unconfirmedBlockCache)) (\<lambda>tip.
          if (case tip of None \<Rightarrow> False
                | Some t \<Rightarrow> se_BlockHash env (ib_Header t) \<noteq> bh_PrevBlock (ib_Header ib))
          then panicG ''invalid canonical chain''
          else bindG (cacheAdd ib) (\<lambda>_. cacheLoop fuel env (i + 1) bestHeight)))
      else retG ())"

definition scanner_Bootstrap :: "nat \<Rightarrow> 'w scannerEnv \<Rightarrow> ('w scanner, unit) prog" where
  "scanner_Bootstrap fuel env =
     bindG (getG firstUnconfirmedHeight) (\<lambda>first.
     bindG (modG (\<lambda>s. s\<lparr>bs_unconfirmedBlockCache := BTCCache_RemoveAll (bs_unconfirmedBlockCache s)\<rparr>)) (\<lambda>_.
     bindG (mustG ''cannot get the best BTC block'' (rpcS (GetBestBlock (se_rpc env)))) (\<lambda>bestHeight.
     bindG (getG bs_k) (\<lambda>k.
     bindG (confirmLoop fuel env first (bestHeight - k)) (\<lambda>_.
       cacheLoop fuel env (bestHeight - k + 1) bestHeight)))))"

subsection \<open>New blocks\<close>

text \<open>The part of \<open>handleNewBlock\<close> that adds a fetched block and confirms what is deep enough.\<close>

definition confirmBlocks :: "'w scannerEnv \<Rightarrow> indexedBlock list \<Rightarrow> ('w scanner, unit) prog" where
  "confirmBlocks env confirmedBlocks =
     bindG (getG bs_confirmedTipBlock) (\<lambda>tip. case tip of
       None \<Rightarrow> panicG ''nil confirmedTipBlock''
     | Some t \<Rightarrow>
         if se_BlockHash env (ib_Header t) \<noteq> bh_PrevBlock (ib_Header (hd confirmedBlocks))
         then panicG ''invalid canonical chain''
         else sendConfirmedBlocksToChan confirmedBlocks)"

definition acceptBlock :: "'w scannerEnv \<Rightarrow> indexedBlock \<Rightarrow> ('w scanner, unit) prog" where
  "acceptBlock env ib =
     bindG (cacheAdd ib) (\<lambda>_.
     bindG (getG bs_unconfirmedBlockCache) (\<lambda>c.
     bindG (getG bs_k) (\<lambda>k.
       if BTCCache_size c > 2 ^ 31 - 1 then panicG ''unconfirmedBlockCache exceeds uint32''
       else if (of_nat (BTCCache_size c) :: u32) \<le> k then retG ()
       else
         (let (confirmed, c') = BTCCache_TrimConfirmedBlocks (unat k) c in
          bindG (modG (\<lambda>s. s\<lparr>bs_unconfirmedBlockCache := c'\<rparr>)) (\<lambda>_. case confirmed of
            None \<Rightarrow> retG ()
          | Some confirmedBlocks \<Rightarrow> confirmBlocks env confirmedBlocks)))))"

definition scanner_handleNewBlock :: "'w scannerEnv \<Rightarrow> u32 \<Rightarrow> blockHeader \<Rightarrow> ('w scanner, unit) prog" where
  "scanner_handleNewBlock env height header =
     bindG (getG (BTCCache_Tip \<circ> bs_unconfirmedBlockCache)) (\<lambda>tip. case tip of
       None \<Rightarrow> failG (errorf ''no unconfirmed blocks found'')
     | Some cacheTip \<Rightarrow>
       if ib_Height cacheTip \<ge> height then retG ()
       else if ib_Height cacheTip + 1 < height then failG (errorf ''missing blocks'')
       else if bh_PrevBlock header \<noteq> se_BlockHash env (ib_Header cacheTip)
         then failG (errorf ''cache is not up-to-date'')
       else
         bindG (mustG ''failed to request block by hash''
                  (rpcS (GetBlockByHash (se_rpc env) (se_BlockHash env header)))) (\<lambda>(ib, _). acceptBlock env ib))"

text \<open>
  One event of \<open>bootstrapAndBlockEventHandler\<close>: a notified block whose handling fails restarts
  the bootstrap. The notifier's heights are \<open>int32\<close>.
\<close>

definition scanner_blockEvent :: "nat \<Rightarrow> 'w scannerEnv \<Rightarrow> int \<Rightarrow> blockHeader \<Rightarrow> ('w scanner, unit) prog" where
  "scanner_blockEvent fuel env height header =
     (if height < 0 then panicG ''received negative epoch height''
      else bindG (tryG (scanner_handleNewBlock env (word_of_int height) header)) (\<lambda>r. case r of
             Inl _ \<Rightarrow> scanner_Bootstrap fuel env
           | Inr _ \<Rightarrow> retG ()))"

text \<open>The best known block the notifier is registered with, its height an \<open>int32\<close>.\<close>

definition bestKnownBlock :: "('w scanner, indexedBlock option) prog" where
  "bestKnownBlock = bindG (getG (BTCCache_Tip \<circ> bs_unconfirmedBlockCache)) (\<lambda>tip. case tip of
     None \<Rightarrow> retG None
   | Some b \<Rightarrow> if unat (ib_Height b) > 2 ^ 31 - 1 then panicG ''block height exceeds int32 range''
               else retG (Some b))"

fun scanner_blockEvents :: "nat \<Rightarrow> 'w scannerEnv \<Rightarrow> (int \<times> blockHeader) list \<Rightarrow> ('w scanner, unit) prog" where
  "scanner_blockEvents fuel env [] = retG ()"
| "scanner_blockEvents fuel env ((height, header) # es) =
     bindG (scanner_blockEvent fuel env height header) (\<lambda>_. scanner_blockEvents fuel env es)"

definition bootstrapAndBlockEventHandler ::
  "nat \<Rightarrow> 'w scannerEnv \<Rightarrow> (indexedBlock option \<Rightarrow> ('w, unit) prog) \<Rightarrow> (int \<times> blockHeader) list
    \<Rightarrow> ('w scanner, unit) prog" where
  "bootstrapAndBlockEventHandler fuel env register events =
     bindG (scanner_Bootstrap fuel env) (\<lambda>_.
     bindG bestKnownBlock (\<lambda>best.
     bindG (tryG (rpcS (register best))) (\<lambda>r. case r of
       Inl _ \<Rightarrow> retG ()
     | Inr _ \<Rightarrow> scanner_blockEvents fuel env events)))"

subsection \<open>Checkpoints\<close>

fun extractSegments :: "'w scannerEnv \<Rightarrow> indexedBlock \<Rightarrow> btcTx option list \<Rightarrow> bool \<Rightarrow> ('w scanner, bool) prog" where
  "extractSegments env b [] found = retG found"
| "extractSegments env b (None # txs) found = extractSegments env b txs found"
| "extractSegments env b (Some tx # txs) found =
     bindG (getG bs_ckptCache) (\<lambda>cc.
       case NewCkptSegment (se_fmt env) (cc_Tag cc) (cc_Version cc) b tx of
         None \<Rightarrow> extractSegments env b txs found
       | Some ckptSeg \<Rightarrow>
           bindG (rpcS (se_Now env)) (\<lambda>now.
           bindG (tryG (liftG (CheckpointCache_AddSegment (se_fmt env) now ckptSeg cc))) (\<lambda>r. case r of
             Inl _ \<Rightarrow> extractSegments env b txs found
           | Inr cc' \<Rightarrow> bindG (modG (\<lambda>s. s\<lparr>bs_ckptCache := cc'\<rparr>)) (\<lambda>_. extractSegments env b txs True))))"

definition tryToExtractCkptSegment :: "'w scannerEnv \<Rightarrow> indexedBlock \<Rightarrow> ('w scanner, bool) prog" where
  "tryToExtractCkptSegment env b = extractSegments env b (ib_Txs b) False"

text \<open>\<open>Segments[0]\<close> and \<open>Segments[1]\<close> of a checkpoint that has fewer segments panic.\<close>

definition recordOf :: "'w scannerEnv \<Rightarrow> u8 \<Rightarrow> ckpt \<Rightarrow> checkpointRecord outcome" where
  "recordOf env version ck = (case ck_Segments ck of
       s0 # s1 # _ \<Rightarrow>
         (case f_ConnectParts (se_fmt env) version (bd_Data (seg_BabylonData s0)) (bd_Data (seg_BabylonData s1)) of
            Inl err \<Rightarrow> Err (wrapf ''failed to connect two checkpoint parts: '' err)
          | Inr connectedBytes \<Rightarrow> (case se_FromBTCCkptBytes env connectedBytes of
                Inl err \<Rightarrow> Err (wrapf ''failed to decode raw checkpoint bytes: '' err)
              | Inr raw \<Rightarrow> Ok (NewCheckpointRecord raw (ib_Height (seg_AssocBlock s0)))))
     | _ \<Rightarrow> Panic ''index out of range'')"

definition matchAndPop :: "'w scannerEnv \<Rightarrow> ('w scanner, checkpointRecord option) prog" where
  "matchAndPop env =
     bindG (getG bs_ckptCache) (\<lambda>cc.
       (let (popped, cc') = CheckpointCache_PopEarliestCheckpoint
              (CheckpointCache_Match (se_fmt env) (se_sort env) (se_ord0 env cc) (se_ord1 env cc) cc) in
        bindG (modG (\<lambda>s. s\<lparr>bs_ckptCache := cc'\<rparr>)) (\<lambda>_. case popped of
          None \<Rightarrow> retG None
        | Some ckptSegments \<Rightarrow>
            bindG (liftG (recordOf env (cc_Version cc') ckptSegments)) (\<lambda>r. retG (Some r)))))"

definition tryToExtractCheckpoint :: "'w scannerEnv \<Rightarrow> indexedBlock \<Rightarrow> ('w scanner, checkpointRecord option) prog" where
  "tryToExtractCheckpoint env block =
     bindG (tryToExtractCkptSegment env block) (\<lambda>found.
       if \<not> found then retG None else mustG ''decode checkpoint'' (matchAndPop env))"

text \<open>One round of the loop of \<open>Start\<close> on a block received from \<open>confirmedBlocksChan\<close>.\<close>

definition scanConfirmedBlock :: "'w scannerEnv \<Rightarrow> indexedBlock \<Rightarrow> ('w scanner, unit) prog" where
  "scanConfirmedBlock env block =
     bindG (modG (\<lambda>s. s\<lparr>bs_blockHeaders := bs_blockHeaders s @ [ib_Header block]\<rparr>)) (\<lambda>_.
     bindG (tryToExtractCheckpoint env block) (\<lambda>ckptBtc. case ckptBtc of
       None \<Rightarrow> retG ()
     | Some r \<Rightarrow> modG (\<lambda>s. s\<lparr>bs_checkpoints := bs_checkpoints s @ [r]\<rparr>)))"

text \<open>\<open>Start\<close> up to its loop; it returns whether the loop is entered.\<close>

definition scanner_Start :: "('w, unit) prog \<Rightarrow> u32 \<Rightarrow> ('w scanner, bool) prog" where
  "scanner_Start notifierStart startHeight =
     bindG (getG bs_started) (\<lambda>started.
       if started then retG False
       else
         bindG (SetBaseHeight startHeight) (\<lambda>_.
         bindG (modG (\<lambda>s. s\<lparr>bs_started := True\<rparr>)) (\<lambda>_.
         bindG (tryG (rpcS notifierStart)) (\<lambda>r. case r of Inl _ \<Rightarrow> retG False | Inr _ \<Rightarrow> retG True))))"

subsection \<open>The invariant of the scanner\<close>

definition hash_linked :: "(blockHeader \<Rightarrow> hash) \<Rightarrow> indexedBlock list \<Rightarrow> bool" where
  "hash_linked bh bs \<longleftrightarrow> successively (\<lambda>a b. bh_PrevBlock (ib_Header b) = bh (ib_Header a)) bs"

definition scanner_inv :: "(blockHeader \<Rightarrow> hash) \<Rightarrow> 'w scanner \<Rightarrow> bool" where
  "scanner_inv bh s \<longleftrightarrow> hash_linked bh (bs_confirmedBlocks s)
     \<and> bs_confirmedTipBlock s = (if bs_confirmedBlocks s = [] then None else Some (last (bs_confirmedBlocks s)))
     \<and> wf_cache (bs_unconfirmedBlockCache s) \<and> hash_linked bh (blocks (bs_unconfirmedBlockCache s))"

lemma hash_linked_append:
  "hash_linked bh (xs @ ys) \<longleftrightarrow> hash_linked bh xs \<and> hash_linked bh ys \<and>
     (xs \<noteq> [] \<longrightarrow> ys \<noteq> [] \<longrightarrow> bh_PrevBlock (ib_Header (hd ys)) = bh (ib_Header (last xs)))"
  by (auto simp: hash_linked_def successively_append_iff)

lemma hash_linked_simps [simp]: "hash_linked bh []" "hash_linked bh [b]"
  by (simp_all add: hash_linked_def)

lemma hash_linked_drop: "hash_linked bh bs \<Longrightarrow> hash_linked bh (drop n bs)"
  by (metis append_take_drop_id hash_linked_append)

lemma hash_linked_take: "hash_linked bh bs \<Longrightarrow> hash_linked bh (take n bs)"
  by (metis append_take_drop_id hash_linked_append)

lemma sendConfirmed_run:
  "sendConfirmedBlocksToChan bs s =
     (Ok (), if bs = [] then s
             else s\<lparr>bs_confirmedBlocks := bs_confirmedBlocks s @ bs, bs_confirmedTipBlock := Some (last bs)\<rparr>)"
  by (induction bs arbitrary: s) (simp_all add: retG_def)

declare sendConfirmedBlocksToChan.simps [simp del]

lemma sendConfirmed_inv:
  assumes "scanner_inv bh s" and "hash_linked bh bs" and "bs \<noteq> []"
    and "\<And>t. bs_confirmedTipBlock s = Some t \<Longrightarrow> bh (ib_Header t) = bh_PrevBlock (ib_Header (hd bs))"
  shows "scanner_inv bh (snd (sendConfirmedBlocksToChan bs s))"
  using assms by (auto simp: scanner_inv_def sendConfirmed_run hash_linked_append split: if_splits)

lemma cacheAdd_inv:
  assumes "scanner_inv bh s"
    and "\<And>t. BTCCache_Tip (bs_unconfirmedBlockCache s) = Some t \<Longrightarrow> bh (ib_Header t) = bh_PrevBlock (ib_Header ib)"
  shows "\<exists>c'. cacheAdd ib s = (Ok (), s\<lparr>bs_unconfirmedBlockCache := c'\<rparr>) \<and> BTCCache_add ib (bs_unconfirmedBlockCache s) = Ok c'
    \<and> scanner_inv bh (s\<lparr>bs_unconfirmedBlockCache := c'\<rparr>)"
proof -
  let ?c = "bs_unconfirmedBlockCache s"
  from assms(1) have wf: "wf_cache ?c" by (simp add: scanner_inv_def)
  from btc_window.push_window [OF wf, of ib] obtain c' n where
    c': "BTCCache_add ib ?c = Ok c'" "wf_cache c'" "blocks c' = drop n (blocks ?c) @ [ib]" by blast
  have "hash_linked bh (drop n (blocks ?c))" using assms(1) by (simp add: scanner_inv_def hash_linked_drop)
  moreover have "bh_PrevBlock (ib_Header ib) = bh (ib_Header (last (drop n (blocks ?c))))" if "drop n (blocks ?c) \<noteq> []"
  proof -
    have "BTCCache_Tip ?c = Some (last (blocks ?c))" using that by (auto simp: btc_window.tip_window)
    then show ?thesis using assms(2) that by (simp add: last_drop)
  qed
  ultimately have "scanner_inv bh (s\<lparr>bs_unconfirmedBlockCache := c'\<rparr>)"
    using assms(1) c' by (auto simp: scanner_inv_def hash_linked_append)
  then show ?thesis using c' by (simp add: cacheAdd_def liftG_def modG_def bindG_def getG_def)
qed

text \<open>Frames: what a call to the node leaves alone, and the history of confirmed blocks only grows.\<close>

definition scanner_hist :: "(blockHeader \<Rightarrow> hash) \<Rightarrow> indexedBlock list \<Rightarrow> 'w scanner \<Rightarrow> bool" where
  "scanner_hist bh sent s \<longleftrightarrow> scanner_inv bh s \<and> (\<exists>more. bs_confirmedBlocks s = sent @ more)"

lemma keeps_rpcS: "keeps (scanner_hist bh sent) (rpcS m)"
  unfolding rpcS_def by (rule keeps_zoomG) (simp add: scanner_hist_def scanner_inv_def)

lemma sendConfirmed_hist:
  assumes "scanner_hist bh sent s" and "hash_linked bh bs" and "bs \<noteq> []"
    and "\<And>t. bs_confirmedTipBlock s = Some t \<Longrightarrow> bh (ib_Header t) = bh_PrevBlock (ib_Header (hd bs))"
  shows "scanner_hist bh sent (snd (sendConfirmedBlocksToChan bs s))"
  using sendConfirmed_inv [of bh s bs] assms by (auto simp: scanner_hist_def sendConfirmed_run)

lemma keeps_confirmOne:
  assumes "keeps (scanner_hist (se_BlockHash env) sent) k"
  shows "keeps (scanner_hist (se_BlockHash env) sent)
    (bindG (getG bs_confirmedTipBlock) (\<lambda>tip.
          if (case tip of None \<Rightarrow> False
                | Some t \<Rightarrow> se_BlockHash env (ib_Header t) \<noteq> bh_PrevBlock (ib_Header ib))
          then panicG p else bindG (sendConfirmedBlocksToChan [ib]) (\<lambda>_. k)))"
  unfolding keeps_def
proof (intro allI impI)
  fix s :: "'a scanner" assume I: "scanner_hist (se_BlockHash env) sent s"
  let ?bad = "case bs_confirmedTipBlock s of None \<Rightarrow> False
                | Some t \<Rightarrow> se_BlockHash env (ib_Header t) \<noteq> bh_PrevBlock (ib_Header ib)"
  show "scanner_hist (se_BlockHash env) sent (snd (bindG (getG bs_confirmedTipBlock) (\<lambda>tip.
          if (case tip of None \<Rightarrow> False
                | Some t \<Rightarrow> se_BlockHash env (ib_Header t) \<noteq> bh_PrevBlock (ib_Header ib))
          then panicG p else bindG (sendConfirmedBlocksToChan [ib]) (\<lambda>_. k)) s))"
  proof (cases ?bad)
    case True
    then show ?thesis using I by (simp add: panicG_def)
  next
    case False
    then have ok: "bs_confirmedTipBlock s = Some t \<Longrightarrow>
        se_BlockHash env (ib_Header t) = bh_PrevBlock (ib_Header ib)" for t by simp
    have "scanner_hist (se_BlockHash env) sent (snd (sendConfirmedBlocksToChan [ib] s))"
      by (rule sendConfirmed_hist [OF I]) (simp_all add: ok)
    then show ?thesis using assms False by (simp add: keeps_def sendConfirmed_run)
  qed
qed

lemma keeps_cacheOne:
  assumes "keeps (scanner_hist (se_BlockHash env) sent) k"
  shows "keeps (scanner_hist (se_BlockHash env) sent)
    (bindG (getG (BTCCache_Tip \<circ> bs_unconfirmedBlockCache)) (\<lambda>tip.
          if (case tip of None \<Rightarrow> False
                | Some t \<Rightarrow> se_BlockHash env (ib_Header t) \<noteq> bh_PrevBlock (ib_Header ib))
          then panicG p else bindG (cacheAdd ib) (\<lambda>_. k)))"
  unfolding keeps_def
proof (intro allI impI)
  fix s :: "'a scanner" assume I: "scanner_hist (se_BlockHash env) sent s"
  let ?bad = "case BTCCache_Tip (bs_unconfirmedBlockCache s) of None \<Rightarrow> False
                | Some t \<Rightarrow> se_BlockHash env (ib_Header t) \<noteq> bh_PrevBlock (ib_Header ib)"
  show "scanner_hist (se_BlockHash env) sent (snd (bindG (getG (BTCCache_Tip \<circ> bs_unconfirmedBlockCache)) (\<lambda>tip.
          if (case tip of None \<Rightarrow> False
                | Some t \<Rightarrow> se_BlockHash env (ib_Header t) \<noteq> bh_PrevBlock (ib_Header ib))
          then panicG p else bindG (cacheAdd ib) (\<lambda>_. k)) s))"
  proof (cases ?bad)
    case True
    then show ?thesis using I by (simp add: panicG_def)
  next
    case False
    then have ok: "BTCCache_Tip (bs_unconfirmedBlockCache s) = Some t \<Longrightarrow>
        se_BlockHash env (ib_Header t) = bh_PrevBlock (ib_Header ib)" for t by simp
    from I have "scanner_inv (se_BlockHash env) s" by (simp add: scanner_hist_def)
    from cacheAdd_inv [OF this ok] obtain c' where c': "cacheAdd ib s = (Ok (), s\<lparr>bs_unconfirmedBlockCache := c'\<rparr>)"
      "scanner_inv (se_BlockHash env) (s\<lparr>bs_unconfirmedBlockCache := c'\<rparr>)" by blast
    then have "scanner_hist (se_BlockHash env) sent (s\<lparr>bs_unconfirmedBlockCache := c'\<rparr>)"
      using I by (simp add: scanner_hist_def)
    then show ?thesis using assms False c' by (simp add: keeps_def)
  qed
qed

lemma keeps_confirmLoop: "keeps (scanner_hist (se_BlockHash env) sent) (confirmLoop fuel env i best)"
  by (induction fuel arbitrary: i)
     (auto intro!: keeps_rules keeps_rpcS keeps_confirmOne)

lemma keeps_cacheLoop: "keeps (scanner_hist (se_BlockHash env) sent) (cacheLoop fuel env i best)"
  by (induction fuel arbitrary: i) (auto intro!: keeps_rules keeps_rpcS keeps_cacheOne)

lemma keeps_Bootstrap: "keeps (scanner_hist (se_BlockHash env) sent) (scanner_Bootstrap fuel env)"
proof -
  have "keeps (scanner_hist (se_BlockHash env) sent)
    (modG (\<lambda>s. s\<lparr>bs_unconfirmedBlockCache := BTCCache_RemoveAll (bs_unconfirmedBlockCache s)\<rparr>))"
    by (rule keeps_modG) (simp add: scanner_hist_def scanner_inv_def BTCCache_RemoveAll_def wf_cache_def)
  then show ?thesis unfolding scanner_Bootstrap_def
    by (intro keeps_rules keeps_rpcS keeps_confirmLoop keeps_cacheLoop)
qed

lemma GetBlockByHash_header:
  assumes "GetBlockByHash c h w = (Ok (ib, mb), w')"
  shows "ib_Header ib = mb_Header mb \<and> (\<exists>w1. getBlockWithRetry c h w1 = (Ok mb, w'))"
  using assms
  by (auto simp: GetBlockByHash_def retG_def panicG_def NewIndexedBlock_def elim!: bindG_Ok_E split: if_splits)

lemma confirmBlocks_hist:
  assumes "scanner_hist (se_BlockHash env) sent s" and "hash_linked (se_BlockHash env) bs" and "bs \<noteq> []"
  shows "scanner_hist (se_BlockHash env) sent (snd (confirmBlocks env bs s))"
proof (cases "bs_confirmedTipBlock s")
  case None
  then show ?thesis using assms(1) by (simp add: confirmBlocks_def panicG_def)
next
  case (Some t)
  then show ?thesis using assms sendConfirmed_hist [OF assms(1-3)] by (simp add: confirmBlocks_def panicG_def)
qed

lemma acceptBlock_hist:
  assumes I: "scanner_hist (se_BlockHash env) sent s"
    and "\<And>t. BTCCache_Tip (bs_unconfirmedBlockCache s) = Some t \<Longrightarrow> se_BlockHash env (ib_Header t) = bh_PrevBlock (ib_Header ib)"
  shows "scanner_hist (se_BlockHash env) sent (snd (acceptBlock env ib s))"
proof -
  let ?bh = "se_BlockHash env"
  from I have "scanner_inv ?bh s" by (simp add: scanner_hist_def)
  from cacheAdd_inv [OF this assms(2)] obtain c where add: "cacheAdd ib s = (Ok (), s\<lparr>bs_unconfirmedBlockCache := c\<rparr>)"
    and inv: "scanner_inv ?bh (s\<lparr>bs_unconfirmedBlockCache := c\<rparr>)" by blast
  from inv I have h1: "scanner_hist ?bh sent (s\<lparr>bs_unconfirmedBlockCache := c\<rparr>)" by (simp add: scanner_hist_def)
  let ?n = "length (blocks c) - unat (bs_k s)"
  let ?s2 = "s\<lparr>bs_unconfirmedBlockCache := c\<lparr>blocks := drop ?n (blocks c)\<rparr>\<rparr>"
  have lk: "hash_linked ?bh (blocks c)" using inv by (simp add: scanner_inv_def)
  have "wf_cache (c\<lparr>blocks := drop ?n (blocks c)\<rparr>)" using inv by (auto simp: scanner_inv_def wf_cache_def)
  then have h2: "scanner_hist ?bh sent ?s2"
    using inv I lk by (auto simp: scanner_hist_def scanner_inv_def hash_linked_drop)
  have "scanner_hist ?bh sent (snd (confirmBlocks env (take ?n (blocks c)) ?s2))" if "\<not> length (blocks c) \<le> unat (bs_k s)"
    by (rule confirmBlocks_hist [OF h2 hash_linked_take [OF lk]]) (use that in auto)
  then show ?thesis using h1 h2 add
    by (auto simp: acceptBlock_def BTCCache_TrimConfirmedBlocks_def Let_def panicG_def retG_def)
qed

lemma handleNewBlock_hist:
  assumes I: "scanner_hist (se_BlockHash env) sent s"
    and auth: "\<And>w mb w'. getBlockWithRetry (se_rpc env) (se_BlockHash env header) w = (Ok mb, w') \<Longrightarrow> mb_Header mb = header"
  shows "scanner_hist (se_BlockHash env) sent (snd (scanner_handleNewBlock env height header s))"
proof (cases "BTCCache_Tip (bs_unconfirmedBlockCache s)")
  case None
  then show ?thesis using I by (simp add: scanner_handleNewBlock_def failG_def)
next
  case (Some t)
  let ?get = "mustG ''failed to request block by hash'' (rpcS (GetBlockByHash (se_rpc env) (se_BlockHash env header)))"
  have "scanner_hist (se_BlockHash env) sent (snd (bindG ?get (\<lambda>(ib, _). acceptBlock env ib) s))"
    if prev: "bh_PrevBlock header = se_BlockHash env (ib_Header t)"
  proof -
    obtain r s1 where run: "?get s = (r, s1)" by force
    have h1: "scanner_hist (se_BlockHash env) sent s1"
      by (rule keepsD [OF keeps_must [OF keeps_rpcS] I run])
    show ?thesis
    proof (cases r)
      case (Ok p)
      obtain ib mb where p: "p = (ib, mb)" by force
      from run Ok p obtain w' where g: "GetBlockByHash (se_rpc env) (se_BlockHash env header) (bs_world s) = (Ok (ib, mb), w')"
        and s1: "s1 = s\<lparr>bs_world := w'\<rparr>"
        by (auto simp: rpcS_def zoomG_def split: prod.splits)
      have "ib_Header ib = header" using GetBlockByHash_header [OF g] auth by auto
      then have "scanner_hist (se_BlockHash env) sent (snd (acceptBlock env ib s1))"
        by (intro acceptBlock_hist [OF h1]) (use Some prev s1 in simp)
      then show ?thesis using run Ok p by simp
    qed (use run h1 in simp_all)
  qed
  then show ?thesis using I Some by (simp add: scanner_handleNewBlock_def failG_def retG_def)
qed

lemma blockEvent_hist:
  assumes "scanner_hist (se_BlockHash env) sent s"
    and "\<And>w mb w'. getBlockWithRetry (se_rpc env) (se_BlockHash env header) w = (Ok mb, w') \<Longrightarrow> mb_Header mb = header"
  shows "scanner_hist (se_BlockHash env) sent (snd (scanner_blockEvent fuel env height header s))"
proof -
  let ?p = "scanner_handleNewBlock env (word_of_int height) header"
  obtain r s1 where run: "?p s = (r, s1)" by force
  have h1: "scanner_hist (se_BlockHash env) sent s1" using handleNewBlock_hist [OF assms, where height = "word_of_int height"] run by simp
  show ?thesis
  proof (cases r)
    case (Err e)
    then show ?thesis using run h1 keeps_Bootstrap [of env sent fuel] assms(1)
      by (simp add: scanner_blockEvent_def keeps_def panicG_def)
  qed (use run h1 assms(1) in \<open>simp_all add: scanner_blockEvent_def panicG_def retG_def\<close>)
qed

lemma blockEvents_hist:
  assumes "scanner_hist (se_BlockHash env) sent s"
    and "\<And>h header w mb w'. (h, header) \<in> set events \<Longrightarrow>
      getBlockWithRetry (se_rpc env) (se_BlockHash env header) w = (Ok mb, w') \<Longrightarrow> mb_Header mb = header"
  shows "scanner_hist (se_BlockHash env) sent (snd (scanner_blockEvents fuel env events s))"
  using assms
proof (induction events arbitrary: s)
  case Nil
  then show ?case by (simp add: retG_def)
next
  case (Cons e events)
  obtain height header where e: "e = (height, header)" by force
  obtain r s1 where run: "scanner_blockEvent fuel env height header s = (r, s1)" by force
  have auth: "getBlockWithRetry (se_rpc env) (se_BlockHash env header) w = (Ok mb, w') \<Longrightarrow> mb_Header mb = header" for w mb w'
    using Cons.prems(2) e by (meson list.set_intros(1))
  have h1: "scanner_hist (se_BlockHash env) sent s1"
    using blockEvent_hist [OF Cons.prems(1) auth, where fuel = fuel and height = height] run by simp
  have "scanner_hist (se_BlockHash env) sent (snd (scanner_blockEvents fuel env events s1))"
    by (rule Cons.IH [OF h1]) (meson Cons.prems(2) list.set_intros(2))
  then show ?case using run h1 e by (cases r) simp_all
qed

subsection \<open>Properties\<close>


lemma GetBlockByHeight_serves:
  assumes "rpc_contract c" and "node_serves bh chain c w" and "i < length chain"
  shows "GetBlockByHeight c (of_nat i) w = (Ok (indexedAt chain i, chain ! i), w)"
proof -
  have "i < 2 ^ 32" using assms(2,3) by (simp add: node_serves_def)
  then have "uint (of_nat i :: u32) = int i" by (simp add: uint_nat unat_of_nat_u32)
  then have "getBlockHashWithRetry c (of_nat i) w = (Ok (blockHashAt bh chain i), w)"
    "getBlockWithRetry c (blockHashAt bh chain i) w = (Ok (chain ! i), w)"
    using assms by (simp_all add: getBlockHashWithRetry_def getBlockWithRetry_def rpc_contract_def node_serves_def retry_first_ok)
  then show ?thesis
    by (simp add: GetBlockByHeight_def bindG_def wrapG_def retG_def indexedAt_def NewIndexedBlockFromMsgBlock_def NewIndexedBlock_def)
qed

lemma indexedAt_parent:
  assumes "node_serves bh chain c w" and "Suc j < length chain"
  shows "bh_PrevBlock (ib_Header (indexedAt chain (Suc j))) = bh (ib_Header (indexedAt chain j))"
  using assms by (simp add: node_serves_def indexedAt_def NewIndexedBlockFromMsgBlock_def blockHashAt_def)

lemma of_nat_le_u32: "i < 2 ^ 32 \<Longrightarrow> j < 2 ^ 32 \<Longrightarrow> (of_nat i :: u32) \<le> of_nat j \<longleftrightarrow> i \<le> j"
  by (simp add: word_le_nat_alt unat_of_nat_u32)

lemma rpcS_ok: "m (bs_world s) = (Ok x, bs_world s) \<Longrightarrow> rpcS m s = (Ok x, s)"
  by (simp add: rpcS_def)

lemma confirmLoop_serves:
  assumes "rpc_contract (se_rpc env)" and "node_serves (se_BlockHash env) chain (se_rpc env) (bs_world s)"
    and "hi < length chain" and "i \<le> Suc hi" and "Suc hi - i < fuel"
    and "\<And>t. bs_confirmedTipBlock s = Some t \<Longrightarrow> \<exists>j. i = Suc j \<and> t = indexedAt chain j"
  shows "confirmLoop fuel env (of_nat i) (of_nat hi) s =
    (Ok (), if i \<le> hi then s\<lparr>bs_confirmedBlocks := bs_confirmedBlocks s @ map (indexedAt chain) [i..<Suc hi],
                bs_confirmedTipBlock := Some (indexedAt chain hi)\<rparr> else s)"
  using assms
proof (induction fuel arbitrary: i s)
  case (Suc fuel)
  have bound: "Suc hi < 2 ^ 32" using Suc.prems(2,3) by (simp add: node_serves_def)
  have cmp: "(of_nat i :: u32) \<le> of_nat hi \<longleftrightarrow> i \<le> hi" using bound Suc.prems(4) by (intro of_nat_le_u32) auto
  show ?case
  proof (cases "i \<le> hi")
    case False
    then show ?thesis using cmp by (simp add: retG_def)
  next
    case True
    let ?ib = "indexedAt chain i"
    let ?s1 = "s\<lparr>bs_confirmedBlocks := bs_confirmedBlocks s @ [?ib], bs_confirmedTipBlock := Some ?ib\<rparr>"
    have get: "mustG ''block by height'' (rpcS (GetBlockByHeight (se_rpc env) (of_nat i))) s = (Ok (?ib, chain ! i), s)"
      using GetBlockByHeight_serves [OF Suc.prems(1,2)] True Suc.prems(3) by (simp add: rpcS_ok)
    have good: "\<not> (case bs_confirmedTipBlock s of None \<Rightarrow> False
        | Some t \<Rightarrow> se_BlockHash env (ib_Header t) \<noteq> bh_PrevBlock (ib_Header ?ib))"
      using Suc.prems(6) indexedAt_parent [OF Suc.prems(2)] True Suc.prems(3)
      by (cases "bs_confirmedTipBlock s") fastforce+
    have "confirmLoop (Suc fuel) env (of_nat i) (of_nat hi) s = confirmLoop fuel env (of_nat (Suc i)) (of_nat hi) ?s1"
      using get good True cmp by (simp add: sendConfirmed_run add.commute)
    also have "\<dots> = (Ok (), if Suc i \<le> hi then ?s1\<lparr>bs_confirmedBlocks := bs_confirmedBlocks ?s1 @ map (indexedAt chain) [Suc i..<Suc hi],
                bs_confirmedTipBlock := Some (indexedAt chain hi)\<rparr> else ?s1)"
      by (rule Suc.IH) (use Suc.prems True in auto)
    also have "\<dots> = (Ok (), s\<lparr>bs_confirmedBlocks := bs_confirmedBlocks s @ map (indexedAt chain) [i..<Suc hi],
                bs_confirmedTipBlock := Some (indexedAt chain hi)\<rparr>)"
      using True by (cases "i = hi") (auto simp: upt_conv_Cons simp del: upt_Suc)
    finally show ?thesis using True by simp
  qed
qed simp

lemma cache_blocks_id: "c\<lparr>blocks := blocks c\<rparr> = c"
  by simp

lemma scanner_cache_id: "s\<lparr>bs_unconfirmedBlockCache := bs_unconfirmedBlockCache s\<rparr> = s"
  by simp

lemma cacheLoop_serves:
  assumes "rpc_contract (se_rpc env)" and "node_serves (se_BlockHash env) chain (se_rpc env) (bs_world s)"
    and "hi < length chain" and "i \<le> Suc hi" and "Suc hi - i < fuel" and "b \<le> i"
    and "wf_cache (bs_unconfirmedBlockCache s)" and "Suc hi - b \<le> unat (maxEntries (bs_unconfirmedBlockCache s))"
    and "blocks (bs_unconfirmedBlockCache s) = map (indexedAt chain) [b..<i]"
  shows "cacheLoop fuel env (of_nat i) (of_nat hi) s =
    (Ok (), s\<lparr>bs_unconfirmedBlockCache := (bs_unconfirmedBlockCache s)\<lparr>blocks := map (indexedAt chain) [b..<Suc hi]\<rparr>\<rparr>)"
  using assms
proof (induction fuel arbitrary: i s)
  case (Suc fuel)
  have bound: "Suc hi < 2 ^ 32" using Suc.prems(2,3) by (simp add: node_serves_def)
  have cmp: "(of_nat i :: u32) \<le> of_nat hi \<longleftrightarrow> i \<le> hi" using bound Suc.prems(4) by (intro of_nat_le_u32) auto
  let ?c = "bs_unconfirmedBlockCache s"
  show ?case
  proof (cases "i \<le> hi")
    case False
    then have "i = Suc hi" using Suc.prems(4) by simp
    then have "s\<lparr>bs_unconfirmedBlockCache := ?c\<lparr>blocks := map (indexedAt chain) [b..<Suc hi]\<rparr>\<rparr> = s"
      using Suc.prems(9) by (metis cache_blocks_id scanner_cache_id)
    then show ?thesis using False cmp by (simp add: retG_def)
  next
    case True
    let ?ib = "indexedAt chain i"
    let ?c1 = "?c\<lparr>blocks := map (indexedAt chain) [b..<Suc i]\<rparr>"
    have get: "mustG ''block by height'' (rpcS (GetBlockByHeight (se_rpc env) (of_nat i))) s = (Ok (?ib, chain ! i), s)"
      using GetBlockByHeight_serves [OF Suc.prems(1,2)] True Suc.prems(3) by (simp add: rpcS_ok)
    have "bh_PrevBlock (ib_Header ?ib) = se_BlockHash env (ib_Header (indexedAt chain (i - 1)))" if "b < i"
      using indexedAt_parent [OF Suc.prems(2), of "i - 1"] that True Suc.prems(3) by simp
    then have good: "\<not> (case BTCCache_Tip ?c of None \<Rightarrow> False
        | Some t \<Rightarrow> se_BlockHash env (ib_Header t) \<noteq> bh_PrevBlock (ib_Header ?ib))"
      using Suc.prems(9) by (simp add: btc_window.tip_window last_map)
    have room: "Suc (length (blocks ?c)) \<le> unat (maxEntries ?c)" using Suc.prems(6,8,9) True by simp
    then have "BTCCache_add ?ib ?c = Ok ?c1"
      using Suc.prems(6,9) by (simp add: BTCCache_add_window [OF Suc.prems(7)])
    then have add: "cacheAdd ?ib s = (Ok (), s\<lparr>bs_unconfirmedBlockCache := ?c1\<rparr>)"
      by (simp add: cacheAdd_def liftG_def modG_def bindG_def getG_def)
    have wf1: "wf_cache ?c1" using Suc.prems(6,7,8) True by (simp add: wf_cache_def)
    have "cacheLoop (Suc fuel) env (of_nat i) (of_nat hi) s =
        cacheLoop fuel env (of_nat (Suc i)) (of_nat hi) (s\<lparr>bs_unconfirmedBlockCache := ?c1\<rparr>)"
      using get good add True cmp by (simp add: add.commute)
    also have "\<dots> = (Ok (), s\<lparr>bs_unconfirmedBlockCache := ?c\<lparr>blocks := map (indexedAt chain) [b..<Suc hi]\<rparr>\<rparr>)"
      using Suc.IH [of "s\<lparr>bs_unconfirmedBlockCache := ?c1\<rparr>" "Suc i"] Suc.prems wf1 True by simp
    finally show ?thesis .
  qed
qed simp

text \<open>
  C26. Against a node that serves one chain of \<open>n\<close> blocks, a bootstrap with enough cache terminates
  and sends exactly the blocks from the first unconfirmed height up to \<open>n - 1 - k\<close>, in order
  and without gap or repetition, and leaves exactly the last \<open>k\<close> blocks in the cache. This
  covers the first bootstrap and every later one, which resumes above the confirmed tip.
\<close>

theorem scanner_Bootstrap_exact:
  assumes "rpc_contract (se_rpc env)" and "node_serves (se_BlockHash env) chain (se_rpc env) (bs_world s)"
    and "wf_cache (bs_unconfirmedBlockCache s)" and "k = unat (bs_k s)" and "k < length chain"
    and "k \<le> unat (maxEntries (bs_unconfirmedBlockCache s))" and "length chain < fuel"
    and "bs_confirmedTipBlock s = None \<or> (\<exists>j. bs_confirmedTipBlock s = Some (indexedAt chain j) \<and> j < length chain)"
    and "first = unat (firstUnconfirmedHeight s)" and "first \<le> length chain - k"
  shows "scanner_Bootstrap fuel env s = (Ok (), s\<lparr>
    bs_confirmedBlocks := bs_confirmedBlocks s @ map (indexedAt chain) [first..<length chain - k],
    bs_confirmedTipBlock := if first < length chain - k then Some (indexedAt chain (length chain - k - 1)) else bs_confirmedTipBlock s,
    bs_unconfirmedBlockCache := (bs_unconfirmedBlockCache s)\<lparr>blocks := map (indexedAt chain) [length chain - k..<length chain]\<rparr>\<rparr>)"
proof -
  obtain hi where hi: "length chain = Suc hi + k" using assms(5) by (metis add_Suc less_imp_Suc_add add.commute)
  have n32: "Suc hi + k < 2 ^ 32" using assms(2) hi by (simp add: node_serves_def)
  let ?c = "bs_unconfirmedBlockCache s"
  let ?s0 = "s\<lparr>bs_unconfirmedBlockCache := BTCCache_RemoveAll ?c\<rparr>"
  let ?s1 = "?s0\<lparr>bs_confirmedBlocks := bs_confirmedBlocks s @ map (indexedAt chain) [first..<Suc hi],
       bs_confirmedTipBlock := if first \<le> hi then Some (indexedAt chain hi) else bs_confirmedTipBlock s\<rparr>"
  have best: "mustG ''cannot get the best BTC block'' (rpcS (GetBestBlock (se_rpc env))) ?s0 = (Ok (of_nat (hi + k)), ?s0)"
    using GetBestBlock_serves [OF assms(1,2)] hi by (simp add: rpcS_ok)
  have kw: "of_nat (hi + k) - bs_k s = of_nat hi" using assms(4) by simp
  have fw: "firstUnconfirmedHeight s = of_nat first" using assms(9) by simp
  have tip: "\<exists>j. first = Suc j \<and> t = indexedAt chain j" if "bs_confirmedTipBlock s = Some t" for t
  proof -
    from that assms(8) obtain j where j: "t = indexedAt chain j" "j < length chain" by auto
    have "ib_Height t = of_nat j" using j by (simp add: indexedAt_def NewIndexedBlockFromMsgBlock_def)
    moreover have "Suc j < 2 ^ 32" using j hi n32 by simp
    ultimately have "first = Suc j"
      using assms(9) that unat_of_nat_u32 [of "Suc j"] by (simp add: firstUnconfirmedHeight_def add.commute)
    with j show ?thesis by simp
  qed
  have c1: "confirmLoop fuel env (of_nat first) (of_nat hi) ?s0 = (Ok (), ?s1)"
  proof -
    have "confirmLoop fuel env (of_nat first) (of_nat hi) ?s0 =
      (Ok (), if first \<le> hi then ?s0\<lparr>bs_confirmedBlocks := bs_confirmedBlocks ?s0 @ map (indexedAt chain) [first..<Suc hi],
                bs_confirmedTipBlock := Some (indexedAt chain hi)\<rparr> else ?s0)"
      by (rule confirmLoop_serves) (use assms(1,2,7,10) hi tip in auto)
    then show ?thesis using assms(10) hi by auto
  qed
  have c2: "cacheLoop fuel env (of_nat (Suc hi)) (of_nat (hi + k)) ?s1 =
      (Ok (), ?s1\<lparr>bs_unconfirmedBlockCache := (bs_unconfirmedBlockCache ?s1)\<lparr>blocks := map (indexedAt chain) [Suc hi..<Suc (hi + k)]\<rparr>\<rparr>)"
    by (rule cacheLoop_serves)
       (use assms(1-3,6,7) hi in \<open>auto simp: BTCCache_RemoveAll_def wf_cache_def\<close>)
  have "scanner_Bootstrap fuel env s = cacheLoop fuel env (of_nat (Suc hi)) (of_nat (hi + k)) ?s1"
    using best kw c1 by (simp add: scanner_Bootstrap_def fw add.commute)
  also note c2
  finally show ?thesis using hi by (auto simp: BTCCache_RemoveAll_def less_Suc_eq_le)
qed

text \<open>
  In steady state, with \<open>k\<close> unconfirmed blocks in the cache on top of the confirmed tip, the
  next block of the chain confirms exactly the oldest cached block, which now has \<open>k\<close> blocks
  above it. When the cache cannot hold \<open>k + 1\<close> blocks, adding the new block evicts the oldest
  one instead, and that block is never sent to the monitor.
\<close>

theorem handleNewBlock_confirms_one:
  assumes "wf_cache (bs_unconfirmedBlockCache s)" and "blocks (bs_unconfirmedBlockCache s) = b # bs"
    and "unat (bs_k s) = length (b # bs)" and "length (b # bs) < 2 ^ 31 - 1"
    and "bs_confirmedTipBlock s = Some t" and "bh_PrevBlock (ib_Header b) = se_BlockHash env (ib_Header t)"
    and "unat height = Suc (unat (ib_Height (last (b # bs))))"
    and "bh_PrevBlock header = se_BlockHash env (ib_Header (last (b # bs)))"
    and "GetBlockByHash (se_rpc env) (se_BlockHash env header) (bs_world s) = (Ok (ib, mb), w')"
  shows "scanner_handleNewBlock env height header s = (Ok (),
    (if unat (bs_k s) < unat (maxEntries (bs_unconfirmedBlockCache s))
     then s\<lparr>bs_confirmedBlocks := bs_confirmedBlocks s @ [b], bs_confirmedTipBlock := Some b\<rparr> else s)
    \<lparr>bs_unconfirmedBlockCache := (bs_unconfirmedBlockCache s)\<lparr>blocks := bs @ [ib]\<rparr>, bs_world := w'\<rparr>)"
proof -
  let ?c = "bs_unconfirmedBlockCache s"
  let ?s1 = "s\<lparr>bs_world := w'\<rparr>"
  let ?full = "unat (maxEntries ?c) \<le> unat (bs_k s)"
  let ?c1 = "?c\<lparr>blocks := (if ?full then bs else b # bs) @ [ib]\<rparr>"
  have tip: "BTCCache_Tip ?c = Some (last (b # bs))" using assms(2) by (simp add: btc_window.tip_window)
  have h1: "\<not> height \<le> ib_Height (last (b # bs))" using assms(7) by (simp add: word_le_nat_alt)
  have "height = ib_Height (last (b # bs)) + 1"
  proof -
    have "ib_Height (last (b # bs)) \<noteq> - 1"
    proof
      assume "ib_Height (last (b # bs)) = - 1"
      moreover have "Suc (unat (- 1 :: u32)) = 2 ^ 32"
        by (simp add: unsigned_minus_1_eq_mask mask_eq_exp_minus_1)
      ultimately have "unat height = 2 ^ 32" using assms(7) by metis
      then show False using unsigned_less [where 'a = nat and w = height] by simp
    qed
    then show ?thesis using assms(7) unat_plus_one_iff [of "ib_Height (last (b # bs))"] by (simp add: word_unat_eq_iff)
  qed
  then have h2: "\<not> ib_Height (last (b # bs)) + 1 < height" by simp
  have get: "mustG ''failed to request block by hash'' (rpcS (GetBlockByHash (se_rpc env) (se_BlockHash env header))) s
      = (Ok (ib, mb), ?s1)" using assms(9) by (simp add: rpcS_def)
  have "length (b # bs) \<le> unat (maxEntries ?c)" using assms(1,2) by (simp add: wf_cache_def)
  then have "drop (Suc (length (b # bs)) - unat (maxEntries ?c)) (b # bs) = (if ?full then bs else b # bs)"
    using assms(3) by (cases "unat (maxEntries ?c) = length (b # bs)") auto
  then have "BTCCache_add ib ?c = Ok ?c1"
    using assms(2) by (simp add: BTCCache_add_window [OF assms(1)])
  then have add: "cacheAdd ib ?s1 = (Ok (), ?s1\<lparr>bs_unconfirmedBlockCache := ?c1\<rparr>)"
    by (simp add: cacheAdd_def liftG_def modG_def bindG_def getG_def)
  have sz: "BTCCache_size ?c1 = (if ?full then length (b # bs) else Suc (length (b # bs)))"
    by (simp add: BTCCache_size_def)
  have small: "BTCCache_size ?c1 < 2 ^ 32" using assms(4) unfolding sz by simp
  have size: "(of_nat (BTCCache_size ?c1) :: u32) \<le> bs_k s \<longleftrightarrow> ?full"
    unfolding word_le_nat_alt unat_of_nat_u32 [OF small] using assms(3) unfolding sz by simp
  have small': "\<not> 2 ^ 31 - 1 < BTCCache_size ?c1" using assms(4) unfolding sz by simp
  have accept: "acceptBlock env ib ?s1 = (Ok (),
    (if ?full then s else s\<lparr>bs_confirmedBlocks := bs_confirmedBlocks s @ [b], bs_confirmedTipBlock := Some b\<rparr>)
    \<lparr>bs_unconfirmedBlockCache := ?c\<lparr>blocks := bs @ [ib]\<rparr>, bs_world := w'\<rparr>)"
  proof (cases ?full)
    case True
    then show ?thesis using size small' add by (simp add: acceptBlock_def retG_def)
  next
    case False
    then show ?thesis using size small' add assms(3,5,6)
      by (simp add: acceptBlock_def BTCCache_TrimConfirmedBlocks_def confirmBlocks_def sendConfirmed_run)
  qed
  then show ?thesis using tip h1 h2 assms(8) get by (simp add: scanner_handleNewBlock_def)
qed

subsection \<open>Who receives a confirmed block\<close>

text \<open>
  \<open>confirmedBlocksChan\<close> has two receivers: the loop of the monitor's \<open>Start\<close>, through
  \<open>GetConfirmedBlocksChan\<close>, and the loop of the scanner's own \<open>Start\<close>. The scanner then sends the
  header on \<open>blockHeaderChan\<close>, which nothing receives from. A state has the contents of both
  channels, the block whose header the scanner is about to send, and what was sent, checked
  by the monitor and scanned for checkpoints. Both channels have the capacity \<open>cap\<close> of
  \<open>BtcBlockBufferSize\<close>, and a send on a full one waits.
\<close>

record chanState =
  ch_confirmed :: "indexedBlock list"
  ch_headers :: "blockHeader list"
  ch_pending :: "indexedBlock option"
  ch_sent :: "indexedBlock list"
  ch_checked :: "indexedBlock list"
  ch_scanned :: "indexedBlock list"

definition chan_init :: chanState where
  "chan_init = \<lparr>ch_confirmed = [], ch_headers = [], ch_pending = None, ch_sent = [], ch_checked = [], ch_scanned = []\<rparr>"

inductive chan_step :: "nat \<Rightarrow> chanState \<Rightarrow> chanState \<Rightarrow> bool" for cap where
  sendConfirmed: "length (ch_confirmed s) < cap \<Longrightarrow>
     chan_step cap s (s\<lparr>ch_confirmed := ch_confirmed s @ [b], ch_sent := ch_sent s @ [b]\<rparr>)"
| monitorReceives: "ch_confirmed s = b # bs \<Longrightarrow>
     chan_step cap s (s\<lparr>ch_confirmed := bs, ch_checked := ch_checked s @ [b]\<rparr>)"
| scannerReceives: "ch_pending s = None \<Longrightarrow> ch_confirmed s = b # bs \<Longrightarrow>
     chan_step cap s (s\<lparr>ch_confirmed := bs, ch_pending := Some b\<rparr>)"
| scannerSendsHeader: "ch_pending s = Some b \<Longrightarrow> length (ch_headers s) < cap \<Longrightarrow>
     chan_step cap s (s\<lparr>ch_headers := ch_headers s @ [ib_Header b], ch_pending := None, ch_scanned := ch_scanned s @ [b]\<rparr>)"

definition chan_reach :: "nat \<Rightarrow> chanState \<Rightarrow> bool" where
  "chan_reach cap s \<longleftrightarrow> (chan_step cap)\<^sup>*\<^sup>* chan_init s"

lemma chan_reach_start: "chan_reach cap chan_init"
  by (simp add: chan_reach_def)

lemma chan_reach_step: "chan_reach cap s \<Longrightarrow> chan_step cap s s' \<Longrightarrow> chan_reach cap s'"
  unfolding chan_reach_def by (rule rtranclp.rtrancl_into_rtrancl)

inductive_cases chan_stepE: "chan_step cap s s'"

definition chan_inv :: "nat \<Rightarrow> chanState \<Rightarrow> bool" where
  "chan_inv cap s \<longleftrightarrow> mset (ch_sent s) = mset (ch_checked s) + mset (ch_scanned s) + mset (ch_confirmed s) + mset_set (set_option (ch_pending s))
     \<and> ch_headers s = map ib_Header (ch_scanned s) \<and> length (ch_headers s) \<le> cap"

interpretation chan_run: step_system "chan_step cap" "chan_inv cap" for cap
proof unfold_locales
  fix s s' assume "chan_step cap s s'" and "chan_inv cap s"
  then show "chan_inv cap s'" by (cases rule: chan_step.cases) (auto simp: chan_inv_def)
qed

lemma chan_invariant: "chan_reach cap s \<Longrightarrow> chan_inv cap s"
  unfolding chan_reach_def by (erule chan_run.run_keeps) (simp add: chan_inv_def chan_init_def)

text \<open>
  Every confirmed block is either checked by the monitor or scanned for checkpoints, never
  both, in every interleaving of the goroutines; and the scanner scans at most
  \<open>BtcBlockBufferSize\<close> blocks in its whole life, because the headers it reports are never
  received: once that many were scanned, it waits forever on the next one.
\<close>

theorem confirmed_block_seen_once:
  assumes "chan_reach cap s"
  shows "count (mset (ch_checked s)) b + count (mset (ch_scanned s)) b \<le> count (mset (ch_sent s)) b
    \<and> length (ch_scanned s) \<le> cap
    \<and> (length (ch_scanned s) = cap \<longrightarrow> (\<forall>s'. chan_step cap s s' \<longrightarrow> ch_scanned s' = ch_scanned s))"
proof -
  note inv = chan_invariant [OF assms, unfolded chan_inv_def]
  have len: "length (ch_scanned s) = length (ch_headers s)" using inv by simp
  have "ch_scanned s' = ch_scanned s" if "length (ch_scanned s) = cap" and "chan_step cap s s'" for s'
    using that(2) that(1) len by (cases rule: chan_step.cases) auto
  moreover have "count (mset (ch_checked s)) b + count (mset (ch_scanned s)) b \<le> count (mset (ch_sent s)) b"
    using inv by (metis count_union le_add1 add.assoc)
  moreover have "length (ch_scanned s) \<le> cap" unfolding len using inv by blast
  ultimately show ?thesis by blast
qed

subsection \<open>Concrete instances\<close>

definition sampleScannerEnv :: "unit scannerEnv" where
  "sampleScannerEnv = \<lparr>se_rpc = sampleRpc 6, se_BlockHash = sampleHash, se_fmt = sampleFormatter, se_sort = sort_key ck_Epoch,
     se_ord0 = (\<lambda>c. map fst (segMap c 0)), se_ord1 = (\<lambda>c _. map fst (segMap c 1)), se_Now = retG 0,
     se_FromBTCCkptBytes = (\<lambda>_. Inl (errorf ''no checkpoint''))\<rparr>"

definition sampleScanner :: "u32 \<Rightarrow> u32 \<Rightarrow> unit scanner" where
  "sampleScanner entries k = \<lparr>bs_baseHeight = 1, bs_k = k, bs_confirmedTipBlock = None, bs_confirmedBlocks = [],
     bs_ckptCache = sampleCkptCache, bs_unconfirmedBlockCache = \<lparr>blocks = [], maxEntries = entries\<rparr>,
     bs_blockHeaders = [], bs_checkpoints = [], bs_started = True, bs_world = ()\<rparr>"

lemma sampleScanner_simps [simp]:
  "bs_baseHeight (sampleScanner n k) = 1" "bs_k (sampleScanner n k) = k" "bs_confirmedTipBlock (sampleScanner n k) = None"
  "bs_confirmedBlocks (sampleScanner n k) = []" "bs_unconfirmedBlockCache (sampleScanner n k) = \<lparr>blocks = [], maxEntries = n\<rparr>"
  by (simp_all add: sampleScanner_def)

lemma sampleScannerEnv_simps [simp]:
  "se_rpc sampleScannerEnv = sampleRpc 6" "se_BlockHash sampleScannerEnv = sampleHash"
  by (simp_all add: sampleScannerEnv_def)


theorem scanner_Bootstrap_exact_witness:
  "scanner_Bootstrap 9 sampleScannerEnv (sampleScanner 3 2) = (Ok (), (sampleScanner 3 2)\<lparr>
     bs_confirmedBlocks := map (indexedAt (sampleChain 6)) [1, 2, 3],
     bs_confirmedTipBlock := Some (indexedAt (sampleChain 6) 3),
     bs_unconfirmedBlockCache := \<lparr>blocks = map (indexedAt (sampleChain 6)) [4, 5], maxEntries = 3\<rparr>\<rparr>)"
proof -
  have serves: "node_serves (se_BlockHash sampleScannerEnv) (sampleChain 6) (se_rpc sampleScannerEnv) (bs_world (sampleScanner 3 2))"
    using sampleRpc_serves [of 6] by simp
  have contract: "rpc_contract (se_rpc sampleScannerEnv)" by (simp add: sampleRpc_contract)
  have upt: "[4..<6] = [4, 5 :: nat]" by (simp add: upt_rec)
  have "scanner_Bootstrap 9 sampleScannerEnv (sampleScanner 3 2) = (Ok (), (sampleScanner 3 2)\<lparr>
    bs_confirmedBlocks := bs_confirmedBlocks (sampleScanner 3 2) @ map (indexedAt (sampleChain 6)) [1..<length (sampleChain 6) - 2],
    bs_confirmedTipBlock := if 1 < length (sampleChain 6) - 2 then Some (indexedAt (sampleChain 6) (length (sampleChain 6) - 2 - 1))
      else bs_confirmedTipBlock (sampleScanner 3 2),
    bs_unconfirmedBlockCache := (bs_unconfirmedBlockCache (sampleScanner 3 2))\<lparr>blocks :=
      map (indexedAt (sampleChain 6)) [length (sampleChain 6) - 2..<length (sampleChain 6)]\<rparr>\<rparr>)"
    by (rule scanner_Bootstrap_exact [OF contract serves])
       (simp_all add: wf_cache_def firstUnconfirmedHeight_def)
  moreover have "[Suc 0..<4] = [1, 2, 3]" by (simp add: upt_rec)
  ultimately show ?thesis by (simp add: upt)
qed

definition sampleSteady :: "u32 \<Rightarrow> unit scanner" where
  "sampleSteady entries = (sampleScanner entries 2)\<lparr>bs_confirmedTipBlock := Some (sampleBlock 2),
     bs_confirmedBlocks := [sampleBlock 1, sampleBlock 2],
     bs_unconfirmedBlockCache := \<lparr>blocks = [sampleBlock 3, sampleBlock 4], maxEntries = entries\<rparr>\<rparr>"

theorem handleNewBlock_confirms_one_witness:
  "scanner_handleNewBlock sampleScannerEnv 5 (sampleHeader 5) (sampleSteady 3)
     = (Ok (), (sampleSteady 3)\<lparr>bs_confirmedBlocks := [sampleBlock 1, sampleBlock 2, sampleBlock 3],
         bs_confirmedTipBlock := Some (sampleBlock 3),
         bs_unconfirmedBlockCache := \<lparr>blocks = [sampleBlock 4, indexedAt (sampleChain 6) 5], maxEntries = 3\<rparr>\<rparr>)
   \<and> bs_confirmedBlocks (snd (scanner_handleNewBlock sampleScannerEnv 5 (sampleHeader 5) (sampleSteady 2)))
     = [sampleBlock 1, sampleBlock 2]"
proof -
  have serves: "node_serves sampleHash (sampleChain 6) (sampleRpc 6) ()" by (rule sampleRpc_serves) simp_all
  have "blockHashAt sampleHash (sampleChain 6) 5 = sampleHash (sampleHeader 5)"
    using sampleChain_hash [of 5 6] by simp
  then have get: "GetBlockByHash (se_rpc sampleScannerEnv) (se_BlockHash sampleScannerEnv (sampleHeader 5)) (bs_world (sampleSteady n))
      = (Ok (indexedAt (sampleChain 6) 5, sampleChain 6 ! 5), ())" for n
    using GetBlockByHash_serves [OF sampleRpc_contract serves, of 5] by simp
  have "scanner_handleNewBlock sampleScannerEnv 5 (sampleHeader 5) (sampleSteady n) = (Ok (),
    (if unat (bs_k (sampleSteady n)) < unat (maxEntries (bs_unconfirmedBlockCache (sampleSteady n)))
     then (sampleSteady n)\<lparr>bs_confirmedBlocks := bs_confirmedBlocks (sampleSteady n) @ [sampleBlock 3], bs_confirmedTipBlock := Some (sampleBlock 3)\<rparr>
     else sampleSteady n)
    \<lparr>bs_unconfirmedBlockCache := (bs_unconfirmedBlockCache (sampleSteady n))\<lparr>blocks := [sampleBlock 4] @ [indexedAt (sampleChain 6) 5]\<rparr>, bs_world := ()\<rparr>)"
    if "2 \<le> n" "n \<noteq> 0" for n
    by (rule handleNewBlock_confirms_one [where t = "sampleBlock 2", OF _ _ _ _ _ _ _ _ get])
       (use that in \<open>simp_all add: sampleSteady_def wf_cache_def word_le_nat_alt\<close>)
  from this [of 3] this [of 2] show ?thesis by (simp add: sampleSteady_def)
qed

theorem confirmed_block_seen_once_witness:
  "(\<exists>s. chan_reach 1 s \<and> ch_scanned s = [sampleBlock 1] \<and> ch_checked s = [sampleBlock 2]
     \<and> (\<forall>s'. chan_step 1 s s' \<longrightarrow> ch_scanned s' = [sampleBlock 1]))"
proof -
  let ?s1 = "chan_init\<lparr>ch_confirmed := [sampleBlock 1], ch_sent := [sampleBlock 1]\<rparr>"
  let ?s2 = "?s1\<lparr>ch_confirmed := [], ch_pending := Some (sampleBlock 1)\<rparr>"
  let ?s3 = "?s2\<lparr>ch_headers := [sampleHeader 1], ch_pending := None, ch_scanned := [sampleBlock 1]\<rparr>"
  let ?s4 = "?s3\<lparr>ch_confirmed := [sampleBlock 2], ch_sent := [sampleBlock 1, sampleBlock 2]\<rparr>"
  let ?s5 = "?s4\<lparr>ch_confirmed := [], ch_checked := [sampleBlock 2]\<rparr>"
  have 1: "chan_reach 1 ?s1"
    using chan_reach_step [OF chan_reach_start, OF chan_step.sendConfirmed [of chan_init 1 "sampleBlock 1"]] by (simp add: chan_init_def)
  have 2: "chan_reach 1 ?s2"
    using chan_reach_step [OF 1, OF chan_step.scannerReceives [of ?s1 "sampleBlock 1" "[]"]] by (simp add: chan_init_def)
  have 3: "chan_reach 1 ?s3"
    using chan_reach_step [OF 2, OF chan_step.scannerSendsHeader [of ?s2 "sampleBlock 1" 1]] by (simp add: chan_init_def)
  have 4: "chan_reach 1 ?s4"
    using chan_reach_step [OF 3, OF chan_step.sendConfirmed [of ?s3 1 "sampleBlock 2"]] by (simp add: chan_init_def)
  have 5: "chan_reach 1 ?s5"
    using chan_reach_step [OF 4, OF chan_step.monitorReceives [of ?s4 "sampleBlock 2" "[]"]] by (simp add: chan_init_def)
  from confirmed_block_seen_once [OF 5] have "\<forall>s'. chan_step 1 ?s5 s' \<longrightarrow> ch_scanned s' = [sampleBlock 1]" by simp
  with 5 show ?thesis by (intro exI [of _ ?s5]) simp
qed

end
