(* ===== verification/Go_Numbers.thy ===== *)
theory Go_Numbers
  imports Complex_Main Go_Prelude
begin

text \<open>
  The numbers of Go outside the unsigned words: the wrap-around of \<open>int64\<close> and \<open>float64\<close>. A
  floating point number is an exact rational or one of the special values, with the rounding of
  IEEE 754 as a parameter of the operations; a NaN makes every comparison false.
\<close>

definition i64 :: "int \<Rightarrow> int" where
  "i64 x = (x + 2 ^ 63) mod 2 ^ 64 - 2 ^ 63"

datatype f64 = Fin rat | PosInf | NegInf | NaN

fun f_neg :: "f64 \<Rightarrow> bool" where
  "f_neg (Fin x) = (x < 0)" | "f_neg NegInf = True" | "f_neg _ = False"

definition f_inf :: "bool \<Rightarrow> f64" where
  "f_inf neg = (if neg then NegInf else PosInf)"

fun f_add :: "(rat \<Rightarrow> f64) \<Rightarrow> f64 \<Rightarrow> f64 \<Rightarrow> f64" where
  "f_add rnd (Fin x) (Fin y) = rnd (x + y)"
| "f_add rnd NaN _ = NaN" | "f_add rnd _ NaN = NaN"
| "f_add rnd PosInf NegInf = NaN" | "f_add rnd NegInf PosInf = NaN"
| "f_add rnd PosInf _ = PosInf" | "f_add rnd NegInf _ = NegInf"
| "f_add rnd (Fin _) y = y"

fun f_mul :: "(rat \<Rightarrow> f64) \<Rightarrow> f64 \<Rightarrow> f64 \<Rightarrow> f64" where
  "f_mul rnd (Fin x) (Fin y) = rnd (x * y)"
| "f_mul rnd x y = (if x = NaN \<or> y = NaN \<or> x = Fin 0 \<or> y = Fin 0 then NaN else f_inf (f_neg x \<noteq> f_neg y))"

fun f_div :: "(rat \<Rightarrow> f64) \<Rightarrow> f64 \<Rightarrow> f64 \<Rightarrow> f64" where
  "f_div rnd (Fin x) (Fin y) = (if y \<noteq> 0 then rnd (x / y) else if x = 0 then NaN else f_inf (x < 0))"
| "f_div rnd (Fin x) NaN = NaN"
| "f_div rnd (Fin x) _ = Fin 0"
| "f_div rnd x (Fin y) = (if x = NaN then NaN else f_inf (f_neg x \<noteq> (y < 0)))"
| "f_div rnd _ _ = NaN"

fun f_le :: "f64 \<Rightarrow> f64 \<Rightarrow> bool" where
  "f_le (Fin x) (Fin y) = (x \<le> y)"
| "f_le NaN _ = False" | "f_le _ NaN = False"
| "f_le NegInf _ = True" | "f_le _ PosInf = True" | "f_le _ _ = False"

fun f_lt :: "f64 \<Rightarrow> f64 \<Rightarrow> bool" where
  "f_lt (Fin x) (Fin y) = (x < y)"
| "f_lt NaN _ = False" | "f_lt _ NaN = False"
| "f_lt NegInf y = (y \<noteq> NegInf)" | "f_lt x PosInf = (x \<noteq> PosInf)" | "f_lt _ _ = False"

text \<open>The conversion to \<open>int64\<close> drops the fraction; out of range it depends on the machine.\<close>

definition f_toInt64 :: "(f64 \<Rightarrow> int) \<Rightarrow> f64 \<Rightarrow> int" where
  "f_toInt64 machine f = (case f of
       Fin x \<Rightarrow> let n = (if x < 0 then \<lceil>x\<rceil> else \<lfloor>x\<rfloor>) in if - (2 ^ 63) \<le> n \<and> n < 2 ^ 63 then n else machine f
     | _ \<Rightarrow> machine f)"

text \<open>\<open>math.Round\<close>: to the nearest integer, halves away from zero.\<close>

definition math_Round :: "f64 \<Rightarrow> f64" where
  "math_Round f = (case f of Fin x \<Rightarrow> Fin (of_int (if x < 0 then - \<lfloor>- x + 1 / 2\<rfloor> else \<lfloor>x + 1 / 2\<rfloor>)) | _ \<Rightarrow> f)"

end
