(* ===== verification/Config.thy ===== *)
theory Config
  imports Go_Numbers BTC_Client
begin

text \<open>
  The configuration, \<open>config/*.go\<close>: one record per section with the fields of its struct, the
  defaults, and the \<open>Validate\<close> functions with their checks in the order of the source. Times are
  in nanoseconds. The section of Babylon comes from another module, so its type and its
  \<open>Validate\<close> are arguments, as are \<open>net.ParseIP\<close> and the directory of the application.
\<close>

subsection \<open>Checks\<close>

text \<open>A list of checks: the first condition that holds gives the error.\<close>

fun firstFailure :: "(bool \<times> string) list \<Rightarrow> goerr + unit" where
  "firstFailure [] = Inr ()"
| "firstFailure ((bad, msg) # cs) = (if bad then Inl (errorf msg) else firstFailure cs)"

lemma firstFailure_ok [simp]: "firstFailure cs = Inr () \<longleftrightarrow> (\<forall>c\<in>set cs. \<not> fst c)"
  by (induction cs rule: firstFailure.induct) auto

declare firstFailure.simps [simp del]

definition unknownNet :: "string \<Rightarrow> bool" where
  "unknownNet net \<longleftrightarrow> map_of GetValidNetParams net = None"

fun isOneOf :: "string \<Rightarrow> string list \<Rightarrow> bool" where
  "isOneOf v [] = False"
| "isOneOf v (item # items) = (if v = item then True else isOneOf v items)"

abbreviation second :: int where "second \<equiv> 1000000000"
abbreviation minute :: int where "minute \<equiv> 60 * second"

subsection \<open>Common\<close>

record commonConfig =
  cc_LogFormat :: string
  cc_LogLevel :: string
  cc_RetrySleepTime :: int
  cc_MaxRetrySleepTime :: int
  cc_MaxRetryTimes :: nat

definition CommonConfig_Validate :: "commonConfig \<Rightarrow> goerr + unit" where
  "CommonConfig_Validate cfg = firstFailure [
     (\<not> isOneOf (cc_LogFormat cfg) [''json'', ''auto'', ''console'', ''logfmt''], ''log-format is not one of json|auto|console|logfmt''),
     (\<not> isOneOf (cc_LogLevel cfg) [''debug'', ''warn'', ''error'', ''panic'', ''fatal''], ''log-level is not one of debug|warn|error|panic|fatal''),
     (cc_RetrySleepTime cfg \<le> 0, ''retry-sleep-time can't be negative''),
     (cc_MaxRetrySleepTime cfg \<le> 0, ''max-retry-sleep-time can't be negative'')]"

definition DefaultCommonConfig :: commonConfig where
  "DefaultCommonConfig = \<lparr>cc_LogFormat = ''auto'', cc_LogLevel = ''debug'', cc_RetrySleepTime = 5 * second,
     cc_MaxRetrySleepTime = 5 * minute, cc_MaxRetryTimes = 25\<rparr>"

text \<open>\<open>NewRootLogger\<close>: the encoder and the level; an unknown level is \<open>info\<close>.\<close>

datatype logEncoder = JSONEncoder | ConsoleEncoder | LogfmtEncoder
datatype logThreshold = DebugLevel | InfoLevel | WarnLevel | ErrorLevel | PanicLevel | FatalLevel

definition NewRootLogger :: "string \<Rightarrow> string \<Rightarrow> goerr + logEncoder \<times> logThreshold" where
  "NewRootLogger format logLevel =
     (case (if format = ''json'' then Some JSONEncoder
            else if format = ''auto'' \<or> format = ''console'' then Some ConsoleEncoder
            else if format = ''logfmt'' then Some LogfmtEncoder else None) of
        None \<Rightarrow> Inl (errorf ''unrecognized log format'')
      | Some enc \<Rightarrow> Inr (enc,
          if logLevel = ''debug'' then DebugLevel else if logLevel = ''warn'' then WarnLevel else if logLevel = ''error'' then ErrorLevel
          else if logLevel = ''panic'' then PanicLevel else if logLevel = ''fatal'' then FatalLevel else InfoLevel))"

definition CreateLogger :: "commonConfig \<Rightarrow> goerr + logEncoder \<times> logThreshold" where
  "CreateLogger cfg = NewRootLogger (cc_LogFormat cfg) (cc_LogLevel cfg)"

subsection \<open>Bitcoin\<close>

record btcConfig =
  bc_Endpoint :: string
  bc_WalletPassword :: string
  bc_WalletName :: string
  bc_WalletLockTime :: int
  bc_TxFeeMin :: int
  bc_TxFeeMax :: int
  bc_DefaultFee :: int
  bc_EstimateMode :: string
  bc_TargetBlockNum :: int
  bc_NetParams :: string
  bc_Username :: string
  bc_Password :: string
  bc_ReconnectAttempts :: int
  bc_ZmqSeqEndpoint :: string
  bc_ZmqBlockEndpoint :: string
  bc_ZmqTxEndpoint :: string
  bc_DisableTLS :: bool

definition BTCConfig_Validate :: "btcConfig \<Rightarrow> goerr + unit" where
  "BTCConfig_Validate cfg = firstFailure [
     (bc_ReconnectAttempts cfg < 0, ''reconnect-attempts must be non-negative''),
     (unknownNet (bc_NetParams cfg), ''invalid net params''),
     (bc_ZmqBlockEndpoint cfg = [], ''zmq block endpoint cannot be empty''),
     (bc_ZmqTxEndpoint cfg = [], ''zmq tx endpoint cannot be empty''),
     (bc_ZmqSeqEndpoint cfg = [], ''zmq seq endpoint cannot be empty''),
     (bc_EstimateMode cfg \<noteq> ''ECONOMICAL'' \<and> bc_EstimateMode cfg \<noteq> ''CONSERVATIVE'',
        ''estimate-mode must be either ECONOMICAL or CONSERVATIVE when the backend is bitcoind''),
     (bc_TargetBlockNum cfg \<le> 0, ''target-block-num should be positive''),
     (bc_TxFeeMax cfg \<le> 0, ''tx-fee-max must be positive''),
     (bc_TxFeeMin cfg \<le> 0, ''tx-fee-min must be positive''),
     (bc_TxFeeMin cfg > bc_TxFeeMax cfg, ''tx-fee-min is larger than tx-fee-max''),
     (bc_DefaultFee cfg \<le> 0, ''default-fee must be positive''),
     (bc_DefaultFee cfg < bc_TxFeeMin cfg \<or> bc_DefaultFee cfg > bc_TxFeeMax cfg, ''default-fee should be in the range of'')]"

definition DefaultBTCConfig :: btcConfig where
  "DefaultBTCConfig = \<lparr>bc_Endpoint = ''127.0.01:18556'', bc_WalletPassword = ''walletpass'', bc_WalletName = ''default'', bc_WalletLockTime = 10,
     bc_TxFeeMin = 1 * 1000, bc_TxFeeMax = 200 * 1000, bc_DefaultFee = 1 * 1000, bc_EstimateMode = ''CONSERVATIVE'', bc_TargetBlockNum = 1,
     bc_NetParams = ''simnet'', bc_Username = ''rpcuser'', bc_Password = ''rpcpass'', bc_ReconnectAttempts = 3,
     bc_ZmqSeqEndpoint = ''tcp://127.0.0.1:28333'', bc_ZmqBlockEndpoint = ''tcp://127.0.0.1:29001'', bc_ZmqTxEndpoint = ''tcp://127.0.0.1:29002'',
     bc_DisableTLS = True\<rparr>"

subsection \<open>Database and metrics\<close>

record dbConfig =
  dc_DBPath :: string
  dc_DBFileName :: string
  dc_NoFreelistSync :: bool
  dc_AutoCompact :: bool
  dc_AutoCompactMinAge :: int
  dc_DBTimeout :: int

text \<open>\<open>filepath.Join\<close> and the default ages of \<open>kvdb\<close> are arguments.\<close>

definition DefaultDBConfigWithHomePath :: "(string \<Rightarrow> string \<Rightarrow> string) \<Rightarrow> int \<Rightarrow> int \<Rightarrow> string \<Rightarrow> dbConfig" where
  "DefaultDBConfigWithHomePath join minAge timeout homePath = \<lparr>dc_DBPath = join homePath ''data'', dc_DBFileName = ''vigilante.db'',
     dc_NoFreelistSync = True, dc_AutoCompact = False, dc_AutoCompactMinAge = minAge, dc_DBTimeout = timeout\<rparr>"

definition DBConfig_Validate :: "dbConfig \<Rightarrow> goerr + unit" where
  "DBConfig_Validate cfg = firstFailure [
     (dc_DBPath cfg = [], ''DB path cannot be empty''),
     (dc_DBFileName cfg = [], ''DB file name cannot be empty'')]"

text \<open>\<open>GetDBBackend\<close> reads the fields of its receiver, which may be nil.\<close>

definition GetDBBackend :: "(dbConfig \<Rightarrow> ('w, 'db) prog) \<Rightarrow> dbConfig option \<Rightarrow> ('w, 'db) prog" where
  "GetDBBackend getBoltBackend cfg = bindG (derefG cfg) getBoltBackend"

record metricsConfig =
  mc_Host :: string
  mc_ServerPort :: int

definition MetricsConfig_Validate :: "(string \<Rightarrow> bool) \<Rightarrow> metricsConfig \<Rightarrow> goerr + unit" where
  "MetricsConfig_Validate parseIP cfg = firstFailure [
     (mc_ServerPort cfg < 0 \<or> mc_ServerPort cfg > 65535, ''invalid port''),
     (\<not> parseIP (mc_Host cfg), ''invalid host'')]"

definition DefaultMetricsConfig :: metricsConfig where
  "DefaultMetricsConfig = \<lparr>mc_Host = ''0.0.0.0'', mc_ServerPort = 2112\<rparr>"

subsection \<open>The daemons\<close>

record submitterConfig =
  sc_NetParams :: string
  sc_BufferSize :: nat
  sc_ResubmitFeeMultiplier :: f64
  sc_PollingIntervalSeconds :: int
  sc_ResendIntervalSeconds :: nat
  sc_DatabaseConfig :: "dbConfig option"
  sc_InsufficientFeeMargin :: f64
  sc_InsufficientFeerateMargin :: f64
  sc_FeeIncrementMargin :: f64

definition SubmitterConfig_Validate :: "submitterConfig \<Rightarrow> goerr + unit" where
  "SubmitterConfig_Validate cfg = firstFailure [
     (unknownNet (sc_NetParams cfg), ''invalid net params''),
     (f_lt (sc_ResubmitFeeMultiplier cfg) (Fin 1), ''invalid resubmit-fee-multiplier, should not be less than 1''),
     (sc_PollingIntervalSeconds cfg < 0, ''invalid polling-interval-seconds, should be positive''),
     (sc_ResendIntervalSeconds cfg = 0, ''invalid resend-interval-seconds, should be positive''),
     (sc_BufferSize cfg = 0, ''invalid buffer-size, should be positive''),
     (sc_DatabaseConfig cfg = None, ''invalid dbconfig''),
     (f_lt (sc_InsufficientFeeMargin cfg) (Fin 0), ''invalid insufficient_fee_margin, should be positive''),
     (f_lt (sc_InsufficientFeerateMargin cfg) (Fin 0), ''invalid insufficient_feerate_margin, should be positive''),
     (f_lt (sc_FeeIncrementMargin cfg) (Fin 0), ''invalid fee_increment_margin, should be positive'')]"

definition DefaultSubmitterConfig :: "(rat \<Rightarrow> f64) \<Rightarrow> dbConfig \<Rightarrow> submitterConfig" where
  "DefaultSubmitterConfig rnd db = \<lparr>sc_NetParams = ''simnet'', sc_BufferSize = 100, sc_ResubmitFeeMultiplier = Fin 1,
     sc_PollingIntervalSeconds = 60, sc_ResendIntervalSeconds = 1800, sc_DatabaseConfig = Some db,
     sc_InsufficientFeeMargin = rnd (15 / 100), sc_InsufficientFeerateMargin = rnd (15 / 100), sc_FeeIncrementMargin = rnd (15 / 100)\<rparr>"

record reporterConfig =
  rc_NetParams :: string
  rc_BTCCacheSize :: u32
  rc_MaxHeadersInMsg :: u32

definition ReporterConfig_Validate :: "reporterConfig \<Rightarrow> goerr + unit" where
  "ReporterConfig_Validate cfg = firstFailure [
     (unknownNet (rc_NetParams cfg), ''invalid net params''),
     (rc_BTCCacheSize cfg < 1000, ''BTC cache size has to be at least 1000''),
     (rc_MaxHeadersInMsg cfg < 100, ''max_headers_in_msg has to be at least 100'')]"

definition DefaultReporterConfig :: reporterConfig where
  "DefaultReporterConfig = \<lparr>rc_NetParams = ''simnet'', rc_BTCCacheSize = 1000, rc_MaxHeadersInMsg = 100\<rparr>"

record monitorConfig =
  mo_CheckpointBufferSize :: u64
  mo_BtcBlockBufferSize :: u64
  mo_BtcCacheSize :: u32
  mo_LivenessCheckIntervalSeconds :: u64
  mo_MaxLiveBtcHeights :: u64
  mo_BtcConfirmationDepth :: u32
  mo_EnableLivenessChecker :: bool
  mo_DatabaseConfig :: "dbConfig option"

definition MonitorConfig_Validate :: "monitorConfig \<Rightarrow> goerr + unit" where
  "MonitorConfig_Validate cfg = firstFailure [
     (mo_CheckpointBufferSize cfg < 100, ''checkpoint-buffer-size should not be less than 100''),
     (mo_BtcCacheSize cfg < 100, ''btc-cache-size should not be less than 100''),
     (mo_BtcConfirmationDepth cfg < 6, ''btc-confirmation-depth should not be less than 6'')]"

definition DefaultMonitorConfig :: "dbConfig \<Rightarrow> monitorConfig" where
  "DefaultMonitorConfig db = \<lparr>mo_CheckpointBufferSize = 100, mo_BtcBlockBufferSize = 100, mo_BtcCacheSize = 100,
     mo_LivenessCheckIntervalSeconds = 10, mo_MaxLiveBtcHeights = 100, mo_BtcConfirmationDepth = 6, mo_EnableLivenessChecker = True,
     mo_DatabaseConfig = Some db\<rparr>"

record trackerConfig =
  tc_CheckDelegationsInterval :: int
  tc_NewDelegationsBatchSize :: u64
  tc_CheckDelegationActiveInterval :: int
  tc_RetrySubmitUnbondingTxInterval :: int
  tc_RetryJitter :: int
  tc_BTCNetParams :: string
  tc_MaxSlashingConcurrency :: u8
  tc_IndexerAddr :: string
  tc_FetchEvidenceInterval :: int
  tc_FetchCometBlockInterval :: int
  tc_ReconnectBTCNodeInterval :: int
  tc_SlasherDatabaseConfig :: "dbConfig option"

definition BTCStakingTrackerConfig_Validate :: "trackerConfig \<Rightarrow> goerr + unit" where
  "BTCStakingTrackerConfig_Validate cfg = firstFailure [
     (tc_CheckDelegationsInterval cfg \<le> 0, ''check-delegations-interval can't be negative''),
     (tc_CheckDelegationActiveInterval cfg \<le> 0, ''check-if-delegation-active-interval can't be negative''),
     (tc_FetchEvidenceInterval cfg \<le> 0, ''fetch-evidence-interval can't be negative''),
     (tc_RetrySubmitUnbondingTxInterval cfg \<le> 0, ''retry-submit-unbonding-interval can't be negative''),
     (tc_RetryJitter cfg \<le> 0, ''max-jitter-interval can't be negative''),
     (tc_NewDelegationsBatchSize cfg > 10000, ''delegations-batch-size can't be greater than 10000''),
     (unknownNet (tc_BTCNetParams cfg), ''invalid net params''),
     (tc_MaxSlashingConcurrency cfg = 0, ''max-slashing-concurrency cannot be 0''),
     (tc_IndexerAddr cfg = [], ''indexer-addr cannot be empty''),
     (tc_FetchCometBlockInterval cfg \<le> 0, ''fetch-comet-block-interval can't be negative'')]"

definition DefaultBTCStakingTrackerConfig :: trackerConfig where
  "DefaultBTCStakingTrackerConfig = \<lparr>tc_CheckDelegationsInterval = 1 * minute, tc_NewDelegationsBatchSize = 500,
     tc_CheckDelegationActiveInterval = 5 * minute, tc_RetrySubmitUnbondingTxInterval = 1 * minute, tc_RetryJitter = 30 * second,
     tc_BTCNetParams = ''simnet'', tc_MaxSlashingConcurrency = 20, tc_IndexerAddr = ''http://localhost:3000'',
     tc_FetchEvidenceInterval = 30 * second, tc_FetchCometBlockInterval = 2 * second, tc_ReconnectBTCNodeInterval = 60 * minute,
     tc_SlasherDatabaseConfig = None\<rparr>"

subsection \<open>The whole configuration\<close>

record 'bbn config =
  cfg_Common :: commonConfig
  cfg_BTC :: btcConfig
  cfg_Babylon :: 'bbn
  cfg_Metrics :: metricsConfig
  cfg_Submitter :: submitterConfig
  cfg_Reporter :: reporterConfig
  cfg_Monitor :: monitorConfig
  cfg_BTCStakingTracker :: trackerConfig

fun firstError :: "(string \<times> (goerr + unit)) list \<Rightarrow> goerr + unit" where
  "firstError [] = Inr ()"
| "firstError ((msg, Inl e) # rs) = Inl (wrapf msg e)"
| "firstError ((msg, Inr _) # rs) = firstError rs"

lemma firstError_ok [simp]: "firstError rs = Inr () \<longleftrightarrow> (\<forall>r\<in>set rs. snd r = Inr ())"
  by (induction rs rule: firstError.induct) auto

declare firstError.simps [simp del]

definition Config_Validate :: "('bbn \<Rightarrow> goerr + unit) \<Rightarrow> (string \<Rightarrow> bool) \<Rightarrow> 'bbn config \<Rightarrow> goerr + unit" where
  "Config_Validate babylonValidate parseIP cfg = firstError [
     (''invalid config in common: '', CommonConfig_Validate (cfg_Common cfg)),
     (''invalid config in btc: '', BTCConfig_Validate (cfg_BTC cfg)),
     (''invalid config in babylon: '', babylonValidate (cfg_Babylon cfg)),
     (''invalid config in metrics: '', MetricsConfig_Validate parseIP (cfg_Metrics cfg)),
     (''invalid config in submitter: '', SubmitterConfig_Validate (cfg_Submitter cfg)),
     (''invalid config in reporter: '', ReporterConfig_Validate (cfg_Reporter cfg)),
     (''invalid config in monitor: '', MonitorConfig_Validate (cfg_Monitor cfg)),
     (''invalid config in BTC staking tracker: '', BTCStakingTrackerConfig_Validate (cfg_BTCStakingTracker cfg))]"

text \<open>The default of Babylon's section comes with its \<open>BlockTimeout\<close> already set to 10 minutes.\<close>

definition DefaultConfig :: "(rat \<Rightarrow> f64) \<Rightarrow> dbConfig \<Rightarrow> 'bbn \<Rightarrow> 'bbn config" where
  "DefaultConfig rnd db defaultBbnCfg = \<lparr>cfg_Common = DefaultCommonConfig, cfg_BTC = DefaultBTCConfig, cfg_Babylon = defaultBbnCfg,
     cfg_Metrics = DefaultMetricsConfig, cfg_Submitter = DefaultSubmitterConfig rnd db, cfg_Reporter = DefaultReporterConfig,
     cfg_Monitor = DefaultMonitorConfig db, cfg_BTCStakingTracker = DefaultBTCStakingTrackerConfig\<rparr>"

text \<open>\<open>config.New\<close>: \<open>None\<close> for a file that does not exist; reading and decoding it are arguments.\<close>

definition Config_New :: "('bbn \<Rightarrow> goerr + unit) \<Rightarrow> (string \<Rightarrow> bool) \<Rightarrow> (string \<Rightarrow> goerr + bool) \<Rightarrow> (string \<Rightarrow> goerr + 'bbn config) \<Rightarrow> string \<Rightarrow> goerr + 'bbn config" where
  "Config_New babylonValidate parseIP stat readAndUnmarshal configFile = (case stat configFile of
       Inl err \<Rightarrow> Inl err
     | Inr False \<Rightarrow> Inl (errorf ''no config file found at'')
     | Inr True \<Rightarrow> (case readAndUnmarshal configFile of
           Inl err \<Rightarrow> Inl err
         | Inr cfg \<Rightarrow> (case Config_Validate babylonValidate parseIP cfg of Inl err \<Rightarrow> Inl err | Inr _ \<Rightarrow> Inr cfg)))"

end
