(* ===== verification/Monitor_Daemon.thy ===== *)
theory Monitor_Daemon
  imports Genesis BTC_Scanner Config "HOL-Library.Multiset"
begin

text \<open>
  The monitor as a daemon: \<open>New\<close>, the loop at the end of \<open>Start\<close> and \<open>Stop\<close> of
  \<open>monitor/monitor.go\<close>, and the accessors of the scanner it uses. The loop receives confirmed
  blocks and checkpoints in some order; the order is the argument of \<open>monitorLoop\<close>.

  Shown here: whatever the monitor receives, the epoch in memory is the one after the last
  epoch in the database as soon as one has been stored, so a restart at any point resumes
  where the monitor was; and a monitor created from a genesis file starts at epoch 1 with
  exactly the validators of the genesis.
\<close>

subsection \<open>The daemon\<close>

record ('w, 'db) monitorProc =
  mp_monitor :: "('w, 'db) monitor"
  mp_scanner :: "'w scanner"
  mp_quit :: bool
  mp_scannerQuit :: bool

definition monitor_New ::
  "formatter \<Rightarrow> u8 \<Rightarrow> (string \<Rightarrow> goerr + bytes) \<Rightarrow> (valWithBlsKey list \<Rightarrow> valWithBlsKey list) \<Rightarrow> 'db kvBackend
    \<Rightarrow> monitorConfig \<Rightarrow> commonConfig \<Rightarrow> genesisInfo \<Rightarrow> 'w \<Rightarrow> ('db, ('w, 'db) monitorProc) prog" where
  "monitor_New fmt version parse srt kv cfg comCfg genesisInfo w =
     bindG (wrapG ''error setting up store: '' (NewMonitorStore kv)) (\<lambda>_.
     bindG (wrapG ''invalid hex checkpoint tag: '' (sumG (hexDecode (gi_checkpointTag genesisInfo)))) (\<lambda>checkpointTagBytes.
     bindG (liftG (scanner_New fmt version (mo_BtcCacheSize cfg) (mo_BtcConfirmationDepth cfg) checkpointTagBytes w)) (\<lambda>btcScanner.
     bindG (liftG (GetSortedValSet parse srt (gi_valSet genesisInfo))) (\<lambda>sortedGenesisValSet.
     bindG (getG (\<lambda>db. db)) (\<lambda>db.
       retG \<lparr>mp_monitor = \<lparr>m_EnableLivenessChecker = mo_EnableLivenessChecker cfg, m_MaxLiveBtcHeights = mo_MaxLiveBtcHeights cfg,
           m_MaxRetryTimes = cc_MaxRetryTimes comCfg, m_curEpoch = NewEpochInfo 1 sortedGenesisValSet,
           m_checkpointChecklist = NewCheckpointsBookkeeper, m_started = False, m_livenessAttacks = 0, m_world = w, m_db = db\<rparr>,
         mp_scanner = btcScanner, mp_quit = False, mp_scannerQuit = False\<rparr>)))))"

datatype monitorEvent = Quit | ConfirmedBlock indexedBlock | CheckpointFound checkpointRecord

text \<open>The receiving loop; an error of a handler is logged.\<close>

fun monitorLoop :: "'w monitorEnv \<Rightarrow> 'db kvBackend \<Rightarrow> monitorEvent list \<Rightarrow> (('w, 'db) monitor, unit) prog" where
  "monitorLoop env kv [] = retG ()"
| "monitorLoop env kv (Quit # es) = modG (\<lambda>s. s\<lparr>m_started := False\<rparr>)"
| "monitorLoop env kv (ConfirmedBlock block # es) =
     bindG (tryG (handleNewConfirmedHeader env kv block)) (\<lambda>_. monitorLoop env kv es)"
| "monitorLoop env kv (CheckpointFound ckpt # es) =
     bindG (tryG (handleNewConfirmedCheckpoint env kv ckpt)) (\<lambda>_. monitorLoop env kv es)"

text \<open>\<open>Stop\<close> closes both channels, and closing a closed channel panics.\<close>

definition scanner_Stop :: "(('w, 'db) monitorProc, unit) prog" where
  "scanner_Stop = bindG (getG mp_scannerQuit) (\<lambda>q.
     if q then panicG ''close of closed channel'' else modG (\<lambda>s. s\<lparr>mp_scannerQuit := True\<rparr>))"

definition rpcP :: "('w, 'a) prog \<Rightarrow> (('w, 'db) monitorProc, 'a) prog" where
  "rpcP m = zoomG (m_world \<circ> mp_monitor) (\<lambda>w s. s\<lparr>mp_monitor := (mp_monitor s)\<lparr>m_world := w\<rparr>\<rparr>) m"

definition monitor_Stop :: "('w, bool) prog \<Rightarrow> ('w, unit) prog \<Rightarrow> (('w, 'db) monitorProc, unit) prog" where
  "monitor_Stop isRunning querierStop =
     bindG (getG mp_quit) (\<lambda>q. if q then panicG ''close of closed channel''
       else bindG (modG (\<lambda>s. s\<lparr>mp_quit := True\<rparr>)) (\<lambda>_.
         bindG scanner_Stop (\<lambda>_.
         bindG (rpcP isRunning) (\<lambda>running.
           if running then mustG ''failed to stop Babylon querier'' (rpcP querierStop) else retG ()))))"

definition GetBaseHeight :: "'w scanner \<Rightarrow> u32" where
  "GetBaseHeight s = bs_baseHeight s"

definition SetK :: "u32 \<Rightarrow> 'w scanner \<Rightarrow> 'w scanner" where
  "SetK k s = s\<lparr>bs_k := k\<rparr>"

subsection \<open>The epoch in memory and on disk\<close>

definition epochInStep :: "'db kvBackend \<Rightarrow> ('w, 'db) monitor \<Rightarrow> bool" where
  "epochInStep kv s \<longleftrightarrow> (fst (LatestEpoch kv (m_db s)) = Ok None \<or> fst (LatestEpoch kv (m_db s)) = Ok (Some (GetCurrentEpoch s - 1)))"

text \<open>Writes of the database succeed.\<close>

definition kv_writable :: "'db kvBackend \<Rightarrow> bool" where
  "kv_writable kv \<longleftrightarrow> (\<forall>b k v db. \<exists>db'. kv_Put kv b k v db = Inr db')"

lemma LatestEpoch_bucket:
  "fst (LatestEpoch kv db) = Ok r \<Longrightarrow> kv_ReadBucket kv epochsBucketName db"
  by (rule ccontr) (simp add: LatestEpoch_def monitor_get_def kvView_def bindG_def tryG_def failG_def)

lemma put_epoch:
  assumes "kv_contract kv" "kv_writable kv" and "fst (LatestEpoch kv db) = Ok r"
  shows "\<exists>db'. PutLatestEpoch kv e db = (Ok (), db') \<and> fst (LatestEpoch kv db') = Ok (Some e)"
proof -
  have "kv_ReadBucket kv epochsBucketName db" by (rule LatestEpoch_bucket [OF assms(3)])
  moreover obtain db' where "kv_Put kv epochsBucketName latestEpochKey (uint64ToBytes e) db = Inr db'" using assms(2) unfolding kv_writable_def by blast
  ultimately have p: "PutLatestEpoch kv e db = (Ok (), db')" by (simp add: PutLatestEpoch_def monitor_put_def kvBatchPut_def)
  from monitor_get_put [OF assms(1) this [unfolded PutLatestEpoch_def]] p show ?thesis by (simp add: LatestEpoch_def)
qed

lemma put_height_frame:
  assumes "kv_contract kv" and "PutLatestHeight kv h db = (r, db')"
  shows "fst (LatestEpoch kv db') = fst (LatestEpoch kv db)"
proof (cases "r = Ok ()")
  case True
  then have "monitor_put kv latestHeightKey h heightBucketName db = (Ok (), db')" using assms(2) by (simp add: PutLatestHeight_def)
  from monitor_get_frame [OF assms(1) this, of epochsBucketName] show ?thesis
    by (simp add: LatestEpoch_def epochsBucketName_def heightBucketName_def)
next
  case False
  then have "db' = db" using assms(2) by (auto simp: PutLatestHeight_def monitor_put_def kvBatchPut_def split: if_splits sum.splits)
  then show ?thesis by simp
qed

lemma handle_cases:
  assumes "handleNewConfirmedCheckpoint env kv ckpt s = (r, s')"
  shows "m_curEpoch s' = m_curEpoch s \<and> m_db s' = m_db s
    \<or> GetCurrentEpoch s' = GetCurrentEpoch s + 1 \<and> (\<exists>q. PutLatestEpoch kv (GetCurrentEpoch s) (m_db s) = (q, m_db s'))"
proof -
  obtain v s1 where v: "VerifyCheckpoint env (cr_RawCheckpoint ckpt) s = (v, s1)" by force
  note fr = VerifyCheckpoint_frame [OF v]
  obtain s2 where s2: "addIfEnabled env ckpt s1 = (Ok (), s2)" using addIfEnabled_spec(2) by blast
  then have cur: "m_curEpoch s2 = m_curEpoch s" "m_db s2 = m_db s" using addIfEnabled_spec(1) fr by metis+
  then have g: "GetCurrentEpoch s2 = GetCurrentEpoch s" by (simp add: GetCurrentEpoch_def)
  show ?thesis
  proof (cases v)
    case (Ok x)
    obtain u s3 where u: "UpdateEpochInfo env (GetCurrentEpoch s + 1) s2 = (u, s3)" by force
    obtain q d' where q: "PutLatestEpoch kv (GetCurrentEpoch s) (m_db s3) = (q, d')" by force
    have "handleNewConfirmedCheckpoint env kv ckpt s =
        bindG (wrapG ''failed to update information of epoch: '' (UpdateEpochInfo env (GetCurrentEpoch s + 1))) (\<lambda>_.
           wrapG ''failed to set epoch '' (dbM (PutLatestEpoch kv (GetCurrentEpoch s)))) s2"
      using v Ok s2 g by (simp add: handleNewConfirmedCheckpoint_def)
    then have "if u = Ok () then s' = s3\<lparr>m_db := d'\<rparr> else s' = s3"
      using assms u q by (cases u; cases q) (auto simp: wrapG_def bindG_def dbM_def zoomG_def)
    then show ?thesis using UpdateEpochInfo_spec [OF u] cur q by (auto simp: GetCurrentEpoch_def split: if_splits)
  next
    case (Err e)
    then show ?thesis using assms v s2 cur fr
      by (auto simp: handleNewConfirmedCheckpoint_def bindG_def tryG_def retG_def failG_def split: if_splits)
  qed (use assms v fr in \<open>auto simp: handleNewConfirmedCheckpoint_def bindG_def tryG_def\<close>)
qed

lemma checkpoint_in_step:
  assumes "kv_contract kv" "kv_writable kv" and "handleNewConfirmedCheckpoint env kv ckpt s = (r, s')" and "epochInStep kv s"
  shows "epochInStep kv s' \<and> (GetCurrentEpoch s' = GetCurrentEpoch s \<or> GetCurrentEpoch s' = GetCurrentEpoch s + 1)"
  using handle_cases [OF assms(3)]
proof (elim disjE)
  assume "m_curEpoch s' = m_curEpoch s \<and> m_db s' = m_db s"
  then show ?thesis using assms(4) by (simp add: epochInStep_def GetCurrentEpoch_def)
next
  assume h: "GetCurrentEpoch s' = GetCurrentEpoch s + 1 \<and> (\<exists>q. PutLatestEpoch kv (GetCurrentEpoch s) (m_db s) = (q, m_db s'))"
  obtain x where "fst (LatestEpoch kv (m_db s)) = Ok x" using assms(4) by (auto simp: epochInStep_def)
  from put_epoch [OF assms(1,2) this, of "GetCurrentEpoch s"] h show ?thesis by (auto simp: epochInStep_def)
qed

lemma header_in_step:
  assumes "kv_contract kv" and "handleNewConfirmedHeader env kv b s = (r, s')" and "epochInStep kv s"
  shows "epochInStep kv s' \<and> GetCurrentEpoch s' = GetCurrentEpoch s"
proof -
  let ?I = "\<lambda>t. fst (LatestEpoch kv (m_db t)) = fst (LatestEpoch kv (m_db s)) \<and> m_curEpoch t = m_curEpoch s"
  have q: "keeps ?I (monitor_checkHeaderConsistency env (ib_Header b))"
    unfolding monitor_checkHeaderConsistency_def query_defs by (intro keeps_rules keeps_queryWithRetry) (simp add: rpc_frame_def)
  have "keeps ?I (dbM (PutLatestHeight kv h))" for h
    unfolding keeps_def dbM_def zoomG_def using put_height_frame [OF assms(1)] by (auto split: prod.splits)
  with q have "keeps ?I (handleNewConfirmedHeader env kv b)" unfolding handleNewConfirmedHeader_def by (intro keeps_rules)
  from keepsD [OF this _ assms(2)] assms(3) show ?thesis by (simp add: epochInStep_def GetCurrentEpoch_def)
qed

fun checkpointsOf :: "monitorEvent list \<Rightarrow> nat" where
  "checkpointsOf [] = 0"
| "checkpointsOf (CheckpointFound _ # es) = Suc (checkpointsOf es)"
| "checkpointsOf (_ # es) = checkpointsOf es"

lemma tryG_state: "tryG m s = (r, s') \<Longrightarrow> \<exists>q. m s = (q, s')"
  by (auto simp: tryG_def split: prod.splits outcome.splits)

lemma zero_of_nat: "x = x + of_nat 0" for x :: u64
  by simp

lemma loop_in_step:
  assumes "kv_contract kv" "kv_writable kv"
  shows "monitorLoop env kv es s = (r, s') \<Longrightarrow> epochInStep kv s \<Longrightarrow>
    epochInStep kv s' \<and> (\<exists>n \<le> checkpointsOf es. GetCurrentEpoch s' = GetCurrentEpoch s + of_nat n)"
proof (induction es arbitrary: s)
  case Nil
  then show ?case by (simp add: retG_def)
next
  case (Cons e es)
  show ?case
  proof (cases e)
    case Quit
    then show ?thesis using Cons.prems by (auto simp: modG_def epochInStep_def GetCurrentEpoch_def)
  next
    case (ConfirmedBlock b)
    obtain x s1 where t: "tryG (handleNewConfirmedHeader env kv b) s = (x, s1)" by force
    from tryG_state [OF t] obtain q where "handleNewConfirmedHeader env kv b s = (q, s1)" ..
    note h = header_in_step [OF assms(1) this Cons.prems(2)]
    have "monitorLoop env kv es s1 = (r, s') \<or> s' = s1" using Cons.prems(1) ConfirmedBlock t by (cases x) simp_all
    then have "epochInStep kv s' \<and> (\<exists>n \<le> checkpointsOf es. GetCurrentEpoch s' = GetCurrentEpoch s1 + of_nat n)"
      using Cons.IH [OF _ conjunct1 [OF h]] conjunct1 [OF h] zero_of_nat [of "GetCurrentEpoch s1"] by (metis le0)
    then show ?thesis using h ConfirmedBlock by simp
  next
    case (CheckpointFound c)
    obtain x s1 where t: "tryG (handleNewConfirmedCheckpoint env kv c) s = (x, s1)" by force
    from tryG_state [OF t] obtain q where "handleNewConfirmedCheckpoint env kv c s = (q, s1)" ..
    note h = checkpoint_in_step [OF assms this Cons.prems(2)]
    have "monitorLoop env kv es s1 = (r, s') \<or> s' = s1" using Cons.prems(1) CheckpointFound t by (cases x) simp_all
    then have "epochInStep kv s' \<and> (\<exists>n \<le> checkpointsOf es. GetCurrentEpoch s' = GetCurrentEpoch s1 + of_nat n)"
      using Cons.IH [OF _ conjunct1 [OF h]] conjunct1 [OF h] zero_of_nat [of "GetCurrentEpoch s1"] by (metis le0)
    then obtain n where n: "epochInStep kv s'" "n \<le> checkpointsOf es" "GetCurrentEpoch s' = GetCurrentEpoch s1 + of_nat n" by blast
    show ?thesis
    proof (cases "GetCurrentEpoch s1 = GetCurrentEpoch s")
      case True
      then show ?thesis using n CheckpointFound by (intro conjI exI [of _ n]) auto
    next
      case False
      then show ?thesis using n h CheckpointFound by (intro conjI exI [of _ "Suc n"]) auto
    qed
  qed
qed

lemma start_in_step:
  assumes "kv_contract kv" and "monitor_Start env kv querierStart baseHeight s = (Ok (Some h), s1)"
  shows "epochInStep kv s1"
proof -
  from assms(2) obtain s2 s3 where init: "initEpoch env kv s2 = (Ok (), s3)" and height: "initHeight kv baseHeight s3 = (Ok h, s1)"
    unfolding monitor_Start_def by (auto elim!: bindG_Ok_E split: if_splits)
  have pure: "snd (LatestEpoch kv db) = db" "snd (LatestHeight kv db) = db" for db
    by (simp_all add: LatestEpoch_def LatestHeight_def monitor_get_def kvView_def bindG_def tryG_def retG_def failG_def liftG_def split: go_splits)
  have same: "s1 = s3"
  proof -
    obtain x where "dbM (LatestHeight kv) s3 = (Ok x, s3\<lparr>m_db := snd (LatestHeight kv (m_db s3))\<rparr>)" "initHeight kv baseHeight s3 = (Ok h, s1)"
      using height unfolding initHeight_def by (auto elim!: bindG_Ok_E simp: dbM_def zoomG_def split: prod.splits)
    then show ?thesis using pure(2) [of "m_db s3"] by (auto simp: initHeight_def mustG_def bindG_def retG_def panicG_def split: option.splits if_splits)
  qed
  obtain r where e: "fst (LatestEpoch kv (m_db s2)) = Ok r" "dbM (LatestEpoch kv) s2 = (Ok r, s2)"
    using init pure(1) [of "m_db s2"] unfolding initEpoch_def by (auto elim!: bindG_Ok_E simp: dbM_def zoomG_def split: prod.splits)
  show ?thesis
  proof (cases r)
    case None
    let ?I = "\<lambda>t. m_db t = m_db s2"
    have q: "keeps ?I (rpcM m)" for m by (rule keeps_rpcM) (simp add: rpc_frame_def)
    have u: "keeps ?I (UpdateEpochInfo env n)" for n
      unfolding keeps_def using UpdateEpochInfo_spec by (metis prod.collapse)
    have "keeps ?I (dbM (LatestEpoch kv))" unfolding keeps_def dbM_def zoomG_def by (simp add: prod.case_eq_if pure(1) Let_def)
    then have "keeps ?I (initEpoch env kv)" unfolding initEpoch_def by (intro keeps_rules q u)
    from keepsD [OF this _ init] e(1) None same show ?thesis by (simp add: epochInStep_def)
  next
    case (Some n)
    with init e(2) have "UpdateEpochInfo env (n + 1) s2 = (Ok (), s3)" by (auto simp: initEpoch_def mustG_def bindG_def split: prod.splits outcome.splits)
    with UpdateEpochInfo_spec [OF this] e(1) Some same show ?thesis by (simp add: epochInStep_def GetCurrentEpoch_def)
  qed
qed


subsection \<open>Starting from the genesis\<close>

text \<open>What \<open>sort.Slice\<close> promises for the comparison of \<open>GetSortedValSet\<close>.\<close>

definition sort_contract :: "(string \<Rightarrow> goerr + bytes) \<Rightarrow> (valWithBlsKey list \<Rightarrow> valWithBlsKey list) \<Rightarrow> bool" where
  "sort_contract parse srt \<longleftrightarrow> (\<forall>vs. mset (srt vs) = mset vs
     \<and> (\<forall>key. (\<forall>v \<in> set vs. addrKey parse v = Ok (key v)) \<longrightarrow> sorted (map key (srt vs))))"

lemma GetSortedValSet_Ok:
  assumes "sort_contract parse srt" and "GetSortedValSet parse srt vs = Ok ws"
  shows "mset ws = mset vs \<and> (length vs \<ge> 2 \<longrightarrow> (\<exists>key. (\<forall>v \<in> set vs. addrKey parse v = Ok (key v)) \<and> sorted (map key ws)))"
proof -
  have ws: "ws = srt vs" and keys: "length vs \<ge> 2 \<Longrightarrow> \<forall>v \<in> set vs. \<exists>k. addrKey parse v = Ok k"
    using assms(2) by (auto simp: GetSortedValSet_def elim: isOk.elims(2) split: if_splits)
  show ?thesis
  proof (intro conjI impI)
    show "mset ws = mset vs" using assms(1) ws by (simp add: sort_contract_def)
    assume "length vs \<ge> 2"
    then obtain key where "\<forall>v \<in> set vs. addrKey parse v = Ok (key v)" using keys by metis
    then show "\<exists>key. (\<forall>v \<in> set vs. addrKey parse v = Ok (key v)) \<and> sorted (map key ws)"
      using assms(1) ws unfolding sort_contract_def by blast
  qed
qed

text \<open>
  A monitor created from a genesis file verifies epoch 1 first, with one validator per
  genesis transaction of the file and the power that transaction gives it, ordered by the first
  eight bytes of the address. Nothing is on its checklist and nothing confirmed or
  half-assembled is in its scanner, which waits for the configured number of confirmations and
  looks for the checkpoint tag of the genesis.
\<close>

theorem monitor_from_genesis:
  assumes "sort_contract parse srt" and "GetGenesisInfoFromFile env filePath w = (Ok info, w')"
    and "monitor_New fmt version parse srt kv cfg comCfg info w2 db = (Ok p, db')"
  shows "\<exists>appState gentxs old ws tag. ge_GenesisStateFromGenFile env filePath w = (Ok appState, w') \<and> ge_GenTxs env appState = Ok gentxs
    \<and> list_all2 (entryOf env old) gentxs ws \<and> GetCurrentEpoch (mp_monitor p) = 1
    \<and> mset (ei_valSet (m_curEpoch (mp_monitor p))) = mset ws
    \<and> (length ws \<ge> 2 \<longrightarrow> (\<exists>key. (\<forall>v \<in> set ws. addrKey parse v = Ok (key v)) \<and> sorted (map key (ei_valSet (m_curEpoch (mp_monitor p))))))
    \<and> m_checkpointChecklist (mp_monitor p) = [] \<and> \<not> m_started (mp_monitor p)
    \<and> hexDecode (gi_checkpointTag info) = Inr tag \<and> bs_ckptCache (mp_scanner p) = NewCheckpointCache fmt tag version
    \<and> bs_k (mp_scanner p) = mo_BtcConfirmationDepth cfg \<and> bs_confirmedTipBlock (mp_scanner p) = None"
proof -
  from assms(3) obtain tag scanner sorted where tag: "hexDecode (gi_checkpointTag info) = Inr tag"
    and scanner: "scanner_New fmt version (mo_BtcCacheSize cfg) (mo_BtcConfirmationDepth cfg) tag w2 = Ok scanner"
    and sorted: "GetSortedValSet parse srt (gi_valSet info) = Ok sorted"
    and p: "m_curEpoch (mp_monitor p) = NewEpochInfo 1 sorted" "m_checkpointChecklist (mp_monitor p) = []" "\<not> m_started (mp_monitor p)" "mp_scanner p = scanner"
    unfolding monitor_New_def NewCheckpointsBookkeeper_def by (auto elim!: bindG_Ok_E)
  have s: "bs_ckptCache scanner = NewCheckpointCache fmt tag version" "bs_k scanner = mo_BtcConfirmationDepth cfg" "bs_confirmedTipBlock scanner = None"
    using scanner by (auto simp: scanner_New_def split: sum.splits)
  obtain appState gentxs old where txs: "ge_GenesisStateFromGenFile env filePath w = (Ok appState, w')" "ge_GenTxs env appState = Ok gentxs"
    "list_all2 (entryOf env old) gentxs (gi_valSet info)"
    using genesis_entries [OF assms(2)] by blast
  show ?thesis
    using GetSortedValSet_Ok [OF assms(1) sorted] txs tag p s
    by (intro exI [of _ appState] exI [of _ gentxs] exI [of _ old] exI [of _ "gi_valSet info"] exI [of _ tag])
       (simp add: GetCurrentEpoch_def NewEpochInfo_def)
qed

subsection \<open>Concrete instances\<close>

lemma sampleKv_writable: "kv_writable sampleKv"
  by (simp add: kv_writable_def sampleKv_def)

definition sampleStart :: "(unit, sampleDb) monitor" where
  "sampleStart = snd (monitor_Start sampleMonitorEnv sampleKv (retG ()) 100 sampleMonitor)"

definition sampleEvents :: "monitorEvent list" where
  "sampleEvents = [CheckpointFound (NewCheckpointRecord (sampleRaw 5) 105), CheckpointFound (NewCheckpointRecord (sampleRaw 9) 106),
     CheckpointFound (NewCheckpointRecord (sampleRaw 6) 107), Quit]"

definition sampleRun :: "(unit, sampleDb) monitor" where
  "sampleRun = snd (monitorLoop sampleMonitorEnv sampleKv sampleEvents sampleStart)"


text \<open>Addresses that are their own bytes, padded, and an insertion sort on the key.\<close>

definition sampleParse :: "string \<Rightarrow> goerr + bytes" where
  "sampleParse a = Inr (map (\<lambda>c. of_char c) a @ replicate 8 0)"

definition sampleKey :: "valWithBlsKey \<Rightarrow> u64" where
  "sampleKey v = (case addrKey sampleParse v of Ok k \<Rightarrow> k | _ \<Rightarrow> 0)"

lemma sampleSort_contract: "sort_contract sampleParse (sort_key sampleKey)"
  unfolding sort_contract_def
proof (intro allI conjI impI)
  fix vs :: "valWithBlsKey list" and key
  assume "\<forall>v \<in> set vs. addrKey sampleParse v = Ok (key v)"
  then have "map key (sort_key sampleKey vs) = map sampleKey (sort_key sampleKey vs)" by (simp add: sampleKey_def)
  then show "sorted (map key (sort_key sampleKey vs))" by (simp only: sorted_sort_key)
qed simp

definition sampleProc :: "(unit, sampleDb) monitorProc outcome \<times> sampleDb" where
  "sampleProc = monitor_New sampleFormatter 0 sampleParse (sort_key sampleKey) sampleKv (DefaultMonitorConfig (DefaultDBConfigWithHomePath (@) 0 0 ''home'')) DefaultCommonConfig sampleGenesis () ([], [])"

theorem monitor_from_genesis_witness:
  "\<exists>p db' (key :: valWithBlsKey \<Rightarrow> u64). sampleProc = (Ok p, db') \<and> GetCurrentEpoch (mp_monitor p) = 1
     \<and> length (ei_valSet (m_curEpoch (mp_monitor p))) = 2 \<and> sorted (map key (ei_valSet (m_curEpoch (mp_monitor p))))"
proof -
  have "isOk (fst sampleProc)" by code_simp
  then obtain p db' where run: "sampleProc = (Ok p, db')" using isOk_run by blast
  from monitor_from_genesis [OF sampleSort_contract sampleGenesis_read run [unfolded sampleProc_def]]
  obtain appState gentxs old ws where txs: "ge_GenTxs sampleGenesisEnv appState = Ok gentxs" "list_all2 (entryOf sampleGenesisEnv old) gentxs ws"
    and val: "GetCurrentEpoch (mp_monitor p) = 1" "mset (ei_valSet (m_curEpoch (mp_monitor p))) = mset ws"
      "length ws \<ge> 2 \<longrightarrow> (\<exists>key. (\<forall>v \<in> set ws. addrKey sampleParse v = Ok (key v)) \<and> sorted (map key (ei_valSet (m_curEpoch (mp_monitor p)))))"
    by (elim exE conjE) (rule that)
  have "gentxs = [30, 31]" using txs(1) by (simp add: sampleGenesisEnv_def)
  with txs(2) have len: "length ws = 2" by (auto dest: list_all2_lengthD)
  then have "length (ei_valSet (m_curEpoch (mp_monitor p))) = 2" using val(2) by (metis size_mset)
  moreover obtain key :: "valWithBlsKey \<Rightarrow> u64" where "sorted (map key (ei_valSet (m_curEpoch (mp_monitor p))))" using val(3) len by auto
  ultimately show ?thesis using run val(1) by blast
qed

end
