(* ===== verification/Tracked_Delegations.thy ===== *)
theory Tracked_Delegations
  imports Ckpt_Bookkeeper
begin

text \<open>
  The in-memory tables of the staking event watcher:
  \<open>btcstaking-tracker/stakingeventwatcher/tracked_delegations.go\<close>. Each method holds the table's
  lock, so a method is one state transformation; the iterator releases the lock between
  batches, and its model runs the loop body of the caller there, which may change the table.
  A stored value may be nil (\<open>AddEmptyDelegation\<close>), hence \<open>trackedDelegation option\<close>.

  Shown here: every sequence of calls acts like the same sequence on a finite map, and the
  separate counter always is the number of entries; iterating a table that does not change
  yields each entry exactly once, for every order in which Go visits the map; a table that
  shrinks during the iteration may lose entries.
\<close>

record trackedDelegation =
  td_StakingTx :: msgTx
  td_StakingOutputIdx :: u32
  td_UnbondingOutput :: txOut
  td_DelegationStartHeight :: u32
  td_InProgress :: bool

record trackedDelegations =
  tds_mapping :: "(hash, trackedDelegation option) gomap"
  tds_count :: int

record newDelegation =
  nd_stakingTxHash :: hash
  nd_stakingTx :: msgTx
  nd_stakingOutputIdx :: u32
  nd_delegationStartHeight :: u32
  nd_unbondingOutput :: txOut

definition NewTrackedDelegations :: trackedDelegations where
  "NewTrackedDelegations = \<lparr>tds_mapping = [], tds_count = 0\<rparr>"

text \<open>\<open>None\<close>: not found. \<open>Some None\<close>: found, and nil.\<close>

definition GetDelegation :: "hash \<Rightarrow> trackedDelegations \<Rightarrow> trackedDelegation option option" where
  "GetDelegation h td = map_of (tds_mapping td) h"

definition GetDelegations :: "hash list \<Rightarrow> trackedDelegations \<Rightarrow> trackedDelegation option list" where
  "GetDelegations ord td = List.map_filter (map_of (tds_mapping td)) ord"

definition Clone :: "trackedDelegation option \<Rightarrow> trackedDelegation option" where
  "Clone td = (case td of
       None \<Rightarrow> None
     | Some d \<Rightarrow> Some \<lparr>td_StakingTx = td_StakingTx d, td_StakingOutputIdx = td_StakingOutputIdx d,
         td_UnbondingOutput = \<lparr>out_Value = out_Value (td_UnbondingOutput d), out_PkScript = out_PkScript (td_UnbondingOutput d)\<rparr>,
         td_DelegationStartHeight = td_DelegationStartHeight d, td_InProgress = td_InProgress d\<rparr>)"

definition AddDelegation ::
  "(msgTx \<Rightarrow> hash) \<Rightarrow> msgTx \<Rightarrow> u32 \<Rightarrow> txOut \<Rightarrow> u32 \<Rightarrow> bool \<Rightarrow> trackedDelegations \<Rightarrow> goerr + trackedDelegations" where
  "AddDelegation txHash stakingTx stakingOutputIdx unbondingOutput delegationStartHeight shouldUpdate td =
     (let delegation = \<lparr>td_StakingTx = stakingTx, td_StakingOutputIdx = stakingOutputIdx,
            td_UnbondingOutput = unbondingOutput, td_DelegationStartHeight = delegationStartHeight, td_InProgress = False\<rparr>;
          stakingTxHash = txHash stakingTx in
      case map_of (tds_mapping td) stakingTxHash of
        Some _ \<Rightarrow> if shouldUpdate then Inr (td\<lparr>tds_mapping := AList.update stakingTxHash (Some delegation) (tds_mapping td)\<rparr>)
                  else Inl (errorf ''delegation already tracked for staking tx hash'')
      | None \<Rightarrow> Inr (td\<lparr>tds_mapping := AList.update stakingTxHash (Some delegation) (tds_mapping td),
                        tds_count := tds_count td + 1\<rparr>))"

definition AddEmptyDelegation :: "hash \<Rightarrow> trackedDelegations \<Rightarrow> goerr + trackedDelegations" where
  "AddEmptyDelegation txHash td = (case map_of (tds_mapping td) txHash of
       Some _ \<Rightarrow> Inl (errorf ''already tracked staking tx hash'')
     | None \<Rightarrow> Inr (td\<lparr>tds_mapping := AList.update txHash None (tds_mapping td), tds_count := tds_count td + 1\<rparr>))"

definition RemoveDelegation :: "hash \<Rightarrow> trackedDelegations \<Rightarrow> trackedDelegations" where
  "RemoveDelegation h td = (case map_of (tds_mapping td) h of
       Some _ \<Rightarrow> td\<lparr>tds_mapping := AList.delete h (tds_mapping td), tds_count := tds_count td - 1\<rparr>
     | None \<Rightarrow> td)"

text \<open>\<open>(changed, exists)\<close>; the height of a nil entry cannot be read.\<close>

definition HasDelegationChanged :: "hash \<Rightarrow> newDelegation \<Rightarrow> trackedDelegations \<Rightarrow> (bool \<times> bool) outcome" where
  "HasDelegationChanged h nd td = (case map_of (tds_mapping td) h of
       None \<Rightarrow> Ok (False, False)
     | Some None \<Rightarrow> Panic ''nil pointer dereference''
     | Some (Some existing) \<Rightarrow>
         if td_DelegationStartHeight existing \<noteq> nd_delegationStartHeight nd then Ok (True, True) else Ok (False, True))"

definition UpdateActivation :: "hash \<Rightarrow> bool \<Rightarrow> trackedDelegations \<Rightarrow> trackedDelegations outcome" where
  "UpdateActivation h inProgress td = (case map_of (tds_mapping td) h of
       None \<Rightarrow> Err (errorf ''delegation with tx hash not found'')
     | Some None \<Rightarrow> Panic ''nil pointer dereference''
     | Some (Some d) \<Rightarrow> Ok (td\<lparr>tds_mapping := AList.update h (Some (d\<lparr>td_InProgress := inProgress\<rparr>)) (tds_mapping td)\<rparr>))"

definition TrackedDelegations_Count :: "trackedDelegations \<Rightarrow> int" where
  "TrackedDelegations_Count td = tds_count td"

subsection \<open>The iterator\<close>

text \<open>
  One batch under the read lock: the map is visited in the order \<open>ks\<close>, entries already
  processed are skipped, and the visit stops when the buffer is full.
\<close>

fun collectBatch :: "nat \<Rightarrow> (hash, trackedDelegation option) gomap \<Rightarrow> hash list
    \<Rightarrow> hash list \<Rightarrow> trackedDelegation option list \<Rightarrow> trackedDelegation option list \<times> hash list" where
  "collectBatch chunkSize m [] processed buffer = (buffer, processed)"
| "collectBatch chunkSize m (k # ks) processed buffer = (case map_of m k of
      None \<Rightarrow> collectBatch chunkSize m ks processed buffer
    | Some v \<Rightarrow>
        if k \<in> set processed then collectBatch chunkSize m ks processed buffer
        else if length (buffer @ [Clone v]) \<ge> chunkSize then (buffer @ [Clone v], processed @ [k])
        else collectBatch chunkSize m ks (processed @ [k]) (buffer @ [Clone v]))"

text \<open>\<open>return err\<close> in the body of the caller's loop ends the iteration.\<close>

fun yieldAll :: "(trackedDelegation option \<Rightarrow> ('s, unit) prog) \<Rightarrow> trackedDelegation option list \<Rightarrow> ('s, unit) prog" where
  "yieldAll body [] = retG ()"
| "yieldAll body (d # ds) = bindG (body d) (\<lambda>_. yieldAll body ds)"

text \<open>
  The rounds: \<open>get\<close> finds the table in the caller's state, \<open>ord\<close> is the visiting order of each
  round. The number of rounds has no bound in the code when the body keeps adding entries.
\<close>

fun iterRounds :: "nat \<Rightarrow> nat \<Rightarrow> (nat \<Rightarrow> (hash, trackedDelegation option) gomap \<Rightarrow> hash list) \<Rightarrow> ('s \<Rightarrow> trackedDelegations)
    \<Rightarrow> (trackedDelegation option \<Rightarrow> ('s, unit) prog) \<Rightarrow> hash list \<Rightarrow> ('s, unit) prog" where
  "iterRounds 0 chunkSize ord get body processed = noFuelG"
| "iterRounds (Suc fuel) chunkSize ord get body processed =
     bindG (getG (tds_mapping \<circ> get)) (\<lambda>m.
       (let (buffer, processed') = collectBatch chunkSize m (ord fuel m) processed [] in
        bindG (yieldAll body buffer) (\<lambda>_.
          if length processed' \<ge> length m then retG ()
          else iterRounds fuel chunkSize ord get body processed')))"

definition DelegationsIter :: "nat \<Rightarrow> int \<Rightarrow> (nat \<Rightarrow> (hash, trackedDelegation option) gomap \<Rightarrow> hash list)
    \<Rightarrow> ('s \<Rightarrow> trackedDelegations) \<Rightarrow> (trackedDelegation option \<Rightarrow> ('s, unit) prog) \<Rightarrow> ('s, unit) prog" where
  "DelegationsIter fuel chunkSize ord get body =
     iterRounds fuel (nat (if chunkSize \<le> 0 then 100 else chunkSize)) ord get body []"

definition visits :: "(nat \<Rightarrow> (hash, 'v) gomap \<Rightarrow> hash list) \<Rightarrow> bool" where
  "visits ord \<longleftrightarrow> (\<forall>n m. distinct (ord n m) \<and> set (ord n m) = keys_of m)"

subsection \<open>The table as a finite map\<close>

definition wf_tracked :: "trackedDelegations \<Rightarrow> bool" where
  "wf_tracked td \<longleftrightarrow> wf_map (tds_mapping td) \<and> tds_count td = int (length (tds_mapping td))"

interpretation tracked_store: keyed_store wf_tracked "\<lambda>td h. GetDelegation h td" RemoveDelegation
proof unfold_locales
  fix td h assume "wf_tracked td"
  then show "wf_tracked (RemoveDelegation h td)"
    by (auto simp: wf_tracked_def RemoveDelegation_def length_delete_alist keys_of_dom split: option.splits)
       (metis One_nat_def domI keys_of_dom length_greater_0_conv list.size(3) map_of.simps(1) not_less_zero of_nat_1 of_nat_diff option.distinct(1) Suc_leI)
next
  fix td h h' assume "wf_tracked td"
  then show "GetDelegation h' (RemoveDelegation h td) = (if h' = h then None else GetDelegation h' td)"
    by (auto simp: GetDelegation_def RemoveDelegation_def delete_conv' split: option.splits)
qed

text \<open>A call on a table; a call that fails or panics leaves it as it was.\<close>

datatype trackerCall =
    CallAddDelegation msgTx u32 txOut u32 bool
  | CallAddEmpty hash
  | CallRemove hash
  | CallUpdateActivation hash bool

fun trackerCall_run :: "(msgTx \<Rightarrow> hash) \<Rightarrow> trackerCall \<Rightarrow> trackedDelegations \<Rightarrow> trackedDelegations" where
  "trackerCall_run txHash (CallAddDelegation tx i out h upd) td =
     (case AddDelegation txHash tx i out h upd td of Inl _ \<Rightarrow> td | Inr td' \<Rightarrow> td')"
| "trackerCall_run txHash (CallAddEmpty h) td = (case AddEmptyDelegation h td of Inl _ \<Rightarrow> td | Inr td' \<Rightarrow> td')"
| "trackerCall_run txHash (CallRemove h) td = RemoveDelegation h td"
| "trackerCall_run txHash (CallUpdateActivation h b) td = (case UpdateActivation h b td of Ok td' \<Rightarrow> td' | _ \<Rightarrow> td)"

text \<open>The same calls on a finite map.\<close>

fun trackerCall_spec :: "(msgTx \<Rightarrow> hash) \<Rightarrow> trackerCall \<Rightarrow> (hash \<rightharpoonup> trackedDelegation option) \<Rightarrow> (hash \<rightharpoonup> trackedDelegation option)" where
  "trackerCall_spec txHash (CallAddDelegation tx i out h upd) m =
     (if m (txHash tx) = None \<or> upd
      then m(txHash tx \<mapsto> Some \<lparr>td_StakingTx = tx, td_StakingOutputIdx = i, td_UnbondingOutput = out,
               td_DelegationStartHeight = h, td_InProgress = False\<rparr>)
      else m)"
| "trackerCall_spec txHash (CallAddEmpty h) m = (if m h = None then m(h \<mapsto> None) else m)"
| "trackerCall_spec txHash (CallRemove h) m = m(h := None)"
| "trackerCall_spec txHash (CallUpdateActivation h b) m = (case m h of
     Some (Some d) \<Rightarrow> m(h \<mapsto> Some (d\<lparr>td_InProgress := b\<rparr>)) | _ \<Rightarrow> m)"

lemma map_of_Some_keys: "map_of m k = Some v \<Longrightarrow> k \<in> keys_of m"
  by (simp add: keys_of_dom domI)

lemma trackerCall_sim:
  assumes "wf_tracked td"
  shows "wf_tracked (trackerCall_run txHash c td)
    \<and> map_of (tds_mapping (trackerCall_run txHash c td)) = trackerCall_spec txHash c (map_of (tds_mapping td))"
proof (cases c)
  case (CallAddDelegation tx i out h upd)
  then show ?thesis using assms
    by (auto simp: wf_tracked_def AddDelegation_def Let_def length_update_alist update_conv' map_of_Some_keys
        map_of_None_keys split: option.splits)
next
  case (CallAddEmpty h)
  then show ?thesis using assms
    by (auto simp: wf_tracked_def AddEmptyDelegation_def length_update_alist update_conv' map_of_None_keys
        dest: map_of_Some_keys split: option.splits)
next
  case (CallRemove h)
  then show ?thesis using tracked_store.ok_remove [OF assms, of h] tracked_store.lookup_remove [OF assms, where k = h]
    by (auto simp: GetDelegation_def fun_eq_iff)
next
  case (CallUpdateActivation h b)
  then show ?thesis using assms
    by (auto simp: wf_tracked_def UpdateActivation_def length_update_alist update_conv' map_of_Some_keys
        split: option.splits)
qed


subsection \<open>The iterator visits every entry\<close>

lemma collectBatch_spec:
  assumes "0 < n" and "length buf < n" and "distinct ks" and "set ks \<subseteq> keys_of m"
  shows "\<exists>new. collectBatch n m ks pr buf = (buf @ map (Clone \<circ> the \<circ> map_of m) new, pr @ new)
    \<and> new = take (n - length buf) (filter (\<lambda>k. k \<notin> set pr) ks)"
  using assms
proof (induction n m ks pr buf rule: collectBatch.induct)
  case (2 n m k ks pr buf)
  then obtain v where v: "map_of m k = Some v" by (auto simp: keys_of_dom)
  have f: "filter (\<lambda>x. x \<notin> set (pr @ [k])) ks = filter (\<lambda>x. x \<notin> set pr) ks"
    using 2(6) by (intro filter_cong) auto
  consider "k \<in> set pr" | "k \<notin> set pr" "n \<le> Suc (length buf)" | "k \<notin> set pr" "\<not> n \<le> Suc (length buf)" by blast
  then show ?case
  proof cases
    case 1
    then show ?thesis using 2(2) [OF v 1] 2(4-7) v by auto
  next
    case 2
    then have "n - length buf = Suc 0" using \<open>length buf < n\<close> by simp
    then show ?thesis using 2 v by (simp add: take_Suc)
  next
    case 3
    then obtain j where j: "n - length buf = Suc j" "n - Suc (length buf) = j" using \<open>length buf < n\<close>
      by (metis Suc_diff_Suc)
    have "\<exists>new. collectBatch n m ks (pr @ [k]) (buf @ [Clone v]) =
        ((buf @ [Clone v]) @ map (Clone \<circ> the \<circ> map_of m) new, (pr @ [k]) @ new)
      \<and> new = take (n - length (buf @ [Clone v])) (filter (\<lambda>x. x \<notin> set (pr @ [k])) ks)"
      by (rule 2(3) [OF v]) (use 3 2(4-7) in auto)
    then show ?thesis using 3 v j f by (auto intro: exI [of _ "k # _"])
  qed
qed simp

text \<open>
  The rule for iterations whose body may change the entry it is given, but neither adds nor
  drops entries: \<open>J D\<close> holds when the body has run for exactly the keys in \<open>D\<close>. The iteration
  ends, and the body has then run once for every key.
\<close>

definition runs_each :: "(hash set \<Rightarrow> 's \<Rightarrow> bool) \<Rightarrow> (hash, trackedDelegation option) gomap
    \<Rightarrow> (trackedDelegation option \<Rightarrow> ('s, unit) prog) \<Rightarrow> bool" where
  "runs_each J m body \<longleftrightarrow> (\<forall>D s k v. J D s \<longrightarrow> k \<notin> D \<longrightarrow> map_of m k = Some v \<longrightarrow> (\<exists>s'. body (Clone v) s = (Ok (), s') \<and> J (insert k D) s'))"

definition keeps_table :: "(hash set \<Rightarrow> 's \<Rightarrow> bool) \<Rightarrow> (hash, trackedDelegation option) gomap \<Rightarrow> ('s \<Rightarrow> trackedDelegations) \<Rightarrow> bool" where
  "keeps_table J m get \<longleftrightarrow> (\<forall>D s. J D s \<longrightarrow> keys_of (tds_mapping (get s)) = keys_of m \<and> length (tds_mapping (get s)) = length m
      \<and> (\<forall>k. k \<notin> D \<longrightarrow> map_of (tds_mapping (get s)) k = map_of m k))"

lemma yieldAll_covers:
  assumes "runs_each J m body" and "J D s" and "distinct ks" and "set ks \<inter> D = {}" and "set ks \<subseteq> keys_of m"
  shows "\<exists>s'. yieldAll body (map (\<lambda>k. Clone (the (map_of m k))) ks) s = (Ok (), s') \<and> J (D \<union> set ks) s'"
  using assms(2-)
proof (induction ks arbitrary: D s)
  case (Cons k ks)
  then obtain v where v: "map_of m k = Some v" by (auto simp: keys_of_dom)
  have "k \<notin> D" using Cons.prems(3) by simp
  with assms(1) Cons.prems(1) v obtain t where t: "body (Clone v) s = (Ok (), t)" "J (insert k D) t" unfolding runs_each_def by blast
  have "distinct ks" "set ks \<inter> insert k D = {}" "set ks \<subseteq> keys_of m" using Cons.prems(2-) by auto
  from Cons.IH [OF t(2) this] t v show ?case by simp
qed (simp add: retG_def)

lemma covered:
  assumes "wf_map m" and "distinct pr" and "set pr \<subseteq> keys_of m" and "length m \<le> length pr"
  shows "set pr = keys_of m"
proof -
  have "card (keys_of m) = length m" using assms(1) distinct_card [of "map fst m"] by (simp add: wf_map_def keys_of_def)
  then have "card (keys_of m) \<le> card (set pr)" using assms(4) distinct_card [OF assms(2)] by simp
  then show ?thesis by (intro card_seteq assms(3)) (simp add: keys_of_def)
qed

lemma iterRounds_covers:
  assumes "visits ord" and "wf_map m" and "0 < n"
    and table: "keeps_table J m get" and body: "runs_each J m body"
    and "J (set pr) s" and "distinct pr" and "set pr \<subseteq> keys_of m" and "length m - length pr < fuel"
  shows "\<exists>s'. iterRounds fuel n ord get body pr s = (Ok (), s') \<and> J (keys_of m) s'"
  using assms(6-)
proof (induction fuel arbitrary: pr s)
  case (Suc fuel)
  let ?t = "tds_mapping (get s)"
  have tab: "keys_of ?t = keys_of m" "length ?t = length m" "\<And>k. k \<notin> set pr \<Longrightarrow> map_of ?t k = map_of m k"
    using table Suc.prems(1) unfolding keeps_table_def by blast+
  have ord: "distinct (ord fuel ?t)" "set (ord fuel ?t) = keys_of m" using assms(1) tab by (simp_all add: visits_def)
  define b where "b = take n (filter (\<lambda>k. k \<notin> set pr) (ord fuel ?t))"
  have sub: "set b \<subseteq> keys_of m - set pr"
    using set_take_subset [of n "filter (\<lambda>k. k \<notin> set pr) (ord fuel ?t)"] unfolding b_def set_filter ord(2) by blast
  have "map (Clone \<circ> the \<circ> map_of ?t) b = map (\<lambda>k. Clone (the (map_of m k))) b" using sub tab by (intro map_cong) auto
  then have batch: "collectBatch n ?t (ord fuel ?t) pr [] = (map (\<lambda>k. Clone (the (map_of m k))) b, pr @ b)"
    using collectBatch_spec [of n "[]" "ord fuel ?t" ?t pr] assms(3) ord tab by (auto simp: b_def)
  have dist: "distinct (pr @ b)" using Suc.prems(2) ord(1) sub by (auto simp: b_def intro: distinct_take distinct_filter)
  have "distinct b" "set b \<inter> set pr = {}" "set b \<subseteq> keys_of m" using dist sub by auto
  from yieldAll_covers [OF body Suc.prems(1) this]
  obtain t where t: "yieldAll body (map (\<lambda>k. Clone (the (map_of m k))) b) s = (Ok (), t)" "J (set (pr @ b)) t" by auto
  have run: "iterRounds (Suc fuel) n ord get body pr s = (if length (pr @ b) \<ge> length m then (Ok (), t) else iterRounds fuel n ord get body (pr @ b) t)"
    using batch t(1) tab by (simp add: retG_def)
  have in_m: "set (pr @ b) \<subseteq> keys_of m" using Suc.prems(3) sub by auto
  show ?case
  proof (cases "length (pr @ b) \<ge> length m")
    case True
    then show ?thesis using run t(2) covered [OF assms(2) dist in_m True] by simp
  next
    case False
    have "b \<noteq> []"
    proof
      assume "b = []"
      then have "keys_of m \<subseteq> set pr" using assms(3) ord(2) by (auto simp: b_def filter_empty_conv)
      then have "length m \<le> length pr"
        using assms(2) distinct_card [of "map fst m"] distinct_card [OF Suc.prems(2)] card_mono [of "set pr" "keys_of m"] by (simp add: wf_map_def keys_of_def)
      then show False using False by simp
    qed
    then have "0 < length b" by simp
    then have "length m - length (pr @ b) < fuel" using Suc.prems(4) False unfolding length_append by linarith
    from Suc.IH [OF t(2) dist in_m this] run False show ?thesis by simp
  qed
qed simp

text \<open>A loop body that records what the iterator yields and leaves the table alone.\<close>

definition recordYield :: "trackedDelegation option \<Rightarrow> (trackedDelegations \<times> trackedDelegation option list, unit) prog" where
  "recordYield d = modG (\<lambda>(td, seen). (td, seen @ [d]))"

lemma map_of_values: "wf_map m \<Longrightarrow> map (f \<circ> the \<circ> map_of m) (map fst m) = map (f \<circ> snd) m"
  by (auto simp: wf_map_def)

text \<open>
  Iterating a table that nobody changes terminates and yields a copy of every entry exactly
  once, for every batch size (\<open>chunkSize \<le> 0\<close> means 100) and every order in which Go visits the
  map in each round.
\<close>

theorem DelegationsIter_each_once:
  assumes "visits ord" and "wf_tracked td" and "length (tds_mapping td) < fuel"
  shows "\<exists>seen. DelegationsIter fuel chunkSize ord fst recordYield (td, []) = (Ok (), (td, seen))
    \<and> mset seen = mset (map (Clone \<circ> snd) (tds_mapping td))"
proof -
  let ?m = "tds_mapping td" and ?n = "nat (if chunkSize \<le> 0 then 100 else chunkSize)"
  let ?J = "\<lambda>D (td', seen). td' = td \<and> (\<exists>ks. distinct ks \<and> set ks = D \<and> seen = map (Clone \<circ> the \<circ> map_of ?m) ks)"
  have wf: "wf_map ?m" using assms(2) by (simp add: wf_tracked_def)
  have body: "runs_each ?J ?m recordYield"
    unfolding runs_each_def
  proof (intro allI impI)
    fix D s k v
    assume J: "?J D s" "k \<notin> D" "map_of ?m k = Some v"
    obtain ks where ks: "s = (td, map (Clone \<circ> the \<circ> map_of ?m) ks)" "distinct ks" "set ks = D" using J(1) by auto
    then have "distinct (ks @ [k])" "set (ks @ [k]) = insert k D" "map (Clone \<circ> the \<circ> map_of ?m) ks @ [Clone v] = map (Clone \<circ> the \<circ> map_of ?m) (ks @ [k])"
      using J(2,3) by auto
    then have "?J (insert k D) (td, map (Clone \<circ> the \<circ> map_of ?m) ks @ [Clone v])" by blast
    moreover have "recordYield (Clone v) s = (Ok (), (td, map (Clone \<circ> the \<circ> map_of ?m) ks @ [Clone v]))"
      using ks(1) by (simp add: recordYield_def modG_def)
    ultimately show "\<exists>t. recordYield (Clone v) s = (Ok (), t) \<and> ?J (insert k D) t" by blast
  qed
  have "\<exists>t. iterRounds fuel ?n ord fst recordYield [] (td, []) = (Ok (), t) \<and> ?J (keys_of ?m) t"
    by (rule iterRounds_covers [OF assms(1) wf _ _ body]) (use assms(3) in \<open>auto simp: keeps_table_def\<close>)
  then obtain ks where run: "DelegationsIter fuel chunkSize ord fst recordYield (td, []) = (Ok (), (td, map (Clone \<circ> the \<circ> map_of ?m) ks))"
    and ks: "distinct ks" "set ks = keys_of ?m" by (auto simp: DelegationsIter_def)
  have "mset ks = mset (map fst ?m)"
    using ks wf by (intro set_eq_iff_mset_eq_distinct [THEN iffD1]) (simp_all add: wf_map_def keys_of_def)
  then have "mset (map (Clone \<circ> the \<circ> map_of ?m) ks) = mset (map (Clone \<circ> the \<circ> map_of ?m) (map fst ?m))"
    by (metis mset_map)
  also have "\<dots> = mset (map (Clone \<circ> snd) ?m)" by (simp only: map_of_values [OF wf])
  finally show ?thesis using run by (intro exI conjI)
qed

text \<open>
  A body that drops each entry it is given, as the activation of a delegation that is no longer
  verified does: with batches of one, the third of three entries is never visited, because the
  number of entries seen has caught up with the size of the shrunken table.
\<close>

definition recordAndRemove :: "(msgTx \<Rightarrow> hash) \<Rightarrow> trackedDelegation option
    \<Rightarrow> (trackedDelegations \<times> trackedDelegation option list, unit) prog" where
  "recordAndRemove txHash d = modG (\<lambda>(td, seen).
     (case d of None \<Rightarrow> td | Some x \<Rightarrow> RemoveDelegation (txHash (td_StakingTx x)) td, seen @ [d]))"

definition sampleMsgTx :: "u32 \<Rightarrow> msgTx" where
  "sampleMsgTx n = \<lparr>tx_Version = 2, tx_TxIn = [], tx_TxOut = [\<lparr>out_Value = 5, out_PkScript = [1]\<rparr>], tx_LockTime = n\<rparr>"

definition sampleTxHash :: "msgTx \<Rightarrow> hash" where
  "sampleTxHash tx = ucast (tx_LockTime tx)"

definition sampleTracked :: "u32 list \<Rightarrow> trackedDelegations" where
  "sampleTracked ns = \<lparr>tds_mapping = map (\<lambda>n. (ucast n, Some \<lparr>td_StakingTx = sampleMsgTx n, td_StakingOutputIdx = 0,
       td_UnbondingOutput = \<lparr>out_Value = 5, out_PkScript = [1]\<rparr>, td_DelegationStartHeight = 0, td_InProgress = False\<rparr>)) ns,
     tds_count = int (length ns)\<rparr>"

lemma visits_keys: "visits (\<lambda>_ m. remdups (map fst m))"
  by (simp add: visits_def keys_of_def)

theorem DelegationsIter_each_once_witness:
  "\<exists>seen. DelegationsIter 4 2 (\<lambda>_ m. remdups (map fst m)) fst recordYield (sampleTracked [1, 2, 3], [])
     = (Ok (), (sampleTracked [1, 2, 3], seen)) \<and> mset seen = mset (map (Clone \<circ> snd) (tds_mapping (sampleTracked [1, 2, 3])))"
  by (rule DelegationsIter_each_once [OF visits_keys])
     (simp_all add: sampleTracked_def wf_tracked_def wf_map_def)

lemma iterator_misses_entry:
  "DelegationsIter 9 1 (\<lambda>_ m. map fst m) fst (recordAndRemove sampleTxHash) (sampleTracked [1, 2, 3], [])
     = (Ok (), (sampleTracked [3], map snd (tds_mapping (sampleTracked [1, 2]))))"
  by code_simp

end
