(* ===== verification/Babylon_Adapter.thy ===== *)
theory Babylon_Adapter
  imports Tracked_Delegations Retry_Wrap
begin

text \<open>
  The staking event watcher's view of Babylon:
  \<open>btcstaking-tracker/stakingeventwatcher/expected_babylon_client.go\<close>. The interface
  \<open>BabylonNodeAdapter\<close> is the record \<open>nodeAdapter\<close>, its implementation \<open>BabylonClientAdapter\<close> the
  definitions over the client library's calls, which are the fields of \<open>bbnClient\<close>.

  Shown here: a block's modified delegations are exactly the \<open>staking_tx_hash\<close> attributes of
  its events of the wanted types; a page of delegations parses completely or not at all.
\<close>

subsection \<open>What Babylon answers\<close>

text \<open>
  A delegation as Babylon returns it. \<open>dr_UndelegationResponse\<close> is \<open>None\<close> for a nil pointer, and
  otherwise the unbonding transaction and whether \<open>DelegatorUnbondingInfoResponse\<close> is set.
\<close>

record delegationResponse =
  dr_StakingTxHex :: string
  dr_StakingOutputIdx :: u32
  dr_StartHeight :: u32
  dr_StatusDesc :: string
  dr_Active :: bool
  dr_StkExp :: bool
  dr_UndelegationResponse :: "(string \<times> bool) option"

record abciEvent =
  ev_Type :: string
  ev_Attributes :: "(string \<times> string) list"

record blockResults =
  res_TxsResults :: "abciEvent list list"
  res_FinalizeBlockEvents :: "abciEvent list"

record delegation =
  del_StakingTx :: msgTx
  del_StakingOutputIdx :: u32
  del_DelegationStartHeight :: u32
  del_UnbondingOutput :: txOut
  del_HasProof :: bool
  del_Status :: string
  del_IsStakeExpansion :: bool
  del_IsUnbonded :: bool

text \<open>
  The client library. The sending calls answer with the result code of a transaction that
  was executed and failed, if there was one, next to the error.
\<close>

record ('w, 'spv, 'inc) bbnClient =
  bc_BTCDelegations :: "string \<Rightarrow> bytes option \<Rightarrow> u64 \<Rightarrow> ('w, delegationResponse list \<times> bytes option) prog"
  bc_BTCDelegation :: "string \<Rightarrow> ('w, delegationResponse) prog"
  bc_SendUndelegate :: "string \<Rightarrow> string \<Rightarrow> bytes \<Rightarrow> 'inc \<Rightarrow> bytes list \<Rightarrow> ('w, unit) prog"
  bc_SendInclusionProof :: "string \<Rightarrow> string \<Rightarrow> 'inc \<Rightarrow> ('w, unit) prog"
  bc_BTCHeaderChainTip :: "('w, u32) prog"
  bc_HeaderDepth :: "string \<Rightarrow> ('w, u32) prog"
  bc_BTCCheckpointParams :: "('w, u32) prog"
  bc_Status :: "('w, int) prog"
  bc_BlockResults :: "int \<Rightarrow> ('w, blockResults) prog"
  bc_TxSearch :: "string \<Rightarrow> ('w, abciEvent list list) prog"
  bc_MustGetAddr :: string
  bc_NewBTCTxFromHex :: "string \<Rightarrow> goerr + msgTx"
  bc_SerializeBTCTx :: "msgTx \<Rightarrow> goerr + bytes"
  bc_NewInclusionProofFromSpvProof :: "'spv \<Rightarrow> 'inc"
  bc_hashStr :: "hash \<Rightarrow> string"
  bc_ErrHeaderDoesNotExist :: string
  bc_retryDepth :: "('w, u32) retryDo"

definition stakingTxHashKey :: string where
  "stakingTxHashKey = ''staking_tx_hash''"

definition statusVERIFIED :: string where "statusVERIFIED = ''VERIFIED''"
definition statusACTIVE :: string where "statusACTIVE = ''ACTIVE''"
definition statusUNBONDED :: string where "statusUNBONDED = ''UNBONDED''"
definition statusANY :: string where "statusANY = ''ANY''"

text \<open>\<open>strings.Contains\<close> and \<open>strings.ReplaceAll(s, quote, "")\<close>.\<close>

fun strContains :: "string \<Rightarrow> string \<Rightarrow> bool" where
  "strContains [] t = (t = [])"
| "strContains (c # s) t = (take (length t) (c # s) = t \<or> strContains s t)"

definition dropQuotes :: "string \<Rightarrow> string" where
  "dropQuotes s = filter (\<lambda>c. c \<noteq> CHR 0x22) s"

subsection \<open>The adapter\<close>

text \<open>
  \<open>UndelegationResponse\<close> is dereferenced before it is compared with nil, and the unbonding
  transaction is assumed to have an output.
\<close>

definition parseDelegation :: "('w, 'spv, 'inc) bbnClient \<Rightarrow> bool \<Rightarrow> delegationResponse \<Rightarrow> delegation outcome" where
  "parseDelegation c isStakeExpansion r = (case bc_NewBTCTxFromHex c (dr_StakingTxHex r) of
       Inl err \<Rightarrow> Err err
     | Inr stakingTx \<Rightarrow> (case dr_UndelegationResponse r of
         None \<Rightarrow> Panic ''nil pointer dereference''
       | Some (unbondingTxHex, unbondingInfo) \<Rightarrow> (case bc_NewBTCTxFromHex c unbondingTxHex of
           Inl err \<Rightarrow> Err err
         | Inr unbondingTx \<Rightarrow> (case tx_TxOut unbondingTx of
             [] \<Rightarrow> Panic ''index out of range''
           | out # _ \<Rightarrow> Ok \<lparr>del_StakingTx = stakingTx, del_StakingOutputIdx = dr_StakingOutputIdx r,
                 del_DelegationStartHeight = dr_StartHeight r, del_UnbondingOutput = out,
                 del_HasProof = (dr_StartHeight r > 0), del_Status = dr_StatusDesc r,
                 del_IsStakeExpansion = isStakeExpansion, del_IsUnbonded = unbondingInfo\<rparr>))))"

fun parseDelegations :: "('w, 'spv, 'inc) bbnClient \<Rightarrow> delegationResponse list \<Rightarrow> delegation list outcome" where
  "parseDelegations c [] = Ok []"
| "parseDelegations c (r # rs) = (case parseDelegation c False r of
      Ok d \<Rightarrow> (case parseDelegations c rs of Ok ds \<Rightarrow> Ok (d # ds) | x \<Rightarrow> x)
    | Err e \<Rightarrow> Err e | Panic p \<Rightarrow> Panic p | NoFuel \<Rightarrow> NoFuel)"

definition bca_DelegationsByStatus ::
  "('w, 'spv, 'inc) bbnClient \<Rightarrow> string \<Rightarrow> bytes option \<Rightarrow> u64 \<Rightarrow> ('w, delegation list \<times> bytes option) prog" where
  "bca_DelegationsByStatus c status cursor limit =
     bindG (wrapG ''failed to retrieve delegations from babylon: '' (bc_BTCDelegations c status cursor limit)) (\<lambda>(rs, nextKey).
     bindG (liftG (parseDelegations c rs)) (\<lambda>ds. retG (ds, nextKey)))"

definition bca_IsDelegationActive :: "('w, 'spv, 'inc) bbnClient \<Rightarrow> hash \<Rightarrow> ('w, bool) prog" where
  "bca_IsDelegationActive c stakingTxHash =
     bindG (wrapG ''failed to retrieve delegation from babyln: '' (bc_BTCDelegation c (bc_hashStr c stakingTxHash)))
       (\<lambda>r. retG (dr_Active r))"

definition bca_IsDelegationVerified :: "('w, 'spv, 'inc) bbnClient \<Rightarrow> hash \<Rightarrow> ('w, bool) prog" where
  "bca_IsDelegationVerified c stakingTxHash =
     bindG (wrapG ''failed to retrieve delegation from babyln: '' (bc_BTCDelegation c (bc_hashStr c stakingTxHash)))
       (\<lambda>r. retG (dr_StatusDesc r = statusVERIFIED))"

definition bca_ReportUnbonding :: "('w, 'spv, 'inc) bbnClient \<Rightarrow> hash \<Rightarrow> msgTx \<Rightarrow> 'inc \<Rightarrow> bytes list \<Rightarrow> ('w, unit) prog" where
  "bca_ReportUnbonding c stakingTxHash stakeSpendingTx inclusionProof fundingTxs =
     (case bc_SerializeBTCTx c stakeSpendingTx of
        Inl err \<Rightarrow> failG err
      | Inr stakeSpendingBytes \<Rightarrow>
          wrapG ''failed to report unbonding: ''
            (bc_SendUndelegate c (bc_MustGetAddr c) (bc_hashStr c stakingTxHash) stakeSpendingBytes inclusionProof fundingTxs))"

definition bca_BtcClientTipHeight :: "('w, 'spv, 'inc) bbnClient \<Rightarrow> ('w, u32) prog" where
  "bca_BtcClientTipHeight c = wrapG ''failed to retrieve btc light client tip from babyln: '' (bc_BTCHeaderChainTip c)"

definition bca_ActivateDelegation :: "('w, 'spv, 'inc) bbnClient \<Rightarrow> hash \<Rightarrow> 'spv \<Rightarrow> ('w, unit) prog" where
  "bca_ActivateDelegation c stakingTxHash proof =
     wrapG ''failed to report MsgAddBTCDelegationInclusionProof: ''
       (bc_SendInclusionProof c (bc_MustGetAddr c) (bc_hashStr c stakingTxHash) (bc_NewInclusionProofFromSpvProof c proof))"

definition bca_QueryHeaderDepth :: "('w, 'spv, 'inc) bbnClient \<Rightarrow> hash \<Rightarrow> ('w, u32) prog" where
  "bca_QueryHeaderDepth c headerHash =
     bindG (tryG (bc_retryDepth c (Some 5) (\<lambda>_. True) (bc_HeaderDepth c (bc_hashStr c headerHash)))) (\<lambda>r. case r of
       Inr depth \<Rightarrow> retG depth
     | Inl err \<Rightarrow>
         if strContains (errText err) (bc_ErrHeaderDoesNotExist c)
         then failG (GoErr [ErrHeaderNotKnownToBabylon] (errText err))
         else failG err)"

definition bca_Params :: "('w, 'spv, 'inc) bbnClient \<Rightarrow> ('w, u32) prog" where
  "bca_Params c = bc_retryDepth c (Some 5) (\<lambda>_. True) (bc_BTCCheckpointParams c)"

definition bca_CometBFTTipHeight :: "('w, 'spv, 'inc) bbnClient \<Rightarrow> ('w, int) prog" where
  "bca_CometBFTTipHeight c = wrapG ''failed to retrieve cometbft tip height: '' (bc_Status c)"

fun attrHashes :: "(string \<times> string) list \<Rightarrow> string list \<Rightarrow> string list" where
  "attrHashes [] acc = acc"
| "attrHashes ((key, v) # as) acc = attrHashes as (if key = stakingTxHashKey then acc @ [dropQuotes v] else acc)"

fun eventHashes :: "string list \<Rightarrow> abciEvent list \<Rightarrow> string list \<Rightarrow> string list" where
  "eventHashes types [] acc = acc"
| "eventHashes types (e # es) acc =
     (if ev_Type e \<notin> set types then eventHashes types es acc
      else eventHashes types es (attrHashes (ev_Attributes e) acc))"

fun txHashes :: "string list \<Rightarrow> abciEvent list list \<Rightarrow> string list \<Rightarrow> string list" where
  "txHashes types [] acc = acc"
| "txHashes types (t # ts) acc = txHashes types ts (eventHashes types t acc)"

definition bca_DelegationsModifiedInBlock ::
  "('w, 'spv, 'inc) bbnClient \<Rightarrow> int \<Rightarrow> string list \<Rightarrow> ('w, string list) prog" where
  "bca_DelegationsModifiedInBlock c height eventTypes =
     bindG (wrapG ''failed to do block_results for: '' (bc_BlockResults c height)) (\<lambda>res.
       retG (eventHashes eventTypes (res_FinalizeBlockEvents res) (txHashes eventTypes (res_TxsResults res) [])))"

definition bca_StakingTxHashesByEvent :: "('w, 'spv, 'inc) bbnClient \<Rightarrow> string \<Rightarrow> string \<Rightarrow> ('w, string list) prog" where
  "bca_StakingTxHashesByEvent c eventType criteria =
     bindG (wrapG ''failed to do tx_search for: '' (bc_TxSearch c criteria)) (\<lambda>txs. retG (txHashes [eventType] txs []))"

definition bca_BTCDelegation :: "('w, 'spv, 'inc) bbnClient \<Rightarrow> string \<Rightarrow> ('w, delegation) prog" where
  "bca_BTCDelegation c stakingTxHash =
     bindG (wrapG ''failed to retrieve delegation from babylon: '' (bc_BTCDelegation c stakingTxHash)) (\<lambda>r.
       liftG (parseDelegation c (dr_StkExp r) r))"

subsection \<open>The interface\<close>

record ('w, 'spv, 'inc) nodeAdapter =
  na_DelegationsByStatus :: "string \<Rightarrow> bytes option \<Rightarrow> u64 \<Rightarrow> ('w, delegation list \<times> bytes option) prog"
  na_IsDelegationActive :: "hash \<Rightarrow> ('w, bool) prog"
  na_IsDelegationVerified :: "hash \<Rightarrow> ('w, bool) prog"
  na_ReportUnbonding :: "hash \<Rightarrow> msgTx \<Rightarrow> 'inc \<Rightarrow> bytes list \<Rightarrow> ('w, unit) prog"
  na_BtcClientTipHeight :: "('w, u32) prog"
  na_ActivateDelegation :: "hash \<Rightarrow> 'spv \<Rightarrow> ('w, unit) prog"
  na_QueryHeaderDepth :: "hash \<Rightarrow> ('w, u32) prog"
  na_Params :: "('w, u32) prog"
  na_CometBFTTipHeight :: "('w, int) prog"
  na_DelegationsModifiedInBlock :: "int \<Rightarrow> string list \<Rightarrow> ('w, string list) prog"
  na_BTCDelegation :: "string \<Rightarrow> ('w, delegation) prog"

definition babylonClientAdapter :: "('w, 'spv, 'inc) bbnClient \<Rightarrow> ('w, 'spv, 'inc) nodeAdapter" where
  "babylonClientAdapter c = \<lparr>na_DelegationsByStatus = bca_DelegationsByStatus c,
     na_IsDelegationActive = bca_IsDelegationActive c, na_IsDelegationVerified = bca_IsDelegationVerified c,
     na_ReportUnbonding = bca_ReportUnbonding c, na_BtcClientTipHeight = bca_BtcClientTipHeight c,
     na_ActivateDelegation = bca_ActivateDelegation c, na_QueryHeaderDepth = bca_QueryHeaderDepth c,
     na_Params = bca_Params c, na_CometBFTTipHeight = bca_CometBFTTipHeight c,
     na_DelegationsModifiedInBlock = bca_DelegationsModifiedInBlock c, na_BTCDelegation = bca_BTCDelegation c\<rparr>"

subsection \<open>What a block's events mention\<close>

definition mentions :: "string list \<Rightarrow> abciEvent list \<Rightarrow> string list" where
  "mentions types es = concat (map (\<lambda>e. [dropQuotes v. (key, v) \<leftarrow> ev_Attributes e, key = stakingTxHashKey])
     (filter (\<lambda>e. ev_Type e \<in> set types) es))"

lemma attrHashes_eq: "attrHashes as acc = acc @ [dropQuotes v. (key, v) \<leftarrow> as, key = stakingTxHashKey]"
  by (induction as acc rule: attrHashes.induct) auto

lemma eventHashes_eq: "eventHashes types es acc = acc @ mentions types es"
  by (induction types es acc rule: eventHashes.induct) (auto simp: mentions_def attrHashes_eq)

lemma txHashes_eq: "txHashes types ts acc = acc @ mentions types (concat ts)"
  by (induction types ts acc rule: txHashes.induct) (auto simp: eventHashes_eq mentions_def)

lemma DelegationsModified_mentions:
  assumes "bc_BlockResults c height w = (Ok res, w')"
  shows "bca_DelegationsModifiedInBlock c height types w =
    (Ok (mentions types (concat (res_TxsResults res) @ res_FinalizeBlockEvents res)), w')"
  using assms by (simp add: bca_DelegationsModifiedInBlock_def bindG_def wrapG_def retG_def txHashes_eq eventHashes_eq mentions_def)

lemma parseDelegations_length: "parseDelegations c rs = Ok ds \<Longrightarrow> length ds = length rs"
  by (induction rs arbitrary: ds) (auto split: outcome.splits)

end
