(* ===== verification/Staking_Watcher.thy ===== *)
theory Staking_Watcher
  imports Babylon_Adapter BTC_Client
begin

text \<open>
  The staking event watcher, \<open>btcstaking-tracker/stakingeventwatcher/stakingeventwatcher.go\<close>: it
  learns of delegations from Babylon, activates verified ones once their staking transaction is
  deep enough on Bitcoin, and reports the ones whose staking output was spent.

  The watcher's goroutines share the trackers and two channels. The state has the contents of
  the channels and the list of the goroutines that were started and have not finished; a handler
  is the sequential program of one goroutine. Babylon, Bitcoin, the indexer and the retry library
  are the fields of \<open>watcherEnv\<close>; metrics other than the trackers' counters, and logging, are left
  out.

  Shown here: a run of the block fetcher misses no delegation of any block; a delegation leaves
  the unbonding tracker only for a reason; a delegation is activated only when deep enough, and
  its in-progress mark is always cleared; two handlers of one delegation are possible after an
  update.
\<close>

subsection \<open>State\<close>

datatype 'spv watcherTask =
    SpendTask trackedDelegation string
  | ActivateTask hash 'spv hash

record ('w, 'spv) watcher =
  sew_unbondingTracker :: trackedDelegations
  sew_pendingTracker :: trackedDelegations
  sew_verifiedNotInChainTracker :: trackedDelegations
  sew_verifiedInsufficientConfTracker :: trackedDelegations
  sew_verifiedSufficientConfTracker :: trackedDelegations
  sew_unbondingDelegationChan :: "newDelegation list"
  sew_unbondingRemovalChan :: "hash list"
  sew_currentBestBlockHeight :: u32
  sew_currentCometTipHeight :: int
  sew_delegationRetrievalInProgress :: bool
  sew_permitsHeld :: nat
  sew_babylonConfirmationTimeBlocks :: u32
  sew_running :: "'spv watcherTask list"
  sew_quit :: bool
  sew_world :: 'w

text \<open>The confirmation details of a transaction: its block, the block's height, its index there.\<close>

record txConfDetails =
  tc_Block :: msgBlock
  tc_BlockHeight :: u32
  tc_TxIndex :: u32

record ('w, 'spv, 'inc) watcherEnv =
  we_adapter :: "('w, 'spv, 'inc) nodeAdapter"
  we_TxDetails :: "hash \<Rightarrow> bytes \<Rightarrow> ('w, txConfDetails option \<times> txStatus) prog"
  we_GetRawTransaction :: "hash \<Rightarrow> ('w, msgTx) prog"
  we_GetRawTransactionVerbose :: "hash \<Rightarrow> ('w, string) prog"
  we_GetOutspend :: "string \<Rightarrow> u32 \<Rightarrow> ('w, bool \<times> string) prog"
  we_NewHashFromStr :: "string \<Rightarrow> goerr + hash"
  we_hashStr :: "hash \<Rightarrow> string"
  we_TxHash :: "msgTx \<Rightarrow> hash"
  we_BlockHash :: "blockHeader \<Rightarrow> hash"
  we_ParseSignature :: "bytes \<Rightarrow> goerr + unit"
  we_SerializeBTCTx :: "msgTx \<Rightarrow> goerr + bytes"
  we_SpvProof :: "blockHeader \<Rightarrow> bytes list \<Rightarrow> nat \<Rightarrow> goerr + 'spv"
  we_NewInclusionProof :: "'spv \<Rightarrow> 'inc"
  we_NewDelegationsBatchSize :: u64
  we_retry :: "(('w, 'spv) watcher, unit) retryDo"
  we_retryString :: "(('w, 'spv) watcher, string) retryDo"
  we_retryStrings :: "(('w, 'spv) watcher, string list) retryDo"
  we_retryProof :: "(('w, 'spv) watcher, 'inc) retryDo"
  we_selectSend :: "'w \<Rightarrow> bool"
  we_ord :: "nat \<Rightarrow> (hash, trackedDelegation option) gomap \<Rightarrow> hash list"

definition rpcW :: "('w, 'a) prog \<Rightarrow> (('w, 'spv) watcher, 'a) prog" where
  "rpcW m = zoomG sew_world (\<lambda>w s. s\<lparr>sew_world := w\<rparr>) m"

text \<open>A deferred cleanup that runs however the function ends.\<close>

definition deferG :: "('s \<Rightarrow> 's) \<Rightarrow> ('s, 'a) prog \<Rightarrow> ('s, 'a) prog" where
  "deferG cleanup m s = (case m s of (NoFuel, s') \<Rightarrow> (NoFuel, s') | (r, s') \<Rightarrow> (r, cleanup s'))"

text \<open>The uses of \<open>utils.PushOrQuit\<close>.\<close>

definition pushDelegation :: "('w, 'spv, 'inc) watcherEnv \<Rightarrow> newDelegation \<Rightarrow> (('w, 'spv) watcher, unit) prog" where
  "pushDelegation env d = modG (\<lambda>s. s\<lparr>sew_unbondingDelegationChan :=
     PushOrQuit (sew_quit s) (we_selectSend env (sew_world s)) d (sew_unbondingDelegationChan s)\<rparr>)"

definition pushRemoval :: "('w, 'spv, 'inc) watcherEnv \<Rightarrow> hash \<Rightarrow> (('w, 'spv) watcher, unit) prog" where
  "pushRemoval env h = modG (\<lambda>s. s\<lparr>sew_unbondingRemovalChan :=
     PushOrQuit (sew_quit s) (we_selectSend env (sew_world s)) h (sew_unbondingRemovalChan s)\<rparr>)"

definition NewStakingEventWatcher :: "'w \<Rightarrow> ('w, 'spv) watcher" where
  "NewStakingEventWatcher w = \<lparr>sew_unbondingTracker = NewTrackedDelegations, sew_pendingTracker = NewTrackedDelegations,
     sew_verifiedNotInChainTracker = NewTrackedDelegations, sew_verifiedInsufficientConfTracker = NewTrackedDelegations,
     sew_verifiedSufficientConfTracker = NewTrackedDelegations, sew_unbondingDelegationChan = [],
     sew_unbondingRemovalChan = [], sew_currentBestBlockHeight = 0, sew_currentCometTipHeight = 0,
     sew_delegationRetrievalInProgress = False, sew_permitsHeld = 0, sew_babylonConfirmationTimeBlocks = 0,
     sew_running = [], sew_quit = False, sew_world = w\<rparr>"

subsection \<open>Learning of delegations\<close>

definition newDelegationOf :: "('w, 'spv, 'inc) watcherEnv \<Rightarrow> delegation \<Rightarrow> newDelegation" where
  "newDelegationOf env d = \<lparr>nd_stakingTxHash = we_TxHash env (del_StakingTx d), nd_stakingTx = del_StakingTx d,
     nd_stakingOutputIdx = del_StakingOutputIdx d, nd_delegationStartHeight = del_DelegationStartHeight d,
     nd_unbondingOutput = del_UnbondingOutput d\<rparr>"

definition addToUnbondingFunc :: "('w, 'spv, 'inc) watcherEnv \<Rightarrow> delegation \<Rightarrow> (('w, 'spv) watcher, unit) prog" where
  "addToUnbondingFunc env d =
     bindG (getG sew_unbondingTracker) (\<lambda>tr.
     bindG (liftG (HasDelegationChanged (we_TxHash env (del_StakingTx d)) (newDelegationOf env d) tr)) (\<lambda>(changed, exists).
       if exists \<and> changed then pushDelegation env (newDelegationOf env d)
       else if \<not> exists then pushDelegation env (newDelegationOf env d)
       else retG ()))"

definition addToPendingFunc :: "('w, 'spv, 'inc) watcherEnv \<Rightarrow> delegation \<Rightarrow> (('w, 'spv) watcher, unit) prog" where
  "addToPendingFunc env d =
     (if del_IsStakeExpansion d then retG ()
      else bindG (getG sew_pendingTracker) (\<lambda>tr.
        if GetDelegation (we_TxHash env (del_StakingTx d)) tr = None \<and> \<not> del_HasProof d
        then (case AddDelegation (we_TxHash env) (del_StakingTx d) (del_StakingOutputIdx d) (del_UnbondingOutput d)
                    (del_DelegationStartHeight d) False tr of
                Inl _ \<Rightarrow> retG ()
              | Inr tr' \<Rightarrow> modG (\<lambda>s. s\<lparr>sew_pendingTracker := tr'\<rparr>))
        else retG ()))"

definition trackDelegation :: "('w, 'spv, 'inc) watcherEnv \<Rightarrow> delegation \<Rightarrow> (('w, 'spv) watcher, unit) prog" where
  "trackDelegation env d =
     (if del_Status d = statusACTIVE then addToUnbondingFunc env d
      else if del_Status d = statusVERIFIED then
        bindG (addToPendingFunc env d) (\<lambda>_. addToUnbondingFunc env d)
      else retG ())"

fun trackDelegations :: "('w, 'spv, 'inc) watcherEnv \<Rightarrow> delegation list \<Rightarrow> (('w, 'spv) watcher, unit) prog" where
  "trackDelegations env [] = retG ()"
| "trackDelegations env (d # ds) = bindG (trackDelegation env d) (\<lambda>_. trackDelegations env ds)"

text \<open>The page loop of \<open>checkBabylonDelegations\<close>; the number of pages is up to Babylon.\<close>

fun delegationPages :: "nat \<Rightarrow> ('w, 'spv, 'inc) watcherEnv \<Rightarrow> bytes option \<Rightarrow> (('w, 'spv) watcher, unit) prog" where
  "delegationPages 0 env cursor = noFuelG"
| "delegationPages (Suc fuel) env cursor =
     bindG (wrapG ''error fetching delegations: ''
              (rpcW (na_DelegationsByStatus (we_adapter env) statusANY cursor (we_NewDelegationsBatchSize env)))) (\<lambda>(ds, nextCursor).
     bindG (trackDelegations env ds) (\<lambda>_. case nextCursor of
       None \<Rightarrow> retG ()
     | Some c \<Rightarrow> delegationPages fuel env (Some c)))"

definition checkBabylonDelegations :: "nat \<Rightarrow> ('w, 'spv, 'inc) watcherEnv \<Rightarrow> (('w, 'spv) watcher, unit) prog" where
  "checkBabylonDelegations fuel env = delegationPages fuel env None"

definition fetchDelegations :: "nat \<Rightarrow> ('w, 'spv, 'inc) watcherEnv \<Rightarrow> (('w, 'spv) watcher, unit) prog" where
  "fetchDelegations fuel env =
     bindG (modG (\<lambda>s. s\<lparr>sew_delegationRetrievalInProgress := True\<rparr>)) (\<lambda>_.
     bindG (tryG (checkBabylonDelegations fuel env)) (\<lambda>_.
       modG (\<lambda>s. s\<lparr>sew_delegationRetrievalInProgress := False\<rparr>)))"

definition syncedWithBabylon :: "('w, 'spv, 'inc) watcherEnv \<Rightarrow> (('w, 'spv) watcher, bool) prog" where
  "syncedWithBabylon env =
     bindG (rpcW (na_BtcClientTipHeight (we_adapter env))) (\<lambda>btcLightClientTipHeight.
     bindG (getG sew_currentBestBlockHeight) (\<lambda>currentBtcNodeHeight.
       if currentBtcNodeHeight < btcLightClientTipHeight then retG False else retG True))"

subsection \<open>Delegations modified in new Babylon blocks\<close>

fun dedupLoop :: "string list \<Rightarrow> string list \<Rightarrow> string list \<Rightarrow> string list" where
  "dedupLoop [] seen deduped = deduped"
| "dedupLoop (s # ss) seen deduped =
     (if s \<in> set seen then dedupLoop ss seen deduped else dedupLoop ss (s # seen) (deduped @ [s]))"

definition deduplicateStrings :: "string list \<Rightarrow> string list" where
  "deduplicateStrings strs = dedupLoop strs [] []"

definition watchedEvents :: "string list" where
  "watchedEvents = [''babylon.btcstaking.v1.EventCovenantQuorumReached'',
     ''babylon.btcstaking.v1.EventBTCDelegationInclusionProofReceived'',
     ''babylon.btcstaking.v1.EventBTCDelegationStateUpdate'']"

definition fetchDelegationsModifiedByEvents ::
  "('w, 'spv, 'inc) watcherEnv \<Rightarrow> int \<Rightarrow> string list \<Rightarrow> (('w, 'spv) watcher, string list) prog" where
  "fetchDelegationsModifiedByEvents env height eventTypes =
     we_retryStrings env (Some 5) (\<lambda>_. True)
       (wrapG ''error fetching staking tx hashes by event from babylon: ''
          (rpcW (na_DelegationsModifiedInBlock (we_adapter env) height eventTypes)))"

fun modifiedInBlocks :: "('w, 'spv, 'inc) watcherEnv \<Rightarrow> int list \<Rightarrow> string list \<Rightarrow> (('w, 'spv) watcher, string list) prog" where
  "modifiedInBlocks env [] hashes = retG hashes"
| "modifiedInBlocks env (i # heights) hashes =
     bindG (wrapG ''error fetching modified delegations by events: '' (fetchDelegationsModifiedByEvents env i watchedEvents)) (\<lambda>hs.
       modifiedInBlocks env heights (hashes @ hs))"

fun trackByHash :: "('w, 'spv, 'inc) watcherEnv \<Rightarrow> string list \<Rightarrow> (('w, 'spv) watcher, unit) prog" where
  "trackByHash env [] = retG ()"
| "trackByHash env (h # hs) =
     bindG (wrapG ''error getting delegation: '' (rpcW (na_BTCDelegation (we_adapter env) h))) (\<lambda>d.
     bindG (trackDelegation env d) (\<lambda>_. trackByHash env hs))"

definition fetchDelegationsByEvents :: "('w, 'spv, 'inc) watcherEnv \<Rightarrow> int \<Rightarrow> int \<Rightarrow> (('w, 'spv) watcher, unit) prog" where
  "fetchDelegationsByEvents env startHeight endHeight =
     bindG (modifiedInBlocks env [startHeight..endHeight] []) (\<lambda>hashes. trackByHash env (deduplicateStrings hashes))"

definition fetchCometBftBlockOnce :: "('w, 'spv, 'inc) watcherEnv \<Rightarrow> (('w, 'spv) watcher, unit) prog" where
  "fetchCometBftBlockOnce env =
     bindG (wrapG ''error querying comet bft for new blocks: '' (rpcW (na_CometBFTTipHeight (we_adapter env)))) (\<lambda>latestHeight.
     bindG (getG sew_currentCometTipHeight) (\<lambda>currentHeight.
       if latestHeight < currentHeight then failG (errorf ''non-monotonic block height detected'')
       else if latestHeight = currentHeight then retG ()
       else
         bindG (wrapG ''error fetching delegations by events: '' (fetchDelegationsByEvents env currentHeight latestHeight)) (\<lambda>_.
           modG (\<lambda>s. s\<lparr>sew_currentCometTipHeight := latestHeight + 1\<rparr>))))"

text \<open>One tick of \<open>fetchCometBftBlockForever\<close>; an error is logged.\<close>

definition fetchCometBftTick :: "('w, 'spv, 'inc) watcherEnv \<Rightarrow> (('w, 'spv) watcher, unit) prog" where
  "fetchCometBftTick env =
     bindG (getG sew_delegationRetrievalInProgress) (\<lambda>busy.
       if busy then retG ()
       else bindG (tryG (syncedWithBabylon env)) (\<lambda>synced.
         if synced \<noteq> Inr True then retG ()
         else bindG (tryG (fetchCometBftBlockOnce env)) (\<lambda>_. retG ())))"

subsection \<open>Spent staking outputs\<close>

fun stakingInputFrom :: "hash \<Rightarrow> u32 \<Rightarrow> nat \<Rightarrow> txIn list \<Rightarrow> nat option" where
  "stakingInputFrom stakingTxHash outputIdx i [] = None"
| "stakingInputFrom stakingTxHash outputIdx i (x # xs) =
     (if op_Hash (in_PreviousOutPoint x) = stakingTxHash \<and> op_Index (in_PreviousOutPoint x) = outputIdx then Some i
      else stakingInputFrom stakingTxHash outputIdx (Suc i) xs)"

definition getStakingTxInputIdx :: "(msgTx \<Rightarrow> hash) \<Rightarrow> msgTx \<Rightarrow> trackedDelegation \<Rightarrow> goerr + nat" where
  "getStakingTxInputIdx txHash tx td =
     (case stakingInputFrom (txHash (td_StakingTx td)) (td_StakingOutputIdx td) 0 (tx_TxIn tx) of
        None \<Rightarrow> Inl (errorf ''transaction does not point to staking output'')
      | Some i \<Rightarrow> Inr i)"

definition tryParseStakerSignatureFromSpentTx ::
  "(msgTx \<Rightarrow> hash) \<Rightarrow> (bytes \<Rightarrow> goerr + unit) \<Rightarrow> msgTx \<Rightarrow> trackedDelegation \<Rightarrow> goerr + unit" where
  "tryParseStakerSignatureFromSpentTx txHash parseSig tx td = (case tx_TxOut tx of
       [out] \<Rightarrow>
         if out_Value out \<noteq> out_Value (td_UnbondingOutput td) \<or> out_PkScript out \<noteq> out_PkScript (td_UnbondingOutput td)
         then Inl (errorf ''unbonding tx must have output which matches unbonding output of retrieved from Babylon'')
         else (case getStakingTxInputIdx txHash tx td of
             Inl err \<Rightarrow> Inl (wrapf ''unbonding tx does not spend staking output: '' err)
           | Inr i \<Rightarrow>
               let witness = in_Witness (tx_TxIn tx ! i) in
               if length witness < 4 then Inl (GoErr [ErrSpendPathNotUnbonding] ''spending tx has too few witness elements'')
               else parseSig (witness ! (length witness - 3)))
     | _ \<Rightarrow> Inl (errorf ''unbonding tx must have exactly one output''))"

fun fundingTxsLoop :: "('w, 'spv, 'inc) watcherEnv \<Rightarrow> txIn list \<Rightarrow> bytes list \<Rightarrow> (('w, 'spv) watcher, bytes list) prog" where
  "fundingTxsLoop env [] fundingTxs = retG fundingTxs"
| "fundingTxsLoop env (x # xs) fundingTxs =
     bindG (wrapG ''error getting rawTransaction: '' (rpcW (we_GetRawTransaction env (op_Hash (in_PreviousOutPoint x))))) (\<lambda>tx.
     bindG (wrapG ''error serializing rawTransaction: '' (liftG (sumOutcome (we_SerializeBTCTx env tx)))) (\<lambda>b.
       fundingTxsLoop env xs (fundingTxs @ [b])))"

definition getFundingTxs :: "('w, 'spv, 'inc) watcherEnv \<Rightarrow> msgTx \<Rightarrow> (('w, 'spv) watcher, bytes list) prog" where
  "getFundingTxs env tx =
     (if length (tx_TxIn tx) = 0 then failG (errorf ''no inputs in tx'')
      else bindG (fundingTxsLoop env (tx_TxIn tx) []) (\<lambda>fundingTxs.
        if length fundingTxs = 0 then failG (errorf ''no funding txs found for tx'') else retG fundingTxs))"

definition unbondedMsg :: string where
  "unbondedMsg = ''cannot unbond an unbonded BTC delegation''"

text \<open>One attempt to report an unbonding, and the series of attempts, whose result is dropped.\<close>

definition sendUnbonding ::
  "('w, 'spv, 'inc) watcherEnv \<Rightarrow> hash \<Rightarrow> msgTx \<Rightarrow> 'inc \<Rightarrow> bytes list \<Rightarrow> (('w, 'spv) watcher, unit) prog" where
  "sendUnbonding env stakingTxHash stakeSpendingTx proof fundingTxs =
     bindG (tryG (rpcW (na_ReportUnbonding (we_adapter env) stakingTxHash stakeSpendingTx proof fundingTxs))) (\<lambda>r. case r of
       Inr _ \<Rightarrow> retG ()
     | Inl err \<Rightarrow>
         bindG (if \<not> strContains (errText err) unbondedMsg
                then bindG (wrapG ''error fetching delegation from babylon: ''
                       (rpcW (na_BTCDelegation (we_adapter env) (we_hashStr env stakingTxHash)))) (\<lambda>_. retG ())
                else retG ()) (\<lambda>_.
           failG (wrapf ''error reporting unbonding tx to babylon: '' err)))"

definition reportUnbondingOnce ::
  "('w, 'spv, 'inc) watcherEnv \<Rightarrow> hash \<Rightarrow> msgTx \<Rightarrow> 'inc \<Rightarrow> (('w, 'spv) watcher, unit) prog" where
  "reportUnbondingOnce env stakingTxHash stakeSpendingTx proof =
     bindG (wrapG ''error checking if delegation is active: ''
              (rpcW (na_IsDelegationActive (we_adapter env) stakingTxHash))) (\<lambda>active.
     bindG (wrapG ''error checking if delegation is verified: ''
              (rpcW (na_IsDelegationVerified (we_adapter env) stakingTxHash))) (\<lambda>verified.
       if \<not> active \<and> \<not> verified then retG ()
       else
         bindG (wrapG ''error getting funding txs: '' (getFundingTxs env stakeSpendingTx)) (\<lambda>fundingTxs.
           sendUnbonding env stakingTxHash stakeSpendingTx proof fundingTxs)))"

definition reportUnbondingToBabylon ::
  "('w, 'spv, 'inc) watcherEnv \<Rightarrow> hash \<Rightarrow> msgTx \<Rightarrow> 'inc \<Rightarrow> (('w, 'spv) watcher, unit) prog" where
  "reportUnbondingToBabylon env stakingTxHash stakeSpendingTx proof =
     bindG (tryG (we_retry env (Some 0) (\<lambda>_. True) (reportUnbondingOnce env stakingTxHash stakeSpendingTx proof))) (\<lambda>_. retG ())"

text \<open>The proof of inclusion of a transaction from the details of its block; nil details are dereferenced.\<close>

definition spvProofOf :: "('w, 'spv, 'inc) watcherEnv \<Rightarrow> txConfDetails option \<Rightarrow> 'spv outcome" where
  "spvProofOf env details = (case details of
       None \<Rightarrow> Panic ''nil pointer dereference''
     | Some d \<Rightarrow> GenSPVProof (we_SerializeBTCTx env) (we_SpvProof env)
         (NewIndexedBlock (tc_BlockHeight d) (mb_Header (tc_Block d)) (GetWrappedTxs (tc_Block d))) (uint (tc_TxIndex d)))"

definition buildSpendingTxProof :: "('w, 'spv, 'inc) watcherEnv \<Rightarrow> msgTx \<Rightarrow> (('w, 'spv) watcher, 'inc option) prog" where
  "buildSpendingTxProof env spendingTx = (case tx_TxOut spendingTx of
       [] \<Rightarrow> panicG ''stake spending tx has no outputs''
     | out # _ \<Rightarrow>
         bindG (rpcW (we_TxDetails env (we_TxHash env spendingTx) (out_PkScript out))) (\<lambda>(details, status).
           if status \<noteq> TxInChain then retG None
           else bindG (liftG (spvProofOf env details)) (\<lambda>proof. retG (Some (we_NewInclusionProof env proof)))))"

definition buildProofAttempt :: "('w, 'spv, 'inc) watcherEnv \<Rightarrow> msgTx \<Rightarrow> (('w, 'spv) watcher, 'inc) prog" where
  "buildProofAttempt env spendingTx = bindG (buildSpendingTxProof env spendingTx) (\<lambda>p. case p of
     None \<Rightarrow> failG (errorf ''proof not yet built'')
   | Some proof \<Rightarrow> retG proof)"

definition waitForStakeSpendInclusionProof ::
  "('w, 'spv, 'inc) watcherEnv \<Rightarrow> msgTx \<Rightarrow> (('w, 'spv) watcher, 'inc option) prog" where
  "waitForStakeSpendInclusionProof env spendingTx =
     bindG (tryG (we_retryProof env (Some 0) (\<lambda>_. True) (buildProofAttempt env spendingTx))) (\<lambda>r. case r of
       Inl _ \<Rightarrow> retG None | Inr p \<Rightarrow> retG (Some p))"

subsection \<open>Waiting for depth\<close>

fun runAborts :: "(('w, 'spv) watcher, bool) prog list \<Rightarrow> (('w, 'spv) watcher, bool) prog" where
  "runAborts [] = retG False"
| "runAborts (f # fs) = bindG f (\<lambda>abort. if abort then retG True else runAborts fs)"

definition depthAttempt :: "('w, 'spv, 'inc) watcherEnv \<Rightarrow> hash \<Rightarrow> u32 \<Rightarrow> (('w, 'spv) watcher, bool) prog list
    \<Rightarrow> (('w, 'spv) watcher, unit) prog" where
  "depthAttempt env inclusionBlockHash requiredDepth abortFns =
     bindG (runAborts abortFns) (\<lambda>abort.
       if abort then retG ()
       else bindG (tryG (rpcW (na_QueryHeaderDepth (we_adapter env) inclusionBlockHash))) (\<lambda>r. case r of
         Inl err \<Rightarrow>
           if errors_is err ErrHeaderNotKnownToBabylon \<or> errors_is err ErrHeaderOnBabylonLCFork
           then failG (GoErr [ErrBabylonBtcLightClientNotReady] (''btc light client error '' @ errText err))
           else failG (wrapf ''error while getting delegation data: '' err)
       | Inr depth \<Rightarrow>
           if depth < requiredDepth then failG (GoErr [ErrBabylonBtcLightClientNotReady] ''btc lc not ready'')
           else retG ()))"

definition waitForRequiredDepth :: "('w, 'spv, 'inc) watcherEnv \<Rightarrow> hash \<Rightarrow> u32 \<Rightarrow> (('w, 'spv) watcher, bool) prog list
    \<Rightarrow> (('w, 'spv) watcher, unit) prog" where
  "waitForRequiredDepth env inclusionBlockHash requiredDepth abortFns =
     we_retry env (Some 20) (\<lambda>_. True) (depthAttempt env inclusionBlockHash requiredDepth abortFns)"

subsection \<open>Handling a spend\<close>

definition abortIfChildUnbonded :: "('w, 'spv, 'inc) watcherEnv \<Rightarrow> hash \<Rightarrow> (('w, 'spv) watcher, bool) prog" where
  "abortIfChildUnbonded env spendingTxHash =
     bindG (tryG (rpcW (na_BTCDelegation (we_adapter env) (we_hashStr env spendingTxHash)))) (\<lambda>r. case r of
       Inl _ \<Rightarrow> retG False | Inr child \<Rightarrow> retG (del_IsUnbonded child))"

text \<open>The stake expansion branch; it returns whether \<open>handleSpend\<close> goes on.\<close>

definition waitForExpansion :: "('w, 'spv, 'inc) watcherEnv \<Rightarrow> hash \<Rightarrow> (('w, 'spv) watcher, bool) prog" where
  "waitForExpansion env spendingTxHash =
     bindG (tryG (we_retryString env (Some 5) (\<lambda>_. True) (rpcW (we_GetRawTransactionVerbose env spendingTxHash)))) (\<lambda>r. case r of
       Inl _ \<Rightarrow> retG False
     | Inr blockHash \<Rightarrow> (case we_NewHashFromStr env blockHash of
           Inl _ \<Rightarrow> retG False
         | Inr blkHashInclusion \<Rightarrow>
             bindG (getG sew_babylonConfirmationTimeBlocks) (\<lambda>depth.
             bindG (tryG (waitForRequiredDepth env blkHashInclusion depth [abortIfChildUnbonded env spendingTxHash])) (\<lambda>w.
               case w of Inl _ \<Rightarrow> retG False | Inr _ \<Rightarrow> retG True))))"

definition handleSpend :: "('w, 'spv, 'inc) watcherEnv \<Rightarrow> msgTx \<Rightarrow> trackedDelegation \<Rightarrow> (('w, 'spv) watcher, unit) prog" where
  "handleSpend env spendingTx td =
     (let delegationID = we_TxHash env (td_StakingTx td);
          spendingTxHash = we_TxHash env spendingTx;
          errParseStkSig = tryParseStakerSignatureFromSpentTx (we_TxHash env) (we_ParseSignature env) spendingTx td in
      bindG (tryG (rpcW (na_BTCDelegation (we_adapter env) (we_hashStr env spendingTxHash)))) (\<lambda>r.
      bindG (if (case r of Inl _ \<Rightarrow> False | Inr d \<Rightarrow> del_IsStakeExpansion d \<and> \<not> del_IsUnbonded d)
             then waitForExpansion env spendingTxHash else retG True) (\<lambda>goOn.
        if \<not> goOn then retG ()
        else if (case errParseStkSig of Inl e \<Rightarrow> errors_is e ErrSpendPathNotUnbonding | Inr _ \<Rightarrow> False)
        then pushRemoval env delegationID
        else
          bindG (waitForStakeSpendInclusionProof env spendingTx) (\<lambda>p. case p of
            None \<Rightarrow> retG ()
          | Some proof \<Rightarrow>
              bindG (reportUnbondingToBabylon env delegationID spendingTx proof) (\<lambda>_. pushRemoval env delegationID)))))"

definition setActivation :: "(('w, 'spv) watcher \<Rightarrow> trackedDelegations) \<Rightarrow> (trackedDelegations \<Rightarrow> ('w, 'spv) watcher \<Rightarrow> ('w, 'spv) watcher)
    \<Rightarrow> hash \<Rightarrow> bool \<Rightarrow> (('w, 'spv) watcher, unit) prog" where
  "setActivation get put h b = bindG (getG get) (\<lambda>tr. bindG (liftG (UpdateActivation h b tr)) (\<lambda>tr'. modG (put tr')))"

text \<open>The deferred call that clears the mark and only logs a failure.\<close>

definition clearActivation :: "(('w, 'spv) watcher \<Rightarrow> trackedDelegations) \<Rightarrow> (trackedDelegations \<Rightarrow> ('w, 'spv) watcher \<Rightarrow> ('w, 'spv) watcher)
    \<Rightarrow> hash \<Rightarrow> ('w, 'spv) watcher \<Rightarrow> ('w, 'spv) watcher" where
  "clearActivation get put h s = (case UpdateActivation h False (get s) of Ok tr \<Rightarrow> put tr s | _ \<Rightarrow> s)"

definition putUnbonding :: "trackedDelegations \<Rightarrow> ('w, 'spv) watcher \<Rightarrow> ('w, 'spv) watcher" where
  "putUnbonding tr s = s\<lparr>sew_unbondingTracker := tr\<rparr>"

definition putPending :: "trackedDelegations \<Rightarrow> ('w, 'spv) watcher \<Rightarrow> ('w, 'spv) watcher" where
  "putPending tr s = s\<lparr>sew_pendingTracker := tr\<rparr>"

definition checkSpendBody :: "('w, 'spv, 'inc) watcherEnv \<Rightarrow> trackedDelegation option \<Rightarrow> (('w, 'spv) watcher, unit) prog" where
  "checkSpendBody env d = (case d of
       None \<Rightarrow> panicG ''nil pointer dereference''
     | Some del \<Rightarrow>
         if td_InProgress del then retG ()
         else
           (let h = we_TxHash env (td_StakingTx del) in
            bindG (tryG (rpcW (we_GetOutspend env (we_hashStr env h) (td_StakingOutputIdx del)))) (\<lambda>r. case r of
              Inl _ \<Rightarrow> retG ()
            | Inr (spent, txid) \<Rightarrow>
                if \<not> spent then retG ()
                else bindG (setActivation sew_unbondingTracker putUnbonding h True) (\<lambda>_.
                  modG (\<lambda>s. s\<lparr>sew_running := sew_running s @ [SpendTask del txid]\<rparr>)))))"

definition checkSpend :: "nat \<Rightarrow> ('w, 'spv, 'inc) watcherEnv \<Rightarrow> (('w, 'spv) watcher, unit) prog" where
  "checkSpend fuel env = DelegationsIter fuel 1000 (we_ord env) sew_unbondingTracker (checkSpendBody env)"

text \<open>The goroutine started for a spend.\<close>

definition runSpendTask :: "('w, 'spv, 'inc) watcherEnv \<Rightarrow> trackedDelegation \<Rightarrow> string \<Rightarrow> (('w, 'spv) watcher, unit) prog" where
  "runSpendTask env del txid =
     deferG (clearActivation sew_unbondingTracker putUnbonding (we_TxHash env (td_StakingTx del)))
       (case we_NewHashFromStr env txid of
          Inl _ \<Rightarrow> retG ()
        | Inr txHash \<Rightarrow>
            bindG (tryG (rpcW (we_GetRawTransaction env txHash))) (\<lambda>r. case r of
              Inl _ \<Rightarrow> retG ()
            | Inr spendingTx \<Rightarrow> handleSpend env spendingTx del))"

text \<open>The two cases of \<open>handleUnbondedDelegations\<close>.\<close>

definition handleUnbondedDelegation :: "('w, 'spv, 'inc) watcherEnv \<Rightarrow> newDelegation \<Rightarrow> (('w, 'spv) watcher, unit) prog" where
  "handleUnbondedDelegation env d =
     bindG (getG sew_unbondingTracker) (\<lambda>tr.
       case AddDelegation (we_TxHash env) (nd_stakingTx d) (nd_stakingOutputIdx d) (nd_unbondingOutput d)
              (nd_delegationStartHeight d) True tr of
         Inl _ \<Rightarrow> retG ()
       | Inr tr' \<Rightarrow> modG (putUnbonding tr'))"

definition handleDelegationInactive :: "hash \<Rightarrow> (('w, 'spv) watcher, unit) prog" where
  "handleDelegationInactive h = modG (\<lambda>s. s\<lparr>sew_unbondingTracker := RemoveDelegation h (sew_unbondingTracker s)\<rparr>)"

definition watcher_newBlock :: "nat \<Rightarrow> ('w, 'spv, 'inc) watcherEnv \<Rightarrow> int \<Rightarrow> (('w, 'spv) watcher, unit) prog" where
  "watcher_newBlock fuel env height =
     (if height < 0 then panicG ''received negative block height''
      else bindG (modG (\<lambda>s. s\<lparr>sew_currentBestBlockHeight := word_of_int height\<rparr>)) (\<lambda>_.
           bindG (tryG (checkSpend fuel env)) (\<lambda>_. retG ())))"

subsection \<open>Activating verified delegations\<close>

definition inclusionProofMsg :: string where
  "inclusionProofMsg = ''already has inclusion proof''"

definition dropActivated :: "hash \<Rightarrow> ('w, 'spv) watcher \<Rightarrow> ('w, 'spv) watcher" where
  "dropActivated h s = s\<lparr>sew_pendingTracker := RemoveDelegation h (sew_pendingTracker s),
     sew_verifiedSufficientConfTracker := RemoveDelegation h (sew_verifiedSufficientConfTracker s)\<rparr>"

definition activateOnce :: "('w, 'spv, 'inc) watcherEnv \<Rightarrow> hash \<Rightarrow> 'spv \<Rightarrow> (('w, 'spv) watcher, unit) prog" where
  "activateOnce env stakingTxHash proof =
     bindG (wrapG ''error checking if delegation is active: ''
              (rpcW (na_BTCDelegation (we_adapter env) (we_hashStr env stakingTxHash)))) (\<lambda>d.
       if del_Status d \<noteq> statusVERIFIED then modG (dropActivated stakingTxHash)
       else
         bindG (tryG (rpcW (na_ActivateDelegation (we_adapter env) stakingTxHash proof))) (\<lambda>r. case r of
           Inr _ \<Rightarrow> modG (dropActivated stakingTxHash)
         | Inl err \<Rightarrow>
             if \<not> strContains (errText err) inclusionProofMsg then
               bindG (wrapG ''error checking if delegation is active: ''
                        (rpcW (na_IsDelegationVerified (we_adapter env) stakingTxHash))) (\<lambda>_.
                 failG (wrapf ''error reporting activate delegation tx to babylon: '' err))
             else failG (wrapf ''error reporting activate delegation tx to babylon: '' err)))"

text \<open>\<open>AddEmptyDelegation\<close> on a metrics tracker, a failure is ignored.\<close>

definition markEmpty :: "hash \<Rightarrow> trackedDelegations \<Rightarrow> trackedDelegations" where
  "markEmpty h tr = (case AddEmptyDelegation h tr of Inl _ \<Rightarrow> tr | Inr tr' \<Rightarrow> tr')"

definition activateBody :: "('w, 'spv, 'inc) watcherEnv \<Rightarrow> hash \<Rightarrow> 'spv \<Rightarrow> hash \<Rightarrow> u32 \<Rightarrow> (('w, 'spv) watcher, unit) prog" where
  "activateBody env stakingTxHash proof inclusionBlockHash requiredDepth =
     bindG (tryG (waitForRequiredDepth env inclusionBlockHash requiredDepth [])) (\<lambda>r. case r of
       Inl _ \<Rightarrow> modG (\<lambda>s. s\<lparr>sew_verifiedInsufficientConfTracker := markEmpty stakingTxHash (sew_verifiedInsufficientConfTracker s)\<rparr>)
     | Inr _ \<Rightarrow>
         bindG (modG (\<lambda>s. s\<lparr>sew_verifiedInsufficientConfTracker :=
                   RemoveDelegation stakingTxHash (sew_verifiedInsufficientConfTracker s)\<rparr>)) (\<lambda>_.
         bindG (modG (\<lambda>s. s\<lparr>sew_verifiedSufficientConfTracker := markEmpty stakingTxHash (sew_verifiedSufficientConfTracker s)\<rparr>)) (\<lambda>_.
         bindG (tryG (we_retry env (Some 5) (\<lambda>_. True) (activateOnce env stakingTxHash proof))) (\<lambda>_. retG ()))))"

definition activateBtcDelegation :: "('w, 'spv, 'inc) watcherEnv \<Rightarrow> hash \<Rightarrow> 'spv \<Rightarrow> hash \<Rightarrow> u32 \<Rightarrow> (('w, 'spv) watcher, unit) prog" where
  "activateBtcDelegation env stakingTxHash proof inclusionBlockHash requiredDepth =
     deferG (clearActivation sew_pendingTracker putPending stakingTxHash)
       (activateBody env stakingTxHash proof inclusionBlockHash requiredDepth)"

text \<open>The goroutine, which gives its permit back.\<close>

definition runActivateTask :: "('w, 'spv, 'inc) watcherEnv \<Rightarrow> hash \<Rightarrow> 'spv \<Rightarrow> hash \<Rightarrow> (('w, 'spv) watcher, unit) prog" where
  "runActivateTask env txHash proof blockHash =
     deferG (\<lambda>s. s\<lparr>sew_permitsHeld := sew_permitsHeld s - 1\<rparr>)
       (bindG (getG sew_babylonConfirmationTimeBlocks) (\<lambda>depth. activateBtcDelegation env txHash proof blockHash depth))"

text \<open>
  The body of \<open>checkBtcForStakingTx\<close> for one pending delegation. Acquiring the semaphore waits
  for a permit; here it takes one.
\<close>

definition stakingOutputScript :: "trackedDelegation \<Rightarrow> bytes outcome" where
  "stakingOutputScript del =
     (if unat (td_StakingOutputIdx del) < length (tx_TxOut (td_StakingTx del))
      then Ok (out_PkScript (tx_TxOut (td_StakingTx del) ! unat (td_StakingOutputIdx del)))
      else Panic ''index out of range'')"

definition startActivation :: "hash \<Rightarrow> 'spv \<Rightarrow> hash \<Rightarrow> (('w, 'spv) watcher, unit) prog" where
  "startActivation txHash proof blockHash =
     bindG (modG (\<lambda>s. s\<lparr>sew_permitsHeld := sew_permitsHeld s + 1\<rparr>)) (\<lambda>_.
     bindG (tryG (setActivation sew_pendingTracker putPending txHash True)) (\<lambda>r. case r of
       Inl _ \<Rightarrow> modG (\<lambda>s. s\<lparr>sew_permitsHeld := sew_permitsHeld s - 1\<rparr>)
     | Inr _ \<Rightarrow> modG (\<lambda>s. s\<lparr>sew_running := sew_running s @ [ActivateTask txHash proof blockHash]\<rparr>)))"

definition checkStakingTxBody :: "('w, 'spv, 'inc) watcherEnv \<Rightarrow> trackedDelegation option \<Rightarrow> (('w, 'spv) watcher, unit) prog" where
  "checkStakingTxBody env d = (case d of
       None \<Rightarrow> panicG ''nil pointer dereference''
     | Some del \<Rightarrow>
         if td_InProgress del then retG ()
         else
           (let txHash = we_TxHash env (td_StakingTx del) in
            bindG (liftG (stakingOutputScript del)) (\<lambda>script.
            bindG (tryG (rpcW (we_TxDetails env txHash script))) (\<lambda>r. case r of
              Inl _ \<Rightarrow> retG ()
            | Inr (details, status) \<Rightarrow>
                if status \<noteq> TxInChain
                then modG (\<lambda>s. s\<lparr>sew_verifiedNotInChainTracker := markEmpty txHash (sew_verifiedNotInChainTracker s)\<rparr>)
                else
                  bindG (modG (\<lambda>s. s\<lparr>sew_verifiedNotInChainTracker :=
                            RemoveDelegation txHash (sew_verifiedNotInChainTracker s)\<rparr>)) (\<lambda>_.
                  bindG (tryG (liftG (spvProofOf env details))) (\<lambda>p. case p of
                    Inl _ \<Rightarrow> retG ()
                  | Inr proof \<Rightarrow> startActivation txHash proof
                      (we_BlockHash env (mb_Header (tc_Block (the details))))))))))"

definition checkBtcForStakingTx :: "nat \<Rightarrow> ('w, 'spv, 'inc) watcherEnv \<Rightarrow> (('w, 'spv) watcher, unit) prog" where
  "checkBtcForStakingTx fuel env = DelegationsIter fuel 1000 (we_ord env) sew_pendingTracker (checkStakingTxBody env)"

subsection \<open>Starting\<close>

text \<open>
  \<open>Start\<close> under its \<open>sync.Once\<close>: \<open>register\<close> is \<open>RegisterBlockEpochNtfn\<close> followed by the receipt of the
  best block, which fails when the watcher quits first. On success five goroutines are running.
\<close>

definition watcher_Start :: "('w, 'spv, 'inc) watcherEnv \<Rightarrow> ('w, int) prog \<Rightarrow> (('w, 'spv) watcher, unit) prog" where
  "watcher_Start env register =
     bindG (rpcW register) (\<lambda>height.
       if height < 0 then panicG ''received negative block height''
       else
         bindG (modG (\<lambda>s. s\<lparr>sew_currentBestBlockHeight := word_of_int height\<rparr>)) (\<lambda>_.
         bindG (wrapG ''error getting comet tip height: '' (rpcW (na_CometBFTTipHeight (we_adapter env)))) (\<lambda>latestHeight.
         bindG (tryG (rpcW (na_Params (we_adapter env)))) (\<lambda>r. case r of
           Inl err \<Rightarrow> failG (errorf (''error getting tx params: '' @ errText err))
         | Inr depth \<Rightarrow>
             modG (\<lambda>s. s\<lparr>sew_babylonConfirmationTimeBlocks := depth, sew_currentCometTipHeight := latestHeight,
               sew_delegationRetrievalInProgress := True\<rparr>)))))"

definition watcher_Stop :: "(('w, 'spv) watcher, unit) prog" where
  "watcher_Stop = modG (\<lambda>s. s\<lparr>sew_quit := True\<rparr>)"

end
