(* ===== verification/Watcher_Correct.thy ===== *)
theory Watcher_Correct
  imports Staking_Watcher
begin

text \<open>
  The properties of the staking event watcher: completeness of the block fetcher, the reasons for
  which a delegation leaves a tracker, the in-progress marks, and a sequence of steps after which
  two goroutines handle the same delegation.
\<close>

subsection \<open>Learning of delegations\<close>

lemma rpcW_ok: "m (sew_world s) = (Ok x, sew_world s) \<Longrightarrow> rpcW m s = (Ok x, s)"
  by (simp add: rpcW_def)

text \<open>
  A delegation is covered when it waits for activation, if it has to be activated, and when the
  unbonding tracker knows it at its start height or is about to be told.
\<close>

definition covered :: "('w, 'spv, 'inc) watcherEnv \<Rightarrow> delegation \<Rightarrow> ('w, 'spv) watcher \<Rightarrow> bool" where
  "covered env d s \<longleftrightarrow>
     (del_Status d = statusVERIFIED \<and> \<not> del_IsStakeExpansion d \<and> \<not> del_HasProof d \<longrightarrow>
        GetDelegation (we_TxHash env (del_StakingTx d)) (sew_pendingTracker s) \<noteq> None) \<and>
     (del_Status d = statusVERIFIED \<or> del_Status d = statusACTIVE \<longrightarrow>
        newDelegationOf env d \<in> set (sew_unbondingDelegationChan s) \<or>
        (\<exists>t. GetDelegation (we_TxHash env (del_StakingTx d)) (sew_unbondingTracker s) = Some (Some t)
           \<and> td_DelegationStartHeight t = del_DelegationStartHeight d))"

definition grows :: "('w, 'spv) watcher \<Rightarrow> ('w, 'spv) watcher \<Rightarrow> bool" where
  "grows s s' \<longleftrightarrow> sew_unbondingTracker s' = sew_unbondingTracker s \<and> sew_quit s' = sew_quit s \<and> sew_world s' = sew_world s
     \<and> sew_currentCometTipHeight s' = sew_currentCometTipHeight s
     \<and> set (sew_unbondingDelegationChan s) \<subseteq> set (sew_unbondingDelegationChan s')
     \<and> (\<forall>k. GetDelegation k (sew_pendingTracker s) \<noteq> None \<longrightarrow> GetDelegation k (sew_pendingTracker s') \<noteq> None)"

lemma grows_refl [simp]: "grows s s"
  by (simp add: grows_def)

lemma grows_trans [trans]: "grows s t \<Longrightarrow> grows t u \<Longrightarrow> grows s u"
  by (auto simp: grows_def)

lemma covered_grows: "covered env d s \<Longrightarrow> grows s s' \<Longrightarrow> covered env d s'"
  unfolding covered_def grows_def by auto

definition no_nil :: "trackedDelegations \<Rightarrow> bool" where
  "no_nil tr \<longleftrightarrow> (\<forall>k. GetDelegation k tr \<noteq> Some None)"

lemma addToUnbonding_run:
  assumes "no_nil (sew_unbondingTracker s)" and "\<not> sew_quit s"
  shows "addToUnbondingFunc env d s = (Ok (),
    if \<exists>t. GetDelegation (we_TxHash env (del_StakingTx d)) (sew_unbondingTracker s) = Some (Some t)
         \<and> td_DelegationStartHeight t = del_DelegationStartHeight d
    then s else s\<lparr>sew_unbondingDelegationChan := sew_unbondingDelegationChan s @ [newDelegationOf env d]\<rparr>)"
proof -
  let ?g = "GetDelegation (we_TxHash env (del_StakingTx d)) (sew_unbondingTracker s)"
  have "?g \<noteq> Some None" using assms(1) by (simp add: no_nil_def)
  then consider "?g = None" | t where "?g = Some (Some t)" by (metis not_None_eq)
  then show ?thesis
  proof cases
    case 1
    then show ?thesis using assms(2)
      by (simp add: addToUnbondingFunc_def HasDelegationChanged_def GetDelegation_def liftG_def bindG_def getG_def pushDelegation_def PushOrQuit_def modG_def)
  next
    case (2 t)
    then show ?thesis using assms(2)
      by (simp add: addToUnbondingFunc_def HasDelegationChanged_def GetDelegation_def liftG_def bindG_def getG_def pushDelegation_def PushOrQuit_def
          modG_def retG_def newDelegationOf_def)
  qed
qed

lemma AddDelegation_get:
  "AddDelegation txHash tx i out h upd td = Inr td' \<Longrightarrow>
     GetDelegation (txHash tx) td' \<noteq> None \<and> (\<forall>k. GetDelegation k td \<noteq> None \<longrightarrow> GetDelegation k td' \<noteq> None)"
  by (auto simp: AddDelegation_def GetDelegation_def Let_def update_conv' split: option.splits if_splits)

lemma addToPending_run:
  "\<exists>s'. addToPendingFunc env d s = (Ok (), s') \<and> grows s s' \<and> sew_unbondingDelegationChan s' = sew_unbondingDelegationChan s
     \<and> (\<not> del_IsStakeExpansion d \<and> \<not> del_HasProof d \<longrightarrow>
          GetDelegation (we_TxHash env (del_StakingTx d)) (sew_pendingTracker s') \<noteq> None)"
proof (cases "del_IsStakeExpansion d \<or> del_HasProof d \<or> GetDelegation (we_TxHash env (del_StakingTx d)) (sew_pendingTracker s) \<noteq> None")
  case True
  then show ?thesis by (auto simp: addToPendingFunc_def retG_def)
next
  case False
  then have none: "map_of (tds_mapping (sew_pendingTracker s)) (we_TxHash env (del_StakingTx d)) = None"
    by (simp add: GetDelegation_def)
  then obtain tr' where tr': "AddDelegation (we_TxHash env) (del_StakingTx d) (del_StakingOutputIdx d) (del_UnbondingOutput d)
      (del_DelegationStartHeight d) False (sew_pendingTracker s) = Inr tr'"
    by (simp add: AddDelegation_def)
  have "addToPendingFunc env d s = (Ok (), s\<lparr>sew_pendingTracker := tr'\<rparr>)"
    using False tr' by (simp add: addToPendingFunc_def bindG_def getG_def modG_def)
  then show ?thesis using AddDelegation_get [OF tr'] by (auto simp: grows_def)
qed

lemma trackDelegation_run:
  assumes "no_nil (sew_unbondingTracker s)" and "\<not> sew_quit s"
  shows "\<exists>s'. trackDelegation env d s = (Ok (), s') \<and> grows s s' \<and> covered env d s'"
proof -
  obtain s1 where s1: "addToPendingFunc env d s = (Ok (), s1)" "grows s s1"
    "\<not> del_IsStakeExpansion d \<and> \<not> del_HasProof d \<longrightarrow> GetDelegation (we_TxHash env (del_StakingTx d)) (sew_pendingTracker s1) \<noteq> None"
    using addToPending_run [of env d s] by blast
  have step: "\<exists>t. addToUnbondingFunc env d u = (Ok (), t) \<and> grows u t \<and> sew_pendingTracker t = sew_pendingTracker u
      \<and> (newDelegationOf env d \<in> set (sew_unbondingDelegationChan t) \<or>
        (\<exists>x. GetDelegation (we_TxHash env (del_StakingTx d)) (sew_unbondingTracker t) = Some (Some x)
           \<and> td_DelegationStartHeight x = del_DelegationStartHeight d))"
    if "grows s u" for u
  proof -
    from that assms have "no_nil (sew_unbondingTracker u)" "\<not> sew_quit u" by (simp_all add: grows_def)
    from addToUnbonding_run [OF this, of env d] show ?thesis by (auto simp: grows_def)
  qed
  show ?thesis
  proof (cases "del_Status d = statusVERIFIED")
    case True
    from step [OF s1(2)] obtain t where t: "addToUnbondingFunc env d s1 = (Ok (), t)" "grows s1 t" "sew_pendingTracker t = sew_pendingTracker s1"
      "newDelegationOf env d \<in> set (sew_unbondingDelegationChan t) \<or>
        (\<exists>x. GetDelegation (we_TxHash env (del_StakingTx d)) (sew_unbondingTracker t) = Some (Some x)
           \<and> td_DelegationStartHeight x = del_DelegationStartHeight d)" by blast
    have "trackDelegation env d s = (Ok (), t)"
      using True s1(1) t(1) by (simp add: trackDelegation_def statusVERIFIED_def statusACTIVE_def)
    moreover have "covered env d t" using s1(3) t(3,4) by (auto simp: covered_def)
    ultimately show ?thesis using grows_trans [OF s1(2) t(2)] by blast
  next
    case False
    then show ?thesis using step [of s] by (auto simp: trackDelegation_def covered_def retG_def)
  qed
qed

definition babylon_serves :: "('w, 'spv, 'inc) nodeAdapter \<Rightarrow> (int \<Rightarrow> string list) \<Rightarrow> (string \<Rightarrow> delegation) \<Rightarrow> int \<Rightarrow> 'w \<Rightarrow> bool" where
  "babylon_serves a modified lookup latest w \<longleftrightarrow> na_CometBFTTipHeight a w = (Ok latest, w)
     \<and> (\<forall>i \<le> latest. na_DelegationsModifiedInBlock a i watchedEvents w = (Ok (modified i), w))
     \<and> (\<forall>h. na_BTCDelegation a h w = (Ok (lookup h), w))"

lemma dedupLoop_set: "set seen = set out \<Longrightarrow> set (dedupLoop xs seen out) = set xs \<union> set out"
  by (induction xs seen out rule: dedupLoop.induct) auto

lemma deduplicate_distinct:
  "set seen = set out \<Longrightarrow> distinct out \<Longrightarrow> distinct (dedupLoop xs seen out)"
  by (induction xs seen out rule: dedupLoop.induct) auto

lemma deduplicateStrings_set: "set (deduplicateStrings xs) = set xs \<and> distinct (deduplicateStrings xs)"
  using dedupLoop_set [of "[]" "[]" xs] deduplicate_distinct [of "[]" "[]" xs] by (simp add: deduplicateStrings_def)

lemma modifiedInBlocks_run:
  assumes "retry_live (we_retryStrings env)" and "\<And>i. i \<in> set hs \<Longrightarrow> na_DelegationsModifiedInBlock (we_adapter env) i watchedEvents (sew_world s) = (Ok (modified i), sew_world s)"
  shows "modifiedInBlocks env hs acc s = (Ok (acc @ concat (map modified hs)), s)"
  using assms(2)
proof (induction hs arbitrary: acc)
  case (Cons i hs)
  have "fetchDelegationsModifiedByEvents env i watchedEvents s = (Ok (modified i), s)"
    unfolding fetchDelegationsModifiedByEvents_def
    by (rule retry_liveD [OF assms(1)]) (use Cons.prems in \<open>simp add: rpcW_ok\<close>)
  then show ?case using Cons by (simp add: bindG_def wrapG_def)
qed (simp add: retG_def)

lemma trackByHash_run:
  assumes "\<And>h. na_BTCDelegation (we_adapter env) h (sew_world s) = (Ok (lookup h), sew_world s)"
    and "no_nil (sew_unbondingTracker s)" and "\<not> sew_quit s"
  shows "\<exists>s'. trackByHash env hs s = (Ok (), s') \<and> grows s s' \<and> (\<forall>h \<in> set hs. covered env (lookup h) s')"
  using assms
proof (induction hs arbitrary: s)
  case (Cons h hs)
  obtain s1 where s1: "trackDelegation env (lookup h) s = (Ok (), s1)" "grows s s1" "covered env (lookup h) s1"
    using trackDelegation_run [OF Cons.prems(2,3)] by blast
  have "sew_world s1 = sew_world s" "sew_unbondingTracker s1 = sew_unbondingTracker s" "sew_quit s1 = sew_quit s"
    using s1(2) by (simp_all add: grows_def)
  then obtain s2 where s2: "trackByHash env hs s1 = (Ok (), s2)" "grows s1 s2" "\<forall>h \<in> set hs. covered env (lookup h) s2"
    using Cons.IH [of s1] Cons.prems by auto
  have "wrapG msg (rpcW (na_BTCDelegation (we_adapter env) h)) s = (Ok (lookup h), s)" for msg
    using Cons.prems(1) by (simp add: rpcW_ok)
  then have "trackByHash env (h # hs) s = (Ok (), s2)" using s1(1) s2(1) by simp
  then show ?case using grows_trans [OF s1(2) s2(2)] covered_grows [OF s1(3) s2(2)] s2(3) by auto
qed (simp add: retG_def)


subsection \<open>Why a delegation is no longer watched\<close>

definition world_frame :: "(('w, 'spv) watcher \<Rightarrow> bool) \<Rightarrow> bool" where
  "world_frame I \<longleftrightarrow> (\<forall>s w. I s \<longrightarrow> I (s\<lparr>sew_world := w\<rparr>))"

lemma keeps_rpcW: "world_frame I \<Longrightarrow> keeps I (rpcW m)"
  unfolding rpcW_def by (rule keeps_zoomG) (simp add: world_frame_def)

text \<open>The contracts of all the retried calls; the endless series only fails when the watcher quits.\<close>

definition watcher_retries :: "('w, 'spv, 'inc) watcherEnv \<Rightarrow> bool" where
  "watcher_retries env \<longleftrightarrow> retry_ctx_contract (we_retry env) \<and> retry_ctx_contract (we_retryString env)
     \<and> retry_ctx_contract (we_retryProof env)
     \<and> (\<forall>p f s e s'. we_retry env (Some 0) p f s = (Err e, s') \<longrightarrow> sew_quit s')"

lemma watcher_retriesD:
  assumes "watcher_retries env"
  shows "retry_ctx_contract (we_retry env)" "retry_ctx_contract (we_retryString env)" "retry_ctx_contract (we_retryProof env)"
    "we_retry env (Some 0) p f s = (Err e, s') \<Longrightarrow> sew_quit s'"
  using assms unfolding watcher_retries_def by blast+

lemma keeps_we_retry:
  assumes "watcher_retries env"
  shows "keeps I f \<Longrightarrow> keeps I (we_retry env n p f)" "keeps I g \<Longrightarrow> keeps I (we_retryString env n p g)"
    "keeps I h \<Longrightarrow> keeps I (we_retryProof env n p h)"
  using keeps_retry [OF watcher_retriesD(1) [OF assms]] keeps_retry [OF watcher_retriesD(2) [OF assms]]
    keeps_retry [OF watcher_retriesD(3) [OF assms]] by blast+

lemma keeps_runAborts: "list_all (keeps I) fs \<Longrightarrow> keeps I (runAborts fs)"
proof (induction fs)
  case (Cons f fs)
  then have "keeps I f" "keeps I (runAborts fs)" by simp_all
  then show ?case unfolding runAborts.simps by (intro keeps_rules)
qed (simp add: keeps_prims)

lemma keeps_waitForRequiredDepth:
  assumes "watcher_retries env" and "world_frame I" and "list_all (keeps I) fs"
  shows "keeps I (waitForRequiredDepth env h d fs)"
  unfolding waitForRequiredDepth_def depthAttempt_def
  by (intro keeps_we_retry(1) keeps_rules keeps_rpcW keeps_runAborts assms)

lemma keeps_abortIfChildUnbonded: "world_frame I \<Longrightarrow> keeps I (abortIfChildUnbonded env h)"
  unfolding abortIfChildUnbonded_def by (intro keeps_rules keeps_rpcW)

lemma keeps_waitForExpansion:
  assumes "watcher_retries env" and "world_frame I"
  shows "keeps I (waitForExpansion env h)"
proof -
  have "list_all (keeps I) [abortIfChildUnbonded env h]" using keeps_abortIfChildUnbonded [OF assms(2)] by simp
  then show ?thesis unfolding waitForExpansion_def
    by (intro keeps_rules keeps_waitForRequiredDepth keeps_we_retry(2) keeps_rpcW assms)
qed

lemma keeps_buildProofAttempt: "world_frame I \<Longrightarrow> keeps I (buildProofAttempt env tx)"
  unfolding buildProofAttempt_def buildSpendingTxProof_def by (intro keeps_rules keeps_rpcW)

lemma keeps_fundingTxsLoop: "world_frame I \<Longrightarrow> keeps I (fundingTxsLoop env xs acc)"
  by (induction env xs acc rule: fundingTxsLoop.induct) (auto intro!: keeps_rules keeps_rpcW)

lemma keeps_reportUnbondingOnce: "world_frame I \<Longrightarrow> keeps I (reportUnbondingOnce env h tx proof)"
  unfolding reportUnbondingOnce_def getFundingTxs_def sendUnbonding_def by (intro keeps_rules keeps_rpcW keeps_fundingTxsLoop)

lemma buildProofAttempt_ok:
  assumes "buildProofAttempt env tx t = (Ok inc, t')"
  shows "\<exists>script details spv w w'. we_TxDetails env (we_TxHash env tx) script w = (Ok (details, TxInChain), w')
    \<and> spvProofOf env details = Ok spv \<and> inc = we_NewInclusionProof env spv"
proof -
  from assms obtain p t1 where p: "buildSpendingTxProof env tx t = (Ok p, t1)" and c: "(case p of
     None \<Rightarrow> failG (errorf ''proof not yet built'') | Some proof \<Rightarrow> retG proof) t1 = (Ok inc, t')"
    unfolding buildProofAttempt_def by (rule bindG_Ok_E)
  then have p': "buildSpendingTxProof env tx t = (Ok (Some inc), t1)" by (cases p) (auto simp: failG_def retG_def)
  then obtain out outs where out: "tx_TxOut tx = out # outs" by (cases "tx_TxOut tx") (auto simp: buildSpendingTxProof_def panicG_def)
  obtain r w' where w: "we_TxDetails env (we_TxHash env tx) (out_PkScript out) (sew_world t) = (r, w')" by force
  show ?thesis
  proof (cases r)
    case (Ok ds)
    obtain details status where ds: "ds = (details, status)" by force
    from p' out w Ok ds have "status = TxInChain" and "\<exists>spv. spvProofOf env details = Ok spv \<and> inc = we_NewInclusionProof env spv"
      by (auto simp: buildSpendingTxProof_def rpcW_def retG_def liftG_def bindG_def zoomG_def split: if_splits outcome.splits)
    then show ?thesis using w Ok ds by blast
  qed (use p' out w in \<open>simp_all add: buildSpendingTxProof_def rpcW_def bindG_def zoomG_def\<close>)
qed

lemma rpcW_okD: "rpcW m s = (Ok x, s') \<Longrightarrow> \<exists>w'. m (sew_world s) = (Ok x, w') \<and> s' = s\<lparr>sew_world := w'\<rparr>"
  by (auto simp: rpcW_def zoomG_def split: prod.splits)

lemma sendUnbonding_ok:
  assumes "sendUnbonding env h tx proof funding t = (Ok (), t')"
  shows "\<exists>w w'. na_ReportUnbonding (we_adapter env) h tx proof funding w = (Ok (), w')"
proof -
  let ?send = "rpcW (na_ReportUnbonding (we_adapter env) h tx proof funding)"
  obtain r t1 where r: "?send t = (r, t1)" by force
  then show ?thesis
  proof (cases r)
    case (Ok u)
    then show ?thesis using rpcW_okD [of "na_ReportUnbonding (we_adapter env) h tx proof funding" t u t1] r by auto
  next
    case (Err e)
    then show ?thesis using assms r unfolding sendUnbonding_def by (auto simp: failG_def elim!: bindG_Ok_E)
  qed (use assms r in \<open>simp_all add: sendUnbonding_def bindG_def tryG_def\<close>)
qed

lemma reportUnbondingOnce_ok:
  assumes "reportUnbondingOnce env h tx proof t = (Ok (), t')"
  shows "(\<exists>w w' w''. na_IsDelegationActive (we_adapter env) h w = (Ok False, w')
        \<and> na_IsDelegationVerified (we_adapter env) h w' = (Ok False, w''))
    \<or> (\<exists>funding w w'. na_ReportUnbonding (we_adapter env) h tx proof funding w = (Ok (), w'))"
proof -
  let ?rest = "\<lambda>active verified. if \<not> active \<and> \<not> verified then retG () else
         bindG (wrapG ''error getting funding txs: '' (getFundingTxs env tx)) (sendUnbonding env h tx proof)"
  from assms obtain active t1 where a: "rpcW (na_IsDelegationActive (we_adapter env) h) t = (Ok active, t1)"
    and c1: "bindG (wrapG ''error checking if delegation is verified: '' (rpcW (na_IsDelegationVerified (we_adapter env) h)))
       (?rest active) t1 = (Ok (), t')"
    unfolding reportUnbondingOnce_def by (elim bindG_Ok_E) simp
  from c1 obtain verified t2 where v: "rpcW (na_IsDelegationVerified (we_adapter env) h) t1 = (Ok verified, t2)"
    and c2: "?rest active verified t2 = (Ok (), t')" by (elim bindG_Ok_E) simp
  show ?thesis
  proof (cases "\<not> active \<and> \<not> verified")
    case True
    then show ?thesis using rpcW_okD [OF a] rpcW_okD [OF v] by auto
  next
    case False
    with c2 have "bindG (wrapG ''error getting funding txs: '' (getFundingTxs env tx)) (sendUnbonding env h tx proof) t2 = (Ok (), t')"
      by simp
    then obtain funding t3 where "sendUnbonding env h tx proof funding t3 = (Ok (), t')" by (elim bindG_Ok_E)
    from sendUnbonding_ok [OF this] show ?thesis by auto
  qed
qed

lemma bind_changes:
  assumes "bindG m f s = (r, s')" and "keeps I m" and "I s" and "\<not> I s'"
  obtains x s1 where "m s = (Ok x, s1)" and "I s1" and "f x s1 = (r, s')"
  using assms(1)
proof (cases rule: bindG_cases)
  case (ok x s1)
  then show thesis using that keepsD [OF assms(2,3) ok(1)] by blast
next
  case (err e)
  then show thesis using keepsD [OF assms(2,3) err(1)] assms(4) by blast
next
  case (panic p)
  then show thesis using keepsD [OF assms(2,3) panic(1)] assms(4) by blast
next
  case noFuel
  then show thesis using keepsD [OF assms(2,3) noFuel(1)] assms(4) by blast
qed

text \<open>Reporting a spend: a removal means that a proof was built and that Babylon knows.\<close>

definition spendReported :: "('w, 'spv, 'inc) watcherEnv \<Rightarrow> msgTx \<Rightarrow> hash \<Rightarrow> bool" where
  "spendReported env tx h \<longleftrightarrow> (\<exists>script details spv w w'. we_TxDetails env (we_TxHash env tx) script w = (Ok (details, TxInChain), w')
      \<and> spvProofOf env details = Ok spv
      \<and> ((\<exists>w w' w''. na_IsDelegationActive (we_adapter env) h w = (Ok False, w') \<and> na_IsDelegationVerified (we_adapter env) h w' = (Ok False, w''))
       \<or> (\<exists>funding w w'. na_ReportUnbonding (we_adapter env) h tx (we_NewInclusionProof env spv) funding w = (Ok (), w'))))"

lemma report_removal_reason:
  fixes s :: "('w, 'spv) watcher"
  assumes "watcher_retries env"
    and run: "bindG (waitForStakeSpendInclusionProof env tx) (\<lambda>p. case p of
            None \<Rightarrow> retG () | Some proof \<Rightarrow> bindG (reportUnbondingToBabylon env h tx proof) (\<lambda>_. pushRemoval env h)) s = (r, s')"
    and changed: "sew_unbondingRemovalChan s' \<noteq> sew_unbondingRemovalChan s" and "\<not> sew_quit s'"
  shows "sew_unbondingRemovalChan s' = sew_unbondingRemovalChan s @ [h] \<and> spendReported env tx h"
proof -
  let ?I = "\<lambda>t :: ('w, 'spv) watcher. sew_unbondingRemovalChan t = sew_unbondingRemovalChan s"
  have fr: "world_frame ?I" by (simp add: world_frame_def)
  note retries = watcher_retriesD [OF assms(1)]
  have wait: "keeps ?I (waitForStakeSpendInclusionProof env tx)" unfolding waitForStakeSpendInclusionProof_def
    by (intro keeps_rules keeps_we_retry(3) keeps_buildProofAttempt assms(1) fr)
  obtain p s3 where p: "waitForStakeSpendInclusionProof env tx s = (Ok p, s3)" "?I s3"
    and c4: "(case p of None \<Rightarrow> retG () | Some proof \<Rightarrow> bindG (reportUnbondingToBabylon env h tx proof) (\<lambda>_. pushRemoval env h)) s3 = (r, s')"
    by (rule bind_changes [where I = ?I, OF run wait refl changed])
  then obtain inc where inc: "p = Some inc" using changed by (cases p) (auto simp: retG_def)
  then have "\<exists>u. we_retryProof env (Some 0) (\<lambda>_. True) (buildProofAttempt env tx) s = (Ok inc, u)"
    using p(1) by (auto simp: waitForStakeSpendInclusionProof_def retG_def tryG_Ok_iff elim!: bindG_Ok_E split: sum.splits)
  then obtain script details spv where details: "\<exists>w w'. we_TxDetails env (we_TxHash env tx) script w = (Ok (details, TxInChain), w')"
    "spvProofOf env details = Ok spv" "inc = we_NewInclusionProof env spv"
    using retry_ctx_ok [OF retries(3)] buildProofAttempt_ok by metis
  have report: "keeps ?I (reportUnbondingToBabylon env h tx inc)" unfolding reportUnbondingToBabylon_def
    by (intro keeps_rules keeps_we_retry(1) keeps_reportUnbondingOnce assms(1) fr)
  obtain v s4 where v: "reportUnbondingToBabylon env h tx inc s3 = (Ok v, s4)" "?I s4" and c5: "pushRemoval env h s4 = (r, s')"
    by (rule bind_changes [where I = ?I, OF c4 [unfolded inc option.case] report p(2) changed])
  have push: "\<not> sew_quit s4" "sew_unbondingRemovalChan s' = sew_unbondingRemovalChan s @ [h]"
    using c5 changed v(2) assms(4) by (auto simp: pushRemoval_def PushOrQuit_def modG_def split: if_splits)
  obtain q2 where q2: "tryG (we_retry env (Some 0) (\<lambda>_. True) (reportUnbondingOnce env h tx inc)) s3 = (Ok q2, s4)"
    using v(1) by (auto simp: reportUnbondingToBabylon_def retG_def elim!: bindG_Ok_E)
  then have "\<exists>u. we_retry env (Some 0) (\<lambda>_. True) (reportUnbondingOnce env h tx inc) s3 = (Ok u, s4)"
    using retries(4) push(1) by (cases q2) (auto simp: tryG_Ok_iff)
  then have "\<exists>t. reportUnbondingOnce env h tx inc t = (Ok (), s4)"
    using retry_ctx_ok [OF retries(1)] by fastforce
  then show ?thesis using details push(2) reportUnbondingOnce_ok [of env h tx inc] unfolding spendReported_def by blast
qed


subsection \<open>Activation\<close>

lemma clearActivation_lookup:
  "GetDelegation k (sew_pendingTracker (clearActivation sew_pendingTracker putPending h s)) =
     (case GetDelegation k (sew_pendingTracker s) of
        Some (Some d) \<Rightarrow> Some (Some (if k = h then d\<lparr>td_InProgress := False\<rparr> else d))
      | x \<Rightarrow> x)"
  by (auto simp: clearActivation_def putPending_def UpdateActivation_def GetDelegation_def update_conv' split: option.splits)

lemma depthAttempt_ok:
  assumes "depthAttempt env blk depth [] t = (Ok (), t')"
  shows "\<exists>d w w'. na_QueryHeaderDepth (we_adapter env) blk w = (Ok d, w') \<and> depth \<le> d"
proof -
  from assms obtain q t1 where q: "tryG (rpcW (na_QueryHeaderDepth (we_adapter env) blk)) t = (Ok q, t1)"
    and c: "(case q of
         Inl err \<Rightarrow>
           if errors_is err ErrHeaderNotKnownToBabylon \<or> errors_is err ErrHeaderOnBabylonLCFork
           then failG (GoErr [ErrBabylonBtcLightClientNotReady] (''btc light client error '' @ errText err))
           else failG (wrapf ''error while getting delegation data: '' err)
       | Inr d \<Rightarrow>
           if d < depth then failG (GoErr [ErrBabylonBtcLightClientNotReady] ''btc lc not ready'') else retG ()) t1 = (Ok (), t')"
    unfolding depthAttempt_def by (auto elim!: bindG_Ok_E)
  from c obtain d where d: "q = Inr d" "\<not> d < depth" by (cases q) (auto simp: failG_def split: if_splits)
  with q have "rpcW (na_QueryHeaderDepth (we_adapter env) blk) t = (Ok d, t1)" by (simp add: tryG_Ok_iff)
  from rpcW_okD [OF this] d(2) show ?thesis by (auto simp: not_less)
qed

text \<open>Why an activation drops a delegation: it is no longer verified, or Babylon took the proof.\<close>

definition activation_reason :: "('w, 'spv, 'inc) watcherEnv \<Rightarrow> hash \<Rightarrow> 'spv \<Rightarrow> bool" where
  "activation_reason env h proof \<longleftrightarrow>
     (\<exists>d w w'. na_BTCDelegation (we_adapter env) (we_hashStr env h) w = (Ok d, w') \<and> del_Status d \<noteq> statusVERIFIED)
     \<or> (\<exists>w w'. na_ActivateDelegation (we_adapter env) h proof w = (Ok (), w'))"

definition pending_kept :: "hash \<Rightarrow> bool \<Rightarrow> trackedDelegations \<Rightarrow> ('w, 'spv) watcher \<Rightarrow> bool" where
  "pending_kept h reason tr0 t \<longleftrightarrow> wf_tracked (sew_pendingTracker t)
     \<and> (\<forall>k. k \<noteq> h \<longrightarrow> GetDelegation k (sew_pendingTracker t) = GetDelegation k tr0)
     \<and> (GetDelegation h (sew_pendingTracker t) = GetDelegation h tr0 \<or> reason)"

lemma pending_kept_world: "world_frame (pending_kept h p tr)"
  by (simp add: world_frame_def pending_kept_def)

lemma keeps_dropActivated: "p \<Longrightarrow> keeps (pending_kept h p tr) (modG (dropActivated h))"
  by (rule keeps_modG)
     (simp add: pending_kept_def dropActivated_def tracked_store.ok_remove tracked_store.lookup_remove)

lemma keeps_activateOnce:
  fixes env :: "('w, 'spv, 'inc) watcherEnv"
  shows "keeps (pending_kept h (activation_reason env h proof) tr) (activateOnce env h proof)"
proof -
  let ?I = "pending_kept h (activation_reason env h proof) tr :: ('w, 'spv) watcher \<Rightarrow> bool"
  let ?p = "activation_reason env h proof"
  note fr = pending_kept_world [of h ?p tr]
  have send: "keeps ?I (bindG (tryG (rpcW (na_ActivateDelegation (we_adapter env) h proof))) (\<lambda>r. case r of
           Inr _ \<Rightarrow> modG (dropActivated h)
         | Inl err \<Rightarrow>
             if \<not> strContains (errText err) inclusionProofMsg then
               bindG (wrapG ''error checking if delegation is active: ''
                        (rpcW (na_IsDelegationVerified (we_adapter env) h))) (\<lambda>_.
                 failG (wrapf ''error reporting activate delegation tx to babylon: '' err))
             else failG (wrapf ''error reporting activate delegation tx to babylon: '' err)))"
    (is "keeps ?I (bindG ?m ?f)")
  proof (cases ?p)
    case True
    then show ?thesis by (intro keeps_rules keeps_rpcW fr keeps_dropActivated)
  next
    case False
    have "?I (snd (bindG ?m ?f s))" if I: "?I s" for s
    proof -
      obtain r s1 where r: "?m s = (r, s1)" by force
      have I1: "?I s1" by (rule keepsD [OF keeps_try [OF keeps_rpcW [OF fr]] I r])
      show ?thesis
      proof (cases r)
        case (Ok x)
        then obtain err where x: "x = Inl err"
          using r False rpcW_okD [of "na_ActivateDelegation (we_adapter env) h proof" s "()" s1]
          by (cases x) (auto simp: tryG_Ok_iff activation_reason_def)
        have "keeps ?I (?f (Inl err))" unfolding sum.case by (intro keeps_rules keeps_rpcW fr)
        then show ?thesis using r Ok x I1 by (simp add: keeps_def)
      qed (use r I1 in simp_all)
    qed
    then show ?thesis by (simp add: keeps_def)
  qed
  let ?get = "wrapG ''error checking if delegation is active: '' (rpcW (na_BTCDelegation (we_adapter env) (we_hashStr env h)))"
  have "?I (snd (activateOnce env h proof s))" if I: "?I s" for s
  proof -
    obtain r s1 where r: "?get s = (r, s1)" by force
    have I1: "?I s1" by (rule keepsD [OF keeps_wrap [OF keeps_rpcW [OF fr]] I r])
    show ?thesis
    proof (cases r)
      case (Ok d)
      have "?p" if "del_Status d \<noteq> statusVERIFIED"
        using r Ok that rpcW_okD [of "na_BTCDelegation (we_adapter env) (we_hashStr env h)" s d s1]
        by (auto simp: activation_reason_def)
      then show ?thesis using r Ok I1 send keeps_dropActivated [of ?p h tr]
        by (auto simp: activateOnce_def keeps_def)
    qed (use r I1 in \<open>simp_all add: activateOnce_def\<close>)
  qed
  then show ?thesis by (simp add: keeps_def)
qed

definition deepEnough :: "('w, 'spv, 'inc) watcherEnv \<Rightarrow> hash \<Rightarrow> u32 \<Rightarrow> bool" where
  "deepEnough env blk depth \<longleftrightarrow> (\<exists>d w w'. na_QueryHeaderDepth (we_adapter env) blk w = (Ok d, w') \<and> depth \<le> d)"

lemma wait_shallow:
  assumes "watcher_retries env" and "\<not> deepEnough env blk depth"
  shows "fst (waitForRequiredDepth env blk depth [] s) \<noteq> Ok ()"
proof
  assume "fst (waitForRequiredDepth env blk depth [] s) = Ok ()"
  then obtain t where "waitForRequiredDepth env blk depth [] s = (Ok (), t)" by (metis prod.collapse)
  then show False using retry_ctx_ok [OF watcher_retriesD(1) [OF assms(1)]] depthAttempt_ok assms(2)
    unfolding waitForRequiredDepth_def deepEnough_def by metis
qed

lemma activateBody_keeps:
  fixes s :: "('w, 'spv) watcher"
  assumes "watcher_retries env" and "activateBody env h proof blk depth s = (r1, s1)"
    and "pending_kept h (deepEnough env blk depth \<and> activation_reason env h proof) tr s"
  shows "pending_kept h (deepEnough env blk depth \<and> activation_reason env h proof) tr s1"
proof -
  let ?I = "pending_kept h (deepEnough env blk depth \<and> activation_reason env h proof) tr :: ('w, 'spv) watcher \<Rightarrow> bool"
  have fr: "world_frame ?I" by (rule pending_kept_world)
  have upd: "keeps ?I (modG (\<lambda>s. s\<lparr>sew_verifiedInsufficientConfTracker := f s\<rparr>))"
    "keeps ?I (modG (\<lambda>s. s\<lparr>sew_verifiedSufficientConfTracker := f s\<rparr>))" for f
    by (rule keeps_modG, simp add: pending_kept_def)+
  have wait: "keeps ?I (waitForRequiredDepth env blk depth [])"
    by (rule keeps_waitForRequiredDepth [OF assms(1) fr]) simp
  show ?thesis
  proof (cases "deepEnough env blk depth")
    case True
    then have once: "keeps ?I (activateOnce env h proof)" using keeps_activateOnce [of h env "proof" tr] by simp
    have series: "keeps ?I (we_retry env (Some 5) (\<lambda>_. True) (activateOnce env h proof))"
      by (rule keeps_we_retry(1) [OF assms(1) once])
    have "keeps ?I (activateBody env h proof blk depth)" unfolding activateBody_def
      by (intro keeps_bind keeps_try keeps_case(2) keeps_prims wait series upd)
    from keepsD [OF this assms(3,2)] show ?thesis .
  next
    case False
    obtain q t where q1: "tryG (waitForRequiredDepth env blk depth []) s = (q, t)" by force
    with wait_shallow [OF assms(1) False, of s] have q: "tryG (waitForRequiredDepth env blk depth []) s = (q, t)" "q \<noteq> Ok (Inr u)" for u
      by (auto simp: tryG_Ok_iff)
    have It: "?I t" by (rule keepsD [OF keeps_try [OF wait] assms(3) q(1)])
    show ?thesis
    proof (cases q)
      case (Ok x)
      then obtain e where "x = Inl e" using q(2) by (cases x) auto
      then have "s1 = t\<lparr>sew_verifiedInsufficientConfTracker := markEmpty h (sew_verifiedInsufficientConfTracker t)\<rparr>"
        using assms(2) q(1) Ok by (auto simp: activateBody_def modG_def)
      then show ?thesis using It by (simp add: pending_kept_def)
    qed (use assms(2) q It in \<open>auto simp: activateBody_def\<close>)
  qed
qed

text \<open>
  C21. However an activation ends, its delegation is no longer marked as in progress, so that it is
  tried again if it is still pending; no other pending delegation is touched; and it leaves the
  pending tracker only after Babylon's light client had its block at the required depth, and
  because Babylon accepted the inclusion proof or said that it is no longer verified.
\<close>

theorem activation_safe:
  assumes "watcher_retries env" and "wf_tracked (sew_pendingTracker s)"
    and "activateBtcDelegation env h proof blk depth s = (r, s')" and "r \<noteq> NoFuel"
  shows "(\<forall>d. GetDelegation h (sew_pendingTracker s') = Some (Some d) \<longrightarrow> \<not> td_InProgress d)
    \<and> (\<forall>k. k \<noteq> h \<longrightarrow> GetDelegation k (sew_pendingTracker s') = GetDelegation k (sew_pendingTracker s))
    \<and> (GetDelegation h (sew_pendingTracker s) \<noteq> None \<and> GetDelegation h (sew_pendingTracker s') = None \<longrightarrow>
        (\<exists>d w w'. na_QueryHeaderDepth (we_adapter env) blk w = (Ok d, w') \<and> depth \<le> d)
        \<and> activation_reason env h proof)"
proof -
  obtain r1 s1 where body: "activateBody env h proof blk depth s = (r1, s1)" by force
  have "pending_kept h (deepEnough env blk depth \<and> activation_reason env h proof) (sew_pendingTracker s) s"
    using assms(2) by (simp add: pending_kept_def)
  note kept = activateBody_keeps [OF assms(1) body this]
  have "s' = clearActivation sew_pendingTracker putPending h s1"
    using assms(3,4) body by (cases r1) (auto simp: activateBtcDelegation_def deferG_def)
  then show ?thesis using kept by (auto simp: clearActivation_lookup pending_kept_def deepEnough_def split: option.splits)
qed

subsection \<open>One handler per delegation\<close>

text \<open>
  The goroutines that work on the unbonding tracker, interleaved: the sweep of \<open>checkSpend\<close> visits
  an entry; a handler it started runs to its end; \<open>handleUnbondedDelegations\<close> receives a new or
  changed delegation, or a removal. With \<open>guarded\<close>, a delegation is not updated while a handler
  for it is running.
\<close>

definition handles :: "('w, 'spv, 'inc) watcherEnv \<Rightarrow> hash \<Rightarrow> 'spv watcherTask \<Rightarrow> bool" where
  "handles env h task = (case task of SpendTask del _ \<Rightarrow> we_TxHash env (td_StakingTx del) = h | ActivateTask _ _ _ \<Rightarrow> False)"

definition handlersOf :: "('w, 'spv, 'inc) watcherEnv \<Rightarrow> hash \<Rightarrow> ('w, 'spv) watcher \<Rightarrow> nat" where
  "handlersOf env h s = length (filter (handles env h) (sew_running s))"

inductive watcher_step :: "bool \<Rightarrow> ('w, 'spv, 'inc) watcherEnv \<Rightarrow> ('w, 'spv) watcher \<Rightarrow> ('w, 'spv) watcher \<Rightarrow> bool"
  for guarded env where
  sweep: "GetDelegation h (sew_unbondingTracker s) = Some (Some del) \<Longrightarrow> checkSpendBody env (Some del) s = (Ok (), s')
     \<Longrightarrow> watcher_step guarded env s s'"
| handled: "sew_running s = before @ SpendTask del txid # after \<Longrightarrow>
     runSpendTask env del txid (s\<lparr>sew_running := before @ after\<rparr>) = (r, s') \<Longrightarrow> r \<noteq> NoFuel \<Longrightarrow> watcher_step guarded env s s'"
| changed: "handleUnbondedDelegation env d s = (Ok (), s') \<Longrightarrow> (guarded \<longrightarrow> handlersOf env (we_TxHash env (nd_stakingTx d)) s = 0)
     \<Longrightarrow> watcher_step guarded env s s'"
| inactive: "handleDelegationInactive h s = (Ok (), s') \<Longrightarrow> watcher_step guarded env s s'"

definition watcher_reach :: "bool \<Rightarrow> ('w, 'spv, 'inc) watcherEnv \<Rightarrow> ('w, 'spv) watcher \<Rightarrow> bool" where
  "watcher_reach guarded env s \<longleftrightarrow> (\<exists>w. (watcher_step guarded env)\<^sup>*\<^sup>* (NewStakingEventWatcher w) s)"

lemma watcher_reach_start: "watcher_reach guarded env (NewStakingEventWatcher w)"
  by (auto simp: watcher_reach_def)

lemma watcher_reach_step: "watcher_reach guarded env s \<Longrightarrow> watcher_step guarded env s s' \<Longrightarrow> watcher_reach guarded env s'"
  unfolding watcher_reach_def by (blast intro: rtranclp.rtrancl_into_rtrancl)

definition handlers_inv :: "('w, 'spv, 'inc) watcherEnv \<Rightarrow> ('w, 'spv) watcher \<Rightarrow> bool" where
  "handlers_inv env s \<longleftrightarrow> (\<forall>h. handlersOf env h s \<le> 1
     \<and> (\<forall>d. GetDelegation h (sew_unbondingTracker s) = Some (Some d) \<longrightarrow>
          we_TxHash env (td_StakingTx d) = h \<and> (handlersOf env h s = 1 \<longrightarrow> td_InProgress d)))"

lemma setActivation_run:
  "GetDelegation h (sew_unbondingTracker s) = Some (Some d) \<Longrightarrow> \<exists>tr. setActivation sew_unbondingTracker putUnbonding h b s = (Ok (), s\<lparr>sew_unbondingTracker := tr\<rparr>)
     \<and> (\<forall>k. GetDelegation k tr = (if k = h then Some (Some (d\<lparr>td_InProgress := b\<rparr>)) else GetDelegation k (sew_unbondingTracker s)))"
  by (auto simp: setActivation_def GetDelegation_def UpdateActivation_def liftG_def modG_def bindG_def getG_def putUnbonding_def update_conv')

lemma clearUnbonding_lookup:
  "GetDelegation k (sew_unbondingTracker (clearActivation sew_unbondingTracker putUnbonding h s)) =
     (case GetDelegation k (sew_unbondingTracker s) of
        Some (Some d) \<Rightarrow> Some (Some (if k = h then d\<lparr>td_InProgress := False\<rparr> else d))
      | x \<Rightarrow> x)"
  "sew_running (clearActivation sew_unbondingTracker putUnbonding h s) = sew_running s"
  by (auto simp: clearActivation_def putUnbonding_def UpdateActivation_def GetDelegation_def update_conv' split: option.splits)

lemma handlers_sweep:
  assumes inv: "handlers_inv env s" and "GetDelegation h (sew_unbondingTracker s) = Some (Some del)"
    and "checkSpendBody env (Some del) s = (Ok (), s')"
  shows "handlers_inv env s'"
proof (cases "td_InProgress del")
  case True
  then show ?thesis using assms by (simp add: checkSpendBody_def retG_def)
next
  case False
  have hh: "we_TxHash env (td_StakingTx del) = h" and none: "handlersOf env h s = 0"
    using inv assms(2) False unfolding handlers_inv_def by (metis, metis le_SucE le_zero_eq One_nat_def)
  let ?q = "we_GetOutspend env (we_hashStr env h) (td_StakingOutputIdx del)"
  obtain r s1 where r: "tryG (rpcW ?q) s = (r, s1)" by force
  have s1: "handlers_inv env s1 \<and> sew_unbondingTracker s1 = sew_unbondingTracker s \<and> sew_running s1 = sew_running s"
    by (rule keepsD [OF keeps_try [OF keeps_rpcW] _ r]) (use inv in \<open>auto simp: world_frame_def handlers_inv_def handlersOf_def\<close>)
  then have d1: "GetDelegation h (sew_unbondingTracker s1) = Some (Some del)" using assms(2) by simp
  obtain tr where tr: "setActivation sew_unbondingTracker putUnbonding h True s1 = (Ok (), s1\<lparr>sew_unbondingTracker := tr\<rparr>)"
    "\<And>k. GetDelegation k tr = (if k = h then Some (Some (del\<lparr>td_InProgress := True\<rparr>)) else GetDelegation k (sew_unbondingTracker s1))"
    using setActivation_run [OF d1, of True] by auto
  show ?thesis
  proof (cases r)
    case (Ok x)
    have "s' = s1 \<or> (\<exists>txid. s' = s1\<lparr>sew_unbondingTracker := tr, sew_running := sew_running s1 @ [SpendTask del txid]\<rparr>)"
      using assms(3) False r Ok tr(1) by (auto simp: checkSpendBody_def Let_def hh retG_def modG_def split: sum.splits if_splits)
    then show ?thesis
    proof
      assume "\<exists>txid. s' = s1\<lparr>sew_unbondingTracker := tr, sew_running := sew_running s1 @ [SpendTask del txid]\<rparr>"
      then have "handlersOf env k s' = handlersOf env k s + (if k = h then 1 else 0)" and
        "GetDelegation k (sew_unbondingTracker s') = (if k = h then Some (Some (del\<lparr>td_InProgress := True\<rparr>)) else GetDelegation k (sew_unbondingTracker s))" for k
        using tr(2) s1 hh by (auto simp: handlersOf_def handles_def)
      then show ?thesis using inv none hh by (auto simp: handlers_inv_def)
    qed (use s1 in simp)
  qed (use assms(3) False r in \<open>simp_all add: checkSpendBody_def Let_def hh\<close>)
qed

lemma handlers_done:
  assumes inv: "handlers_inv env s" and retries: "watcher_retries env" and run: "sew_running s = before @ SpendTask del txid # after"
    and "runSpendTask env del txid (s\<lparr>sew_running := before @ after\<rparr>) = (r, s')" and "r \<noteq> NoFuel"
  shows "handlers_inv env s'"
proof -
  let ?h = "we_TxHash env (td_StakingTx del)"
  let ?s0 = "s\<lparr>sew_running := before @ after\<rparr>"
  let ?I = "\<lambda>t :: ('a, 'b) watcher. sew_unbondingTracker t = sew_unbondingTracker s \<and> sew_running t = before @ after"
  have fr: "world_frame ?I" by (simp add: world_frame_def)
  have push: "keeps ?I (pushRemoval env h)" for h unfolding pushRemoval_def by (rule keeps_modG) simp
  have "keeps ?I (handleSpend env tx del)" for tx
    unfolding handleSpend_def Let_def waitForStakeSpendInclusionProof_def reportUnbondingToBabylon_def
    by (intro keeps_rules keeps_rpcW keeps_waitForExpansion keeps_we_retry(1,3) keeps_buildProofAttempt keeps_reportUnbondingOnce push fr retries)
  then have body: "keeps ?I (case we_NewHashFromStr env txid of
          Inl _ \<Rightarrow> retG ()
        | Inr txHash \<Rightarrow>
            bindG (tryG (rpcW (we_GetRawTransaction env txHash))) (\<lambda>r. case r of
              Inl _ \<Rightarrow> retG () | Inr spendingTx \<Rightarrow> handleSpend env spendingTx del))" (is "keeps ?I ?m")
    by (intro keeps_rules keeps_rpcW fr)
  obtain r1 s1 where m: "?m ?s0 = (r1, s1)" by force
  have I1: "?I s1" by (rule keepsD [OF body _ m]) simp
  have s': "s' = clearActivation sew_unbondingTracker putUnbonding ?h s1"
    using assms(4,5) m by (cases r1) (auto simp: runSpendTask_def deferG_def)
  have n: "handlersOf env k s = handlersOf env k s' + (if k = ?h then 1 else 0)" for k
    using I1 run by (simp add: handlersOf_def s' clearUnbonding_lookup(2) handles_def)
  show ?thesis unfolding handlers_inv_def
  proof (intro allI conjI impI)
    fix k
    have inv_k: "handlersOf env k s \<le> 1" "\<And>d. GetDelegation k (sew_unbondingTracker s) = Some (Some d) \<Longrightarrow>
        we_TxHash env (td_StakingTx d) = k \<and> (handlersOf env k s = 1 \<longrightarrow> td_InProgress d)"
      using inv by (auto simp: handlers_inv_def)
    then show "handlersOf env k s' \<le> 1" using n [of k] by simp
    fix d assume "GetDelegation k (sew_unbondingTracker s') = Some (Some d)"
    then obtain d0 where d0: "GetDelegation k (sew_unbondingTracker s) = Some (Some d0)"
      "d = (if k = ?h then d0\<lparr>td_InProgress := False\<rparr> else d0)"
      using I1 by (auto simp: s' clearUnbonding_lookup(1) split: option.splits)
    then show "we_TxHash env (td_StakingTx d) = k" using inv_k(2) by (auto split: if_splits)
    assume "handlersOf env k s' = 1"
    then show "td_InProgress d" using d0 inv_k n [of k] by (auto split: if_splits)
  qed
qed

lemma handlers_changed:
  assumes inv: "handlers_inv env s" and "handleUnbondedDelegation env d s = (Ok (), s')"
    and "handlersOf env (we_TxHash env (nd_stakingTx d)) s = 0"
  shows "handlers_inv env s'"
proof -
  let ?h = "we_TxHash env (nd_stakingTx d)"
  obtain tr new where tr: "AddDelegation (we_TxHash env) (nd_stakingTx d) (nd_stakingOutputIdx d) (nd_unbondingOutput d)
      (nd_delegationStartHeight d) True (sew_unbondingTracker s) = Inr tr"
    "\<And>k. GetDelegation k tr = (if k = ?h then Some (Some new) else GetDelegation k (sew_unbondingTracker s))"
    "td_StakingTx new = nd_stakingTx d"
    by (cases "map_of (tds_mapping (sew_unbondingTracker s)) ?h")
       (force simp: AddDelegation_def GetDelegation_def update_conv' Let_def)+
  then have "s' = putUnbonding tr s" using assms(2) by (simp add: handleUnbondedDelegation_def bindG_def getG_def modG_def)
  then show ?thesis using inv tr(2,3) assms(3) by (auto simp: handlers_inv_def handlersOf_def putUnbonding_def)
qed

lemma handlers_inactive: "handlers_inv env s \<Longrightarrow> handleDelegationInactive h s = (Ok (), s') \<Longrightarrow> handlers_inv env s'"
  by (auto simp: handlers_inv_def handlersOf_def handleDelegationInactive_def modG_def RemoveDelegation_def GetDelegation_def
      delete_conv' split: option.splits if_splits)

interpretation handlers_run: step_system "watcher_step True env" "\<lambda>s. watcher_retries env \<longrightarrow> handlers_inv env s" for env
proof (unfold_locales, intro impI)
  fix s s' assume step: "watcher_step True env s s'" and "watcher_retries env \<longrightarrow> handlers_inv env s" and r: "watcher_retries env"
  then have inv: "handlers_inv env s" by blast
  from step show "handlers_inv env s'"
  proof (cases rule: watcher_step.cases)
    case (sweep h del)
    then show ?thesis by (rule handlers_sweep [OF inv])
  next
    case (handled before del txid after r)
    then show ?thesis by (rule handlers_done [OF inv r])
  next
    case (changed d)
    then show ?thesis using handlers_changed [OF inv] by simp
  next
    case (inactive h)
    then show ?thesis by (rule handlers_inactive [OF inv])
  qed
qed

text \<open>
  C22. In every interleaving of the sweep, the handlers and the bookkeeping goroutine, at most one
  handler is running for a delegation and its entry, if it is still there, is marked, provided
  that no update arrives for a delegation while its handler is running.
\<close>

theorem single_handler:
  assumes "watcher_retries env" and "watcher_reach True env s"
  shows "handlersOf env h s \<le> 1
    \<and> (\<forall>d. GetDelegation h (sew_unbondingTracker s) = Some (Some d) \<and> handlersOf env h s = 1 \<longrightarrow> td_InProgress d)"
proof -
  have "handlers_inv env (NewStakingEventWatcher w)" for w
    by (simp add: handlers_inv_def handlersOf_def NewStakingEventWatcher_def GetDelegation_def NewTrackedDelegations_def)
  then have "handlers_inv env s" using assms handlers_run.run_keeps unfolding watcher_reach_def by blast
  then show ?thesis unfolding handlers_inv_def by blast
qed

subsection \<open>Concrete instances\<close>

definition sampleDelegation :: "string \<Rightarrow> delegation" where
  "sampleDelegation status = \<lparr>del_StakingTx = sampleMsgTx 1, del_StakingOutputIdx = 0, del_DelegationStartHeight = 0,
     del_UnbondingOutput = \<lparr>out_Value = 5, out_PkScript = [1]\<rparr>, del_HasProof = False, del_Status = status,
     del_IsStakeExpansion = False, del_IsUnbonded = False\<rparr>"

definition sampleAdapter :: "(unit, unit, unit) nodeAdapter" where
  "sampleAdapter = \<lparr>na_DelegationsByStatus = (\<lambda>_ _ _. retG ([], None)), na_IsDelegationActive = (\<lambda>_. retG True),
     na_IsDelegationVerified = (\<lambda>_. retG True), na_ReportUnbonding = (\<lambda>_ _ _ _. retG ()), na_BtcClientTipHeight = retG 9,
     na_ActivateDelegation = (\<lambda>_ _. retG ()), na_QueryHeaderDepth = (\<lambda>_. retG 20), na_Params = retG 10,
     na_CometBFTTipHeight = retG 7, na_DelegationsModifiedInBlock = (\<lambda>i _. retG (if i = 6 then [''a''] else [])),
     na_BTCDelegation = (\<lambda>_. retG (sampleDelegation statusVERIFIED))\<rparr>"

definition sampleWatcherEnv :: "(unit, unit, unit) watcherEnv" where
  "sampleWatcherEnv = \<lparr>we_adapter = sampleAdapter,
     we_TxDetails = (\<lambda>_ _. retG (Some \<lparr>tc_Block = \<lparr>mb_Header = sampleHeader 3, mb_Transactions = [sampleMsgTx 2]\<rparr>,
       tc_BlockHeight = 3, tc_TxIndex = 0\<rparr>, TxInChain)),
     we_GetRawTransaction = (\<lambda>_. retG (sampleMsgTx 2)), we_GetRawTransactionVerbose = (\<lambda>_. retG ''x''),
     we_GetOutspend = (\<lambda>_ _. retG (True, ''x'')), we_NewHashFromStr = (\<lambda>_. Inr 2), we_hashStr = (\<lambda>_. ''h''),
     we_TxHash = sampleTxHash, we_BlockHash = sampleHash, we_ParseSignature = (\<lambda>_. Inr ()), we_SerializeBTCTx = (\<lambda>_. Inr [1]),
     we_SpvProof = (\<lambda>_ _ _. Inr ()), we_NewInclusionProof = (\<lambda>_. ()), we_NewDelegationsBatchSize = 100,
     we_retry = retrySample, we_retryString = retrySample, we_retryStrings = retrySample, we_retryProof = retrySample,
     we_selectSend = (\<lambda>_. True), we_ord = (\<lambda>_ m. remdups (map fst m))\<rparr>"

lemma sampleWatcher_retries: "watcher_retries sampleWatcherEnv"
proof -
  have "fst (retrySample (Some 0) p f s) \<noteq> Err e" for p and f :: "((unit, unit) watcher, unit) prog" and s e
    by (simp add: retrySample_def split: prod.splits outcome.splits)
  then have "\<not> retrySample (Some 0) p f s = (Err e, s')" for p and f :: "((unit, unit) watcher, unit) prog" and s e s'
    by (metis fst_conv)
  then show ?thesis by (simp add: watcher_retries_def sampleWatcherEnv_def retrySample_ctx)
qed

abbreviation sampleWatcher :: "(unit, unit) watcher" where
  "sampleWatcher \<equiv> NewStakingEventWatcher ()"


text \<open>A delegation is received, its output found spent, and its start height changed.\<close>

definition sampleNew :: "u32 \<Rightarrow> newDelegation" where
  "sampleNew h = (newDelegationOf sampleWatcherEnv (sampleDelegation statusACTIVE))\<lparr>nd_delegationStartHeight := h\<rparr>"

definition watched :: "u32 \<Rightarrow> bool \<Rightarrow> trackedDelegation" where
  "watched h b = \<lparr>td_StakingTx = sampleMsgTx 1, td_StakingOutputIdx = 0, td_UnbondingOutput = \<lparr>out_Value = 5, out_PkScript = [1]\<rparr>,
     td_DelegationStartHeight = h, td_InProgress = b\<rparr>"

definition watchedState :: "u32 \<Rightarrow> bool \<Rightarrow> u32 list \<Rightarrow> (unit, unit) watcher" where
  "watchedState h b ts = sampleWatcher\<lparr>sew_unbondingTracker := \<lparr>tds_mapping = [(1, Some (watched h b))], tds_count = 1\<rparr>,
     sew_running := map (\<lambda>t. SpendTask (watched t False) ''x'') ts\<rparr>"

lemmas sample_watcher_defs = sampleNew_def watched_def watchedState_def sampleWatcherEnv_def sampleDelegation_def
  NewStakingEventWatcher_def NewTrackedDelegations_def newDelegationOf_def sampleTxHash_def sampleMsgTx_def

lemma sample_changed:
  "handleUnbondedDelegation sampleWatcherEnv (sampleNew 0) sampleWatcher = (Ok (), watchedState 0 False [])"
  "handleUnbondedDelegation sampleWatcherEnv (sampleNew 7) (watchedState 0 True ts) = (Ok (), watchedState 7 False ts)"
  by (simp_all add: sample_watcher_defs handleUnbondedDelegation_def AddDelegation_def putUnbonding_def bindG_def getG_def modG_def)

lemma sample_sweep:
  "checkSpendBody sampleWatcherEnv (Some (watched h False)) (watchedState h False ts) = (Ok (), watchedState h True (ts @ [h]))"
  by (simp add: sample_watcher_defs checkSpendBody_def rpcW_def zoomG_def tryG_def setActivation_def UpdateActivation_def
      putUnbonding_def bindG_def getG_def modG_def liftG_def retG_def)

lemma sample_lookup: "GetDelegation 1 (sew_unbondingTracker (watchedState h b ts)) = Some (Some (watched h b))"
  by (simp add: watchedState_def GetDelegation_def)

lemma sample_handlers: "handlersOf sampleWatcherEnv 1 (watchedState h b ts) = length ts"
  by (simp add: handlersOf_def handles_def sample_watcher_defs comp_def)

lemma sample_reach: "watcher_reach g sampleWatcherEnv (watchedState 0 True [0])"
proof -
  have "watcher_reach g sampleWatcherEnv (watchedState 0 False [])"
    by (rule watcher_reach_step [OF watcher_reach_start watcher_step.changed [OF sample_changed(1)]])
       (simp add: handlersOf_def NewStakingEventWatcher_def)
  from watcher_reach_step [OF this watcher_step.sweep [OF sample_lookup sample_sweep]] show ?thesis by simp
qed

theorem single_handler_witness:
  "handlersOf sampleWatcherEnv 1 (watchedState 0 True [0]) = 1 \<and> td_InProgress (watched 0 True)"
  using single_handler [OF sampleWatcher_retries sample_reach, of 1] by (simp add: sample_handlers sample_lookup)

text \<open>
  Without the proviso: an update that arrives while the handler is running clears the mark, because
  \<open>AddDelegation\<close> replaces the entry, and the next sweep starts a second handler.
\<close>

lemma two_handlers: "\<exists>s. watcher_reach False sampleWatcherEnv s \<and> handlersOf sampleWatcherEnv 1 s = 2"
proof -
  have "watcher_reach False sampleWatcherEnv (watchedState 7 False [0])"
    by (rule watcher_reach_step [OF sample_reach watcher_step.changed [OF sample_changed(2)]]) simp
  from watcher_reach_step [OF this watcher_step.sweep [OF sample_lookup sample_sweep]]
  show ?thesis using sample_handlers by (intro exI [of _ "watchedState 7 True [0, 7]"]) simp
qed

theorem activation_safe_witness:
  "\<exists>r s'. activateBtcDelegation sampleWatcherEnv 1 () 3 10 (sampleWatcher\<lparr>sew_pendingTracker := sampleTracked [1]\<rparr>) = (r, s')
     \<and> GetDelegation 1 (sew_pendingTracker s') = None
     \<and> (\<exists>d w w'. na_QueryHeaderDepth sampleAdapter 3 w = (Ok d, w') \<and> 10 \<le> d)"
proof -
  let ?s = "sampleWatcher\<lparr>sew_pendingTracker := sampleTracked [1]\<rparr>"
  obtain r s' where run: "activateBtcDelegation sampleWatcherEnv 1 () 3 10 ?s = (r, s')" by force
  have "activateBtcDelegation sampleWatcherEnv 1 () 3 10 ?s =
      (Ok (), ?s\<lparr>sew_pendingTracker := NewTrackedDelegations\<rparr>)" by code_simp
  with run have r: "r = Ok ()" "s' = ?s\<lparr>sew_pendingTracker := NewTrackedDelegations\<rparr>" by simp_all
  have gone: "GetDelegation 1 (sew_pendingTracker s') = None" by (simp add: r GetDelegation_def NewTrackedDelegations_def)
  have wf: "wf_tracked (sew_pendingTracker ?s)" by (simp add: wf_tracked_def sampleTracked_def wf_map_def)
  have "GetDelegation 1 (sew_pendingTracker ?s) \<noteq> None" by (simp add: GetDelegation_def sampleTracked_def)
  with activation_safe [OF sampleWatcher_retries wf run] r gone
  have "\<exists>d w w'. na_QueryHeaderDepth sampleAdapter 3 w = (Ok d, w') \<and> 10 \<le> d" by (simp add: sampleWatcherEnv_def)
  with run gone show ?thesis by blast
qed

definition sampleSpend :: msgTx where
  "sampleSpend = \<lparr>tx_Version = 2, tx_TxIn = [\<lparr>in_PreviousOutPoint = \<lparr>op_Hash = 1, op_Index = 0\<rparr>, in_SignatureScript = [],
     in_Witness = [[1], [2], [3], [4]], in_Sequence = 0\<rparr>], tx_TxOut = [\<lparr>out_Value = 5, out_PkScript = [1]\<rparr>], tx_LockTime = 2\<rparr>"


end
