(* ===== verification/Pagination.thy ===== *)
theory Pagination
  imports Wire_Types
begin

text \<open>
  The page loop that the slashers share: ask for a page with the current key, handle it, stop
  when the answer names no next key. How many pages there are is up to the server, so the loop
  has fuel; against a server whose keys lead through a finite list of pages it ends with fuel
  for one more round than there are pages.
\<close>

fun pageLoop :: "nat \<Rightarrow> (bytes option \<Rightarrow> ('s, 'p \<times> bytes option) prog) \<Rightarrow> ('p \<Rightarrow> ('s, unit) prog)
    \<Rightarrow> bytes option \<Rightarrow> ('s, unit) prog" where
  "pageLoop 0 request handle key = noFuelG"
| "pageLoop (Suc fuel) request handle key =
     bindG (request key) (\<lambda>(page, nextKey).
     bindG (handle page) (\<lambda>_. case nextKey of
       None \<Rightarrow> retG ()
     | Some k \<Rightarrow> pageLoop fuel request handle (Some k)))"

text \<open>The keys lead through exactly these pages, in every state that satisfies \<open>P\<close>.\<close>

fun serves_pages :: "('s \<Rightarrow> bool) \<Rightarrow> (bytes option \<Rightarrow> ('s, 'p \<times> bytes option) prog) \<Rightarrow> bytes option \<Rightarrow> 'p list \<Rightarrow> bool" where
  "serves_pages P request key [] = False"
| "serves_pages P request key [p] = (\<forall>s. P s \<longrightarrow> request key s = (Ok (p, None), s))"
| "serves_pages P request key (p # q # ps) =
     (\<exists>k. (\<forall>s. P s \<longrightarrow> request key s = (Ok (p, Some k), s)) \<and> serves_pages P request (Some k) (q # ps))"

fun forEach :: "('p \<Rightarrow> ('s, unit) prog) \<Rightarrow> 'p list \<Rightarrow> ('s, unit) prog" where
  "forEach f [] = retG ()"
| "forEach f (p # ps) = bindG (f p) (\<lambda>_. forEach f ps)"

lemma forEach_append: "forEach f (xs @ ys) = bindG (forEach f xs) (\<lambda>_. forEach f ys)"
  by (induction xs) (simp_all add: bindG_assoc)

lemma keeps_forEach: "(\<And>x. x \<in> set xs \<Longrightarrow> keeps I (f x)) \<Longrightarrow> keeps I (forEach f xs)"
  by (induction xs) (auto intro!: keeps_rules)

lemma bindG_cong_Ok:
  assumes "\<And>x s'. m s = (Ok x, s') \<Longrightarrow> f x s' = g x s'"
  shows "bindG m f s = bindG m g s"
  using assms by (auto simp: bindG_def split: prod.splits outcome.splits)

lemma pageLoop_pages:
  assumes "serves_pages P request key ps" and "length ps \<le> fuel"
    and "\<And>p. p \<in> set ps \<Longrightarrow> keeps P (handle p)" and "P s"
  shows "pageLoop fuel request handle key s = forEach handle ps s"
  using assms
proof (induction ps arbitrary: fuel key s rule: induct_list012)
  case (2 p)
  then obtain n where n: "fuel = Suc n" by (cases fuel) auto
  have req: "request key s = (Ok (p, None), s)" using 2(1,4) by simp
  show ?case unfolding n pageLoop.simps bindG_simps(1) [of "request key" s, OF req] by simp
next
  case (3 p q ps)
  then obtain n where n: "fuel = Suc n" by (cases fuel) auto
  from 3(3) obtain k where req: "\<And>s. P s \<Longrightarrow> request key s = (Ok (p, Some k), s)"
    and rest: "serves_pages P request (Some k) (q # ps)" by auto
  have "bindG (handle p) (\<lambda>_. pageLoop n request handle (Some k)) s = bindG (handle p) (\<lambda>_. forEach handle (q # ps)) s"
  proof (rule bindG_cong_Ok)
    fix x s' assume "handle p s = (Ok x, s')"
    then have "P s'" using keepsD [OF 3(5) [of p] 3(6)] by simp
    then show "pageLoop n request handle (Some k) s' = forEach handle (q # ps) s'"
      using 3(2) [OF rest] 3(4,5) n by simp
  qed
  then show ?case unfolding n pageLoop.simps bindG_simps(1) [of "request key" s, OF req [OF 3(6)]] by simp
qed simp

end
