(* ===== verification/Btc_Slasher.thy ===== *)
theory Btc_Slasher
  imports Pagination KV_Stores Retry_Wrap BTC_Client
begin

text \<open>
  The BTC slasher, \<open>btcstaking-tracker/btcslasher\<close>: it reads equivocation evidence from Babylon,
  extracts the secret key of the finality provider, and submits the slashing transaction of each
  of its delegations to Bitcoin.

  The state has the slasher's fields, the contents of its two channels, the goroutines that were
  started for single delegations and have not finished, and the outside world. Babylon, Bitcoin,
  the transaction builders and the retry library are the fields of \<open>slasherEnv\<close>. The two
  attempts on one delegation run concurrently; \<open>sl_race\<close> is the schedule, which yields what
  arrives on the channels of \<open>slashBTCDelegation\<close> and in which order.
\<close>

subsection \<open>Data\<close>

type_synonym privKey = "256 word"

record covenantAdaptorSigs =
  cas_CovPk :: bytes
  cas_AdaptorSigs :: "bytes list"

record undelegationResponse =
  ud_UnbondingTxHex :: string
  ud_SlashingTxHex :: string
  ud_DelegatorSlashingSigHex :: string
  ud_CovenantSlashingSigs :: "covenantAdaptorSigs list"

text \<open>\<open>bstypes.BTCDelegationResponse\<close>, as far as the slashers read it; \<open>None\<close> is a nil pointer.\<close>

record btcDelegationResponse =
  bdr_BtcPk :: bytes
  bdr_FpBtcPkList :: "bytes list"
  bdr_StartHeight :: u32
  bdr_EndHeight :: u32
  bdr_TotalSat :: u64
  bdr_StakingTxHex :: string
  bdr_SlashingTxHex :: string
  bdr_DelegatorSlashSigHex :: string
  bdr_CovenantSigs :: "covenantAdaptorSigs list"
  bdr_StakingOutputIdx :: u32
  bdr_Active :: bool
  bdr_StatusDesc :: string
  bdr_UnbondingTime :: u32
  bdr_UndelegationResponse :: "undelegationResponse option"
  bdr_ParamsVersion :: u32

record stakingParams =
  bsp_CovenantPks :: "bytes list"
  bsp_CovenantQuorum :: u32

record evidenceResponse =
  evd_FpBtcPkHex :: string
  evd_BlockHeight :: u64
  evd_PubRand :: bytes
  evd_CanonicalAppHash :: bytes
  evd_ForkAppHash :: bytes
  evd_CanonicalFinalitySig :: bytes
  evd_ForkFinalitySig :: bytes

text \<open>\<open>ftypes.Evidence\<close>: the same data with the parsed key.\<close>

record evidence =
  evi_FpBtcPk :: bytes
  evi_BlockHeight :: u64
  evi_PubRand :: bytes
  evi_CanonicalAppHash :: bytes
  evi_ForkAppHash :: bytes
  evi_CanonicalFinalitySig :: bytes
  evi_ForkFinalitySig :: bytes

text \<open>\<open>StakingInfoProvider\<close> has one method without arguments; a value of it is that method's answer.\<close>

type_synonym 'spend stakingInfoProvider = "goerr + 'spend"

record 'spend slashingConfig =
  sc_TxHex :: string
  sc_SlashingTxHex :: string
  sc_SlashingSigHex :: string
  sc_CovenantSigs :: "covenantAdaptorSigs list"
  sc_OutputIdx :: u32
  sc_InfoBuilder :: "'spend stakingInfoProvider outcome"

record slashResult =
  sr_Del :: btcDelegationResponse
  sr_SlashingTxHash :: "hash option"
  sr_Err :: "goerr option"

text \<open>A goroutine of \<open>SlashFinalityProvider\<close>: the key of the provider and one delegation.\<close>

record slashTask =
  st_fpBTCPK :: bytes
  st_fpBTCSK :: privKey
  st_del :: btcDelegationResponse

record ('w, 'db) btcSlasher =
  bs_btcFinalizationTimeout :: u32
  bs_height :: u64
  bs_slashedFPSKChan :: "privKey list"
  bs_slashResultChan :: "slashResult list"
  bs_recorded :: "btcDelegationResponse list"
  bs_running :: "slashTask list"
  bs_startOnce :: bool
  bs_routines :: bool
  bs_quit :: bool
  bs_db :: 'db
  bs_world :: 'w

text \<open>What \<open>slashBTCDelegation\<close> can receive while the two attempts run.\<close>

datatype raceEvent = TxHashArrives hash | ErrArrives goerr | CtxDone

record ('w, 'db, 'pub, 'spend, 'asig) slasherEnv =
  sl_BTCCheckpointParams :: "('w, u32 \<times> u32) prog"
  sl_BTCStakingParamsByVersion :: "u32 \<Rightarrow> ('w, stakingParams) prog"
  sl_FinalityProviderDelegations :: "string \<Rightarrow> bytes option \<Rightarrow> ('w, btcDelegationResponse list list \<times> bytes option) prog"
  sl_ListEvidences :: "u64 \<Rightarrow> bytes option \<Rightarrow> ('w, evidenceResponse list \<times> bytes option) prog"
  sl_GetRawTransaction :: "hash \<Rightarrow> ('w, msgTx) prog"
  sl_GetTxOut :: "hash \<Rightarrow> u32 \<Rightarrow> bool \<Rightarrow> ('w, txOut option) prog"
  sl_SendRawTransaction :: "msgTx \<Rightarrow> ('w, hash) prog"
  sl_TxDetails :: "hash \<Rightarrow> bytes \<Rightarrow> ('w, u32 option \<times> txStatus) prog"
  sl_GetBestBlock :: "('w, u32) prog"
  sl_pubKeyOf :: "privKey \<Rightarrow> bytes"
  sl_NewBIP340PubKeyFromHex :: "string \<Rightarrow> goerr + bytes"
  sl_ExtractBTCSK :: "evidence \<Rightarrow> goerr + privKey"
  sl_NewBTCSlashingTxFromHex :: "string \<Rightarrow> goerr + bytes"
  sl_MustGetTxHash :: "bytes \<Rightarrow> hash outcome"
  sl_NewBTCTxFromBytes :: "bytes \<Rightarrow> goerr + msgTx"
  sl_NewBTCTxFromHex :: "string \<Rightarrow> goerr + msgTx"
  sl_TxHash :: "msgTx \<Rightarrow> hash"
  sl_NewBTCPKsFromBIP340PKs :: "bytes list \<Rightarrow> goerr + 'pub list"
  sl_MustToBTCPK :: "bytes \<Rightarrow> 'pub outcome"
  sl_BuildStakingInfo :: "'pub \<Rightarrow> 'pub list \<Rightarrow> 'pub list \<Rightarrow> u32 \<Rightarrow> 16 word \<Rightarrow> int \<Rightarrow> goerr + 'spend stakingInfoProvider"
  sl_BuildUnbondingInfo :: "'pub \<Rightarrow> 'pub list \<Rightarrow> 'pub list \<Rightarrow> u32 \<Rightarrow> 16 word \<Rightarrow> int \<Rightarrow> goerr + 'spend stakingInfoProvider"
  sl_GetOrderedCovenantSignatures :: "nat \<Rightarrow> covenantAdaptorSigs list \<Rightarrow> stakingParams \<Rightarrow> goerr + 'asig list"
  sl_NewBIP340SignatureFromHex :: "string \<Rightarrow> goerr + bytes"
  sl_BuildWitness :: "bytes \<Rightarrow> privKey \<Rightarrow> bytes list \<Rightarrow> msgTx \<Rightarrow> u32 \<Rightarrow> bytes \<Rightarrow> 'asig list \<Rightarrow> u32 \<Rightarrow> 'spend \<Rightarrow> goerr + msgTx"
  sl_kv :: "'db kvBackend"
  sl_retryUnit :: "(('w, 'db) btcSlasher, unit) retryDo"
  sl_retryHash :: "(('w, 'db) btcSlasher, hash option) retryDo"
  sl_race :: "(bool \<Rightarrow> (('w, 'db) btcSlasher, hash) prog) \<Rightarrow> (('w, 'db) btcSlasher, raceEvent list) prog"
  sl_selectSend :: "'w \<Rightarrow> bool"
  sl_fuel :: nat

definition rpcS :: "('w, 'a) prog \<Rightarrow> (('w, 'db) btcSlasher, 'a) prog" where
  "rpcS m = zoomG bs_world (\<lambda>w s. s\<lparr>bs_world := w\<rparr>) m"

definition dbS :: "('db, 'a) prog \<Rightarrow> (('w, 'db) btcSlasher, 'a) prog" where
  "dbS m = zoomG bs_db (\<lambda>d s. s\<lparr>bs_db := d\<rparr>) m"

subsection \<open>Life cycle\<close>

definition btcslasher_New :: "('w, 'db, 'pub, 'spend, 'asig) slasherEnv \<Rightarrow> 'w \<Rightarrow> 'db \<Rightarrow> ('w, 'db) btcSlasher outcome" where
  "btcslasher_New env w db = (case NewSlasherStore (sl_kv env) db of
       (Ok _, db') \<Rightarrow> Ok \<lparr>bs_btcFinalizationTimeout = 0, bs_height = 0, bs_slashedFPSKChan = [], bs_slashResultChan = [],
         bs_recorded = [], bs_running = [], bs_startOnce = False, bs_routines = False, bs_quit = False,
         bs_db = db', bs_world = w\<rparr>
     | (Err e, _) \<Rightarrow> Err e | (Panic p, _) \<Rightarrow> Panic p | (NoFuel, _) \<Rightarrow> NoFuel)"

definition LoadParams :: "('w, 'db, 'pub, 'spend, 'asig) slasherEnv \<Rightarrow> (('w, 'db) btcSlasher, unit) prog" where
  "LoadParams env = bindG (getG bs_btcFinalizationTimeout) (\<lambda>t.
     if t \<noteq> 0 then retG ()
     else bindG (rpcS (sl_BTCCheckpointParams env)) (\<lambda>(finalizationTimeout, _).
       modG (\<lambda>s. s\<lparr>bs_btcFinalizationTimeout := finalizationTimeout\<rparr>)))"

definition btcslasher_Start :: "('w, 'db, 'pub, 'spend, 'asig) slasherEnv \<Rightarrow> (('w, 'db) btcSlasher, unit) prog" where
  "btcslasher_Start env = bindG (getG bs_startOnce) (\<lambda>once.
     if once then retG ()
     else bindG (modG (\<lambda>s. s\<lparr>bs_startOnce := True\<rparr>)) (\<lambda>_.
       bindG (LoadParams env) (\<lambda>_. modG (\<lambda>s. s\<lparr>bs_routines := True\<rparr>))))"

definition btcslasher_Stop :: "(('w, 'db) btcSlasher, unit) prog" where
  "btcslasher_Stop = modG (\<lambda>s. s\<lparr>bs_quit := True\<rparr>)"

subsection \<open>Bitcoin queries\<close>

definition isTxSubmittedToBitcoin :: "('w, 'db, 'pub, 'spend, 'asig) slasherEnv \<Rightarrow> hash \<Rightarrow> (('w, 'db) btcSlasher, bool) prog" where
  "isTxSubmittedToBitcoin env txHash = bindG (tryG (rpcS (sl_GetRawTransaction env txHash)))
     (\<lambda>r. retG (case r of Inl _ \<Rightarrow> False | Inr _ \<Rightarrow> True))"

definition isTaprootOutputSpendable ::
  "('w, 'db, 'pub, 'spend, 'asig) slasherEnv \<Rightarrow> bytes \<Rightarrow> u32 \<Rightarrow> (('w, 'db) btcSlasher, bool) prog" where
  "isTaprootOutputSpendable env txBytes outIdx =
     bindG (wrapG ''failed to convert staking tx to MsgTx: '' (sumG (sl_NewBTCTxFromBytes env txBytes))) (\<lambda>stakingMsgTx.
     bindG (wrapG ''failed to get the output of tx: '' (rpcS (sl_GetTxOut env (sl_TxHash env stakingMsgTx) outIdx True))) (\<lambda>out.
       retG (case out of None \<Rightarrow> False | Some _ \<Rightarrow> True)))"

text \<open>The subtraction is on \<open>uint32\<close>: a tip below the transaction's block counts as very deep.\<close>

definition kDeepAttempt ::
  "('w, 'db, 'pub, 'spend, 'asig) slasherEnv \<Rightarrow> hash \<Rightarrow> bytes \<Rightarrow> u32 \<Rightarrow> (('w, 'db) btcSlasher, unit) prog" where
  "kDeepAttempt env txHash pkScript k =
     bindG (wrapG ''failed to get tx details: '' (rpcS (sl_TxDetails env txHash pkScript))) (\<lambda>(details, status).
       if status \<noteq> TxInChain then failG (errorf ''tx not in chain'')
       else bindG (wrapG ''failed to get best block: '' (rpcS (sl_GetBestBlock env))) (\<lambda>tip.
         bindG (derefG details) (\<lambda>blockHeight.
           if tip - blockHeight \<ge> k then retG () else failG (errorf ''not deep enough''))))"

definition waitForTxKDeep ::
  "('w, 'db, 'pub, 'spend, 'asig) slasherEnv \<Rightarrow> hash \<Rightarrow> bytes \<Rightarrow> u32 \<Rightarrow> (('w, 'db) btcSlasher, unit) prog" where
  "waitForTxKDeep env txHash pkScript k = sl_retryUnit env (Some 0) (\<lambda>_. True) (kDeepAttempt env txHash pkScript k)"

subsection \<open>Building a slashing transaction\<close>

fun fpIdxFrom :: "nat \<Rightarrow> bytes \<Rightarrow> bytes list \<Rightarrow> goerr + nat" where
  "fpIdxFrom i fpBTCPK [] = Inl (errorf ''the given finality provider's PK is not found in the BTC delegation'')"
| "fpIdxFrom i fpBTCPK (pk # pks) = (if pk = fpBTCPK then Inr i else fpIdxFrom (Suc i) fpBTCPK pks)"

definition findFPIdxForCovenantSignatures :: "bytes \<Rightarrow> bytes list \<Rightarrow> goerr + nat" where
  "findFPIdxForCovenantSignatures fpBTCPK fpBtcPkList = fpIdxFrom 0 fpBTCPK fpBtcPkList"

definition buildSlashingTxWithWitness ::
  "('w, 'db, 'pub, 'spend, 'asig) slasherEnv \<Rightarrow> btcDelegationResponse \<Rightarrow> stakingParams \<Rightarrow> privKey
    \<Rightarrow> 'spend slashingConfig \<Rightarrow> ('s, msgTx) prog" where
  "buildSlashingTxWithWitness env d bsParams fpSK config =
     bindG (wrapG ''failed to convert tx to wire.MsgTx: '' (sumG (sl_NewBTCTxFromHex env (sc_TxHex config)))) (\<lambda>tx.
     bindG (wrapG ''could not create staking info: '' (liftG (sc_InfoBuilder config))) (\<lambda>stakingInfo.
     bindG (wrapG ''could not get slashing spend info: '' (sumG stakingInfo)) (\<lambda>slashingSpendInfo.
     bindG (sumG (findFPIdxForCovenantSignatures (sl_pubKeyOf env fpSK) (bdr_FpBtcPkList d))) (\<lambda>fpIdx.
     bindG (wrapG ''failed to get ordered covenant adaptor signatures: ''
              (sumG (sl_GetOrderedCovenantSignatures env fpIdx (sc_CovenantSigs config) bsParams))) (\<lambda>covAdaptorSigs.
     bindG (wrapG ''failed to parse delegator slashing signature: ''
              (sumG (sl_NewBIP340SignatureFromHex env (sc_SlashingSigHex config)))) (\<lambda>delSlashingSig.
     bindG (sumG (sl_NewBTCSlashingTxFromHex env (sc_SlashingTxHex config))) (\<lambda>slashTx.
       wrapG ''failed to build witness for BTC delegation: ''
         (sumG (sl_BuildWitness env slashTx fpSK (bdr_FpBtcPkList d) tx (sc_OutputIdx config) delSlashingSig
            covAdaptorSigs (bsp_CovenantQuorum bsParams) slashingSpendInfo)))))))))"

text \<open>The closures \<open>InfoBuilder\<close> of the two callers.\<close>

definition stakingInfoOf ::
  "('w, 'db, 'pub, 'spend, 'asig) slasherEnv \<Rightarrow> btcDelegationResponse \<Rightarrow> stakingParams \<Rightarrow> 'spend stakingInfoProvider outcome" where
  "stakingInfoOf env d bsParams =
     (case sl_NewBTCPKsFromBIP340PKs env (bdr_FpBtcPkList d) of Inl e \<Rightarrow> Err e | Inr fpBtcPkList \<Rightarrow>
     (case sl_NewBTCPKsFromBIP340PKs env (bsp_CovenantPks bsParams) of Inl e \<Rightarrow> Err e | Inr covenantBtcPkList \<Rightarrow>
     (case sl_MustToBTCPK env (bdr_BtcPk d) of
        Ok btcPK \<Rightarrow> sumOutcome (sl_BuildStakingInfo env btcPK fpBtcPkList covenantBtcPkList (bsp_CovenantQuorum bsParams)
            (ucast (bdr_EndHeight d - bdr_StartHeight d)) (sint (bdr_TotalSat d)))
      | Err e \<Rightarrow> Err e | Panic p \<Rightarrow> Panic p | NoFuel \<Rightarrow> NoFuel)))"

definition unbondingInfoOf ::
  "('w, 'db, 'pub, 'spend, 'asig) slasherEnv \<Rightarrow> btcDelegationResponse \<Rightarrow> undelegationResponse \<Rightarrow> stakingParams
    \<Rightarrow> 'spend stakingInfoProvider outcome" where
  "unbondingInfoOf env d u bsParams =
     (case sl_NewBTCTxFromHex env (ud_UnbondingTxHex u) of Inl e \<Rightarrow> Err e | Inr unbondingMsgTx \<Rightarrow>
     (case sl_NewBTCPKsFromBIP340PKs env (bdr_FpBtcPkList d) of Inl e \<Rightarrow> Err e | Inr fpBtcPkList \<Rightarrow>
     (case sl_NewBTCPKsFromBIP340PKs env (bsp_CovenantPks bsParams) of Inl e \<Rightarrow> Err e | Inr covenantBtcPkList \<Rightarrow>
     (case sl_MustToBTCPK env (bdr_BtcPk d) of
        Ok btcPK \<Rightarrow> (case tx_TxOut unbondingMsgTx of
            [] \<Rightarrow> Panic ''index out of range''
          | out # _ \<Rightarrow> sumOutcome (sl_BuildUnbondingInfo env btcPK fpBtcPkList covenantBtcPkList
              (bsp_CovenantQuorum bsParams) (ucast (bdr_UnbondingTime d)) (out_Value out)))
      | Err e \<Rightarrow> Err e | Panic p \<Rightarrow> Panic p | NoFuel \<Rightarrow> NoFuel))))"

definition BuildSlashingTxWithWitness ::
  "('w, 'db, 'pub, 'spend, 'asig) slasherEnv \<Rightarrow> btcDelegationResponse \<Rightarrow> stakingParams \<Rightarrow> privKey \<Rightarrow> ('s, msgTx) prog" where
  "BuildSlashingTxWithWitness env d bsParams fpSK =
     (if bdr_TotalSat d > 0x7fffffffffffffff then panicG ''TotalSat exceeds int64 range''
      else buildSlashingTxWithWitness env d bsParams fpSK
        \<lparr>sc_TxHex = bdr_StakingTxHex d, sc_SlashingTxHex = bdr_SlashingTxHex d,
         sc_SlashingSigHex = bdr_DelegatorSlashSigHex d, sc_CovenantSigs = bdr_CovenantSigs d,
         sc_OutputIdx = bdr_StakingOutputIdx d, sc_InfoBuilder = stakingInfoOf env d bsParams\<rparr>)"

definition BuildUnbondingSlashingTxWithWitness ::
  "('w, 'db, 'pub, 'spend, 'asig) slasherEnv \<Rightarrow> btcDelegationResponse \<Rightarrow> stakingParams \<Rightarrow> privKey \<Rightarrow> ('s, msgTx) prog" where
  "BuildUnbondingSlashingTxWithWitness env d bsParams fpSK =
     (if bdr_UnbondingTime d > 0xffff then panicG ''unbondingTime exceeds maximum for uint16''
      else bindG (derefG (bdr_UndelegationResponse d)) (\<lambda>u. buildSlashingTxWithWitness env d bsParams fpSK
        \<lparr>sc_TxHex = ud_UnbondingTxHex u, sc_SlashingTxHex = ud_SlashingTxHex u,
         sc_SlashingSigHex = ud_DelegatorSlashingSigHex u, sc_CovenantSigs = ud_CovenantSlashingSigs u,
         sc_OutputIdx = 0, sc_InfoBuilder = unbondingInfoOf env d u bsParams\<rparr>))"

subsection \<open>Sending it\<close>

definition slashingTxHexOf :: "btcDelegationResponse \<Rightarrow> bool \<Rightarrow> ('s, string) prog" where
  "slashingTxHexOf d isUnbonding =
     (if isUnbonding then bindG (derefG (bdr_UndelegationResponse d)) (\<lambda>u. retG (ud_SlashingTxHex u))
      else retG (bdr_SlashingTxHex d))"

definition outputSpendable ::
  "('w, 'db, 'pub, 'spend, 'asig) slasherEnv \<Rightarrow> btcDelegationResponse \<Rightarrow> bool \<Rightarrow> (('w, 'db) btcSlasher, bool) prog" where
  "outputSpendable env d isUnbonding =
     (if isUnbonding then
        bindG (derefG (bdr_UndelegationResponse d)) (\<lambda>u.
        bindG (sumG (hexDecode (ud_UnbondingTxHex u))) (\<lambda>unbondingTx.
          wrapG ''failed to check if BTC delegation is slashable: '' (isTaprootOutputSpendable env unbondingTx 0)))
      else
        bindG (sumG (hexDecode (bdr_StakingTxHex d))) (\<lambda>stakingTx.
          wrapG ''failed to check if BTC delegation is slashable: ''
            (isTaprootOutputSpendable env stakingTx (bdr_StakingOutputIdx d))))"

definition submitSlashingTx ::
  "('w, 'db, 'pub, 'spend, 'asig) slasherEnv \<Rightarrow> privKey \<Rightarrow> btcDelegationResponse \<Rightarrow> bool \<Rightarrow> (('w, 'db) btcSlasher, hash) prog" where
  "submitSlashingTx env fpBTCSK d isUnbonding =
     bindG (tryG (rpcS (sl_BTCStakingParamsByVersion env (bdr_ParamsVersion d)))) (\<lambda>r. case r of
       Inl _ \<Rightarrow> failG (errorf ''failed to get BTC staking parameter'')
     | Inr bsParams \<Rightarrow>
         bindG (wrapG ''failed to build witness for BTC delegation: ''
           (if isUnbonding then BuildUnbondingSlashingTxWithWitness env d bsParams fpBTCSK
            else BuildSlashingTxWithWitness env d bsParams fpBTCSK)) (\<lambda>slashingMsgTx.
         bindG (wrapG ''failed to submit slashing tx to Bitcoin: '' (rpcS (sl_SendRawTransaction env slashingMsgTx))) (\<lambda>txHash.
         bindG (tryG (rpcS (sl_BTCCheckpointParams env))) (\<lambda>r. case r of
           Inl _ \<Rightarrow> failG (errorf ''failed to get BTC staking parameter'')
         | Inr (_, btcConfirmationDepth) \<Rightarrow> (case tx_TxOut slashingMsgTx of
               [] \<Rightarrow> panicG ''index out of range''
             | out # _ \<Rightarrow> bindG (waitForTxKDeep env txHash (out_PkScript out) btcConfirmationDepth) (\<lambda>_. retG txHash))))))"

definition sendSlashingTx ::
  "('w, 'db, 'pub, 'spend, 'asig) slasherEnv \<Rightarrow> privKey \<Rightarrow> btcDelegationResponse \<Rightarrow> bool \<Rightarrow> (('w, 'db) btcSlasher, hash) prog" where
  "sendSlashingTx env fpBTCSK d isUnbonding =
     bindG (slashingTxHexOf d isUnbonding) (\<lambda>txHex.
     bindG (sumG (sl_NewBTCSlashingTxFromHex env txHex)) (\<lambda>slashTx.
     bindG (liftG (sl_MustGetTxHash env slashTx)) (\<lambda>txHash.
     bindG (isTxSubmittedToBitcoin env txHash) (\<lambda>submitted.
       if submitted then retG txHash
       else bindG (outputSpendable env d isUnbonding) (\<lambda>spendable.
         if \<not> spendable then failG (wrapf ''the staking/unbonding tx is not slashable: '' (sentinelErr ErrNotSlashable))
         else submitSlashingTx env fpBTCSK d isUnbonding)))))"

subsection \<open>One delegation\<close>

text \<open>
  The \<open>select\<close> statements of one round. The result is the hash that arrived, if any, and the
  error the round returns; \<open>context.Canceled\<close> is not returned. \<open>None\<close> is a round that still waits.
  \<open>multierror.Append\<close> makes an error that matches whatever one of its parts matches.
\<close>

definition multiAppend :: "goerr \<Rightarrow> goerr \<Rightarrow> goerr" where
  "multiAppend e1 e2 = GoErr (errChain e1 @ errChain e2) (errText e1 @ errText e2)"

fun secondArrival :: "goerr \<Rightarrow> raceEvent list \<Rightarrow> (hash option \<times> goerr option) option" where
  "secondArrival err1 [] = None"
| "secondArrival err1 (ErrArrives err2 # _) =
     Some (None, if errors_is err1 ErrNotSlashable \<and> errors_is err2 ErrNotSlashable then None
                 else Some (multiAppend err1 err2))"
| "secondArrival err1 (TxHashArrives h # _) = Some (Some h, None)"
| "secondArrival err1 (CtxDone # evs) = secondArrival err1 evs"

fun firstArrival :: "raceEvent list \<Rightarrow> (hash option \<times> goerr option) option" where
  "firstArrival [] = None"
| "firstArrival (TxHashArrives h # _) = Some (Some h, None)"
| "firstArrival (CtxDone # _) = Some (None, Some (sentinelErr ErrContextCanceled))"
| "firstArrival (ErrArrives err1 # evs) = secondArrival err1 evs"

definition ignoreCanceled :: "goerr option \<Rightarrow> goerr option" where
  "ignoreCanceled err = (case err of
       Some e \<Rightarrow> if errors_is e ErrContextCanceled then None else Some e | None \<Rightarrow> None)"

definition slashRound ::
  "('w, 'db, 'pub, 'spend, 'asig) slasherEnv \<Rightarrow> privKey \<Rightarrow> btcDelegationResponse \<Rightarrow> (('w, 'db) btcSlasher, hash option) prog" where
  "slashRound env fpBTCSK d =
     bindG (sl_race env (sendSlashingTx env fpBTCSK d)) (\<lambda>evs. case firstArrival evs of
       None \<Rightarrow> noFuelG
     | Some (txHash, accumulatedErr) \<Rightarrow> (case ignoreCanceled accumulatedErr of
         None \<Rightarrow> retG txHash
       | Some e \<Rightarrow> failG e))"

text \<open>\<open>PushOrQuit\<close> on the channel of results.\<close>

definition pushResult :: "('w, 'db, 'pub, 'spend, 'asig) slasherEnv \<Rightarrow> slashResult \<Rightarrow> (('w, 'db) btcSlasher, unit) prog" where
  "pushResult env r = modG (\<lambda>s. s\<lparr>bs_slashResultChan :=
     PushOrQuit (bs_quit s) (sl_selectSend env (bs_world s)) r (bs_slashResultChan s)\<rparr>)"

definition slashBTCDelegation ::
  "('w, 'db, 'pub, 'spend, 'asig) slasherEnv \<Rightarrow> privKey \<Rightarrow> btcDelegationResponse \<Rightarrow> (('w, 'db) btcSlasher, unit) prog" where
  "slashBTCDelegation env fpBTCSK d =
     bindG (tryG (sl_retryHash env (Some 0) (\<lambda>_. True) (slashRound env fpBTCSK d))) (\<lambda>r.
       pushResult env (case r of
         Inr txHash \<Rightarrow> \<lparr>sr_Del = d, sr_SlashingTxHash = txHash, sr_Err = None\<rparr>
       | Inl err \<Rightarrow> \<lparr>sr_Del = d, sr_SlashingTxHash = None, sr_Err = Some err\<rparr>))"

subsection \<open>All delegations of a finality provider\<close>

text \<open>\<open>strings.EqualFold\<close> against an ASCII string none of whose letters folds to a non-ASCII one.\<close>

definition asciiLower :: "char \<Rightarrow> char" where
  "asciiLower c = (let n = (of_char c :: nat) in if 65 \<le> n \<and> n \<le> 90 then char_of (n + 32) else c)"

definition equalFold :: "string \<Rightarrow> string \<Rightarrow> bool" where
  "equalFold a b \<longleftrightarrow> map asciiLower a = map asciiLower b"

definition statusUnbonded :: string where
  "statusUnbonded = ''UNBONDED''"

type_synonym delLists = "btcDelegationResponse list \<times> btcDelegationResponse list"

text \<open>
  The table \<open>paramsMap\<close> is never filled, so every delegation asks for its parameters. The nil
  check of \<open>UndelegationResponse\<close> is missing: an unbonded delegation without one panics.
\<close>

definition collectDel ::
  "('w, 'db, 'pub, 'spend, 'asig) slasherEnv \<Rightarrow> btcDelegationResponse \<Rightarrow> (('w, 'db) btcSlasher \<times> delLists, unit) prog" where
  "collectDel env d =
     bindG (tryG (outerG (rpcS (sl_BTCStakingParamsByVersion env (bdr_ParamsVersion d))))) (\<lambda>r. case r of
       Inl _ \<Rightarrow> failG (errorf ''failed to get BTC staking parameter'')
     | Inr bsParams \<Rightarrow>
         bindG (if bdr_Active d then localG (\<lambda>(a, u). (a @ [d], u)) else retG ()) (\<lambda>_.
           if equalFold (bdr_StatusDesc d) statusUnbonded then
             bindG (derefG (bdr_UndelegationResponse d)) (\<lambda>u.
               if length (ud_CovenantSlashingSigs u) \<ge> unat (bsp_CovenantQuorum bsParams)
               then localG (\<lambda>(a, u). (a, u @ [d])) else retG ())
           else retG ()))"

definition getAllActiveAndUnbondedBTCDelegations ::
  "('w, 'db, 'pub, 'spend, 'asig) slasherEnv \<Rightarrow> bytes \<Rightarrow> (('w, 'db) btcSlasher, delLists) prog" where
  "getAllActiveAndUnbondedBTCDelegations env fpBTCPK = withLocal ([], [])
     (pageLoop (sl_fuel env)
        (\<lambda>key. wrapG ''failed to get BTC delegations under finality provider: ''
           (outerG (rpcS (sl_FinalityProviderDelegations env (hexEncode fpBTCPK) key))))
        (\<lambda>groups. forEach (forEach (collectDel env)) groups) None)"

text \<open>One goroutine is started per delegation; the call does not wait for them.\<close>

definition slashTasks :: "bytes \<Rightarrow> privKey \<Rightarrow> delLists \<Rightarrow> slashTask list" where
  "slashTasks fpBTCPK fpBTCSK = (\<lambda>(active, unbonded).
     map (\<lambda>d. \<lparr>st_fpBTCPK = fpBTCPK, st_fpBTCSK = fpBTCSK, st_del = d\<rparr>) (active @ unbonded))"

definition SlashFinalityProvider ::
  "('w, 'db, 'pub, 'spend, 'asig) slasherEnv \<Rightarrow> privKey \<Rightarrow> (('w, 'db) btcSlasher, unit) prog" where
  "SlashFinalityProvider env fpBTCSK =
     bindG (wrapG ''failed to get BTC delegations under finality provider: ''
              (getAllActiveAndUnbondedBTCDelegations env (sl_pubKeyOf env fpBTCSK))) (\<lambda>dels.
       modG (\<lambda>s. s\<lparr>bs_running := bs_running s @ slashTasks (sl_pubKeyOf env fpBTCSK) fpBTCSK dels\<rparr>))"

subsection \<open>Evidence\<close>

type_synonym evidenceLocals = "u64 \<times> goerr list"

definition evidenceOf :: "bytes \<Rightarrow> evidenceResponse \<Rightarrow> evidence" where
  "evidenceOf btcPK e = \<lparr>evi_FpBtcPk = btcPK, evi_BlockHeight = evd_BlockHeight e, evi_PubRand = evd_PubRand e,
     evi_CanonicalAppHash = evd_CanonicalAppHash e, evi_ForkAppHash = evd_ForkAppHash e,
     evi_CanonicalFinalitySig = evd_CanonicalFinalitySig e, evi_ForkFinalitySig = evd_ForkFinalitySig e\<rparr>"

definition addErr :: "goerr \<Rightarrow> ('s \<times> evidenceLocals, unit) prog" where
  "addErr e = localG (\<lambda>(h, errs). (h, errs @ [e]))"

definition handleEvidence ::
  "('w, 'db, 'pub, 'spend, 'asig) slasherEnv \<Rightarrow> evidenceResponse \<Rightarrow> (('w, 'db) btcSlasher \<times> evidenceLocals, unit) prog" where
  "handleEvidence env evidence = (case sl_NewBIP340PubKeyFromHex env (evd_FpBtcPkHex evidence) of
       Inl err \<Rightarrow> addErr (wrapf ''err parsing fp btc '' err)
     | Inr btcPK \<Rightarrow> (case sl_ExtractBTCSK env (evidenceOf btcPK evidence) of
         Inl err \<Rightarrow> addErr err
       | Inr fpBTCSK \<Rightarrow> bindG (tryG (outerG (SlashFinalityProvider env fpBTCSK))) (\<lambda>r. case r of
             Inl err \<Rightarrow> addErr err
           | Inr _ \<Rightarrow> localG (\<lambda>(last, errs). (if last < evd_BlockHeight evidence then evd_BlockHeight evidence else last, errs)))))"

text \<open>
  \<open>handleAllEvidences\<close>: an error of the callback is logged and the next page is read; only an
  error of the query ends the loop.
\<close>

definition handleAllEvidences ::
  "('w, 'db, 'pub, 'spend, 'asig) slasherEnv \<Rightarrow> u64 \<Rightarrow> (evidenceResponse list \<Rightarrow> (('w, 'db) btcSlasher \<times> 'l, unit) prog)
    \<Rightarrow> (('w, 'db) btcSlasher \<times> 'l, unit) prog" where
  "handleAllEvidences env startHeight handleFunc = pageLoop (sl_fuel env)
     (\<lambda>key. wrapG ''failed to get evidences: '' (outerG (rpcS (sl_ListEvidences env startHeight key))))
     (\<lambda>evidences. bindG (tryG (handleFunc evidences)) (\<lambda>_. retG ())) None"

definition accumulated :: "goerr list \<Rightarrow> goerr option" where
  "accumulated errs = (if errs = [] then None else Some (GoErr (concat (map errChain errs)) (concat (map errText errs))))"

definition handleEvidences ::
  "('w, 'db, 'pub, 'spend, 'asig) slasherEnv \<Rightarrow> evidenceResponse list \<Rightarrow> (('w, 'db) btcSlasher \<times> evidenceLocals, unit) prog" where
  "handleEvidences env evidences = bindG (forEach (handleEvidence env) evidences) (\<lambda>_.
     bindG (getG (snd \<circ> snd)) (\<lambda>errs. case accumulated errs of None \<Rightarrow> retG () | Some e \<Rightarrow> failG e))"

definition processEvidencesFromHeight ::
  "('w, 'db, 'pub, 'spend, 'asig) slasherEnv \<Rightarrow> u64 \<Rightarrow> (('w, 'db) btcSlasher, u64) prog" where
  "processEvidencesFromHeight env startHeight =
     bindG (wrapG ''failed to process evidences from height: ''
       (withLocal (0, []) (handleAllEvidences env startHeight (handleEvidences env)))) (\<lambda>(lastSlashedHeight, errs).
     case accumulated errs of None \<Rightarrow> retG lastSlashedHeight | Some e \<Rightarrow> failG e)"

definition btcslasher_Bootstrap ::
  "('w, 'db, 'pub, 'spend, 'asig) slasherEnv \<Rightarrow> u64 \<Rightarrow> (('w, 'db) btcSlasher, unit) prog" where
  "btcslasher_Bootstrap env startHeight =
     bindG (if startHeight > 0 then modG (\<lambda>s. s\<lparr>bs_height := startHeight\<rparr>) else retG ()) (\<lambda>_.
     bindG (LoadParams env) (\<lambda>_.
     bindG (wrapG ''failed to bootstrap BTC slasher: '' (processEvidencesFromHeight env startHeight)) (\<lambda>lastSlashedHeight.
       if lastSlashedHeight > 0 then
         bindG (modG (\<lambda>s. s\<lparr>bs_height := lastSlashedHeight + 1\<rparr>)) (\<lambda>_.
           wrapG ''failed to store last processed height: '' (dbS (PutHeight (sl_kv env) lastSlashedHeight)))
       else retG ())))"

definition LastEvidencesHeight :: "('w, 'db, 'pub, 'spend, 'asig) slasherEnv \<Rightarrow> (('w, 'db) btcSlasher, u64 option) prog" where
  "LastEvidencesHeight env = dbS (LastProcessedHeight (sl_kv env))"

text \<open>One tick of \<open>fetchEvidences\<close>; its errors are logged.\<close>

definition fetchEvidencesTick :: "('w, 'db, 'pub, 'spend, 'asig) slasherEnv \<Rightarrow> (('w, 'db) btcSlasher, unit) prog" where
  "fetchEvidencesTick env =
     bindG (getG bs_height) (\<lambda>height.
     bindG (tryG (processEvidencesFromHeight env height)) (\<lambda>r. case r of
       Inl _ \<Rightarrow> retG ()
     | Inr lastSlashedHeight \<Rightarrow>
         if lastSlashedHeight > 0 then
           bindG (modG (\<lambda>s. s\<lparr>bs_height := lastSlashedHeight + 1\<rparr>)) (\<lambda>_.
           bindG (tryG (dbS (PutHeight (sl_kv env) lastSlashedHeight))) (\<lambda>_. retG ()))
         else retG ()))"

subsection \<open>The goroutines\<close>

text \<open>\<open>slashingEnforcer\<close>, one receive from each channel. A result without error is recorded as slashed.\<close>

definition enforceKey :: "('w, 'db, 'pub, 'spend, 'asig) slasherEnv \<Rightarrow> privKey \<Rightarrow> (('w, 'db) btcSlasher, unit) prog" where
  "enforceKey env fpBTCSK = bindG (tryG (SlashFinalityProvider env fpBTCSK)) (\<lambda>_. retG ())"

definition enforceResult :: "slashResult \<Rightarrow> (('w, 'db) btcSlasher, unit) prog" where
  "enforceResult slashRes = (case bdr_FpBtcPkList (sr_Del slashRes) of
       [] \<Rightarrow> panicG ''index out of range''
     | _ # _ \<Rightarrow> (case sr_Err slashRes of
         Some _ \<Rightarrow> retG ()
       | None \<Rightarrow> modG (\<lambda>s. s\<lparr>bs_recorded := bs_recorded s @ [sr_Del slashRes]\<rparr>)))"

text \<open>The body of a goroutine of \<open>SlashFinalityProvider\<close>; it gives up if it cannot get the semaphore.\<close>

definition runSlashTask ::
  "('w, 'db, 'pub, 'spend, 'asig) slasherEnv \<Rightarrow> bool \<Rightarrow> slashTask \<Rightarrow> (('w, 'db) btcSlasher, unit) prog" where
  "runSlashTask env acquired t = (if acquired then slashBTCDelegation env (st_fpBTCSK t) (st_del t) else retG ())"

text \<open>The select loops and the goroutines, one iteration or goroutine at a time.\<close>

inductive slasher_step ::
  "('w, 'db, 'pub, 'spend, 'asig) slasherEnv \<Rightarrow> ('w, 'db) btcSlasher \<Rightarrow> ('w, 'db) btcSlasher \<Rightarrow> bool" where
  receiveKey: "\<lbrakk>bs_routines s; bs_slashedFPSKChan s = k # ks;
      enforceKey env k (s\<lparr>bs_slashedFPSKChan := ks\<rparr>) = (Ok (), s')\<rbrakk> \<Longrightarrow> slasher_step env s s'"
| receiveResult: "\<lbrakk>bs_routines s; bs_slashResultChan s = r # rs;
      enforceResult r (s\<lparr>bs_slashResultChan := rs\<rparr>) = (Ok (), s')\<rbrakk> \<Longrightarrow> slasher_step env s s'"
| tick: "\<lbrakk>bs_routines s; fetchEvidencesTick env s = (Ok (), s')\<rbrakk> \<Longrightarrow> slasher_step env s s'"
| runTask: "\<lbrakk>bs_running s = ts1 @ t # ts2; acquired \<or> bs_quit s;
      runSlashTask env acquired t (s\<lparr>bs_running := ts1 @ ts2\<rparr>) = (Ok (), s')\<rbrakk> \<Longrightarrow> slasher_step env s s'"
| newKey: "slasher_step env s (s\<lparr>bs_slashedFPSKChan := bs_slashedFPSKChan s @ [k]\<rparr>)"
| quit: "btcslasher_Stop s = (Ok (), s') \<Longrightarrow> slasher_step env s s'"

end
