(* ===== verification/Slasher_Correct.thy ===== *)
theory Slasher_Correct
  imports Btc_Slasher
begin

text \<open>
  The properties of the BTC slasher: which delegations of a provider are slashed, when the
  evidence height advances, what a reported slashing means.
\<close>

subsection \<open>Queries that leave the world as it is\<close>

lemma rpcS_pure: "m (bs_world s) = (r, bs_world s) \<Longrightarrow> rpcS m s = (r, s)"
  by (simp add: rpcS_def)

lemma serves_outer:
  assumes "serves_pages (\<lambda>w. w = w0) request key ps"
  shows "serves_pages (\<lambda>p. bs_world (fst p) = w0) (\<lambda>k. wrapG msg (outerG (rpcS (request k)) :: (('w, 'db) btcSlasher \<times> 'l, _) prog)) key ps"
  using assms
proof (induction ps arbitrary: key rule: induct_list012)
  case (2 p)
  then show ?case by (auto simp: intro!: outerG_eq rpcS_pure)
next
  case (3 p q ps)
  from 3(3) obtain k where k: "request key w0 = (Ok (p, Some k), w0)"
    and rest: "serves_pages (\<lambda>w. w = w0) request (Some k) (q # ps)" by auto
  have "wrapG msg (outerG (rpcS (request key))) t = (Ok (p, Some k), t)" if "bs_world (fst t) = w0" for t :: "('w, 'db) btcSlasher \<times> 'l"
    using that k by (cases t) (auto simp: intro!: outerG_eq rpcS_pure)
  then show ?case unfolding serves_pages.simps using 3(2) [OF rest] by blast
qed simp

subsection \<open>The delegations of a provider\<close>

definition unbondedWithQuorum :: "(u32 \<Rightarrow> stakingParams) \<Rightarrow> btcDelegationResponse \<Rightarrow> bool" where
  "unbondedWithQuorum params d \<longleftrightarrow> equalFold (bdr_StatusDesc d) statusUnbonded \<and>
     (case bdr_UndelegationResponse d of None \<Rightarrow> False
      | Some u \<Rightarrow> length (ud_CovenantSlashingSigs u) \<ge> unat (bsp_CovenantQuorum (params (bdr_ParamsVersion d))))"

definition undelegationPresent :: "btcDelegationResponse \<Rightarrow> bool" where
  "undelegationPresent d \<longleftrightarrow> (equalFold (bdr_StatusDesc d) statusUnbonded \<longrightarrow> bdr_UndelegationResponse d \<noteq> None)"

definition answersParams :: "('w, 'db, 'pub, 'spend, 'asig) slasherEnv \<Rightarrow> 'w \<Rightarrow> (u32 \<Rightarrow> stakingParams) \<Rightarrow> bool" where
  "answersParams env w params \<longleftrightarrow> (\<forall>v. sl_BTCStakingParamsByVersion env v w = (Ok (params v), w))"

definition answersDelegations ::
  "('w, 'db, 'pub, 'spend, 'asig) slasherEnv \<Rightarrow> 'w \<Rightarrow> privKey \<Rightarrow> btcDelegationResponse list list list \<Rightarrow> bool" where
  "answersDelegations env w sk pages \<longleftrightarrow>
     serves_pages (\<lambda>w'. w' = w) (sl_FinalityProviderDelegations env (hexEncode (sl_pubKeyOf env sk))) None pages
     \<and> length pages \<le> sl_fuel env \<and> (\<forall>d \<in> set (concat (concat pages)). undelegationPresent d)"

lemma collectDel_eq:
  assumes "answersParams env (bs_world s) params" and "undelegationPresent d"
  shows "collectDel env d (s, (a, u)) = (Ok (), (s,
     (a @ filter bdr_Active [d], u @ filter (unbondedWithQuorum params) [d])))"
proof -
  have q: "tryG (outerG (rpcS (sl_BTCStakingParamsByVersion env (bdr_ParamsVersion d)))) (s, (a, u))
      = (Ok (Inr (params (bdr_ParamsVersion d))), (s, (a, u)))"
    using assms(1) by (intro tryG_simps outerG_eq rpcS_pure) (simp add: answersParams_def)
  show ?thesis
    unfolding collectDel_def bindG_simps(1) [of "tryG (outerG (rpcS (sl_BTCStakingParamsByVersion env (bdr_ParamsVersion d))))" "(s, (a, u))", OF q] using assms(2)
    by (auto simp: undelegationPresent_def unbondedWithQuorum_def derefG_def bindG_def retG_def split: option.splits)
qed

lemma forEach_collect:
  assumes "answersParams env (bs_world s) params" and "\<forall>d \<in> set ds. undelegationPresent d"
  shows "forEach (collectDel env) ds (s, (a, u)) = (Ok (), (s,
     (a @ filter bdr_Active ds, u @ filter (unbondedWithQuorum params) ds)))"
  using assms(2)
proof (induction ds arbitrary: a u)
  case (Cons d ds)
  then show ?case
    by (simp add: bindG_simps(1) [of "collectDel env d" "(s, (a, u))", OF collectDel_eq [OF assms(1)]])
qed (simp add: retG_def)

lemma forEach_concat: "forEach (forEach f) xss = forEach f (concat xss)"
  by (induction xss) (simp_all add: forEach_append)

lemma forEach_concat2: "forEach (\<lambda>xss. forEach (forEach f) xss) xsss = forEach f (concat (concat xsss))"
  by (induction xsss) (simp_all add: forEach_append forEach_concat)

lemma keeps_outer_world: "keeps (\<lambda>p. bs_world (fst p) = w0) (localG f)"
  by (auto simp: keeps_def localG_def modG_def)

lemma keeps_collectDel:
  assumes "answersParams env w0 params"
  shows "keeps (\<lambda>p. bs_world (fst p) = w0) (collectDel env d)"
proof -
  have "keeps (\<lambda>p. bs_world (fst p) = w0) (outerG (rpcS (sl_BTCStakingParamsByVersion env v)) :: (('a,'b) btcSlasher \<times> delLists, _) prog)" for v
    unfolding keeps_def using assms by (auto simp: answersParams_def outerG_def rpcS_def)
  then show ?thesis
    unfolding collectDel_def derefG_def by (intro keeps_rules keeps_outer_world) auto
qed

lemma getAll_eq:
  assumes "answersDelegations env (bs_world s) sk pages" and "answersParams env (bs_world s) params"
  shows "getAllActiveAndUnbondedBTCDelegations env (sl_pubKeyOf env sk) s
    = (Ok (filter bdr_Active (concat (concat pages)), filter (unbondedWithQuorum params) (concat (concat pages))), s)"
proof -
  let ?req = "\<lambda>key. wrapG ''failed to get BTC delegations under finality provider: ''
           (outerG (rpcS (sl_FinalityProviderDelegations env (hexEncode (sl_pubKeyOf env sk)) key)))"
  have "pageLoop (sl_fuel env) ?req (\<lambda>groups. forEach (forEach (collectDel env)) groups) None (s, ([], []))
      = forEach (\<lambda>groups. forEach (forEach (collectDel env)) groups) pages (s, ([], []))"
    using assms
    by (intro pageLoop_pages [where P = "\<lambda>p. bs_world (fst p) = bs_world s"] serves_outer)
       (auto simp: answersDelegations_def intro!: keeps_forEach keeps_collectDel)
  also have "\<dots> = (Ok (), (s, (filter bdr_Active (concat (concat pages)), filter (unbondedWithQuorum params) (concat (concat pages)))))"
    unfolding forEach_concat2
    using forEach_collect [OF assms(2), of "concat (concat pages)" "[]" "[]"] assms(1) by (simp add: answersDelegations_def)
  finally show ?thesis by (simp add: getAllActiveAndUnbondedBTCDelegations_def withLocal_def)
qed

definition providerTasks ::
  "('w, 'db, 'pub, 'spend, 'asig) slasherEnv \<Rightarrow> (u32 \<Rightarrow> stakingParams) \<Rightarrow> privKey \<Rightarrow> btcDelegationResponse list list list \<Rightarrow> slashTask list" where
  "providerTasks env params sk pages = map (\<lambda>d. \<lparr>st_fpBTCPK = sl_pubKeyOf env sk, st_fpBTCSK = sk, st_del = d\<rparr>)
     (filter bdr_Active (concat (concat pages)) @ filter (unbondedWithQuorum params) (concat (concat pages)))"

lemma Slash_eq:
  assumes "answersDelegations env (bs_world s) sk pages" and "answersParams env (bs_world s) params"
  shows "SlashFinalityProvider env sk s = (Ok (), s\<lparr>bs_running := bs_running s @ providerTasks env params sk pages\<rparr>)"
  unfolding SlashFinalityProvider_def
  using getAll_eq [OF assms]
  by (simp add: bindG_def wrapG_def modG_def slashTasks_def providerTasks_def)

subsection \<open>Evidence\<close>

definition evidenceKey :: "('w, 'db, 'pub, 'spend, 'asig) slasherEnv \<Rightarrow> evidenceResponse \<Rightarrow> privKey option" where
  "evidenceKey env e = (case sl_NewBIP340PubKeyFromHex env (evd_FpBtcPkHex e) of Inl _ \<Rightarrow> None
     | Inr pk \<Rightarrow> (case sl_ExtractBTCSK env (evidenceOf pk e) of Inl _ \<Rightarrow> None | Inr sk \<Rightarrow> Some sk))"

text \<open>Babylon's answer for a provider: its pages, or an error of the query.\<close>

definition answersProvider ::
  "('w, 'db, 'pub, 'spend, 'asig) slasherEnv \<Rightarrow> 'w \<Rightarrow> (privKey \<Rightarrow> btcDelegationResponse list list list option) \<Rightarrow> privKey \<Rightarrow> bool" where
  "answersProvider env w pagesOf sk \<longleftrightarrow> (case pagesOf sk of
       None \<Rightarrow> 0 < sl_fuel env \<and>
         (\<exists>e. sl_FinalityProviderDelegations env (hexEncode (sl_pubKeyOf env sk)) None w = (Err e, w))
     | Some pages \<Rightarrow> answersDelegations env w sk pages)"

text \<open>The tasks of one piece of evidence; \<open>None\<close> if it cannot be processed.\<close>

definition evidenceTasks ::
  "('w, 'db, 'pub, 'spend, 'asig) slasherEnv \<Rightarrow> (u32 \<Rightarrow> stakingParams)
    \<Rightarrow> (privKey \<Rightarrow> btcDelegationResponse list list list option) \<Rightarrow> evidenceResponse \<Rightarrow> slashTask list option" where
  "evidenceTasks env params pagesOf e = (case evidenceKey env e of None \<Rightarrow> None
     | Some sk \<Rightarrow> map_option (providerTasks env params sk) (pagesOf sk))"

definition startedTasks ::
  "('w, 'db, 'pub, 'spend, 'asig) slasherEnv \<Rightarrow> (u32 \<Rightarrow> stakingParams)
    \<Rightarrow> (privKey \<Rightarrow> btcDelegationResponse list list list option) \<Rightarrow> evidenceResponse list \<Rightarrow> slashTask list" where
  "startedTasks env params pagesOf es = concat (map (\<lambda>e. case evidenceTasks env params pagesOf e of None \<Rightarrow> [] | Some ts \<Rightarrow> ts) es)"

definition lastHeightOf :: "u64 \<Rightarrow> evidenceResponse list \<Rightarrow> u64" where
  "lastHeightOf h es = fold (\<lambda>e h. max h (evd_BlockHeight e)) es h"

lemma lastHeightOf_simps [simp]:
  "lastHeightOf h [] = h" "lastHeightOf h (e # es) = lastHeightOf (max h (evd_BlockHeight e)) es"
  by (simp_all add: lastHeightOf_def)

lemma lastHeightOf_ge: "h \<le> lastHeightOf h es \<and> (\<forall>e \<in> set es. evd_BlockHeight e \<le> lastHeightOf h es)"
proof (induction es arbitrary: h)
  case (Cons e es)
  from Cons [of "max h (evd_BlockHeight e)"] show ?case by auto
qed simp

lemma lastHeightOf_in: "lastHeightOf h es = h \<or> (\<exists>e \<in> set es. evd_BlockHeight e = lastHeightOf h es)"
proof (induction es arbitrary: h)
  case (Cons e es)
  from Cons [of "max h (evd_BlockHeight e)"] show ?case by (auto simp: max_def)
qed simp

lemma lastHeightOf_pos: "lastHeightOf h es > 0 \<longleftrightarrow> h > 0 \<or> (\<exists>e \<in> set es. evd_BlockHeight e > 0)"
  by (induction es arbitrary: h) (auto simp: less_max_iff_disj)

lemma Slash_fails:
  assumes "sl_FinalityProviderDelegations env (hexEncode (sl_pubKeyOf env sk)) None (bs_world s) = (Err e, bs_world s)"
    and "0 < sl_fuel env"
  obtains e' where "SlashFinalityProvider env sk s = (Err e', s)"
proof -
  obtain n where n: "sl_fuel env = Suc n" using assms(2) by (cases "sl_fuel env") auto
  have "outerG (rpcS (sl_FinalityProviderDelegations env (hexEncode (sl_pubKeyOf env sk)) None)) (s, ([], []) :: delLists) = (Err e, (s, ([], [])))"
    by (intro outerG_eq rpcS_pure assms(1))
  then have "\<exists>e'. SlashFinalityProvider env sk s = (Err e', s)"
    by (simp add: SlashFinalityProvider_def getAllActiveAndUnbondedBTCDelegations_def n withLocal_def wrapG_def bindG_def)
  with that show thesis by blast
qed

text \<open>What one piece of evidence, and a list of it, does to the slasher and to the two locals.\<close>

definition evidenceEffect ::
  "slashTask list \<Rightarrow> u64 \<Rightarrow> bool \<Rightarrow> ('w, 'db) btcSlasher \<times> evidenceLocals \<Rightarrow> unit outcome \<times> ('w, 'db) btcSlasher \<times> evidenceLocals \<Rightarrow> bool" where
  "evidenceEffect ts hgt good = (\<lambda>(s, (h, errs)) res. \<exists>errs'. (errs' = [] \<longleftrightarrow> good) \<and>
     (\<exists>h'. (good \<longrightarrow> h' = hgt) \<and> res = (Ok (), (s\<lparr>bs_running := bs_running s @ ts\<rparr>, (h', errs @ errs')))))"

lemma handleEvidence_effect:
  assumes "answersParams env (bs_world s) params"
    and "\<And>sk. evidenceKey env e = Some sk \<Longrightarrow> answersProvider env (bs_world s) pagesOf sk"
  shows "evidenceEffect (case evidenceTasks env params pagesOf e of None \<Rightarrow> [] | Some ts \<Rightarrow> ts) (max h (evd_BlockHeight e))
      (evidenceTasks env params pagesOf e \<noteq> None) (s, (h, errs)) (handleEvidence env e (s, (h, errs)))"
proof (cases "evidenceKey env e")
  case None
  then show ?thesis
    by (auto simp: evidenceKey_def handleEvidence_def evidenceTasks_def evidenceEffect_def addErr_def split: sum.splits)
next
  case (Some sk)
  then have run: "handleEvidence env e = bindG (tryG (outerG (SlashFinalityProvider env sk))) (\<lambda>r. case r of
             Inl err \<Rightarrow> addErr err
           | Inr _ \<Rightarrow> localG (\<lambda>(last, errs). (if last < evd_BlockHeight e then evd_BlockHeight e else last, errs)))"
    by (auto simp: evidenceKey_def handleEvidence_def split: sum.splits)
  have mx: "(if h < evd_BlockHeight e then evd_BlockHeight e else h) = max h (evd_BlockHeight e)"
    by (auto simp: max_def not_le dest: less_not_sym)
  show ?thesis
  proof (cases "pagesOf sk")
    case None
    with assms(2) [OF Some] obtain e' where "SlashFinalityProvider env sk s = (Err e', s)"
      by (auto simp: answersProvider_def elim: Slash_fails)
    then have "tryG (outerG (SlashFinalityProvider env sk)) (s, (h, errs)) = (Ok (Inl e'), (s, (h, errs)))"
      by (intro tryG_simps outerG_eq)
    with None Some show ?thesis
      by (simp add: run evidenceTasks_def evidenceEffect_def addErr_def bindG_def)
  next
    case (Some pages)
    with assms(2) [OF \<open>evidenceKey env e = Some sk\<close>]
    have "SlashFinalityProvider env sk s = (Ok (), s\<lparr>bs_running := bs_running s @ providerTasks env params sk pages\<rparr>)"
      by (intro Slash_eq assms(1)) (simp add: answersProvider_def)
    then have "tryG (outerG (SlashFinalityProvider env sk)) (s, (h, errs))
        = (Ok (Inr ()), (s\<lparr>bs_running := bs_running s @ providerTasks env params sk pages\<rparr>, (h, errs)))"
      by (intro tryG_simps outerG_eq)
    with Some \<open>evidenceKey env e = Some sk\<close> show ?thesis
      by (simp add: run evidenceTasks_def evidenceEffect_def bindG_def mx)
  qed
qed

lemma evidenceEffect_seq:
  assumes "evidenceEffect ts1 h1 g1 (s, (h, errs)) (m (s, (h, errs)))"
    and "\<And>s' h' errs'. bs_world s' = bs_world s \<Longrightarrow> (g1 \<Longrightarrow> h' = h1) \<Longrightarrow> evidenceEffect ts2 (f h') g2 (s', (h', errs')) (m2 (s', (h', errs')))"
  shows "evidenceEffect (ts1 @ ts2) (f h1) (g1 \<and> g2) (s, (h, errs)) (bindG m (\<lambda>_. m2) (s, (h, errs)))"
proof -
  from assms(1) obtain errs1 h' where e1: "errs1 = [] \<longleftrightarrow> g1" and h': "g1 \<Longrightarrow> h' = h1"
    and m: "m (s, (h, errs)) = (Ok (), (s\<lparr>bs_running := bs_running s @ ts1\<rparr>, (h', errs @ errs1)))"
    by (auto simp: evidenceEffect_def)
  have "evidenceEffect ts2 (f h') g2 (s\<lparr>bs_running := bs_running s @ ts1\<rparr>, (h', errs @ errs1))
      (m2 (s\<lparr>bs_running := bs_running s @ ts1\<rparr>, (h', errs @ errs1)))"
    using h' by (intro assms(2)) simp_all
  then obtain errs2 h'' where e2: "errs2 = [] \<longleftrightarrow> g2" and h'': "g2 \<Longrightarrow> h'' = f h'"
    and m2: "m2 (s\<lparr>bs_running := bs_running s @ ts1\<rparr>, (h', errs @ errs1))
      = (Ok (), (s\<lparr>bs_running := bs_running s @ ts1 @ ts2\<rparr>, (h'', errs @ errs1 @ errs2)))"
    by (auto simp: evidenceEffect_def)
  show ?thesis
    unfolding evidenceEffect_def prod.case
    by (intro exI [of _ "errs1 @ errs2"] conjI exI [of _ h''])
       (use e1 e2 h' h'' in \<open>simp_all add: bindG_simps(1) [of m "(s, (h, errs))", OF m] m2\<close>)
qed

definition answersAll ::
  "('w, 'db, 'pub, 'spend, 'asig) slasherEnv \<Rightarrow> 'w \<Rightarrow> (u32 \<Rightarrow> stakingParams)
    \<Rightarrow> (privKey \<Rightarrow> btcDelegationResponse list list list option) \<Rightarrow> evidenceResponse list \<Rightarrow> bool" where
  "answersAll env w params pagesOf es \<longleftrightarrow> answersParams env w params \<and>
     (\<forall>e \<in> set es. case evidenceKey env e of None \<Rightarrow> True | Some sk \<Rightarrow> answersProvider env w pagesOf sk)"

abbreviation allGood ::
  "('w, 'db, 'pub, 'spend, 'asig) slasherEnv \<Rightarrow> (u32 \<Rightarrow> stakingParams)
    \<Rightarrow> (privKey \<Rightarrow> btcDelegationResponse list list list option) \<Rightarrow> evidenceResponse list \<Rightarrow> bool" where
  "allGood env params pagesOf es \<equiv> \<forall>e \<in> set es. evidenceTasks env params pagesOf e \<noteq> None"

lemma forEach_evidence_effect:
  assumes "answersAll env (bs_world s) params pagesOf es"
  shows "evidenceEffect (startedTasks env params pagesOf es) (lastHeightOf h es) (allGood env params pagesOf es)
    (s, (h, errs)) (forEach (handleEvidence env) es (s, (h, errs)))"
  using assms
proof (induction es arbitrary: s h errs)
  case Nil
  then show ?case by (simp add: evidenceEffect_def startedTasks_def retG_def)
next
  case (Cons e es)
  have "evidenceEffect ((case evidenceTasks env params pagesOf e of None \<Rightarrow> [] | Some ts \<Rightarrow> ts) @ startedTasks env params pagesOf es)
      (lastHeightOf (max h (evd_BlockHeight e)) es) (evidenceTasks env params pagesOf e \<noteq> None \<and> allGood env params pagesOf es)
      (s, (h, errs)) (bindG (handleEvidence env e) (\<lambda>_. forEach (handleEvidence env) es) (s, (h, errs)))"
  proof (rule evidenceEffect_seq [where f = "\<lambda>h. lastHeightOf h es"])
    show "evidenceEffect (case evidenceTasks env params pagesOf e of None \<Rightarrow> [] | Some ts \<Rightarrow> ts) (max h (evd_BlockHeight e))
       (evidenceTasks env params pagesOf e \<noteq> None) (s, (h, errs)) (handleEvidence env e (s, (h, errs)))"
      using Cons.prems by (intro handleEvidence_effect) (auto simp: answersAll_def)
  next
    fix s' :: "('a, 'b) btcSlasher" and h' errs'
    assume "bs_world s' = bs_world s"
    with Cons.prems show "evidenceEffect (startedTasks env params pagesOf es) (lastHeightOf h' es) (allGood env params pagesOf es)
        (s', (h', errs')) (forEach (handleEvidence env) es (s', (h', errs')))"
      by (intro Cons.IH) (simp add: answersAll_def)
  qed
  then show ?case by (simp add: startedTasks_def)
qed

lemma page_eq:
  assumes "forEach (handleEvidence env) es t = (Ok (), t')"
  shows "bindG (tryG (handleEvidences env es)) (\<lambda>_. retG ()) t = (Ok (), t')"
  by (simp add: handleEvidences_def assms bindG_def tryG_def getG_def retG_def failG_def split: option.splits)

lemma pages_eq:
  assumes "answersAll env (bs_world (fst t)) params pagesOf (concat eps)"
  shows "forEach (\<lambda>es. bindG (tryG (handleEvidences env es)) (\<lambda>_. retG ())) eps t = forEach (handleEvidence env) (concat eps) t"
  using assms
proof (induction eps arbitrary: t)
  case (Cons es eps)
  obtain s h errs where t: "t = (s, (h, errs))" by (cases t) auto
  have "answersAll env (bs_world s) params pagesOf es" using Cons.prems by (auto simp: answersAll_def t)
  then have "evidenceEffect (startedTasks env params pagesOf es) (lastHeightOf h es) (allGood env params pagesOf es)
    t (forEach (handleEvidence env) es t)" unfolding t by (rule forEach_evidence_effect)
  then obtain t' where t': "forEach (handleEvidence env) es t = (Ok (), t')" and w: "bs_world (fst t') = bs_world (fst t)"
    by (auto simp: evidenceEffect_def t)
  have "forEach (\<lambda>es. bindG (tryG (handleEvidences env es)) (\<lambda>_. retG ())) eps t' = forEach (handleEvidence env) (concat eps) t'"
    using Cons.prems by (intro Cons.IH) (simp add: answersAll_def w)
  then show ?case
    by (simp add: forEach_append bindG_simps(1) [of "forEach (handleEvidence env) es" t, OF t']
        bindG_simps(1) [of "bindG (tryG (handleEvidences env es)) (\<lambda>_. retG ())" t, OF page_eq [OF t']])
qed simp

definition answersEvidence ::
  "('w, 'db, 'pub, 'spend, 'asig) slasherEnv \<Rightarrow> 'w \<Rightarrow> u64 \<Rightarrow> evidenceResponse list list \<Rightarrow> bool" where
  "answersEvidence env w startHeight eps \<longleftrightarrow>
     serves_pages (\<lambda>w'. w' = w) (sl_ListEvidences env startHeight) None eps \<and> length eps \<le> sl_fuel env"

lemma handleAll_effect:
  assumes "answersEvidence env (bs_world s) startHeight eps"
    and "answersAll env (bs_world s) params pagesOf (concat eps)"
  shows "evidenceEffect (startedTasks env params pagesOf (concat eps)) (lastHeightOf h (concat eps)) (allGood env params pagesOf (concat eps))
    (s, (h, errs)) (handleAllEvidences env startHeight (handleEvidences env) (s, (h, errs)))"
proof -
  let ?handle = "\<lambda>es. bindG (tryG (handleEvidences env es)) (\<lambda>_. retG ())"
  have "keeps (\<lambda>p. bs_world (fst p) = bs_world s) (?handle es)" if es: "es \<in> set eps" for es
  proof (unfold keeps_def, intro allI impI)
    fix t :: "('a, 'b) btcSlasher \<times> evidenceLocals" assume w: "bs_world (fst t) = bs_world s"
    obtain s' h' errs' where t: "t = (s', (h', errs'))" by (cases t) auto
    have "answersAll env (bs_world s') params pagesOf es" using assms(2) es w by (auto simp: answersAll_def t)
    from forEach_evidence_effect [OF this, of h' errs']
    obtain t' where t': "forEach (handleEvidence env) es t = (Ok (), t')" and w': "bs_world (fst t') = bs_world s'"
      by (auto simp: evidenceEffect_def t)
    show "bs_world (fst (snd (?handle es t))) = bs_world s"
      unfolding page_eq [OF t'] using w w' t by simp
  qed
  then have "handleAllEvidences env startHeight (handleEvidences env) (s, (h, errs)) = forEach ?handle eps (s, (h, errs))"
    unfolding handleAllEvidences_def using assms(1)
    by (intro pageLoop_pages [where P = "\<lambda>p. bs_world (fst p) = bs_world s"] serves_outer)
       (simp_all add: answersEvidence_def)
  also have "\<dots> = forEach (handleEvidence env) (concat eps) (s, (h, errs))"
    using assms(2) by (intro pages_eq) simp
  finally show ?thesis using forEach_evidence_effect [OF assms(2)] by simp
qed

lemma accumulated_None [simp]: "accumulated errs = None \<longleftrightarrow> errs = []"
  by (simp add: accumulated_def)

lemma process_eq:
  assumes "answersEvidence env (bs_world s) startHeight eps"
    and "answersAll env (bs_world s) params pagesOf (concat eps)"
  shows "let (r, s') = processEvidencesFromHeight env startHeight s in
    s' = s\<lparr>bs_running := bs_running s @ startedTasks env params pagesOf (concat eps)\<rparr> \<and>
    (if allGood env params pagesOf (concat eps) then r = Ok (lastHeightOf 0 (concat eps)) else \<exists>e. r = Err e)"
proof -
  obtain errs h' where e: "errs = [] \<longleftrightarrow> allGood env params pagesOf (concat eps)"
    and h': "allGood env params pagesOf (concat eps) \<longrightarrow> h' = lastHeightOf 0 (concat eps)"
    and run: "handleAllEvidences env startHeight (handleEvidences env) (s, (0, []))
      = (Ok (), (s\<lparr>bs_running := bs_running s @ startedTasks env params pagesOf (concat eps)\<rparr>, (h', errs)))"
    using handleAll_effect [OF assms, of 0 "[]"] unfolding evidenceEffect_def prod.case append_Nil by blast
  show ?thesis
    unfolding processEvidencesFromHeight_def bindG_def wrapG_def withLocal_def run
    using e h' by (auto simp: retG_def failG_def split: option.splits)
qed

text \<open>
  C7. Slashing a finality provider starts exactly one task for each of its active delegations and
  one for each unbonded delegation with a quorum of covenant signatures at the parameters of
  its own version, over all pages Babylon has, and nothing else changes.
\<close>

theorem SlashFinalityProvider_complete:
  assumes "answersDelegations env (bs_world s) sk pages" and "answersParams env (bs_world s) params"
  shows "SlashFinalityProvider env sk s = (Ok (), s\<lparr>bs_running := bs_running s @
    map (\<lambda>d. \<lparr>st_fpBTCPK = sl_pubKeyOf env sk, st_fpBTCSK = sk, st_del = d\<rparr>)
     (filter bdr_Active (concat (concat pages)) @ filter (unbondedWithQuorum params) (concat (concat pages)))\<rparr>)"
  using Slash_eq [OF assms] by (simp add: providerTasks_def)

text \<open>
  C10. A tick of the evidence loop starts the slashing tasks of every piece of evidence that can
  be processed, over all pages and past those that cannot. The height advances only when
  every single one was processed, then beyond the highest of them; the height on disk is
  then that highest one or, if the write failed, the old one.
\<close>

theorem fetchEvidences_progress:
  fixes s :: "('w, 'db) btcSlasher"
  assumes "kv_contract (sl_kv env)"
    and "answersEvidence env (bs_world s) (bs_height s) eps"
    and "answersAll env (bs_world s) params pagesOf (concat eps)"
    and "fetchEvidencesTick env s = (r, s')"
  shows "r = Ok ()
    \<and> (\<forall>e \<in> set (concat eps). \<forall>ts. evidenceTasks env params pagesOf e = Some ts \<longrightarrow> set ts \<subseteq> set (bs_running s'))
    \<and> (if (\<forall>e \<in> set (concat eps). evidenceTasks env params pagesOf e \<noteq> None) \<and> (\<exists>e \<in> set (concat eps). evd_BlockHeight e > 0)
       then \<exists>h. bs_height s' = h + 1 \<and> (\<forall>e \<in> set (concat eps). evd_BlockHeight e \<le> h) \<and> (\<exists>e \<in> set (concat eps). evd_BlockHeight e = h)
              \<and> (LastProcessedHeight (sl_kv env) (bs_db s') = (Ok (Some h), bs_db s') \<or> bs_db s' = bs_db s)
       else bs_height s' = bs_height s \<and> bs_db s' = bs_db s)"
proof -
  let ?es = "concat eps" and ?h = "lastHeightOf 0 (concat eps)"
  let ?s1 = "s\<lparr>bs_running := bs_running s @ startedTasks env params pagesOf ?es\<rparr>"
  obtain r0 where run: "processEvidencesFromHeight env (bs_height s) s = (r0, ?s1)"
    and r0: "if allGood env params pagesOf ?es then r0 = Ok ?h else \<exists>e. r0 = Err e"
    using process_eq [OF assms(2,3)] by (auto simp: Let_def split: prod.splits)
  have pos: "?h > 0 \<longleftrightarrow> (\<exists>e \<in> set ?es. evd_BlockHeight e > 0)"
    by (simp add: lastHeightOf_pos)
  have ge: "\<forall>e \<in> set ?es. evd_BlockHeight e \<le> ?h" using lastHeightOf_ge by blast
  have tasks: "\<forall>e \<in> set ?es. \<forall>ts. evidenceTasks env params pagesOf e = Some ts \<longrightarrow> set ts \<subseteq> set (bs_running s @ startedTasks env params pagesOf ?es)"
    by (force simp: startedTasks_def)
  have max_in: "\<exists>e \<in> set ?es. evd_BlockHeight e = ?h" if "?h > 0" using lastHeightOf_in [of 0 ?es] that by auto
  have upd: ?thesis if "r = Ok ()" and "s' = ?s1\<lparr>bs_height := ?h + 1, bs_db := db'\<rparr>" and "allGood env params pagesOf ?es \<and> ?h > 0"
    and "LastProcessedHeight (sl_kv env) db' = (Ok (Some ?h), db') \<or> db' = bs_db s" for db'
    unfolding if_P [OF that(3) [unfolded pos]]
  proof (intro conjI exI [of _ ?h])
    show "\<exists>e \<in> set ?es. evd_BlockHeight e = ?h" using max_in that(3) by blast
  qed (use that tasks ge in simp_all)
  show ?thesis
  proof (cases "allGood env params pagesOf ?es \<and> ?h > 0")
    case False
    then have "(\<exists>e. r0 = Err e) \<or> r0 = Ok 0" using r0 by (auto simp only: if_True if_False word_neq_0_conv [symmetric] split: if_splits)
    then have "fetchEvidencesTick env s = (Ok (), ?s1)"
      unfolding fetchEvidencesTick_def by (auto simp: run bindG_def tryG_def getG_def retG_def)
    then have "r = Ok ()" "s' = ?s1" using assms(4) by simp_all
    moreover note False [unfolded pos]
    ultimately show ?thesis using tasks by (simp only: if_False) auto
  next
    case True
    then have r0: "r0 = Ok ?h" using r0 by simp
    have eq: "fetchEvidencesTick env s = bindG (tryG (dbS (PutHeight (sl_kv env) ?h))) (\<lambda>_. retG ()) (?s1\<lparr>bs_height := ?h + 1\<rparr>)"
      using True unfolding fetchEvidencesTick_def by (simp add: run r0)
    show ?thesis
    proof (cases rule: PutHeight_cases [of "sl_kv env" ?h "bs_db s"])
      case (1 db')
      then have "s' = ?s1\<lparr>bs_height := ?h + 1, bs_db := db'\<rparr>" "r = Ok ()"
        using assms(4) by (auto simp: eq dbS_def bindG_def tryG_def retG_def)
      then show ?thesis using upd True height_read_back [OF assms(1) 1] by blast
    next
      case (2 e)
      then have "s' = ?s1\<lparr>bs_height := ?h + 1, bs_db := bs_db s\<rparr>" "r = Ok ()"
        using assms(4) by (auto simp: eq dbS_def bindG_def tryG_def retG_def)
      then show ?thesis using upd True by blast
    qed
  qed
qed

text \<open>
  Evidence that can never be processed makes the start of the daemon fail, and with it
  everything else the tracker does.
\<close>

lemma bootstrap_needs_all_evidence:
  assumes "answersEvidence env (bs_world s) h eps" and "answersAll env (bs_world s) params pagesOf (concat eps)"
    and "e \<in> set (concat eps)" and "evidenceTasks env params pagesOf e = None"
    and "bs_btcFinalizationTimeout s \<noteq> 0"
  shows "\<exists>err s'. btcslasher_Bootstrap env h s = (Err err, s')"
proof -
  let ?s0 = "if h > 0 then s\<lparr>bs_height := h\<rparr> else s"
  have w: "bs_world ?s0 = bs_world s" by simp
  have bad: "\<not> allGood env params pagesOf (concat eps)" using assms(3,4) by blast
  obtain r0 s1 where run: "processEvidencesFromHeight env h ?s0 = (r0, s1)" by force
  then have "\<exists>e. r0 = Err e"
    using process_eq [of env ?s0 h eps params pagesOf] assms(1,2) bad unfolding w by (simp only: Let_def prod.case if_False)
  then obtain e' where run: "processEvidencesFromHeight env h ?s0 = (Err e', s1)" using run by blast
  have "LoadParams env ?s0 = (Ok (), ?s0)" using assms(5) by (simp add: LoadParams_def retG_def)
  then show ?thesis
    using run by (cases "h > 0") (simp_all add: btcslasher_Bootstrap_def bindG_def wrapG_def modG_def retG_def)
qed

subsection \<open>What a reported slashing means\<close>

text \<open>
  The contract of the schedule: at most one event arrives from each of the two attempts, and it
  is the result of a run of that attempt; the context is done only when the slasher is quitting;
  the state changes only as the attempts change it.
\<close>

definition arrivesFrom :: "(bool \<Rightarrow> ('s, hash) prog) \<Rightarrow> bool \<Rightarrow> raceEvent \<Rightarrow> bool" where
  "arrivesFrom attempt b ev \<longleftrightarrow> (\<exists>t t'. case ev of
       TxHashArrives h \<Rightarrow> attempt b t = (Ok h, t')
     | ErrArrives e \<Rightarrow> attempt b t = (Err e, t')
     | CtxDone \<Rightarrow> False)"

fun arrivals :: "(bool \<Rightarrow> ('s, hash) prog) \<Rightarrow> bool \<Rightarrow> raceEvent list \<Rightarrow> bool" where
  "arrivals attempt b [] = True"
| "arrivals attempt b [x] = arrivesFrom attempt b x"
| "arrivals attempt b [x, y] = (arrivesFrom attempt b x \<and> arrivesFrom attempt (\<not> b) y)"
| "arrivals attempt b _ = False"

definition race_contract :: "('s \<Rightarrow> bool) \<Rightarrow> ((bool \<Rightarrow> ('s, hash) prog) \<Rightarrow> ('s, raceEvent list) prog) \<Rightarrow> bool" where
  "race_contract quitting race \<longleftrightarrow>
     (\<forall>attempt I. (\<forall>b. keeps I (attempt b)) \<longrightarrow> keeps I (race attempt)) \<and>
     (\<forall>attempt s evs s'. race attempt s = (Ok evs, s') \<longrightarrow> (\<exists>b. arrivals attempt b (filter (\<lambda>ev. ev \<noteq> CtxDone) evs)) \<and> (CtxDone \<in> set evs \<longrightarrow> quitting s'))"

text \<open>The hash of the slashing transaction of one path, as the delegation names it.\<close>

definition slashingHashIs :: "('w, 'db, 'pub, 'spend, 'asig) slasherEnv \<Rightarrow> btcDelegationResponse \<Rightarrow> bool \<Rightarrow> hash \<Rightarrow> bool" where
  "slashingHashIs env d isUnbonding h \<longleftrightarrow> (\<exists>hex tx.
     (if isUnbonding then \<exists>u. bdr_UndelegationResponse d = Some u \<and> hex = ud_SlashingTxHex u else hex = bdr_SlashingTxHex d)
     \<and> sl_NewBTCSlashingTxFromHex env hex = Inr tx \<and> sl_MustGetTxHash env tx = Ok h)"

text \<open>The transaction was in the chain, and the tip at least \<open>k\<close> above it, modulo \<open>2 ^ 32\<close>.\<close>

definition seenDeep :: "('w, 'db, 'pub, 'spend, 'asig) slasherEnv \<Rightarrow> hash \<Rightarrow> bytes \<Rightarrow> u32 \<Rightarrow> bool" where
  "seenDeep env h pkScript k \<longleftrightarrow> (\<exists>w w' w'' bh tip. sl_TxDetails env h pkScript w = (Ok (Some bh, TxInChain), w')
     \<and> sl_GetBestBlock env w' = (Ok tip, w'') \<and> tip - bh \<ge> k)"

definition outputWasSpendable :: "('w, 'db, 'pub, 'spend, 'asig) slasherEnv \<Rightarrow> btcDelegationResponse \<Rightarrow> bool \<Rightarrow> bool" where
  "outputWasSpendable env d isUnbonding \<longleftrightarrow> (\<exists>bs tx w w' out.
     (if isUnbonding then \<exists>u. bdr_UndelegationResponse d = Some u \<and> hexDecode (ud_UnbondingTxHex u) = Inr bs
      else hexDecode (bdr_StakingTxHex d) = Inr bs)
     \<and> sl_NewBTCTxFromBytes env bs = Inr tx
     \<and> sl_GetTxOut env (sl_TxHash env tx) (if isUnbonding then 0 else bdr_StakingOutputIdx d) True w = (Ok (Some out), w'))"

definition slashedOnBitcoin ::
  "('w, 'db, 'pub, 'spend, 'asig) slasherEnv \<Rightarrow> privKey \<Rightarrow> btcDelegationResponse \<Rightarrow> bool \<Rightarrow> hash \<Rightarrow> bool" where
  "slashedOnBitcoin env sk d isUnbonding h \<longleftrightarrow>
     (slashingHashIs env d isUnbonding h \<and> (\<exists>w w' tx. sl_GetRawTransaction env h w = (Ok tx, w')))
     \<or> (outputWasSpendable env d isUnbonding \<and> (\<exists>bsParams tx out outs w w' k t.
          (if isUnbonding then BuildUnbondingSlashingTxWithWitness env d bsParams sk else BuildSlashingTxWithWitness env d bsParams sk) t
            = (Ok tx, t :: ('w, 'db) btcSlasher)
          \<and> sl_SendRawTransaction env tx w = (Ok h, w') \<and> tx_TxOut tx = out # outs
          \<and> seenDeep env h (out_PkScript out) k
          \<and> (\<exists>w w' f. sl_BTCCheckpointParams env w = (Ok (f, k), w'))))"

lemma rpcS_Ok: "rpcS m s = (Ok x, s') \<Longrightarrow> \<exists>w'. m (bs_world s) = (Ok x, w') \<and> s' = s\<lparr>bs_world := w'\<rparr>"
  by (auto simp: rpcS_def zoomG_def split: prod.splits)

lemma kDeep_seen:
  assumes "kDeepAttempt env h pk k t = (Ok (), t')"
  shows "seenDeep env h pk k"
  using assms unfolding kDeepAttempt_def seenDeep_def
  by (fastforce elim!: bindG_Ok_E dest!: rpcS_Ok split: prod.splits if_splits)

lemma spendable_seen:
  assumes "outputSpendable env d b s = (Ok True, s')"
  shows "outputWasSpendable env d b"
  using assms unfolding outputSpendable_def outputWasSpendable_def isTaprootOutputSpendable_def
  by (fastforce elim!: bindG_Ok_E dest!: rpcS_Ok split: if_splits option.splits)

lemma keeps_build:
  "keeps I (BuildUnbondingSlashingTxWithWitness env d bsParams sk)" "keeps I (BuildSlashingTxWithWitness env d bsParams sk)"
  unfolding BuildUnbondingSlashingTxWithWitness_def BuildSlashingTxWithWitness_def buildSlashingTxWithWitness_def
  by (intro keeps_rules)+

lemma submit_Ok:
  assumes "retry_ctx_contract (sl_retryUnit env)" and "submitSlashingTx env sk d b s = (Ok h, s')"
    and "outputWasSpendable env d b"
  shows "slashedOnBitcoin env sk d b h"
proof -
  from assms(2) obtain bsParams tx s1 s2 s3 s4 f k out outs where
    built: "(if b then BuildUnbondingSlashingTxWithWitness env d bsParams sk else BuildSlashingTxWithWitness env d bsParams sk) s1 = (Ok tx, s2)"
    and sent: "rpcS (sl_SendRawTransaction env tx) s2 = (Ok h, s3)"
    and par: "rpcS (sl_BTCCheckpointParams env) s3 = (Ok (f, k), s4)"
    and out: "tx_TxOut tx = out # outs"
    and wait: "waitForTxKDeep env h (out_PkScript out) k s4 = (Ok (), s')"
    unfolding submitSlashingTx_def
    by (auto elim!: bindG_Ok_E simp: tryG_Ok_iff split: sum.splits list.splits prod.splits)
  have "(if b then BuildUnbondingSlashingTxWithWitness env d bsParams sk else BuildSlashingTxWithWitness env d bsParams sk) s1 = (Ok tx, s1)"
    using built keepsD [OF keeps_if [OF keeps_build], of "\<lambda>t. t = s1" s1 b] by (metis (no_types, lifting))
  moreover from retry_ctx_ok [OF assms(1) wait [unfolded waitForTxKDeep_def]]
  have "seenDeep env h (out_PkScript out) k" using kDeep_seen by blast
  ultimately show ?thesis
    using assms(3) rpcS_Ok [OF sent] rpcS_Ok [OF par] out unfolding slashedOnBitcoin_def by blast
qed

lemma sendSlashingTx_Ok:
  assumes "retry_ctx_contract (sl_retryUnit env)" and "sendSlashingTx env sk d b s = (Ok h, s')"
  shows "slashedOnBitcoin env sk d b h"
proof -
  from assms(2) obtain hex tx h0 s1 submitted where
    hex: "slashingTxHexOf d b s = (Ok hex, s)" "sl_NewBTCSlashingTxFromHex env hex = Inr tx" "sl_MustGetTxHash env tx = Ok h0"
    and known: "isTxSubmittedToBitcoin env h0 s = (Ok submitted, s1)"
    and rest: "(if submitted then retG h0
       else bindG (outputSpendable env d b) (\<lambda>spendable.
         if \<not> spendable then failG (wrapf ''the staking/unbonding tx is not slashable: '' (sentinelErr ErrNotSlashable))
         else submitSlashingTx env sk d b)) s1 = (Ok h, s')"
    unfolding sendSlashingTx_def by (auto elim!: bindG_Ok_E simp: slashingTxHexOf_def split: if_splits)
  have is_h0: "slashingHashIs env d b h0"
    using hex by (auto simp: slashingHashIs_def slashingTxHexOf_def elim!: bindG_Ok_E split: if_splits)
  show ?thesis
  proof (cases submitted)
    case True
    then obtain x where "rpcS (sl_GetRawTransaction env h0) s = (Ok x, s1)"
      using known by (auto simp: isTxSubmittedToBitcoin_def tryG_Ok_iff elim!: bindG_Ok_E split: sum.splits)
    with True rest is_h0 rpcS_Ok show ?thesis by (fastforce simp: slashedOnBitcoin_def)
  next
    case False
    with rest obtain s2 where "outputSpendable env d b s1 = (Ok True, s2)" "submitSlashingTx env sk d b s2 = (Ok h, s')"
      by (auto elim!: bindG_Ok_E split: if_splits)
    then show ?thesis using submit_Ok [OF assms(1)] spendable_seen by blast
  qed
qed

lemma firstArrival_filter: "CtxDone \<notin> set evs \<Longrightarrow> filter (\<lambda>ev. ev \<noteq> CtxDone) evs = evs"
  by (induction evs) auto

definition failsWith :: "(bool \<Rightarrow> ('s, hash) prog) \<Rightarrow> bool \<Rightarrow> sentinel \<Rightarrow> bool" where
  "failsWith attempt b t \<longleftrightarrow> (\<exists>e s s'. attempt b s = (Err e, s') \<and> errors_is e t)"

lemma multiAppend_is [simp]: "errors_is (multiAppend e1 e2) t \<longleftrightarrow> errors_is e1 t \<or> errors_is e2 t"
  by (simp add: multiAppend_def errors_is_def)

lemma arrival_decides:
  assumes "arrivals attempt b evs" and "CtxDone \<notin> set evs" and "firstArrival evs = Some (txHash, err)"
  shows "(\<forall>h. txHash = Some h \<longrightarrow> err = None \<and> (\<exists>b t t'. attempt b t = (Ok h, t')))
    \<and> (txHash = None \<and> ignoreCanceled err = None \<longrightarrow>
        (\<forall>b. failsWith attempt b ErrNotSlashable) \<or> (\<exists>b. failsWith attempt b ErrContextCanceled))"
  using assms
proof (cases evs)
  case (Cons x xs)
  show ?thesis
  proof (cases x)
    case (TxHashArrives h)
    with Cons assms show ?thesis by (cases xs; cases "tl xs") (auto simp: arrivesFrom_def)
  next
    case (ErrArrives e1)
    then obtain y where xs: "xs = [y]" using Cons assms by (cases xs; cases "tl xs") auto
    show ?thesis
    proof (cases y)
      case (TxHashArrives h)
      with Cons xs ErrArrives assms show ?thesis by (auto simp: arrivesFrom_def)
    next
      case (ErrArrives e2)
      with Cons xs \<open>x = ErrArrives e1\<close> assms
      have a: "\<exists>t t'. attempt b t = (Err e1, t')" "\<exists>t t'. attempt (\<not> b) t = (Err e2, t')"
        and r: "txHash = None" "err = (if errors_is e1 ErrNotSlashable \<and> errors_is e2 ErrNotSlashable then None else Some (multiAppend e1 e2))"
        by (auto simp: arrivesFrom_def)
      from a have f: "errors_is e1 t \<Longrightarrow> failsWith attempt b t" "errors_is e2 t \<Longrightarrow> failsWith attempt (\<not> b) t" for t
        by (auto simp: failsWith_def)
      show ?thesis
      proof (intro conjI impI)
        assume "txHash = None \<and> ignoreCanceled err = None"
        then consider "errors_is e1 ErrNotSlashable \<and> errors_is e2 ErrNotSlashable" | "errors_is e1 ErrContextCanceled \<or> errors_is e2 ErrContextCanceled"
          using r by (auto simp: ignoreCanceled_def split: if_splits)
        then show "(\<forall>b. failsWith attempt b ErrNotSlashable) \<or> (\<exists>b. failsWith attempt b ErrContextCanceled)"
        proof cases
          case 1
          then have "failsWith attempt b' ErrNotSlashable" for b' using f by (cases "b' = b") auto
          then show ?thesis by blast
        qed (use f in blast)
      qed (use r in simp)
    qed (use Cons xs assms in auto)
  qed (use Cons assms in auto)
qed simp

definition onlyWorld :: "('w, 'db) btcSlasher \<Rightarrow> ('w, 'db) btcSlasher \<Rightarrow> bool" where
  "onlyWorld s t \<longleftrightarrow> (\<exists>w. t = s\<lparr>bs_world := w\<rparr>)"

lemma onlyWorld_refl: "onlyWorld s s"
  unfolding onlyWorld_def by (rule exI [of _ "bs_world s"]) simp

lemma keeps_rpc_world [keeps_rules]: "keeps (onlyWorld s) (rpcS m)"
  unfolding rpcS_def onlyWorld_def by (rule keeps_zoomG) auto

lemma keeps_kDeep: "keeps (onlyWorld s) (kDeepAttempt env h pk k)"
  unfolding kDeepAttempt_def by (intro keeps_rules)

lemma keeps_send:
  assumes "retry_ctx_contract (sl_retryUnit env)"
  shows "keeps (onlyWorld s) (sendSlashingTx env sk d b)"
  unfolding sendSlashingTx_def slashingTxHexOf_def isTxSubmittedToBitcoin_def outputSpendable_def isTaprootOutputSpendable_def
    submitSlashingTx_def waitForTxKDeep_def
  by (intro keeps_rules keeps_build keeps_retry [OF assms] keeps_kDeep)

lemma keeps_round:
  assumes "retry_ctx_contract (sl_retryUnit env)" and "race_contract bs_quit (sl_race env)"
  shows "keeps (onlyWorld s) (slashRound env sk d)"
proof -
  have "keeps (onlyWorld s) (sl_race env (sendSlashingTx env sk d))"
    using assms(2) keeps_send [OF assms(1)] unfolding race_contract_def by blast
  then show ?thesis unfolding slashRound_def by (intro keeps_rules) 
qed


subsection \<open>Where the code goes wrong\<close>

text \<open>
  A delegation whose two outputs are both gone ends with neither transaction nor error, and the
  enforcer records it as slashed.
\<close>

lemma not_slashable_recorded:
  assumes "bdr_FpBtcPkList d \<noteq> []"
    and "firstArrival [ErrArrives (sentinelErr ErrNotSlashable), ErrArrives (sentinelErr ErrNotSlashable)] = Some (h, err)"
  shows "h = None \<and> err = None \<and> enforceResult \<lparr>sr_Del = d, sr_SlashingTxHash = h, sr_Err = err\<rparr> s
    = (Ok (), s\<lparr>bs_recorded := bs_recorded s @ [d]\<rparr>)"
  using assms by (cases "bdr_FpBtcPkList d") (auto simp: enforceResult_def modG_def)

text \<open>A tip below the block of the transaction, as after a reorganisation, passes for a depth of any \<open>k\<close>.\<close>

lemma kDeep_wraps:
  assumes "sl_TxDetails env h pk (bs_world s) = (Ok (Some 101, TxInChain), bs_world s)"
    and "sl_GetBestBlock env (bs_world s) = (Ok 100, bs_world s)"
  shows "kDeepAttempt env h pk 1000 s = (Ok (), s)"
  using assms by (simp add: kDeepAttempt_def rpcS_def zoomG_def bindG_def wrapG_def derefG_def retG_def failG_def)

text \<open>The staking time is cut to 16 bits: a delegation of 65537 blocks is built as one of a single block.\<close>

lemma staking_time_truncated:
  assumes "bdr_EndHeight d - bdr_StartHeight d = 65537"
    and "sl_NewBTCPKsFromBIP340PKs env (bdr_FpBtcPkList d) = Inr fps" and "sl_NewBTCPKsFromBIP340PKs env (bsp_CovenantPks p) = Inr cov"
    and "sl_MustToBTCPK env (bdr_BtcPk d) = Ok pk"
  shows "stakingInfoOf env d p = sumOutcome (sl_BuildStakingInfo env pk fps cov (bsp_CovenantQuorum p) 1 (sint (bdr_TotalSat d)))"
proof -
  have *: "(ucast (65537 :: u32) :: 16 word) = 1" by code_simp
  show ?thesis unfolding stakingInfoOf_def assms sum.case outcome.case * ..
qed

subsection \<open>Concrete instances\<close>

definition seqRace :: "(bool \<Rightarrow> ('s, hash) prog) \<Rightarrow> ('s, raceEvent list) prog" where
  "seqRace attempt = bindG (tryG (attempt False)) (\<lambda>r1. case r1 of
       Inr h \<Rightarrow> retG [TxHashArrives h]
     | Inl e1 \<Rightarrow> bindG (tryG (attempt True)) (\<lambda>r2.
         retG [ErrArrives e1, case r2 of Inr h \<Rightarrow> TxHashArrives h | Inl e2 \<Rightarrow> ErrArrives e2]))"

lemma seqRace_contract: "race_contract (q :: 's \<Rightarrow> bool) seqRace"
  unfolding race_contract_def
proof (intro conjI allI impI)
  fix attempt :: "bool \<Rightarrow> ('s, hash) prog" and I
  assume "\<forall>b. keeps I (attempt b)"
  then show "keeps I (seqRace attempt)" unfolding seqRace_def by (intro keeps_rules) auto
next
  fix attempt :: "bool \<Rightarrow> ('s, hash) prog" and s evs s'
  assume "seqRace attempt s = (Ok evs, s')"
  then have "arrivals attempt False evs \<and> CtxDone \<notin> set evs"
    by (fastforce simp: seqRace_def tryG_Ok_iff arrivesFrom_def elim!: bindG_Ok_E split: sum.splits)
  then show "\<exists>b. arrivals attempt b (filter (\<lambda>ev. ev \<noteq> CtxDone) evs)" and "CtxDone \<in> set evs \<Longrightarrow> q s'"
    by (auto simp: firstArrival_filter)
qed

definition sampleBTCDel :: "bool \<Rightarrow> btcDelegationResponse" where
  "sampleBTCDel active = \<lparr>bdr_BtcPk = [1], bdr_FpBtcPkList = [[7]], bdr_StartHeight = 10, bdr_EndHeight = 20, bdr_TotalSat = 1000,
     bdr_StakingTxHex = ''01'', bdr_SlashingTxHex = ''02'', bdr_DelegatorSlashSigHex = ''03'', bdr_CovenantSigs = [],
     bdr_StakingOutputIdx = 0, bdr_Active = active, bdr_StatusDesc = (if active then ''ACTIVE'' else ''unbonded''), bdr_UnbondingTime = 5,
     bdr_UndelegationResponse = Some \<lparr>ud_UnbondingTxHex = ''04'', ud_SlashingTxHex = ''05'', ud_DelegatorSlashingSigHex = ''06'',
       ud_CovenantSlashingSigs = []\<rparr>, bdr_ParamsVersion = 0\<rparr>"

definition sampleEvidence :: evidenceResponse where
  "sampleEvidence = \<lparr>evd_FpBtcPkHex = ''07'', evd_BlockHeight = 30, evd_PubRand = [], evd_CanonicalAppHash = [], evd_ForkAppHash = [],
     evd_CanonicalFinalitySig = [], evd_ForkFinalitySig = []\<rparr>"

definition samplePages :: "btcDelegationResponse list list list" where
  "samplePages = [[[sampleBTCDel True]], [[sampleBTCDel False]]]"

definition sampleSlasherEnv :: "(unit, string list \<times> ((string \<times> string), bytes) gomap, bytes, unit, bytes) slasherEnv" where
  "sampleSlasherEnv = \<lparr>sl_BTCCheckpointParams = retG (100, 6), sl_BTCStakingParamsByVersion = (\<lambda>_. retG \<lparr>bsp_CovenantPks = [], bsp_CovenantQuorum = 0\<rparr>),
     sl_FinalityProviderDelegations = (\<lambda>_ key. case key of None \<Rightarrow> retG ([[sampleBTCDel True]], Some [1]) | Some _ \<Rightarrow> retG ([[sampleBTCDel False]], None)),
     sl_ListEvidences = (\<lambda>_ _. retG ([sampleEvidence], None)),
     sl_GetRawTransaction = (\<lambda>_. failG (errorf ''unknown'')), sl_GetTxOut = (\<lambda>_ _ _. retG (Some \<lparr>out_Value = 1000, out_PkScript = []\<rparr>)),
     sl_SendRawTransaction = (\<lambda>_. retG 7), sl_TxDetails = (\<lambda>_ _. retG (Some 10, TxInChain)), sl_GetBestBlock = retG 20,
     sl_pubKeyOf = (\<lambda>_. [7]), sl_NewBIP340PubKeyFromHex = hexDecode, sl_ExtractBTCSK = (\<lambda>_. Inr 3),
     sl_NewBTCSlashingTxFromHex = hexDecode, sl_MustGetTxHash = (\<lambda>_. Ok 7), sl_NewBTCTxFromBytes = (\<lambda>_. Inr (bt_MsgTx sampleTx)),
     sl_NewBTCTxFromHex = (\<lambda>_. Inr (bt_MsgTx sampleTx)), sl_TxHash = (\<lambda>_. 8), sl_NewBTCPKsFromBIP340PKs = Inr, sl_MustToBTCPK = Ok,
     sl_BuildStakingInfo = (\<lambda>_ _ _ _ _ _. Inr (Inr ())), sl_BuildUnbondingInfo = (\<lambda>_ _ _ _ _ _. Inr (Inr ())),
     sl_GetOrderedCovenantSignatures = (\<lambda>_ _ _. Inr []), sl_NewBIP340SignatureFromHex = hexDecode,
     sl_BuildWitness = (\<lambda>_ _ _ tx _ _ _ _ _. Inr (tx\<lparr>tx_TxOut := [\<lparr>out_Value = 900, out_PkScript = []\<rparr>]\<rparr>)),
     sl_kv = sampleKv, sl_retryUnit = retrySample, sl_retryHash = retrySample, sl_race = seqRace, sl_selectSend = (\<lambda>_. False), sl_fuel = 5\<rparr>"

definition sampleSlasher :: "(unit, string list \<times> ((string \<times> string), bytes) gomap) btcSlasher" where
  "sampleSlasher = \<lparr>bs_btcFinalizationTimeout = 100, bs_height = 25, bs_slashedFPSKChan = [], bs_slashResultChan = [],
     bs_recorded = [], bs_running = [], bs_startOnce = True, bs_routines = True, bs_quit = False,
     bs_db = ([processedEvidenceHeightBucket], []), bs_world = ()\<rparr>"

abbreviation sampleStakingParams :: "u32 \<Rightarrow> stakingParams" where
  "sampleStakingParams \<equiv> \<lambda>_. \<lparr>bsp_CovenantPks = [], bsp_CovenantQuorum = 0\<rparr>"

lemma sampleSlasher_answers:
  "answersParams sampleSlasherEnv w sampleStakingParams"
  "answersDelegations sampleSlasherEnv w sk samplePages"
  by (auto simp: answersParams_def answersDelegations_def sampleSlasherEnv_def samplePages_def retG_def undelegationPresent_def sampleBTCDel_def)

lemma sampleSlasher_evidence:
  "answersEvidence sampleSlasherEnv w h [[sampleEvidence]]"
  "answersAll sampleSlasherEnv w sampleStakingParams (\<lambda>_. Some samplePages) [sampleEvidence]"
  by (simp add: answersEvidence_def sampleSlasherEnv_def retG_def)
     (simp add: answersAll_def answersProvider_def sampleSlasher_answers split: option.splits)

lemma fold_sample: "equalFold ''unbonded'' statusUnbonded" "\<not> equalFold ''ACTIVE'' statusUnbonded"
  by code_simp+

theorem SlashFinalityProvider_complete_witness:
  "map st_del (bs_running (snd (SlashFinalityProvider sampleSlasherEnv 3 sampleSlasher))) = [sampleBTCDel True, sampleBTCDel False]"
  using SlashFinalityProvider_complete [OF sampleSlasher_answers(2) sampleSlasher_answers(1), of 3 sampleSlasher]
  by (simp add: samplePages_def sampleSlasher_def sampleBTCDel_def unbondedWithQuorum_def fold_sample)

theorem fetchEvidences_progress_witness:
  "let s' = snd (fetchEvidencesTick sampleSlasherEnv sampleSlasher) in
     bs_height s' = 31 \<and> (\<exists>t \<in> set (bs_running s'). st_del t = sampleBTCDel True)"
proof -
  obtain r s' where run: "fetchEvidencesTick sampleSlasherEnv sampleSlasher = (r, s')" by force
  have kv: "kv_contract (sl_kv sampleSlasherEnv)" by (simp add: sampleSlasherEnv_def sampleKv_contract)
  let ?ts = "providerTasks sampleSlasherEnv sampleStakingParams 3 samplePages"
  have ts: "evidenceTasks sampleSlasherEnv sampleStakingParams (\<lambda>_. Some samplePages) sampleEvidence = Some ?ts"
    by (simp add: evidenceTasks_def evidenceKey_def sampleEvidence_def sampleSlasherEnv_def hexVal_def)
  have "\<exists>t \<in> set ?ts. st_del t = sampleBTCDel True"
    by (simp add: providerTasks_def samplePages_def sampleBTCDel_def)
  moreover have hgt: "evd_BlockHeight sampleEvidence = 30" by (simp add: sampleEvidence_def)
  moreover note fetchEvidences_progress [OF kv sampleSlasher_evidence(1) _ run, of sampleStakingParams "\<lambda>_. Some samplePages",
      simplified, OF sampleSlasher_evidence(2)]
  ultimately show ?thesis unfolding run Let_def using ts by auto
qed

lemma sample_slash_run:
  "\<exists>s'. slashBTCDelegation sampleSlasherEnv 3 (sampleBTCDel True) sampleSlasher = (Ok (), s')
    \<and> (\<exists>r. bs_slashResultChan s' = [r] \<and> sr_SlashingTxHash r = Some 7)"
proof -
  have "fst (sendSlashingTx sampleSlasherEnv 3 (sampleBTCDel True) False sampleSlasher) = Ok 7"
    by (simp add: sendSlashingTx_def slashingTxHexOf_def sumG_def liftG_def sumOutcome_def isTxSubmittedToBitcoin_def outputSpendable_def
        isTaprootOutputSpendable_def submitSlashingTx_def BuildSlashingTxWithWitness_def buildSlashingTxWithWitness_def stakingInfoOf_def
        findFPIdxForCovenantSignatures_def waitForTxKDeep_def kDeepAttempt_def derefG_def rpcS_def zoomG_def
        sampleSlasherEnv_def sampleBTCDel_def sampleSlasher_def hexVal_def bindG_def tryG_def wrapG_def retG_def failG_def
        retrySample_def sampleTx_def)
  then obtain s1 where "sendSlashingTx sampleSlasherEnv 3 (sampleBTCDel True) False sampleSlasher = (Ok 7, s1)"
    by (metis prod.collapse)
  moreover from this have "onlyWorld sampleSlasher s1"
    using keepsD [OF keeps_send onlyWorld_refl, of sampleSlasherEnv 3 "sampleBTCDel True" False sampleSlasher]
    by (simp add: sampleSlasherEnv_def retrySample_ctx)
  ultimately show ?thesis
    by (auto simp: slashBTCDelegation_def slashRound_def retrySample_def seqRace_def bindG_def tryG_def retG_def ignoreCanceled_def
        pushResult_def PushOrQuit_def modG_def onlyWorld_def sampleSlasherEnv_def [THEN arg_cong, of sl_race] sampleSlasherEnv_def [THEN arg_cong, of sl_retryHash] sampleSlasher_def)
qed


end
