(* ===== verification/Atomic_Slasher.thy ===== *)
theory Atomic_Slasher
  imports Btc_Slasher Ckpt_Bookkeeper
begin

text \<open>
  The atomic slasher, \<open>btcstaking-tracker/atomicslasher\<close>: it watches Bitcoin for the slashing
  transactions of the delegations Babylon knows. Such a transaction reveals the secret key of
  the finality provider that published it; the key is reported to Babylon and handed to the
  BTC slasher, which then slashes all delegations of that provider.

  The three goroutines share the index of delegations and a channel; a handler is one iteration
  of a goroutine's loop. Babylon, Bitcoin, signatures and the retry library are the fields of
  \<open>atomicEnv\<close>. Metrics other than the gauge of tracked delegations are left out.
\<close>

subsection \<open>The index of delegations\<close>

datatype slashingPath = SlashStakingTx | SlashUnbondingTx

record slashingTxInfo =
  sti_path :: slashingPath
  sti_StakingTxHash :: hash
  sti_SlashingMsgTx :: msgTx

definition NewSlashingTxInfo :: "slashingPath \<Rightarrow> hash \<Rightarrow> msgTx \<Rightarrow> slashingTxInfo" where
  "NewSlashingTxInfo path stakingTxHash slashingMsgTx =
     \<lparr>sti_path = path, sti_StakingTxHash = stakingTxHash, sti_SlashingMsgTx = slashingMsgTx\<rparr>"

definition IsSlashStakingTx :: "slashingTxInfo \<Rightarrow> bool" where
  "IsSlashStakingTx s \<longleftrightarrow> sti_path s = SlashStakingTx"

record trackedBTCDelegation =
  atd_StakingTxHash :: hash
  atd_SlashingTxHash :: hash
  atd_UnbondingSlashingTxHash :: hash

record btcDelegationIndex =
  bdi_delMap :: "(hash, trackedBTCDelegation) gomap"
  bdi_slashingTxMap :: "(hash, hash) gomap"
  bdi_unbondingSlashingTxMap :: "(hash, hash) gomap"

definition NewBTCDelegationIndex :: btcDelegationIndex where
  "NewBTCDelegationIndex = \<lparr>bdi_delMap = [], bdi_slashingTxMap = [], bdi_unbondingSlashingTxMap = []\<rparr>"

definition bdi_Get :: "btcDelegationIndex \<Rightarrow> hash \<Rightarrow> trackedBTCDelegation option" where
  "bdi_Get bdi stakingTxHash = map_of (bdi_delMap bdi) stakingTxHash"

definition bdi_Add :: "trackedBTCDelegation \<Rightarrow> btcDelegationIndex \<Rightarrow> bool \<times> btcDelegationIndex" where
  "bdi_Add d bdi = (case map_of (bdi_delMap bdi) (atd_StakingTxHash d) of
       Some _ \<Rightarrow> (False, bdi)
     | None \<Rightarrow> (True,
         \<lparr>bdi_delMap = AList.update (atd_StakingTxHash d) d (bdi_delMap bdi),
          bdi_slashingTxMap = AList.update (atd_SlashingTxHash d) (atd_StakingTxHash d) (bdi_slashingTxMap bdi),
          bdi_unbondingSlashingTxMap = AList.update (atd_UnbondingSlashingTxHash d) (atd_StakingTxHash d) (bdi_unbondingSlashingTxMap bdi)\<rparr>))"

definition bdi_Remove :: "hash \<Rightarrow> btcDelegationIndex \<Rightarrow> btcDelegationIndex" where
  "bdi_Remove stakingTxHash bdi = (case map_of (bdi_delMap bdi) stakingTxHash of
       None \<Rightarrow> bdi
     | Some d \<Rightarrow>
         \<lparr>bdi_delMap = AList.delete stakingTxHash (bdi_delMap bdi),
          bdi_slashingTxMap = AList.delete (atd_SlashingTxHash d) (bdi_slashingTxMap bdi),
          bdi_unbondingSlashingTxMap = AList.delete (atd_UnbondingSlashingTxHash d) (bdi_unbondingSlashingTxMap bdi)\<rparr>)"

text \<open>A nil delegation and \<open>-1\<close> are \<open>None\<close>; so is an entry of the table that points to no delegation.\<close>

definition FindSlashedBTCDelegation :: "btcDelegationIndex \<Rightarrow> hash \<Rightarrow> (trackedBTCDelegation \<times> slashingPath) option" where
  "FindSlashedBTCDelegation bdi txHash = (case map_of (bdi_slashingTxMap bdi) txHash of
       Some stakingTxHash \<Rightarrow> map_option (\<lambda>d. (d, SlashStakingTx)) (map_of (bdi_delMap bdi) stakingTxHash)
     | None \<Rightarrow> (case map_of (bdi_unbondingSlashingTxMap bdi) txHash of
         Some stakingTxHash \<Rightarrow> map_option (\<lambda>d. (d, SlashUnbondingTx)) (map_of (bdi_delMap bdi) stakingTxHash)
       | None \<Rightarrow> None))"

subsection \<open>State\<close>

record 'w atomicSlasher =
  as_btcTipHeight :: u32
  as_btcDelIndex :: btcDelegationIndex
  as_slashingTxChan :: "slashingTxInfo list"
  as_slashingTxChanClosed :: bool
  as_slashedFPSKChan :: "privKey list"
  as_trackedGauge :: int
  as_routines :: bool
  as_quit :: bool
  as_world :: 'w

record ('w, 'ssig, 'asig) atomicEnv =
  ae_FinalityProvider :: "string \<Rightarrow> ('w, u64) prog"
  ae_BTCDelegations :: "bytes option \<Rightarrow> ('w, btcDelegationResponse list \<times> bytes option) prog"
  ae_BTCDelegation :: "string \<Rightarrow> ('w, btcDelegationResponse) prog"
  ae_BTCStakingParamsByVersion :: "u32 \<Rightarrow> ('w, stakingParams) prog"
  ae_ReliablySendMsg :: "string \<Rightarrow> bytes \<Rightarrow> ('w, unit) prog"
  ae_MustGetAddr :: string
  ae_GetBlockByHash :: "hash \<Rightarrow> ('w, msgBlock) prog"
  ae_hashStr :: "hash \<Rightarrow> string"
  ae_TxHash :: "msgTx \<Rightarrow> hash"
  ae_NewBTCTxFromHex :: "string \<Rightarrow> goerr + msgTx"
  ae_NewBTCSlashingTxFromHex :: "string \<Rightarrow> goerr + bytes"
  ae_ToMsgTx :: "bytes \<Rightarrow> goerr + msgTx"
  ae_SortBIP340PKs :: "bytes list \<Rightarrow> bytes list"
  ae_NewBIP340Signature :: "bytes \<Rightarrow> goerr + bytes"
  ae_ToBTCSig :: "bytes \<Rightarrow> goerr + 'ssig"
  ae_NewAdaptorSignatureFromBytes :: "bytes \<Rightarrow> goerr + 'asig"
  ae_Extract :: "'asig \<Rightarrow> 'ssig \<Rightarrow> goerr + privKey"
  ae_pubKeyOf :: "privKey \<Rightarrow> bytes"
  ae_Serialize :: "privKey \<Rightarrow> bytes"
  ae_maxRetryTimes :: nat
  ae_retryParams :: "('w atomicSlasher, stakingParams) retryDo"
  ae_retryDelegation :: "('w atomicSlasher, btcDelegationResponse) retryDo"
  ae_fuel :: nat

definition rpcA :: "('w, 'a) prog \<Rightarrow> ('w atomicSlasher, 'a) prog" where
  "rpcA m = zoomG as_world (\<lambda>w s. s\<lparr>as_world := w\<rparr>) m"

definition atomicslasher_New :: "'w \<Rightarrow> 'w atomicSlasher" where
  "atomicslasher_New w = \<lparr>as_btcTipHeight = 0, as_btcDelIndex = NewBTCDelegationIndex, as_slashingTxChan = [],
     as_slashingTxChanClosed = False, as_slashedFPSKChan = [], as_trackedGauge = 0, as_routines = False, as_quit = False, as_world = w\<rparr>"

definition atomicslasher_Start :: "('w atomicSlasher, unit) prog" where
  "atomicslasher_Start = modG (\<lambda>s. s\<lparr>as_routines := True\<rparr>)"

text \<open>The channel is closed before the goroutine that sends on it has ended.\<close>

definition atomicslasher_Stop :: "('w atomicSlasher, unit) prog" where
  "atomicslasher_Stop = modG (\<lambda>s. s\<lparr>as_quit := True, as_slashingTxChanClosed := True\<rparr>)"

subsection \<open>The Babylon adapter\<close>

definition ba_BTCStakingParams :: "('w, 'ssig, 'asig) atomicEnv \<Rightarrow> u32 \<Rightarrow> ('w atomicSlasher, stakingParams) prog" where
  "ba_BTCStakingParams env version =
     ae_retryParams env (Some (ae_maxRetryTimes env)) (\<lambda>_. True) (rpcA (ae_BTCStakingParamsByVersion env version))"

definition ba_BTCDelegation :: "('w, 'ssig, 'asig) atomicEnv \<Rightarrow> string \<Rightarrow> ('w atomicSlasher, btcDelegationResponse) prog" where
  "ba_BTCDelegation env stakingTxHashHex =
     ae_retryDelegation env (Some (ae_maxRetryTimes env)) (\<lambda>_. True) (rpcA (ae_BTCDelegation env stakingTxHashHex))"

text \<open>An error of the callback is logged, and the next delegation is handled.\<close>

definition HandleAllBTCDelegations ::
  "('w, 'ssig, 'asig) atomicEnv \<Rightarrow> (btcDelegationResponse \<Rightarrow> ('w atomicSlasher, unit) prog) \<Rightarrow> ('w atomicSlasher, unit) prog" where
  "HandleAllBTCDelegations env handleFunc = pageLoop (ae_fuel env)
     (\<lambda>key. wrapG ''failed to get BTC delegations: '' (rpcA (ae_BTCDelegations env key)))
     (\<lambda>dels. forEach (\<lambda>d. bindG (tryG (handleFunc d)) (\<lambda>_. retG ())) dels) None"

definition IsFPSlashed :: "('w, 'ssig, 'asig) atomicEnv \<Rightarrow> bytes option \<Rightarrow> ('w atomicSlasher, bool) prog" where
  "IsFPSlashed env fpBTCPK = bindG (derefG fpBTCPK) (\<lambda>pk.
     bindG (rpcA (ae_FinalityProvider env (hexEncode pk))) (\<lambda>slashedBabylonHeight. retG (slashedBabylonHeight > 0)))"

definition ReportSelectiveSlashing :: "('w, 'ssig, 'asig) atomicEnv \<Rightarrow> privKey \<Rightarrow> ('w atomicSlasher, unit) prog" where
  "ReportSelectiveSlashing env fpBTCSK = rpcA (ae_ReliablySendMsg env (ae_MustGetAddr env) (ae_Serialize env fpBTCSK))"

subsection \<open>Tracking delegations\<close>

definition NewTrackedBTCDelegation :: "('w, 'ssig, 'asig) atomicEnv \<Rightarrow> btcDelegationResponse \<Rightarrow> ('s, trackedBTCDelegation) prog" where
  "NewTrackedBTCDelegation env btcDel =
     bindG (sumG (ae_NewBTCTxFromHex env (bdr_StakingTxHex btcDel))) (\<lambda>stakingTx.
     bindG (sumG (ae_NewBTCSlashingTxFromHex env (bdr_SlashingTxHex btcDel))) (\<lambda>slashTx.
     bindG (sumG (ae_ToMsgTx env slashTx)) (\<lambda>slashingTx.
     bindG (derefG (bdr_UndelegationResponse btcDel)) (\<lambda>u.
     bindG (sumG (ae_NewBTCSlashingTxFromHex env (ud_SlashingTxHex u))) (\<lambda>unbondingSlashTx.
     bindG (sumG (ae_ToMsgTx env unbondingSlashTx)) (\<lambda>unbondingSlashingTx.
       retG \<lparr>atd_StakingTxHash = ae_TxHash env stakingTx, atd_SlashingTxHash = ae_TxHash env slashingTx,
         atd_UnbondingSlashingTxHash = ae_TxHash env unbondingSlashingTx\<rparr>))))))"

definition trackBTCDelegation :: "('w, 'ssig, 'asig) atomicEnv \<Rightarrow> btcDelegationResponse \<Rightarrow> ('w atomicSlasher, unit) prog" where
  "trackBTCDelegation env btcDel = bindG (NewTrackedBTCDelegation env btcDel) (\<lambda>trackedDel.
     modG (\<lambda>s. case bdi_Add trackedDel (as_btcDelIndex s) of
       (True, bdi) \<Rightarrow> s\<lparr>as_btcDelIndex := bdi, as_trackedGauge := as_trackedGauge s + 1\<rparr>
     | (False, bdi) \<Rightarrow> s\<lparr>as_btcDelIndex := bdi\<rparr>))"

definition btcDelegationTick :: "('w, 'ssig, 'asig) atomicEnv \<Rightarrow> ('w atomicSlasher, unit) prog" where
  "btcDelegationTick env = bindG (tryG (HandleAllBTCDelegations env (trackBTCDelegation env))) (\<lambda>_. retG ())"

subsection \<open>Watching Bitcoin\<close>

text \<open>
  Sending on the channel, in a \<open>select\<close> with \<open>quit\<close>: once both are closed either case can be
  taken, and sending on a closed channel panics. \<open>send\<close> is the choice of the runtime then.
  The result says whether the goroutine goes on.
\<close>

definition enqueueSlashingTx :: "bool \<Rightarrow> slashingTxInfo \<Rightarrow> ('w atomicSlasher, bool) prog" where
  "enqueueSlashingTx send info s =
     (if as_quit s \<and> \<not> send then (Ok False, s)
      else if as_slashingTxChanClosed s then (Panic ''send on closed channel'', s)
      else (Ok True, s\<lparr>as_slashingTxChan := as_slashingTxChan s @ [info]\<rparr>))"

fun filterSlashingTxs :: "('w, 'ssig, 'asig) atomicEnv \<Rightarrow> bool \<Rightarrow> msgTx list \<Rightarrow> ('w atomicSlasher, bool) prog" where
  "filterSlashingTxs env send [] = retG True"
| "filterSlashingTxs env send (tx # txs) =
     bindG (getG as_btcDelIndex) (\<lambda>bdi. case FindSlashedBTCDelegation bdi (ae_TxHash env tx) of
       None \<Rightarrow> filterSlashingTxs env send txs
     | Some (d, path) \<Rightarrow> bindG (enqueueSlashingTx send (NewSlashingTxInfo path (atd_StakingTxHash d) tx)) (\<lambda>continue.
         if continue then filterSlashingTxs env send txs else retG False))"

definition slashingTxTracker_block :: "('w, 'ssig, 'asig) atomicEnv \<Rightarrow> bool \<Rightarrow> int \<Rightarrow> hash \<Rightarrow> ('w atomicSlasher, bool) prog" where
  "slashingTxTracker_block env send height blockHash =
     (if height < 0 then panicG ''received negative block height''
      else bindG (modG (\<lambda>s. s\<lparr>as_btcTipHeight := word_of_int height\<rparr>)) (\<lambda>_.
        bindG (tryG (rpcA (ae_GetBlockByHash env blockHash))) (\<lambda>r. case r of
          Inl _ \<Rightarrow> retG True
        | Inr block \<Rightarrow> filterSlashingTxs env send (mb_Transactions block))))"

subsection \<open>Extracting the key\<close>

text \<open>The signatures are stored under the key at the same position of the unsorted list.\<close>

fun covSigs :: "('w, 'ssig, 'asig) atomicEnv \<Rightarrow> bytes list \<Rightarrow> nat \<Rightarrow> bytes list \<Rightarrow> (string, bytes) gomap \<Rightarrow> (string, bytes) gomap outcome" where
  "covSigs env covPKs i [] covSigMap = Ok covSigMap"
| "covSigs env covPKs i (item # items) covSigMap =
     (if item = [] then covSigs env covPKs (Suc i) items covSigMap
      else case ae_NewBIP340Signature env item of
        Inl err \<Rightarrow> Err err
      | Inr sig \<Rightarrow> if i < length covPKs
          then covSigs env covPKs (Suc i) items (AList.update (hexEncode (covPKs ! i)) sig covSigMap)
          else Panic ''index out of range'')"

fun firstFP :: "bytes list \<Rightarrow> nat \<Rightarrow> bytes list \<Rightarrow> (nat \<times> bytes option) outcome" where
  "firstFP fpPKs i [] = Ok (0, None)"
| "firstFP fpPKs i (item # items) =
     (if item \<noteq> [] then (if i < length fpPKs then Ok (i, Some (fpPKs ! i)) else Panic ''index out of range'')
      else firstFP fpPKs (Suc i) items)"

definition parseSlashingTxWitness ::
  "('w, 'ssig, 'asig) atomicEnv \<Rightarrow> bytes list \<Rightarrow> bytes list \<Rightarrow> bytes list \<Rightarrow> ((string, bytes) gomap \<times> nat \<times> bytes option) outcome" where
  "parseSlashingTxWitness env witnessStack covPKs fpPKs =
     (let orderedCovPKs = ae_SortBIP340PKs env covPKs; orderedfpPKs = ae_SortBIP340PKs env fpPKs in
      if length witnessStack < length orderedCovPKs then Panic ''slice bounds out of range''
      else case covSigs env covPKs 0 (take (length orderedCovPKs) witnessStack) [] of
        Ok covSigMap \<Rightarrow>
          if length witnessStack < length orderedCovPKs + length orderedfpPKs then Panic ''slice bounds out of range''
          else (case firstFP fpPKs 0 (take (length orderedfpPKs) (drop (length orderedCovPKs) witnessStack)) of
              Ok (fpIdx, fpPK) \<Rightarrow> Ok (covSigMap, fpIdx, fpPK)
            | Err e \<Rightarrow> Err e | Panic p \<Rightarrow> Panic p | NoFuel \<Rightarrow> NoFuel)
      | Err e \<Rightarrow> Err e | Panic p \<Rightarrow> Panic p | NoFuel \<Rightarrow> NoFuel)"

fun tryExtractFPSK ::
  "('w, 'ssig, 'asig) atomicEnv \<Rightarrow> (string, bytes) gomap \<Rightarrow> nat \<Rightarrow> bytes \<Rightarrow> covenantAdaptorSigs list \<Rightarrow> privKey outcome" where
  "tryExtractFPSK env covSigMap fpIdx fpPK [] = Err (errorf ''failed to extract finality provider's SK'')"
| "tryExtractFPSK env covSigMap fpIdx fpPK (covASigList # rest) =
     (case map_of covSigMap (hexEncode (cas_CovPk covASigList)) of
        None \<Rightarrow> tryExtractFPSK env covSigMap fpIdx fpPK rest
      | Some covSchnorrSig \<Rightarrow> (case ae_ToBTCSig env covSchnorrSig of
          Inl err \<Rightarrow> Err err
        | Inr covSchnorrBTCSig \<Rightarrow>
            if fpIdx \<ge> length (cas_AdaptorSigs covASigList) then Panic ''index out of range''
            else (case ae_NewAdaptorSignatureFromBytes env (cas_AdaptorSigs covASigList ! fpIdx) of
              Inl err \<Rightarrow> Err err
            | Inr covAdaptorSig \<Rightarrow> (case ae_Extract env covAdaptorSig covSchnorrBTCSig of
                Inl err \<Rightarrow> Err err
              | Inr fpSK \<Rightarrow> if fpPK \<noteq> ae_pubKeyOf env fpSK then tryExtractFPSK env covSigMap fpIdx fpPK rest
                  else Ok fpSK))))"

subsection \<open>Reporting selective slashing\<close>

definition slashedKeyOf ::
  "('w, 'ssig, 'asig) atomicEnv \<Rightarrow> slashingTxInfo \<Rightarrow> btcDelegationResponse \<Rightarrow> (string, bytes) gomap \<Rightarrow> nat \<Rightarrow> bytes
    \<Rightarrow> ('s, privKey) prog" where
  "slashedKeyOf env info del covSigMap fpIdx fpPK =
     (if IsSlashStakingTx info then liftG (tryExtractFPSK env covSigMap fpIdx fpPK (bdr_CovenantSigs del))
      else bindG (derefG (bdr_UndelegationResponse del)) (\<lambda>u.
        liftG (tryExtractFPSK env covSigMap fpIdx fpPK (ud_CovenantSlashingSigs u))))"

text \<open>The part of an iteration up to the key; an error, or a provider slashed already, ends the iteration.\<close>

definition findSlashedKey :: "('w, 'ssig, 'asig) atomicEnv \<Rightarrow> slashingTxInfo \<Rightarrow> ('w atomicSlasher, privKey option) prog" where
  "findSlashedKey env info =
     bindG (ba_BTCDelegation env (ae_hashStr env (sti_StakingTxHash info))) (\<lambda>del.
     bindG (ba_BTCStakingParams env (bdr_ParamsVersion del)) (\<lambda>bsParams.
     bindG (case tx_TxIn (sti_SlashingMsgTx info) of [] \<Rightarrow> panicG ''index out of range'' | txIn # _ \<Rightarrow> retG (in_Witness txIn)) (\<lambda>witnessStack.
     bindG (liftG (parseSlashingTxWitness env witnessStack (bsp_CovenantPks bsParams) (bdr_FpBtcPkList del))) (\<lambda>(covSigMap, fpIdx, fpPK).
     bindG (IsFPSlashed env fpPK) (\<lambda>isSlashed.
       if isSlashed then retG None
       else bindG (derefG fpPK) (\<lambda>pk.
         bindG (slashedKeyOf env info del covSigMap fpIdx pk) (\<lambda>sk. retG (Some sk))))))))"

text \<open>An error of the report is logged; the key is handed on and the delegation forgotten all the same.\<close>

definition selectiveSlashing :: "('w, 'ssig, 'asig) atomicEnv \<Rightarrow> slashingTxInfo \<Rightarrow> ('w atomicSlasher, unit) prog" where
  "selectiveSlashing env info =
     bindG (tryG (findSlashedKey env info)) (\<lambda>r. case r of
       Inl _ \<Rightarrow> retG ()
     | Inr None \<Rightarrow> retG ()
     | Inr (Some fpSK) \<Rightarrow>
         bindG (tryG (ReportSelectiveSlashing env fpSK)) (\<lambda>_.
           modG (\<lambda>s. s\<lparr>as_slashedFPSKChan := as_slashedFPSKChan s @ [fpSK],
              as_btcDelIndex := bdi_Remove (sti_StakingTxHash info) (as_btcDelIndex s),
              as_trackedGauge := as_trackedGauge s - 1\<rparr>)))"

text \<open>The three goroutines, one iteration at a time.\<close>

inductive atomic_step :: "('w, 'ssig, 'asig) atomicEnv \<Rightarrow> 'w atomicSlasher \<Rightarrow> 'w atomicSlasher \<Rightarrow> bool" where
  delegationTick: "\<lbrakk>as_routines s; btcDelegationTick env s = (Ok (), s')\<rbrakk> \<Longrightarrow> atomic_step env s s'"
| newBlock: "\<lbrakk>as_routines s; slashingTxTracker_block env send h bh s = (Ok b, s')\<rbrakk> \<Longrightarrow> atomic_step env s s'"
| report: "\<lbrakk>as_routines s; as_slashingTxChan s = info # rest;
     selectiveSlashing env info (s\<lparr>as_slashingTxChan := rest\<rparr>) = (Ok (), s')\<rbrakk> \<Longrightarrow> atomic_step env s s'"
| stop: "atomicslasher_Stop s = (Ok (), s') \<Longrightarrow> atomic_step env s s'"

end
