(* ===== verification/Atomic_Correct.thy ===== *)
theory Atomic_Correct
  imports Atomic_Slasher Slasher_Correct
begin

text \<open>
  The properties of the atomic slasher: the index refines a map of delegations, a block's
  slashing transactions are all found, and only a key that belongs to the provider that signed
  is handed to the BTC slasher.
\<close>

subsection \<open>The index\<close>

datatype indexOp = AddOp trackedBTCDelegation | RemoveOp hash

fun indexRun :: "indexOp list \<Rightarrow> btcDelegationIndex \<Rightarrow> btcDelegationIndex" where
  "indexRun [] bdi = bdi"
| "indexRun (AddOp d # ops) bdi = indexRun ops (snd (bdi_Add d bdi))"
| "indexRun (RemoveOp h # ops) bdi = indexRun ops (bdi_Remove h bdi)"

text \<open>The specification: a map from staking transactions to delegations.\<close>

fun specRun :: "indexOp list \<Rightarrow> (hash \<rightharpoonup> trackedBTCDelegation) \<Rightarrow> (hash \<rightharpoonup> trackedBTCDelegation)" where
  "specRun [] m = m"
| "specRun (AddOp d # ops) m = specRun ops (if m (atd_StakingTxHash d) = None then m(atd_StakingTxHash d \<mapsto> d) else m)"
| "specRun (RemoveOp h # ops) m = specRun ops (m(h := None))"

text \<open>The two reverse tables point back exactly to the tracked delegations.\<close>

definition reverse_of :: "(trackedBTCDelegation \<Rightarrow> hash) \<Rightarrow> (hash, trackedBTCDelegation) gomap \<Rightarrow> (hash, hash) gomap \<Rightarrow> bool" where
  "reverse_of key dels back \<longleftrightarrow> (\<forall>k h. map_of back k = Some h \<longleftrightarrow> (\<exists>d. map_of dels h = Some d \<and> key d = k))"

definition index_inv :: "trackedBTCDelegation set \<Rightarrow> btcDelegationIndex \<Rightarrow> bool" where
  "index_inv U bdi \<longleftrightarrow> wf_map (bdi_delMap bdi) \<and> wf_map (bdi_slashingTxMap bdi) \<and> wf_map (bdi_unbondingSlashingTxMap bdi)
     \<and> (\<forall>h d. map_of (bdi_delMap bdi) h = Some d \<longrightarrow> atd_StakingTxHash d = h \<and> d \<in> U)
     \<and> reverse_of atd_SlashingTxHash (bdi_delMap bdi) (bdi_slashingTxMap bdi)
     \<and> reverse_of atd_UnbondingSlashingTxHash (bdi_delMap bdi) (bdi_unbondingSlashingTxMap bdi)"

lemma reverse_add:
  assumes "reverse_of key dels back" and "map_of dels (atd_StakingTxHash d) = None"
    and "inj_on key U" and "d \<in> U" and "\<forall>h d. map_of dels h = Some d \<longrightarrow> atd_StakingTxHash d = h \<and> d \<in> U"
  shows "reverse_of key (AList.update (atd_StakingTxHash d) d dels) (AList.update (key d) (atd_StakingTxHash d) back)"
proof -
  have "key d' \<noteq> key d" if "map_of dels h = Some d'" for h d'
    using that assms(2-5) by (metis inj_onD option.distinct(1))
  then show ?thesis using assms(1,2) by (auto simp: reverse_of_def update_conv)
qed

lemma reverse_remove:
  assumes "reverse_of key dels back" and "map_of dels h = Some d"
    and "inj_on key U" and "\<forall>h d. map_of dels h = Some d \<longrightarrow> atd_StakingTxHash d = h \<and> d \<in> U"
  shows "reverse_of key (AList.delete h dels) (AList.delete (key d) back)"
proof -
  have "key d' \<noteq> key d" if "map_of dels h' = Some d'" "h' \<noteq> h" for h' d'
    using that assms(2-4) by (metis inj_onD)
  then show ?thesis using assms(1,2) by (auto simp: reverse_of_def delete_conv')
qed

lemma index_Add:
  assumes "index_inv U bdi" and "inj_on atd_SlashingTxHash U" "inj_on atd_UnbondingSlashingTxHash U" and "d \<in> U"
  shows "index_inv U (snd (bdi_Add d bdi))"
    and "bdi_Get (snd (bdi_Add d bdi)) = (if bdi_Get bdi (atd_StakingTxHash d) = None
           then (bdi_Get bdi)(atd_StakingTxHash d \<mapsto> d) else bdi_Get bdi)"
proof -
  show "index_inv U (snd (bdi_Add d bdi))"
    using assms by (auto simp: index_inv_def bdi_Add_def update_conv intro!: reverse_add split: option.splits if_splits)
  show "bdi_Get (snd (bdi_Add d bdi)) = (if bdi_Get bdi (atd_StakingTxHash d) = None
           then (bdi_Get bdi)(atd_StakingTxHash d \<mapsto> d) else bdi_Get bdi)"
    by (auto simp: bdi_Add_def bdi_Get_def fun_eq_iff update_conv split: option.splits)
qed

lemma index_Remove:
  assumes "inj_on atd_SlashingTxHash U" "inj_on atd_UnbondingSlashingTxHash U" and "index_inv U bdi"
  shows "index_inv U (bdi_Remove h bdi)" and "bdi_Get (bdi_Remove h bdi) k = (if k = h then None else bdi_Get bdi k)"
proof -
  show "index_inv U (bdi_Remove h bdi)"
    using assms by (auto simp: index_inv_def bdi_Remove_def delete_conv' intro!: reverse_remove split: option.splits if_splits)
  show "bdi_Get (bdi_Remove h bdi) k = (if k = h then None else bdi_Get bdi k)"
    by (auto simp: bdi_Remove_def bdi_Get_def delete_conv' split: option.splits)
qed

interpretation index_store: keyed_store "\<lambda>_. True" bdi_Get bdi_Remove
  by unfold_locales (auto simp: bdi_Remove_def bdi_Get_def delete_conv' split: option.splits)

lemma index_run:
  assumes "inj_on atd_SlashingTxHash U" "inj_on atd_UnbondingSlashingTxHash U"
    and "index_inv U bdi" and "\<forall>d. AddOp d \<in> set ops \<longrightarrow> d \<in> U"
  shows "index_inv U (indexRun ops bdi) \<and> bdi_Get (indexRun ops bdi) = specRun ops (bdi_Get bdi)"
  using assms(3,4)
proof (induction ops arbitrary: bdi)
  case (Cons op ops)
  show ?case
  proof (cases op)
    case (AddOp d)
    then have "d \<in> U" using Cons.prems by simp
    note a = index_Add [OF Cons.prems(1) assms(1,2) this]
    show ?thesis using Cons.IH [OF a(1)] Cons.prems AddOp a(2) by simp
  next
    case (RemoveOp h)
    note r = index_Remove [OF assms(1,2) Cons.prems(1)]
    have "bdi_Get (bdi_Remove h bdi) = (bdi_Get bdi)(h := None)" using r(2) by auto
    then show ?thesis using Cons.IH [OF r(1)] Cons.prems RemoveOp by simp
  qed
qed simp

lemma reverse_lookup:
  assumes "reverse_of key dels back" and "inj_on key (ran (map_of dels))"
  shows "map_of back k = None \<longleftrightarrow> (\<forall>d \<in> ran (map_of dels). key d \<noteq> k)"
    and "map_of back k = Some h \<Longrightarrow> map_of dels h = Some d \<longleftrightarrow> d \<in> ran (map_of dels) \<and> key d = k"
proof -
  show "map_of back k = None \<longleftrightarrow> (\<forall>d \<in> ran (map_of dels). key d \<noteq> k)"
  proof (cases "map_of back k")
    case None
    have "key d \<noteq> k" if "map_of dels h = Some d" for h d
    proof
      assume "key d = k"
      with assms(1) that have "map_of back k = Some h" unfolding reverse_of_def by blast
      with None show False by simp
    qed
    then show ?thesis using None by (auto simp: ran_def)
  next
    case (Some h)
    then obtain d where "map_of dels h = Some d" "key d = k" using assms(1) by (auto simp: reverse_of_def)
    then show ?thesis using Some by (auto intro: ranI)
  qed
  assume "map_of back k = Some h"
  then obtain d0 where d0: "map_of dels h = Some d0" "key d0 = k" using assms(1) by (auto simp: reverse_of_def)
  then have "d0 \<in> ran (map_of dels)" by (rule_tac ranI)
  then show "map_of dels h = Some d \<longleftrightarrow> d \<in> ran (map_of dels) \<and> key d = k"
    using d0 assms(2) by (auto simp: inj_on_def)
qed

lemma find_iff:
  assumes "index_inv U bdi" and "inj_on atd_SlashingTxHash U" "inj_on atd_UnbondingSlashingTxHash U"
  shows "FindSlashedBTCDelegation bdi tx = Some (d, path) \<longleftrightarrow> d \<in> ran (bdi_Get bdi) \<and>
    (case path of SlashStakingTx \<Rightarrow> atd_SlashingTxHash d = tx
     | SlashUnbondingTx \<Rightarrow> atd_UnbondingSlashingTxHash d = tx \<and> (\<forall>d' \<in> ran (bdi_Get bdi). atd_SlashingTxHash d' \<noteq> tx))"
proof -
  have get: "bdi_Get bdi = map_of (bdi_delMap bdi)" by (simp add: bdi_Get_def fun_eq_iff)
  have sub: "ran (map_of (bdi_delMap bdi)) \<subseteq> U" using assms(1) by (auto simp: index_inv_def ran_def)
  have "reverse_of atd_SlashingTxHash (bdi_delMap bdi) (bdi_slashingTxMap bdi)"
    and "reverse_of atd_UnbondingSlashingTxHash (bdi_delMap bdi) (bdi_unbondingSlashingTxMap bdi)"
    using assms(1) by (simp_all add: index_inv_def)
  note s = reverse_lookup [OF this(1) inj_on_subset [OF assms(2) sub], of tx]
    and u = reverse_lookup [OF this(2) inj_on_subset [OF assms(3) sub], of tx]
  show ?thesis
  proof (cases "map_of (bdi_slashingTxMap bdi) tx")
    case None
    then have n: "\<forall>d \<in> ran (map_of (bdi_delMap bdi)). atd_SlashingTxHash d \<noteq> tx" using s(1) by blast
    show ?thesis
    proof (cases "map_of (bdi_unbondingSlashingTxMap bdi) tx")
      case None
      then show ?thesis using \<open>map_of (bdi_slashingTxMap bdi) tx = None\<close> n u(1) unfolding get
        by (auto simp: FindSlashedBTCDelegation_def split: slashingPath.splits)
    next
      case (Some h)
      with None u(2) [OF Some, of d] n show ?thesis unfolding get
        by (cases path) (auto simp: FindSlashedBTCDelegation_def)
    qed
  next
    case (Some h)
    then have "\<exists>d' \<in> ran (map_of (bdi_delMap bdi)). atd_SlashingTxHash d' = tx" using s(1) by auto
    with Some s(2) [OF Some, of d] show ?thesis unfolding get
      by (cases path) (auto simp: FindSlashedBTCDelegation_def)
  qed
qed

text \<open>
  C14. Every sequence of insertions and removals acts on the index like on a map from staking
  transactions to delegations, and a transaction is found exactly if it is the slashing
  transaction, or the unbonding slashing transaction, of a delegation in that map, provided
  no two delegations share such a transaction.
\<close>

theorem index_refines_map:
  assumes "inj_on atd_SlashingTxHash {d. AddOp d \<in> set ops}" and "inj_on atd_UnbondingSlashingTxHash {d. AddOp d \<in> set ops}"
  shows "bdi_Get (indexRun ops NewBTCDelegationIndex) = specRun ops Map.empty
    \<and> (FindSlashedBTCDelegation (indexRun ops NewBTCDelegationIndex) tx = Some (d, path) \<longleftrightarrow>
        d \<in> ran (specRun ops Map.empty) \<and>
        (case path of SlashStakingTx \<Rightarrow> atd_SlashingTxHash d = tx
         | SlashUnbondingTx \<Rightarrow> atd_UnbondingSlashingTxHash d = tx \<and> (\<forall>d' \<in> ran (specRun ops Map.empty). atd_SlashingTxHash d' \<noteq> tx)))"
proof -
  let ?U = "{d. AddOp d \<in> set ops}"
  have "index_inv ?U NewBTCDelegationIndex" by (simp add: index_inv_def NewBTCDelegationIndex_def reverse_of_def)
  from index_run [OF assms this] have inv: "index_inv ?U (indexRun ops NewBTCDelegationIndex)"
    and get: "bdi_Get (indexRun ops NewBTCDelegationIndex) = specRun ops (bdi_Get NewBTCDelegationIndex)" by auto
  have empty: "bdi_Get NewBTCDelegationIndex = Map.empty" by (simp add: bdi_Get_def NewBTCDelegationIndex_def fun_eq_iff)
  show ?thesis unfolding find_iff [OF inv assms] get empty by (rule conjI refl)+
qed

subsection \<open>Blocks\<close>

definition slashingInfos :: "('w, 'ssig, 'asig) atomicEnv \<Rightarrow> btcDelegationIndex \<Rightarrow> msgTx list \<Rightarrow> slashingTxInfo list" where
  "slashingInfos env bdi txs = List.map_filter (\<lambda>tx. map_option (\<lambda>(d, path). NewSlashingTxInfo path (atd_StakingTxHash d) tx)
     (FindSlashedBTCDelegation bdi (ae_TxHash env tx))) txs"

lemma filterSlashingTxs_eq:
  assumes "\<not> as_quit s" and "\<not> as_slashingTxChanClosed s"
  shows "filterSlashingTxs env send txs s = (Ok True, s\<lparr>as_slashingTxChan := as_slashingTxChan s @ slashingInfos env (as_btcDelIndex s) txs\<rparr>)"
  using assms
proof (induction txs arbitrary: s)
  case Nil
  then show ?case by (simp add: slashingInfos_def retG_def)
next
  case (Cons tx txs)
  show ?case
  proof (cases "FindSlashedBTCDelegation (as_btcDelIndex s) (ae_TxHash env tx)")
    case None
    then show ?thesis using Cons by (simp add: slashingInfos_def)
  next
    case (Some x)
    obtain d path where x: "x = (d, path)" by (cases x)
    let ?s = "s\<lparr>as_slashingTxChan := as_slashingTxChan s @ [NewSlashingTxInfo path (atd_StakingTxHash d) tx]\<rparr>"
    have "enqueueSlashingTx send (NewSlashingTxInfo path (atd_StakingTxHash d) tx) s = (Ok True, ?s)"
      using Cons.prems by (simp add: enqueueSlashingTx_def)
    then show ?thesis using Some x Cons.IH [of ?s] Cons.prems by (simp add: slashingInfos_def)
  qed
qed

text \<open>
  While the slasher runs, a new block queues exactly its transactions that slash a tracked
  delegation, each once and in the order of the block, and records the height.
\<close>

theorem block_enqueues_slashings:
  assumes "\<not> as_quit s" and "\<not> as_slashingTxChanClosed s" and "0 \<le> height"
    and "ae_GetBlockByHash env bh (as_world s) = (Ok block, w')"
  shows "slashingTxTracker_block env send height bh s = (Ok True, s\<lparr>as_btcTipHeight := word_of_int height, as_world := w',
    as_slashingTxChan := as_slashingTxChan s @ slashingInfos env (as_btcDelIndex s) (mb_Transactions block)\<rparr>)"
  using assms by (simp add: slashingTxTracker_block_def rpcA_def filterSlashingTxs_eq bindG_def tryG_def zoomG_def modG_def)

text \<open>
  Stopping closes the channel while the block watcher may still send on it; the \<open>select\<close> with
  \<open>quit\<close> does not prevent that.
\<close>

lemma stop_can_panic:
  assumes "FindSlashedBTCDelegation (as_btcDelIndex s) (ae_TxHash env tx) = Some (d, path)"
    and "atomicslasher_Stop s = (Ok (), s')"
  shows "filterSlashingTxs env True [tx] s' = (Panic ''send on closed channel'', s')"
  using assms by (auto simp: atomicslasher_Stop_def modG_def enqueueSlashingTx_def bindG_def getG_def)

subsection \<open>Keys\<close>

lemma tryExtract_sound: "tryExtractFPSK env m i pk sigs = Ok sk \<Longrightarrow> ae_pubKeyOf env sk = pk"
  by (induction sigs) (auto split: option.splits sum.splits if_splits)

text \<open>The signatures of one covenant member can be read, and give a key.\<close>

definition extracts :: "('w, 'ssig, 'asig) atomicEnv \<Rightarrow> (string, bytes) gomap \<Rightarrow> nat \<Rightarrow> covenantAdaptorSigs \<Rightarrow> privKey \<Rightarrow> bool" where
  "extracts env m i c sk \<longleftrightarrow> (\<exists>sig bsig a. map_of m (hexEncode (cas_CovPk c)) = Some sig \<and> ae_ToBTCSig env sig = Inr bsig
     \<and> i < length (cas_AdaptorSigs c) \<and> ae_NewAdaptorSignatureFromBytes env (cas_AdaptorSigs c ! i) = Inr a \<and> ae_Extract env a bsig = Inr sk)"

lemma tryExtract_complete:
  assumes "\<forall>c \<in> set sigs. map_of m (hexEncode (cas_CovPk c)) = None \<or> (\<exists>sk. extracts env m i c sk)"
    and "c \<in> set sigs" and "extracts env m i c sk" and "ae_pubKeyOf env sk = pk"
  shows "\<exists>sk'. tryExtractFPSK env m i pk sigs = Ok sk' \<and> ae_pubKeyOf env sk' = pk"
  using assms
proof (induction sigs)
  case (Cons c' sigs)
  show ?case
  proof (cases "map_of m (hexEncode (cas_CovPk c'))")
    case None
    then have "c \<noteq> c'" using Cons.prems(3) by (auto simp: extracts_def)
    with None Cons show ?thesis by auto
  next
    case (Some sig)
    then obtain sk' where ex: "extracts env m i c' sk'" using Cons.prems(1) by auto
    show ?thesis
    proof (cases "ae_pubKeyOf env sk' = pk")
      case True
      then show ?thesis using ex by (auto simp: extracts_def)
    next
      case False
      then have "c \<noteq> c'" using ex Cons.prems(3,4) by (auto simp: extracts_def)
      then have "\<exists>sk'. tryExtractFPSK env m i pk sigs = Ok sk' \<and> ae_pubKeyOf env sk' = pk" using Cons by auto
      then show ?thesis using ex False by (auto simp: extracts_def)
    qed
  qed
qed simp

lemma firstFP_in: "firstFP fpPKs i items = Ok (j, Some pk) \<Longrightarrow> j < length fpPKs \<and> pk = fpPKs ! j"
  by (induction items arbitrary: i) (auto split: if_splits)

lemma parse_fp:
  assumes "parseSlashingTxWitness env ws cov fps = Ok (m, i, Some pk)"
  shows "pk \<in> set fps"
proof -
  from assms have "\<exists>items. firstFP fps 0 items = Ok (i, Some pk)"
    by (auto simp: parseSlashingTxWitness_def Let_def split: if_splits outcome.splits)
  then show ?thesis using firstFP_in by (metis nth_mem)
qed

definition onlyWorldA :: "'w atomicSlasher \<Rightarrow> 'w atomicSlasher \<Rightarrow> bool" where
  "onlyWorldA s t \<longleftrightarrow> (\<exists>w. t = s\<lparr>as_world := w\<rparr>)"

lemma onlyWorldA_refl: "onlyWorldA s s"
  unfolding onlyWorldA_def by (rule exI [of _ "as_world s"]) simp

lemma keeps_rpcA: "keeps (onlyWorldA s) (rpcA m)"
  unfolding rpcA_def onlyWorldA_def by (rule keeps_zoomG) auto

lemma keeps_findSlashedKey:
  assumes "retry_ctx_contract (ae_retryDelegation env)" and "retry_ctx_contract (ae_retryParams env)"
  shows "keeps (onlyWorldA s) (findSlashedKey env info)"
  unfolding findSlashedKey_def ba_BTCDelegation_def ba_BTCStakingParams_def IsFPSlashed_def slashedKeyOf_def
  by (intro keeps_rules keeps_retry [OF assms(1)] keeps_retry [OF assms(2)] keeps_rpcA)

lemma findSlashedKey_sound:
  assumes "retry_ctx_contract (ae_retryDelegation env)" and "findSlashedKey env info s = (Ok (Some sk), s')"
  shows "\<exists>del w w' w1 w2. ae_BTCDelegation env (ae_hashStr env (sti_StakingTxHash info)) w = (Ok del, w')
    \<and> ae_pubKeyOf env sk \<in> set (bdr_FpBtcPkList del)
    \<and> ae_FinalityProvider env (hexEncode (ae_pubKeyOf env sk)) w1 = (Ok 0, w2)"
proof -
  from assms(2) obtain del s1 cov ws m i pk s3 s4 where
    del: "ba_BTCDelegation env (ae_hashStr env (sti_StakingTxHash info)) s = (Ok del, s1)"
    and parse: "parseSlashingTxWitness env ws cov (bdr_FpBtcPkList del) = Ok (m, i, Some pk)"
    and fp: "IsFPSlashed env (Some pk) s3 = (Ok False, s4)"
    and key: "slashedKeyOf env info del m i pk s4 = (Ok sk, s')"
    unfolding findSlashedKey_def by (auto elim!: bindG_Ok_E split: prod.splits if_splits)
  have pk: "ae_pubKeyOf env sk = pk"
    using key by (auto simp: slashedKeyOf_def elim!: bindG_Ok_E dest: tryExtract_sound split: if_splits)
  obtain t where "rpcA (ae_BTCDelegation env (ae_hashStr env (sti_StakingTxHash info))) t = (Ok del, s1)"
    using retry_ctx_ok [OF assms(1) del [unfolded ba_BTCDelegation_def]] by blast
  then have "\<exists>w w'. ae_BTCDelegation env (ae_hashStr env (sti_StakingTxHash info)) w = (Ok del, w')"
    by (auto simp: rpcA_def zoomG_def split: prod.splits)
  moreover have "\<exists>w w'. ae_FinalityProvider env (hexEncode pk) w = (Ok 0, w')"
    using fp by (fastforce simp: IsFPSlashed_def rpcA_def zoomG_def word_gt_0 elim!: bindG_Ok_E split: prod.splits)
  ultimately show ?thesis using parse_fp [OF parse] pk by blast
qed

lemma selectiveSlashing_effect:
  assumes "retry_ctx_contract (ae_retryDelegation env)" and "retry_ctx_contract (ae_retryParams env)"
    and "selectiveSlashing env info s = (Ok (), s')"
  shows "(\<exists>w. s' = s\<lparr>as_world := w\<rparr>)
    \<or> (\<exists>w sk del w0 w0' w1 w1'. s' = s\<lparr>as_world := w, as_slashedFPSKChan := as_slashedFPSKChan s @ [sk],
          as_btcDelIndex := bdi_Remove (sti_StakingTxHash info) (as_btcDelIndex s), as_trackedGauge := as_trackedGauge s - 1\<rparr>
        \<and> ae_BTCDelegation env (ae_hashStr env (sti_StakingTxHash info)) w0 = (Ok del, w0')
        \<and> ae_pubKeyOf env sk \<in> set (bdr_FpBtcPkList del)
        \<and> ae_FinalityProvider env (hexEncode (ae_pubKeyOf env sk)) w1 = (Ok 0, w1'))"
proof -
  obtain r s1 where run: "tryG (findSlashedKey env info) s = (Ok r, s1)"
    and rest: "(case r of Inl _ \<Rightarrow> retG () | Inr None \<Rightarrow> retG () | Inr (Some fpSK) \<Rightarrow>
         bindG (tryG (ReportSelectiveSlashing env fpSK)) (\<lambda>_.
           modG (\<lambda>s. s\<lparr>as_slashedFPSKChan := as_slashedFPSKChan s @ [fpSK],
              as_btcDelIndex := bdi_Remove (sti_StakingTxHash info) (as_btcDelIndex s),
              as_trackedGauge := as_trackedGauge s - 1\<rparr>))) s1 = (Ok (), s')"
    using assms(3) unfolding selectiveSlashing_def by (rule bindG_Ok_E)
  have w1: "onlyWorldA s s1"
    using keepsD [OF keeps_try [OF keeps_findSlashedKey [OF assms(1,2)]] onlyWorldA_refl run] .
  show ?thesis
  proof (cases "\<exists>sk. r = Inr (Some sk)")
    case False
    then have "s' = s1" using rest by (auto split: sum.splits option.splits)
    then show ?thesis using w1 by (auto simp: onlyWorldA_def)
  next
    case True
    then obtain sk where r: "r = Inr (Some sk)" by blast
    then obtain q s2 where rep: "tryG (ReportSelectiveSlashing env sk) s1 = (Ok q, s2)"
      and s': "s' = s2\<lparr>as_slashedFPSKChan := as_slashedFPSKChan s2 @ [sk],
              as_btcDelIndex := bdi_Remove (sti_StakingTxHash info) (as_btcDelIndex s2),
              as_trackedGauge := as_trackedGauge s2 - 1\<rparr>"
      using rest by (auto elim!: bindG_Ok_E simp: modG_def)
    have "onlyWorldA s s2"
      by (rule keepsD [OF keeps_try [OF keeps_rpcA] w1 rep [unfolded ReportSelectiveSlashing_def]])
    then obtain w where "s2 = s\<lparr>as_world := w\<rparr>" by (auto simp: onlyWorldA_def)
    with s' have st: "s' = s\<lparr>as_world := w, as_slashedFPSKChan := as_slashedFPSKChan s @ [sk],
          as_btcDelIndex := bdi_Remove (sti_StakingTxHash info) (as_btcDelIndex s), as_trackedGauge := as_trackedGauge s - 1\<rparr>"
      by simp
    have "findSlashedKey env info s = (Ok (Some sk), s1)" using run r by (simp add: tryG_Ok_iff)
    from findSlashedKey_sound [OF assms(1) this] st show ?thesis by blast
  qed
qed

text \<open>
  C16. An iteration of the reporter either hands on exactly one key and forgets the delegation, or
  changes nothing but the outside world. A key that is handed on is the secret key of a
  finality provider of the delegation, and Babylon had not slashed that provider when asked.
\<close>

theorem selectiveSlashing_sound:
  assumes "retry_ctx_contract (ae_retryDelegation env)" and "retry_ctx_contract (ae_retryParams env)"
    and "selectiveSlashing env info s = (Ok (), s')"
  shows "(\<exists>w. s' = s\<lparr>as_world := w\<rparr>)
    \<or> (\<exists>w sk del w0 w0' w1 w1'. s' = s\<lparr>as_world := w, as_slashedFPSKChan := as_slashedFPSKChan s @ [sk],
          as_btcDelIndex := bdi_Remove (sti_StakingTxHash info) (as_btcDelIndex s), as_trackedGauge := as_trackedGauge s - 1\<rparr>
        \<and> ae_BTCDelegation env (ae_hashStr env (sti_StakingTxHash info)) w0 = (Ok del, w0')
        \<and> ae_pubKeyOf env sk \<in> set (bdr_FpBtcPkList del)
        \<and> ae_FinalityProvider env (hexEncode (ae_pubKeyOf env sk)) w1 = (Ok 0, w1'))"
  using assms by (rule selectiveSlashing_effect)

lemma rpcA_pure: "m (as_world s) = (r, as_world s) \<Longrightarrow> rpcA m s = (r, s)"
  by (simp add: rpcA_def)


subsection \<open>What comes back\<close>

text \<open>
  A delegation that was forgotten after its slashing is tracked again by the next poll, which
  asks Babylon for delegations of every status.
\<close>

lemma forgotten_delegation_returns:
  "fst (bdi_Add d (bdi_Remove (atd_StakingTxHash d) bdi)) = True"
  by (simp add: bdi_Add_def bdi_Remove_def delete_conv' split: option.splits)

text \<open>
  The witness lists the covenant members in the order of the sorted keys, but a signature is
  stored under the key at its position in the unsorted list.
\<close>

lemma witness_order_mixed_up:
  assumes "ae_SortBIP340PKs env [[2], [1]] = [[1], [2]]" and "ae_SortBIP340PKs env [[7]] = [[7]]"
    and "\<And>b. ae_NewBIP340Signature env b = Inr b"
  shows "parseSlashingTxWitness env [[11], [], [77]] [[2], [1]] [[7]] = Ok ([(hexEncode [2], [11])], 0, Some [7])"
  using assms by (simp add: parseSlashingTxWitness_def Let_def)

subsection \<open>Concrete instances\<close>

definition sampleTracked :: "nat \<Rightarrow> trackedBTCDelegation" where
  "sampleTracked n = \<lparr>atd_StakingTxHash = of_nat (10 * n), atd_SlashingTxHash = of_nat (10 * n + 1), atd_UnbondingSlashingTxHash = of_nat (10 * n + 2)\<rparr>"

theorem index_refines_map_witness:
  "FindSlashedBTCDelegation (indexRun [AddOp (sampleTracked 1), AddOp (sampleTracked 2), RemoveOp 10] NewBTCDelegationIndex) 22
     = Some (sampleTracked 2, SlashUnbondingTx)"
proof -
  let ?ops = "[AddOp (sampleTracked 1), AddOp (sampleTracked 2), RemoveOp 10]"
  have "{d. AddOp d \<in> set ?ops} = {sampleTracked 1, sampleTracked 2}" by auto
  moreover have "inj_on atd_SlashingTxHash {sampleTracked 1, sampleTracked 2}"
    "inj_on atd_UnbondingSlashingTxHash {sampleTracked 1, sampleTracked 2}"
    by (simp_all add: inj_on_def sampleTracked_def)
  moreover have "specRun ?ops Map.empty = [20 \<mapsto> sampleTracked 2]"
    by (auto simp: sampleTracked_def fun_eq_iff)
  ultimately show ?thesis
    using index_refines_map [of ?ops 22 "sampleTracked 2" SlashUnbondingTx] by (simp add: sampleTracked_def)
qed

definition sampleSlashingTx :: msgTx where
  "sampleSlashingTx = \<lparr>tx_Version = 2, tx_TxIn = [\<lparr>in_PreviousOutPoint = \<lparr>op_Hash = 20, op_Index = 0\<rparr>, in_SignatureScript = [],
     in_Witness = [[5], [6], [9]], in_Sequence = 0\<rparr>], tx_TxOut = [], tx_LockTime = 0\<rparr>"

definition sampleAtomicEnv :: "(unit, bytes, bytes) atomicEnv" where
  "sampleAtomicEnv = \<lparr>ae_FinalityProvider = (\<lambda>_. retG 0), ae_BTCDelegations = (\<lambda>_. retG ([sampleBTCDel True], None)),
     ae_BTCDelegation = (\<lambda>_. retG ((sampleBTCDel True)\<lparr>bdr_CovenantSigs := [\<lparr>cas_CovPk = [1], cas_AdaptorSigs = [[3]]\<rparr>]\<rparr>)),
     ae_BTCStakingParamsByVersion = (\<lambda>_. retG \<lparr>bsp_CovenantPks = [[1]], bsp_CovenantQuorum = 1\<rparr>),
     ae_ReliablySendMsg = (\<lambda>_ _. retG ()), ae_MustGetAddr = ''bbn1'', ae_GetBlockByHash = (\<lambda>_. retG \<lparr>mb_Header = sampleHeader 1,
       mb_Transactions = [sampleSlashingTx]\<rparr>), ae_hashStr = (\<lambda>_. ''h''), ae_TxHash = (\<lambda>_. 21),
     ae_NewBTCTxFromHex = (\<lambda>_. Inr sampleSlashingTx), ae_NewBTCSlashingTxFromHex = hexDecode, ae_ToMsgTx = (\<lambda>_. Inr sampleSlashingTx),
     ae_SortBIP340PKs = (\<lambda>x. x), ae_NewBIP340Signature = Inr, ae_ToBTCSig = Inr, ae_NewAdaptorSignatureFromBytes = Inr,
     ae_Extract = (\<lambda>_ _. Inr 3), ae_pubKeyOf = (\<lambda>_. [7]), ae_Serialize = (\<lambda>_. [3]), ae_maxRetryTimes = 5,
     ae_retryParams = retrySample, ae_retryDelegation = retrySample, ae_fuel = 3\<rparr>"

definition sampleAtomic :: "unit atomicSlasher" where
  "sampleAtomic = (atomicslasher_New ())\<lparr>as_btcDelIndex := snd (bdi_Add (sampleTracked 2) NewBTCDelegationIndex), as_routines := True\<rparr>"

definition sampleInfo :: slashingTxInfo where
  "sampleInfo = NewSlashingTxInfo SlashStakingTx 20 sampleSlashingTx"

theorem block_enqueues_slashings_witness:
  "as_slashingTxChan (snd (slashingTxTracker_block sampleAtomicEnv True 100 1 sampleAtomic)) = [sampleInfo]"
proof -
  have "ae_GetBlockByHash sampleAtomicEnv 1 (as_world sampleAtomic) = (Ok \<lparr>mb_Header = sampleHeader 1, mb_Transactions = [sampleSlashingTx]\<rparr>, ())"
    by (simp add: sampleAtomicEnv_def sampleAtomic_def atomicslasher_New_def retG_def)
  moreover have "slashingInfos sampleAtomicEnv (as_btcDelIndex sampleAtomic) [sampleSlashingTx] = [sampleInfo]"
    by (simp add: slashingInfos_def sampleAtomic_def FindSlashedBTCDelegation_def bdi_Add_def NewBTCDelegationIndex_def sampleTracked_def
        sampleAtomicEnv_def sampleInfo_def List.map_filter_def)
  ultimately show ?thesis
    using block_enqueues_slashings [of sampleAtomic 100 sampleAtomicEnv 1 _ "()" True] by (simp add: sampleAtomic_def atomicslasher_New_def)
qed

lemma sampleAtomic_retries:
  "retry_ctx_contract (ae_retryDelegation sampleAtomicEnv)" "retry_ctx_contract (ae_retryParams sampleAtomicEnv)"
  "retry_live (ae_retryDelegation sampleAtomicEnv)" "retry_live (ae_retryParams sampleAtomicEnv)"
  by (simp_all add: sampleAtomicEnv_def retrySample_ctx retrySample_live)


lemma sample_report_run:
  "\<exists>s'. selectiveSlashing sampleAtomicEnv sampleInfo sampleAtomic = (Ok (), s') \<and> as_slashedFPSKChan s' = [3]"
  by (simp add: selectiveSlashing_def findSlashedKey_def ba_BTCDelegation_def ba_BTCStakingParams_def IsFPSlashed_def slashedKeyOf_def
      ReportSelectiveSlashing_def parseSlashingTxWitness_def IsSlashStakingTx_def rpcA_def zoomG_def derefG_def liftG_def bindG_def tryG_def
      retG_def modG_def retrySample_def Let_def sampleInfo_def NewSlashingTxInfo_def sampleSlashingTx_def sampleAtomicEnv_def
      sampleBTCDel_def sampleAtomic_def atomicslasher_New_def)

theorem selectiveSlashing_sound_witness:
  "\<exists>sk del w0 w0'. fst (selectiveSlashing sampleAtomicEnv sampleInfo sampleAtomic) = Ok ()
     \<and> ae_BTCDelegation sampleAtomicEnv (ae_hashStr sampleAtomicEnv 20) w0 = (Ok del, w0') \<and> ae_pubKeyOf sampleAtomicEnv sk \<in> set (bdr_FpBtcPkList del)"
proof -
  obtain s' where run: "selectiveSlashing sampleAtomicEnv sampleInfo sampleAtomic = (Ok (), s')" and k: "as_slashedFPSKChan s' = [3]"
    using sample_report_run by blast
  have "as_slashedFPSKChan sampleAtomic = []" by (simp add: sampleAtomic_def atomicslasher_New_def)
  then have "\<not> (\<exists>w. s' = sampleAtomic\<lparr>as_world := w\<rparr>)" using k by auto
  with selectiveSlashing_sound [OF sampleAtomic_retries(1,2) run] show ?thesis
    unfolding run by (auto simp: sampleInfo_def NewSlashingTxInfo_def)
qed

end
