(* ===== verification/Tracker.thy ===== *)
theory Tracker
  imports Watcher_Correct Slasher_Correct Atomic_Correct
begin

text \<open>
  The BTC staking tracker, \<open>btcstaking-tracker/tracker.go\<close>: it runs the staking event watcher,
  the BTC slasher and the atomic slasher side by side. The two slashers share the channel of
  secret keys: the atomic slasher sends on it, the BTC slasher receives from it. The three
  components also share the outside world.

  Shown here: a restart resumes at the stored evidence height; a key the atomic slasher finds
  leads to a slashing task for every delegation of its provider.
\<close>

record ('w, 'spv, 'db) tracker =
  tk_watcher :: "('w, 'spv) watcher"
  tk_slasher :: "('w, 'db) btcSlasher"
  tk_atomic :: "'w atomicSlasher"
  tk_slashedFPSKChan :: "privKey list"
  tk_startOnce :: bool
  tk_stopOnce :: bool
  tk_chanClosed :: bool
  tk_quit :: bool
  tk_world :: 'w

record ('w, 'spv, 'inc, 'db, 'pub, 'spend, 'asig, 'ssig) trackerEnv =
  te_watcher :: "('w, 'spv, 'inc) watcherEnv"
  te_register :: "('w, int) prog"
  te_slasher :: "('w, 'db, 'pub, 'spend, 'asig) slasherEnv"
  te_atomic :: "('w, 'ssig, 'asig) atomicEnv"
  te_bbnClientStop :: "('w, unit) prog"

text \<open>The components with the shared world and the shared channel in place, and back.\<close>

definition watcherIn :: "('w, 'spv, 'db) tracker \<Rightarrow> ('w, 'spv) watcher" where
  "watcherIn s = (tk_watcher s)\<lparr>sew_world := tk_world s\<rparr>"

definition watcherOut :: "('w, 'spv) watcher \<Rightarrow> ('w, 'spv, 'db) tracker \<Rightarrow> ('w, 'spv, 'db) tracker" where
  "watcherOut x s = s\<lparr>tk_watcher := x, tk_world := sew_world x\<rparr>"

definition slasherIn :: "('w, 'spv, 'db) tracker \<Rightarrow> ('w, 'db) btcSlasher" where
  "slasherIn s = (tk_slasher s)\<lparr>bs_world := tk_world s, bs_slashedFPSKChan := tk_slashedFPSKChan s\<rparr>"

definition slasherOut :: "('w, 'db) btcSlasher \<Rightarrow> ('w, 'spv, 'db) tracker \<Rightarrow> ('w, 'spv, 'db) tracker" where
  "slasherOut x s = s\<lparr>tk_slasher := x, tk_world := bs_world x, tk_slashedFPSKChan := bs_slashedFPSKChan x\<rparr>"

definition atomicIn :: "('w, 'spv, 'db) tracker \<Rightarrow> 'w atomicSlasher" where
  "atomicIn s = (tk_atomic s)\<lparr>as_world := tk_world s, as_slashedFPSKChan := tk_slashedFPSKChan s\<rparr>"

definition atomicOut :: "'w atomicSlasher \<Rightarrow> ('w, 'spv, 'db) tracker \<Rightarrow> ('w, 'spv, 'db) tracker" where
  "atomicOut x s = s\<lparr>tk_atomic := x, tk_world := as_world x, tk_slashedFPSKChan := as_slashedFPSKChan x\<rparr>"

definition NewBTCStakingTracker ::
  "('w, 'spv, 'inc, 'db, 'pub, 'spend, 'asig, 'ssig) trackerEnv \<Rightarrow> 'w \<Rightarrow> 'db \<Rightarrow> ('w, 'spv, 'db) tracker outcome" where
  "NewBTCStakingTracker env w db = (case btcslasher_New (te_slasher env) w db of
       Ok sl \<Rightarrow> Ok \<lparr>tk_watcher = NewStakingEventWatcher w, tk_slasher = sl, tk_atomic = atomicslasher_New w, tk_slashedFPSKChan = [],
         tk_startOnce = False, tk_stopOnce = False, tk_chanClosed = False, tk_quit = False, tk_world = w\<rparr>
     | Err _ \<Rightarrow> Panic ''failed to create BTC slasher'' | Panic p \<Rightarrow> Panic p | NoFuel \<Rightarrow> NoFuel)"

definition tracker_Bootstrap ::
  "('w, 'spv, 'inc, 'db, 'pub, 'spend, 'asig, 'ssig) trackerEnv \<Rightarrow> u64 \<Rightarrow> (('w, 'spv, 'db) tracker, unit) prog" where
  "tracker_Bootstrap env startHeight =
     bindG (wrapG ''failed to get last processed evidences height: '' (zoomG slasherIn slasherOut (LastEvidencesHeight (te_slasher env)))) (\<lambda>r.
       wrapG ''failed to bootstrap BTC staking tracker: ''
         (zoomG slasherIn slasherOut (btcslasher_Bootstrap (te_slasher env) (case r of Some h \<Rightarrow> h | None \<Rightarrow> startHeight))))"

text \<open>A component that fails to start leaves the ones before it running.\<close>

definition tracker_Start ::
  "('w, 'spv, 'inc, 'db, 'pub, 'spend, 'asig, 'ssig) trackerEnv \<Rightarrow> (('w, 'spv, 'db) tracker, unit) prog" where
  "tracker_Start env = bindG (getG tk_startOnce) (\<lambda>once.
     if once then retG ()
     else bindG (modG (\<lambda>s. s\<lparr>tk_startOnce := True\<rparr>)) (\<lambda>_.
       bindG (zoomG watcherIn watcherOut (watcher_Start (te_watcher env) (te_register env))) (\<lambda>_.
       bindG (zoomG slasherIn slasherOut (btcslasher_Start (te_slasher env))) (\<lambda>_.
         zoomG atomicIn atomicOut atomicslasher_Start))))"

definition tracker_Stop ::
  "('w, 'spv, 'inc, 'db, 'pub, 'spend, 'asig, 'ssig) trackerEnv \<Rightarrow> (('w, 'spv, 'db) tracker, unit) prog" where
  "tracker_Stop env = bindG (getG tk_stopOnce) (\<lambda>once.
     if once then retG ()
     else bindG (modG (\<lambda>s. s\<lparr>tk_stopOnce := True\<rparr>)) (\<lambda>_.
       bindG (zoomG watcherIn watcherOut watcher_Stop) (\<lambda>_.
       bindG (zoomG slasherIn slasherOut btcslasher_Stop) (\<lambda>_.
       bindG (zoomG atomicIn atomicOut atomicslasher_Stop) (\<lambda>_.
       bindG (zoomG tk_world (\<lambda>w s. s\<lparr>tk_world := w\<rparr>) (te_bbnClientStop env)) (\<lambda>_.
         modG (\<lambda>s. s\<lparr>tk_chanClosed := True, tk_quit := True\<rparr>)))))))"

text \<open>The slashers' steps inside the tracker.\<close>

inductive tracker_step ::
  "('w, 'spv, 'inc, 'db, 'pub, 'spend, 'asig, 'ssig) trackerEnv \<Rightarrow> ('w, 'spv, 'db) tracker \<Rightarrow> ('w, 'spv, 'db) tracker \<Rightarrow> bool" where
  slasher: "slasher_step (te_slasher env) (slasherIn s) x \<Longrightarrow> tracker_step env s (slasherOut x s)"
| atomic: "atomic_step (te_atomic env) (atomicIn s) x \<Longrightarrow> tracker_step env s (atomicOut x s)"

subsection \<open>Restart\<close>

lemma NewSlasherStore_keeps_height:
  assumes "kv_contract kv" and "NewSlasherStore kv db = (Ok (), db')" and "LastProcessedHeight kv db = (Ok (Some h), db)"
  shows "LastProcessedHeight kv db' = (Ok (Some h), db')"
proof -
  from assms(2) have c: "kv_CreateTopLevelBucket kv processedEvidenceHeightBucket db = Inr db'"
    by (auto simp: NewSlasherStore_def split: sum.splits)
  have "kv_ReadBucket kv processedEvidenceHeightBucket db'" "\<forall>b' k. kv_Get kv b' k db' = kv_Get kv b' k db"
    using assms(1) c unfolding kv_contract_def by blast+
  then show ?thesis using assms(3)
    by (auto simp: LastProcessedHeight_def store_get_def kvView_def bindG_def tryG_def retG_def failG_def liftG_def split: go_splits)
qed

lemma LoadParams_ok:
  assumes "sl_BTCCheckpointParams env (bs_world s) = (Ok (f, k), bs_world s)"
  shows "\<exists>t. LoadParams env s = (Ok (), s\<lparr>bs_btcFinalizationTimeout := t\<rparr>)"
proof (cases "bs_btcFinalizationTimeout s = 0")
  case True
  then show ?thesis using assms
    by (intro exI [of _ f]) (simp add: LoadParams_def bindG_def getG_def rpcS_def zoomG_def modG_def)
next
  case False
  then show ?thesis by (intro exI [of _ "bs_btcFinalizationTimeout s"]) (simp add: LoadParams_def retG_def)
qed

lemma New_fresh:
  assumes "btcslasher_New env w db = Ok s"
  shows "NewSlasherStore (sl_kv env) db = (Ok (), bs_db s)" "bs_world s = w" "bs_running s = []" "bs_height s = 0" "bs_slashedFPSKChan s = []"
  using assms by (auto simp: btcslasher_New_def split: prod.splits outcome.splits)

lemma bootstrap_eq:
  assumes "answersEvidence (env :: ('w, 'db, 'pub, 'spend, 'asig) slasherEnv) (bs_world s) h eps"
    and "answersAll env (bs_world s) params pagesOf (concat eps)"
    and "sl_BTCCheckpointParams env (bs_world s) = (Ok (f, k), bs_world s)"
    and "btcslasher_Bootstrap env h s = (r, s')"
  shows "bs_running s' = bs_running s @ startedTasks env params pagesOf (concat eps)
    \<and> (\<not> allGood env params pagesOf (concat eps) \<longrightarrow> (\<exists>e. r = Err e))
    \<and> (allGood env params pagesOf (concat eps) \<longrightarrow> bs_height s' =
        (if lastHeightOf 0 (concat eps) > 0 then lastHeightOf 0 (concat eps) + 1 else if h > 0 then h else bs_height s))"
proof -
  let ?s0 = "if h > 0 then s\<lparr>bs_height := h\<rparr> else s" and ?top = "lastHeightOf 0 (concat eps)"
  obtain s1 where load: "LoadParams env ?s0 = (Ok (), s1)" and s1: "bs_world s1 = bs_world s" "bs_running s1 = bs_running s" "bs_height s1 = bs_height ?s0" "bs_db s1 = bs_db s"
  proof -
    have "bs_world ?s0 = bs_world s" by simp
    with LoadParams_ok [of env ?s0 f k] assms(3)
    obtain t where "LoadParams env ?s0 = (Ok (), ?s0\<lparr>bs_btcFinalizationTimeout := t\<rparr>)" by auto
    then show thesis by (rule that) simp_all
  qed
  obtain r0 where proc: "processEvidencesFromHeight env h s1 = (r0, s1\<lparr>bs_running := bs_running s @ startedTasks env params pagesOf (concat eps)\<rparr>)"
    and r0: "if allGood env params pagesOf (concat eps) then r0 = Ok ?top else \<exists>e. r0 = Err e"
    using process_eq [of env s1 h eps params pagesOf] assms(1,2) s1(1,2) by (auto simp only: Let_def split: prod.splits)
  let ?s2 = "s1\<lparr>bs_running := bs_running s @ startedTasks env params pagesOf (concat eps)\<rparr>"
  have eq: "btcslasher_Bootstrap env h s = bindG (wrapG ''failed to bootstrap BTC slasher: '' (processEvidencesFromHeight env h)) (\<lambda>lastSlashedHeight.
       if lastSlashedHeight > 0 then
         bindG (modG (\<lambda>s. s\<lparr>bs_height := lastSlashedHeight + 1\<rparr>)) (\<lambda>_.
           wrapG ''failed to store last processed height: '' (dbS (PutHeight (sl_kv env) lastSlashedHeight)))
       else retG ()) s1"
    using load by (cases "h > 0") (simp_all add: btcslasher_Bootstrap_def modG_def)
  show ?thesis
  proof (cases "allGood env params pagesOf (concat eps)")
    case False
    then obtain e where "r0 = Err e" using r0 by (simp only: if_False) blast
    then have "r = Err (wrapf ''failed to bootstrap BTC slasher: '' e)" "s' = ?s2"
      using assms(4) unfolding eq bindG_def wrapG_def proc by simp_all
    then have "bs_running s' = bs_running s @ startedTasks env params pagesOf (concat eps)" "\<exists>e. r = Err e" by simp_all
    then show ?thesis using False by blast
  next
    case True
    then have r0: "r0 = Ok ?top" using r0 by simp
    show ?thesis
    proof (cases "?top > 0")
      case False
      then have "s' = ?s2" using assms(4) unfolding eq bindG_def wrapG_def proc r0 by (simp add: retG_def)
      then show ?thesis using True False s1(3) by simp
    next
      case pos: True
      have "s' = snd (dbS (PutHeight (sl_kv env) ?top) (?s2\<lparr>bs_height := ?top + 1\<rparr>))"
        using assms(4) pos unfolding eq bindG_def wrapG_def proc r0 by (simp add: modG_def split: prod.splits outcome.splits)
      then have "bs_running s' = bs_running ?s2" "bs_height s' = ?top + 1" by (simp_all add: dbS_def zoomG_def split: prod.splits)
      then show ?thesis using True pos by simp
    qed
  qed
qed

text \<open>
  A tracker created over the database of a previous run bootstraps from the evidence height
  stored there, whatever start height it is given: it starts the tasks of exactly the evidence
  Babylon lists from that height on. It fails if a single piece of that evidence cannot be
  processed; otherwise the next height is one above the highest evidence, or the stored one.
\<close>

theorem tracker_resumes:
  fixes env :: "('w, 'spv, 'inc, 'db, 'pub, 'spend, 'asig, 'ssig) trackerEnv"
  assumes "kv_contract (sl_kv (te_slasher env))"
    and "LastProcessedHeight (sl_kv (te_slasher env)) db = (Ok (Some h), db)"
    and "NewBTCStakingTracker env w db = Ok tk"
    and "answersEvidence (te_slasher env) w h eps" and "answersAll (te_slasher env) w params pagesOf (concat eps)"
    and "sl_BTCCheckpointParams (te_slasher env) w = (Ok (f, k), w)"
    and "tracker_Bootstrap env startHeight tk = (r, tk')"
  shows "bs_running (tk_slasher tk') = startedTasks (te_slasher env) params pagesOf (concat eps)
    \<and> ((\<exists>e \<in> set (concat eps). evidenceTasks (te_slasher env) params pagesOf e = None) \<longrightarrow> (\<exists>err. r = Err err))
    \<and> ((\<forall>e \<in> set (concat eps). evidenceTasks (te_slasher env) params pagesOf e \<noteq> None) \<longrightarrow>
        bs_height (tk_slasher tk') = (if lastHeightOf 0 (concat eps) > 0 then lastHeightOf 0 (concat eps) + 1 else h))"
proof -
  let ?sl = "te_slasher env"
  obtain s where new: "btcslasher_New ?sl w db = Ok s" and tk: "tk_slasher tk = s" "tk_world tk = w" "tk_slashedFPSKChan tk = []"
    using assms(3) by (auto simp: NewBTCStakingTracker_def split: outcome.splits)
  note s = New_fresh [OF new]
  have sin: "slasherIn tk = s" using s tk by (simp add: slasherIn_def)
  have sout: "slasherOut s tk = tk" using s tk by (simp add: slasherOut_def)
  have "LastEvidencesHeight ?sl s = (Ok (Some h), s)"
    using NewSlasherStore_keeps_height [OF assms(1) s(1) assms(2)] s by (simp add: LastEvidencesHeight_def dbS_def)
  then have "zoomG slasherIn slasherOut (LastEvidencesHeight ?sl) tk = (Ok (Some h), tk)"
    by (simp add: zoomG_def sin sout)
  then have run: "tracker_Bootstrap env startHeight tk = wrapG ''failed to bootstrap BTC staking tracker: ''
         (zoomG slasherIn slasherOut (btcslasher_Bootstrap ?sl h)) tk"
    by (simp add: tracker_Bootstrap_def bindG_def wrapG_def)
  obtain r0 s' where b: "btcslasher_Bootstrap ?sl h s = (r0, s')" by force
  have tk': "tk_slasher tk' = s'" and r: "(\<exists>e. r0 = Err e) \<longrightarrow> (\<exists>e. r = Err e)"
    using assms(7) unfolding run by (auto simp: wrapG_def zoomG_def sin b slasherOut_def split: outcome.splits)
  have "h = 0 \<Longrightarrow> bs_height s = h" using s by simp
  then have "(if h > 0 then h else bs_height s) = h" by (simp add: word_gt_0)
  then show ?thesis
    using bootstrap_eq [of ?sl s h eps params pagesOf f k r0 s'] assms(4-6) b s r unfolding tk' by simp
qed

subsection \<open>From a slashing transaction to all delegations of its provider\<close>

lemma atomicOut_simps [simp]:
  "tk_slashedFPSKChan (atomicOut x s) = as_slashedFPSKChan x" "tk_world (atomicOut x s) = as_world x"
  "tk_slasher (atomicOut x s) = tk_slasher s" "tk_atomic (atomicOut x s) = x"
  by (simp_all add: atomicOut_def)


subsection \<open>Concrete instances\<close>

definition sampleTrackerEnv :: "(unit, unit, unit, string list \<times> ((string \<times> string), bytes) gomap, bytes, unit, bytes, bytes) trackerEnv" where
  "sampleTrackerEnv = \<lparr>te_watcher = sampleWatcherEnv, te_register = retG 100, te_slasher = sampleSlasherEnv, te_atomic = sampleAtomicEnv,
     te_bbnClientStop = retG ()\<rparr>"

abbreviation sampleDb :: "u64 \<Rightarrow> string list \<times> ((string \<times> string), bytes) gomap" where
  "sampleDb h \<equiv> ([processedEvidenceHeightBucket], [((processedEvidenceHeightBucket, processedEvidenceHeightKey), slasher_uint64ToBytes h)])"

theorem tracker_resumes_witness:
  "\<exists>tk. NewBTCStakingTracker sampleTrackerEnv () (sampleDb 25) = Ok tk
     \<and> bs_height (tk_slasher (snd (tracker_Bootstrap sampleTrackerEnv 1 tk))) = 31"
proof -
  have te: "te_slasher sampleTrackerEnv = sampleSlasherEnv" by (simp add: sampleTrackerEnv_def)
  have kv: "kv_contract (sl_kv (te_slasher sampleTrackerEnv))" "sl_kv (te_slasher sampleTrackerEnv) = sampleKv"
    by (simp_all add: te sampleSlasherEnv_def sampleKv_contract)
  have stored: "LastProcessedHeight (sl_kv (te_slasher sampleTrackerEnv)) (sampleDb 25) = (Ok (Some 25), sampleDb 25)"
    by (simp add: kv(2) LastProcessedHeight_def store_get_def kvView_def sampleKv_def bindG_def tryG_def retG_def liftG_def slasher_codec.dec_enc)
  obtain tk where tk: "NewBTCStakingTracker sampleTrackerEnv () (sampleDb 25) = Ok tk"
    by (auto simp: NewBTCStakingTracker_def btcslasher_New_def NewSlasherStore_def kv(2) sampleKv_def)
  obtain r tk' where run: "tracker_Bootstrap sampleTrackerEnv 1 tk = (r, tk')" by force
  have par: "sl_BTCCheckpointParams (te_slasher sampleTrackerEnv) () = (Ok (100, 6), ())" by (simp add: te sampleSlasherEnv_def retG_def)
  have good: "evidenceTasks sampleSlasherEnv sampleStakingParams (\<lambda>_. Some samplePages) sampleEvidence \<noteq> None"
    by (simp add: evidenceTasks_def evidenceKey_def sampleEvidence_def sampleSlasherEnv_def hexVal_def)
  have hgt: "evd_BlockHeight sampleEvidence = 30" by (simp add: sampleEvidence_def)
  have "bs_height (tk_slasher tk') = 31"
    using tracker_resumes [OF kv(1) stored tk, of "[[sampleEvidence]]" sampleStakingParams "\<lambda>_. Some samplePages" 100 6 1 r tk']
      sampleSlasher_evidence [of "()"] par run good hgt unfolding te by simp
  then show ?thesis using tk run by simp
qed

definition sampleTracker :: "(unit, unit, string list \<times> ((string \<times> string), bytes) gomap) tracker" where
  "sampleTracker = \<lparr>tk_watcher = NewStakingEventWatcher (), tk_slasher = sampleSlasher,
     tk_atomic = sampleAtomic\<lparr>as_slashingTxChan := [sampleInfo]\<rparr>, tk_slashedFPSKChan = [],
     tk_startOnce = True, tk_stopOnce = False, tk_chanClosed = False, tk_quit = False, tk_world = ()\<rparr>"


end
