(* ===== verification/Relayer.thy ===== *)
theory Relayer
  imports Go_Numbers KV_Stores Retry_Wrap BTC_Client
begin

text \<open>
  The relayer of the submitter, \<open>submitter/relayer\<close>: it turns a sealed checkpoint into two
  chained Bitcoin transactions, sends them, remembers them in memory and on disk, and replaces
  the second one by a copy with a higher fee when it is not mined in time.

  The state has the fields of the last submitted checkpoint; the transactions in it are changed
  in place by a replacement, which is modelled as an update of the state. Amounts are \<open>int64\<close>, so
  sums and products are wrapped by \<open>i64\<close>. The wallet, the fee estimator,
  the encoder of checkpoints and the amount functions of \<open>btcutil\<close> are fields of \<open>relayerEnv\<close>.
\<close>

subsection \<open>Data\<close>

record btcTxInfo =
  ti_TxID :: "hash option"
  ti_Tx :: msgTx
  ti_Size :: int
  ti_Fee :: int

record checkpointInfo =
  ci_Epoch :: u64
  ci_TS :: int
  ci_Tx1 :: "btcTxInfo option"
  ci_Tx2 :: "btcTxInfo option"

datatype ckptStatus = Accumulating | Sealed | Submitted | Confirmed | Finalized

record rawCkptResponse =
  rcr_EpochNum :: u64
  rcr_BlockHashHex :: string
  rcr_Bitmap :: bytes
  rcr_BlsMultiSig :: bytes

record ckptWithMeta =
  cwm_Ckpt :: rawCkptResponse
  cwm_Status :: ckptStatus

record mempoolEntry =
  me_DescendantCount :: int
  me_DescendantFees :: f64
  me_DescendantSize :: int
  me_Fee :: f64
  me_Time :: int

record ('w, 'db) relayer =
  rl_lastSubmittedCheckpoint :: checkpointInfo
  rl_db :: 'db
  rl_world :: 'w

text \<open>The local variable \<open>lastError\<close> of the resend loop is kept next to the state.\<close>

type_synonym ('w, 'db) resendState = "('w, 'db) relayer \<times> goerr option"

record ('w, 'db, 'raw, 'btc) relayerEnv =
  rle_kv :: "'db kvBackend"
  rle_codec :: storeCodec
  rle_GetRawTransaction :: "hash \<Rightarrow> ('w, msgTx) prog"
  rle_SendRawTransaction :: "msgTx \<Rightarrow> ('w, hash) prog"
  rle_TxDetails :: "hash \<Rightarrow> bytes \<Rightarrow> ('w, txStatus) prog"
  rle_FundRawTransaction :: "msgTx \<Rightarrow> f64 \<Rightarrow> nat \<Rightarrow> ('w, msgTx \<times> int) prog"
  rle_WalletPassphrase :: "('w, unit) prog"
  rle_SignRawTransactionWithWallet :: "msgTx \<Rightarrow> ('w, msgTx \<times> bool) prog"
  rle_GetMempoolEntry :: "hash \<Rightarrow> ('w, mempoolEntry) prog"
  rle_GetNetworkInfo :: "('w, f64) prog"
  rle_GetNewAddress :: "('w, string) prog"
  rle_EstimateFeePerKW :: "u32 \<Rightarrow> ('w, int) prog"
  rle_RelayFeePerKW :: "('w, int) prog"
  rle_Now :: "('w, int) prog"
  rle_PayToAddrScript :: "string \<Rightarrow> goerr + bytes"
  rle_ExtractPkScriptAddrs :: "bytes \<Rightarrow> goerr + string list"
  rle_DataScript :: "bytes \<Rightarrow> goerr + bytes"
  rle_Serialize :: "msgTx \<Rightarrow> goerr + bytes"
  rle_TxHash :: "msgTx \<Rightarrow> hash"
  rle_GetTxVirtualSize :: "msgTx \<Rightarrow> int"
  rle_FeePerKVByte :: "int \<Rightarrow> int"
  rle_FeeForVSize :: "int \<Rightarrow> int \<Rightarrow> int"
  rle_ToBTC :: "int \<Rightarrow> f64"
  rle_NewAmount :: "f64 \<Rightarrow> goerr + int"
  rle_MulF64 :: "int \<Rightarrow> f64 \<Rightarrow> int"
  rle_ToRawCheckpoint :: "rawCkptResponse \<Rightarrow> goerr + 'raw"
  rle_FromRawCkptToBTCCkpt :: "'raw \<Rightarrow> goerr + 'btc"
  rle_EncodeCheckpointData :: "'btc \<Rightarrow> goerr + bytes \<times> bytes"
  rle_rnd :: "rat \<Rightarrow> f64"
  rle_machineInt64 :: "f64 \<Rightarrow> int"
  rle_machineSeconds :: "int \<Rightarrow> nat"
  rle_TargetBlockNum :: int
  rle_DefaultFee :: int
  rle_TxFeeMax :: int
  rle_TxFeeMin :: int
  rle_ResubmitFeeMultiplier :: f64
  rle_InsufficientFeeMargin :: f64
  rle_InsufficientFeerateMargin :: f64
  rle_FeeIncrementMargin :: f64
  rle_ResendIntervalSeconds :: nat
  rle_retry :: "(('w, 'db) resendState, btcTxInfo option) retryDo"

definition changePosition :: nat where "changePosition = 1"
definition dustThreshold :: int where "dustThreshold = 546"
definition MaxSatoshi :: int where "MaxSatoshi = 2100000000000000"

definition rpcL :: "('w, 'a) prog \<Rightarrow> (('w, 'db) relayer, 'a) prog" where
  "rpcL m = zoomG rl_world (\<lambda>w s. s\<lparr>rl_world := w\<rparr>) m"

definition dbL :: "('db, 'a) prog \<Rightarrow> (('w, 'db) relayer, 'a) prog" where
  "dbL m = zoomG rl_db (\<lambda>d s. s\<lparr>rl_db := d\<rparr>) m"

abbreviation amountOf :: "('w, 'db, 'raw, 'btc) relayerEnv \<Rightarrow> f64 \<Rightarrow> int" where
  "amountOf env \<equiv> f_toInt64 (rle_machineInt64 env)"

abbreviation floatOf :: "('w, 'db, 'raw, 'btc) relayerEnv \<Rightarrow> int \<Rightarrow> f64" where
  "floatOf env n \<equiv> rle_rnd env (of_int n)"

definition emptyCheckpoint :: checkpointInfo where
  "emptyCheckpoint = \<lparr>ci_Epoch = 0, ci_TS = 0, ci_Tx1 = None, ci_Tx2 = None\<rparr>"

definition relayer_New :: "('w, 'db, 'raw, 'btc) relayerEnv \<Rightarrow> 'w \<Rightarrow> 'db \<Rightarrow> ('w, 'db) relayer outcome" where
  "relayer_New env w db = (case NewSubmitterStore (rle_kv env) db of
       (Ok _, db') \<Rightarrow> Ok \<lparr>rl_lastSubmittedCheckpoint = emptyCheckpoint, rl_db = db', rl_world = w\<rparr>
     | (Err _, _) \<Rightarrow> Panic ''error setting up store'' | (Panic p, _) \<Rightarrow> Panic p | (NoFuel, _) \<Rightarrow> NoFuel)"

subsection \<open>Fees\<close>

text \<open>The rate per 1000 virtual bytes, held between the configured bounds.\<close>

definition getFeeRate :: "('w, 'db, 'raw, 'btc) relayerEnv \<Rightarrow> (('w, 'db) relayer, int) prog" where
  "getFeeRate env =
     (if rle_TargetBlockNum env < 0 \<or> rle_TargetBlockNum env > 2 ^ 32 - 1 then panicG ''targetBlockNum is out of uint32 range''
      else bindG (tryG (rpcL (rle_EstimateFeePerKW env (word_of_int (rle_TargetBlockNum env))))) (\<lambda>r. case r of
        Inl _ \<Rightarrow> retG (rle_DefaultFee env)
      | Inr fee \<Rightarrow> retG (let f1 = rle_FeePerKVByte env fee;
            f2 = (if f1 > rle_TxFeeMax env then rle_TxFeeMax env else f1)
          in if f2 < rle_TxFeeMin env then rle_TxFeeMin env else f2)))"

definition calcMinRelayFee :: "('w, 'db, 'raw, 'btc) relayerEnv \<Rightarrow> int \<Rightarrow> (('w, 'db) relayer, int) prog" where
  "calcMinRelayFee env txVirtualSize =
     bindG (rpcL (rle_RelayFeePerKW env)) (\<lambda>feePerKW.
       retG (let minRelayFee = rle_FeeForVSize env (rle_FeePerKVByte env feePerKW) txVirtualSize
         in if minRelayFee > MaxSatoshi then MaxSatoshi else minRelayFee))"

definition getIncrementalRelayFeerate :: "('w, 'db, 'raw, 'btc) relayerEnv \<Rightarrow> (('w, 'db) relayer, int) prog" where
  "getIncrementalRelayFeerate env =
     bindG (wrapG ''failed to get network info for incremental relay feerate: '' (rpcL (rle_GetNetworkInfo env))) (\<lambda>incrementalFee.
       retG (amountOf env incrementalFee))"

definition calculateTxVirtualSize :: "('w, 'db, 'raw, 'btc) relayerEnv \<Rightarrow> msgTx option \<Rightarrow> goerr + int" where
  "calculateTxVirtualSize env tx = (case tx of None \<Rightarrow> Inl (errorf ''tx param nil'') | Some t \<Rightarrow> Inr (rle_GetTxVirtualSize env t))"

definition shouldResendCheckpoint :: "('w, 'db, 'raw, 'btc) relayerEnv \<Rightarrow> btcTxInfo \<Rightarrow> int \<Rightarrow> (('w, 'db) relayer, bool) prog" where
  "shouldResendCheckpoint env tx2 bumpedFee =
     bindG (calcMinRelayFee env (ti_Size tx2)) (\<lambda>minFee. retG (bumpedFee \<ge> i64 (ti_Fee tx2 + minFee)))"

definition isNotRBFError :: "goerr \<Rightarrow> bool" where
  "isNotRBFError e \<longleftrightarrow> \<not> errors_is e ErrInsufficientFee \<and> \<not> errors_is e ErrInsufficientFeerate \<and> \<not> errors_is e ErrFeeIncrementTooSmall"

definition adjustFeeForInsufficientFee :: "('w, 'db, 'raw, 'btc) relayerEnv \<Rightarrow> mempoolEntry \<Rightarrow> int \<Rightarrow> int" where
  "adjustFeeForInsufficientFee env entry bumpedFee =
     (let originalTotalFees = amountOf env (me_DescendantFees entry);
          margin = f_add (rle_rnd env) (Fin 1) (rle_InsufficientFeeMargin env);
          newFee = rle_MulF64 env originalTotalFees margin
      in if newFee > bumpedFee then newFee else bumpedFee)"

text \<open>The two other adjustments compute \<open>newFee\<close> but return \<open>requiredFee\<close> when it is the larger one.\<close>

definition adjustFeeForIncrementTooSmall ::
  "('w, 'db, 'raw, 'btc) relayerEnv \<Rightarrow> mempoolEntry \<Rightarrow> int \<Rightarrow> int \<Rightarrow> btcTxInfo \<Rightarrow> (('w, 'db) relayer, int) prog" where
  "adjustFeeForIncrementTooSmall env entry bumpedFee requiredFee tx2 =
     bindG (tryG (getIncrementalRelayFeerate env)) (\<lambda>r. case r of
       Inl _ \<Rightarrow> retG bumpedFee
     | Inr incrementalFeerate \<Rightarrow> retG
         (let requiredIncrement = i64 (incrementalFeerate * ti_Size tx2);
              originalFee = (if me_Fee entry \<noteq> Fin 0 then amountOf env (me_Fee entry) else ti_Fee tx2);
              margin = f_add (rle_rnd env) (Fin 1) (rle_FeeIncrementMargin env);
              newFee = i64 (originalFee + rle_MulF64 env requiredIncrement margin)
          in if newFee > bumpedFee then requiredFee else bumpedFee))"

definition adjustFeeForInsufficientFeerate ::
  "('w, 'db, 'raw, 'btc) relayerEnv \<Rightarrow> mempoolEntry \<Rightarrow> int \<Rightarrow> int \<Rightarrow> int \<Rightarrow> int" where
  "adjustFeeForInsufficientFeerate env entry bumpedFee requiredFee txSize =
     (let originalTotalFees = amountOf env (me_DescendantFees entry);
          originalVsize = me_DescendantSize entry;
          originalFeerate = f_div (rle_rnd env) (floatOf env originalTotalFees) (floatOf env originalVsize);
          margin = f_add (rle_rnd env) (Fin 1) (rle_InsufficientFeerateMargin env);
          newFeerate = f_mul (rle_rnd env) originalFeerate margin;
          newFee = amountOf env (f_mul (rle_rnd env) newFeerate (floatOf env txSize))
      in if newFee > bumpedFee then requiredFee else bumpedFee)"

definition calculateBumpedFee ::
  "('w, 'db, 'raw, 'btc) relayerEnv \<Rightarrow> checkpointInfo \<Rightarrow> goerr option \<Rightarrow> (('w, 'db) relayer, int) prog" where
  "calculateBumpedFee env ckptInfo previousFailure = (case ci_Tx2 ckptInfo of
       None \<Rightarrow> failG (errorf ''checkpoint info or Tx2 is nil'')
     | Some tx2 \<Rightarrow>
         bindG (getFeeRate env) (\<lambda>currentFeeRate.
         let requiredFee = i64 ((if currentFeeRate < 0 then - ((- currentFeeRate) div 1000) else currentFeeRate div 1000) * ti_Size tx2);
             bumpedFee = rle_MulF64 env (ti_Fee tx2) (rle_ResubmitFeeMultiplier env)
         in (case previousFailure of
               None \<Rightarrow> retG (if bumpedFee < requiredFee then requiredFee else bumpedFee)
             | Some failure \<Rightarrow>
                 if isNotRBFError failure then retG (if bumpedFee < requiredFee then requiredFee else bumpedFee)
                 else bindG (derefG (ti_TxID tx2)) (\<lambda>txID.
                   bindG (wrapG ''failed to get mempool entry: '' (rpcL (rle_GetMempoolEntry env txID))) (\<lambda>entry.
                   bindG (if errors_is failure ErrInsufficientFee then retG (adjustFeeForInsufficientFee env entry bumpedFee)
                          else if errors_is failure ErrInsufficientFeerate then retG (adjustFeeForInsufficientFeerate env entry bumpedFee requiredFee (ti_Size tx2))
                          else adjustFeeForIncrementTooSmall env entry bumpedFee requiredFee tx2) (\<lambda>adjusted.
                     retG (if adjusted < requiredFee then requiredFee else adjusted)))))))"

text \<open>The rules of BIP 125, checked against the transaction in the mempool.\<close>

definition verifyRBFRequirements :: "('w, 'db, 'raw, 'btc) relayerEnv \<Rightarrow> hash \<Rightarrow> int \<Rightarrow> int \<Rightarrow> (('w, 'db) relayer, unit) prog" where
  "verifyRBFRequirements env txID newFee txVirtualSize =
     bindG (tryG (rpcL (rle_GetMempoolEntry env txID))) (\<lambda>r. case r of
       Inl err \<Rightarrow> failG (GoErr (ErrTxNotInMempool # errChain err) (errText err))
     | Inr entry \<Rightarrow>
         if me_DescendantCount entry > 100 then failG (sentinelErr ErrTooManyDescendants)
         else let originalTotalFees = amountOf env (me_DescendantFees entry) in
         if newFee \<le> originalTotalFees then failG (sentinelErr ErrInsufficientFee)
         else if f_le (f_div (rle_rnd env) (floatOf env newFee) (floatOf env txVirtualSize))
                      (f_div (rle_rnd env) (floatOf env originalTotalFees) (floatOf env (me_DescendantSize entry)))
           then failG (sentinelErr ErrInsufficientFeerate)
         else bindG (tryG (getIncrementalRelayFeerate env)) (\<lambda>r. case r of
           Inl err \<Rightarrow> failG (GoErr (ErrRelayFeerate # errChain err) (errText err))
         | Inr incrementalFeerate \<Rightarrow>
             if i64 (newFee - originalTotalFees) < i64 (incrementalFeerate * txVirtualSize) then failG (sentinelErr ErrFeeIncrementTooSmall)
             else retG ()))"

subsection \<open>Building and sending\<close>

definition signTx :: "('w, 'db, 'raw, 'btc) relayerEnv \<Rightarrow> msgTx \<Rightarrow> (('w, 'db) relayer, msgTx) prog" where
  "signTx env tx =
     bindG (rpcL (rle_WalletPassphrase env)) (\<lambda>_.
     bindG (rpcL (rle_SignRawTransactionWithWallet env tx)) (\<lambda>(signedTx, allSigned).
       if \<not> allSigned then failG (errorf ''transaction is only partially signed'') else retG signedTx))"

definition sendTxToBTC :: "('w, 'db, 'raw, 'btc) relayerEnv \<Rightarrow> msgTx \<Rightarrow> (('w, 'db) relayer, hash) prog" where
  "sendTxToBTC env tx = rpcL (rle_SendRawTransaction env tx)"

definition encodeCheckpointData :: "('w, 'db, 'raw, 'btc) relayerEnv \<Rightarrow> rawCkptResponse \<Rightarrow> goerr + bytes \<times> bytes" where
  "encodeCheckpointData env ckpt = (case rle_ToRawCheckpoint env ckpt of Inl e \<Rightarrow> Inl e
     | Inr rawCkpt \<Rightarrow> (case rle_FromRawCkptToBTCCkpt env rawCkpt of Inl e \<Rightarrow> Inl e
       | Inr btcCkpt \<Rightarrow> rle_EncodeCheckpointData env btcCkpt))"

definition finalizeTransaction :: "('w, 'db, 'raw, 'btc) relayerEnv \<Rightarrow> msgTx \<Rightarrow> (('w, 'db) relayer, btcTxInfo) prog" where
  "finalizeTransaction env tx =
     bindG (if length (tx_TxOut tx) > changePosition then
         bindG (wrapG ''failed to ExtractPkScriptAddrs: '' (sumG (rle_ExtractPkScriptAddrs env (out_PkScript (tx_TxOut tx ! changePosition))))) (\<lambda>addresses.
           if addresses = [] then failG (errorf ''no change address found'') else retG ())
       else retG ()) (\<lambda>_.
     bindG (wrapG ''failed to sign tx: '' (signTx env tx)) (\<lambda>signedTx.
     bindG (wrapG ''failed to serialize signedTx: '' (sumG (rle_Serialize env signedTx))) (\<lambda>_.
     bindG (sumG (calculateTxVirtualSize env (Some tx))) (\<lambda>txSize.
     bindG (calcMinRelayFee env txSize) (\<lambda>txFee.
       retG \<lparr>ti_TxID = None, ti_Tx = signedTx, ti_Size = txSize, ti_Fee = txFee\<rparr>)))))"

definition wireTxVersion :: int where "wireTxVersion = 1"

text \<open>A new transaction whose only output carries the data.\<close>

definition dataTx :: "txIn list \<Rightarrow> bytes \<Rightarrow> msgTx" where
  "dataTx ins script = \<lparr>tx_Version = wireTxVersion, tx_TxIn = ins, tx_TxOut = [\<lparr>out_Value = 0, out_PkScript = script\<rparr>], tx_LockTime = 0\<rparr>"

definition addChangeOutput :: "('w, 'db, 'raw, 'btc) relayerEnv \<Rightarrow> f64 \<Rightarrow> msgTx \<Rightarrow> (('w, 'db) relayer, msgTx) prog" where
  "addChangeOutput env feeRate tx =
     bindG (wrapG ''err getting raw change address '' (rpcL (rle_GetNewAddress env))) (\<lambda>changeAddr.
     bindG (wrapG ''failed to create script for change address: '' (sumG (rle_PayToAddrScript env changeAddr))) (\<lambda>changePkScript.
     bindG (wrapG ''failed to fund raw tx after nochange: ''
         (rpcL (rle_FundRawTransaction env (tx\<lparr>tx_TxOut := tx_TxOut tx @ [\<lparr>out_Value = dustThreshold, out_PkScript = changePkScript\<rparr>]\<rparr>)
            feeRate changePosition))) (\<lambda>(funded, _). retG funded)))"

definition buildDataTx :: "('w, 'db, 'raw, 'btc) relayerEnv \<Rightarrow> bytes \<Rightarrow> (('w, 'db) relayer, btcTxInfo) prog" where
  "buildDataTx env data =
     bindG (wrapG ''failed to build data script: '' (sumG (rle_DataScript env data))) (\<lambda>dataScript.
     bindG (getFeeRate env) (\<lambda>rate.
     bindG (wrapG ''failed to fund raw tx in buildDataTx: ''
         (rpcL (rle_FundRawTransaction env (dataTx [] dataScript) (rle_ToBTC env rate) changePosition))) (\<lambda>(funded, _).
     bindG (if length (tx_TxOut funded) > changePosition then retG funded else addChangeOutput env (rle_ToBTC env rate) funded) (\<lambda>tx.
       finalizeTransaction env tx))))"

definition chainedInput :: "('w, 'db, 'raw, 'btc) relayerEnv \<Rightarrow> msgTx \<Rightarrow> txIn" where
  "chainedInput env prevTx = \<lparr>in_PreviousOutPoint = \<lparr>op_Hash = rle_TxHash env prevTx, op_Index = of_nat changePosition\<rparr>,
     in_SignatureScript = [], in_Witness = [], in_Sequence = 0xffffffff - 2\<rparr>"

definition buildChainedDataTx :: "('w, 'db, 'raw, 'btc) relayerEnv \<Rightarrow> bytes \<Rightarrow> msgTx \<Rightarrow> (('w, 'db) relayer, btcTxInfo) prog" where
  "buildChainedDataTx env data prevTx =
     bindG (wrapG ''failed to build data script: '' (sumG (rle_DataScript env data))) (\<lambda>dataScript.
     bindG (getFeeRate env) (\<lambda>rate.
     bindG (wrapG ''failed to fund raw tx in buildChainedDataTx: ''
         (rpcL (rle_FundRawTransaction env (dataTx [chainedInput env prevTx] dataScript) (rle_ToBTC env rate) changePosition))) (\<lambda>(funded, _).
       finalizeTransaction env funded)))"

definition buildAndSendTx :: "('w, 'db, 'raw, 'btc) relayerEnv \<Rightarrow> (('w, 'db) relayer, btcTxInfo) prog \<Rightarrow> (('w, 'db) relayer, btcTxInfo) prog" where
  "buildAndSendTx env builderFunc =
     bindG (wrapG ''failed to add data to tx: '' builderFunc) (\<lambda>tx.
     bindG (wrapG ''failed to send tx to BTC: '' (sendTxToBTC env (ti_Tx tx))) (\<lambda>txID.
       retG (tx\<lparr>ti_TxID := Some txID\<rparr>)))"

definition setLastTx1 :: "btcTxInfo \<Rightarrow> (('w, 'db) relayer, unit) prog" where
  "setLastTx1 tx1 = modG (\<lambda>s. s\<lparr>rl_lastSubmittedCheckpoint := (rl_lastSubmittedCheckpoint s)\<lparr>ci_Tx1 := Some tx1\<rparr>\<rparr>)"

definition ChainTwoTxAndSend :: "('w, 'db, 'raw, 'btc) relayerEnv \<Rightarrow> bytes \<Rightarrow> bytes \<Rightarrow> (('w, 'db) relayer, btcTxInfo \<times> btcTxInfo) prog" where
  "ChainTwoTxAndSend env data1 data2 =
     bindG (buildAndSendTx env (buildDataTx env data1)) (\<lambda>tx1.
     bindG (setLastTx1 tx1) (\<lambda>_.
     bindG (buildAndSendTx env (buildChainedDataTx env data2 (ti_Tx tx1))) (\<lambda>tx2.
       retG (tx1, tx2))))"

definition convertCkptToTwoTxAndSubmit :: "('w, 'db, 'raw, 'btc) relayerEnv \<Rightarrow> rawCkptResponse \<Rightarrow> (('w, 'db) relayer, checkpointInfo) prog" where
  "convertCkptToTwoTxAndSubmit env ckpt =
     bindG (sumG (encodeCheckpointData env ckpt)) (\<lambda>(data1, data2).
     bindG (ChainTwoTxAndSend env data1 data2) (\<lambda>(tx1, tx2).
     bindG (rpcL (rle_Now env)) (\<lambda>now.
       retG \<lparr>ci_Epoch = rcr_EpochNum ckpt, ci_TS = now, ci_Tx1 = Some tx1, ci_Tx2 = Some tx2\<rparr>)))"

definition retrySendTx2 :: "('w, 'db, 'raw, 'btc) relayerEnv \<Rightarrow> rawCkptResponse \<Rightarrow> (('w, 'db) relayer, checkpointInfo) prog" where
  "retrySendTx2 env ckpt =
     bindG (sumG (encodeCheckpointData env ckpt)) (\<lambda>(_, data2).
     bindG (getG (ci_Tx1 \<circ> rl_lastSubmittedCheckpoint)) (\<lambda>t. case t of
       None \<Rightarrow> failG (errorf ''tx1 is nil'')
     | Some tx1 \<Rightarrow>
         bindG (buildAndSendTx env (buildChainedDataTx env data2 (ti_Tx tx1))) (\<lambda>tx2.
         bindG (rpcL (rle_Now env)) (\<lambda>now.
           retG \<lparr>ci_Epoch = rcr_EpochNum ckpt, ci_TS = now, ci_Tx1 = Some tx1, ci_Tx2 = Some tx2\<rparr>))))"

subsection \<open>After a restart\<close>

definition rpcNoTxInfo :: int where "rpcNoTxInfo = - 5"
definition rpcTxAlreadyInChain :: int where "rpcTxAlreadyInChain = - 27"

text \<open>
  \<open>errors.As\<close> finds the first \<open>*btcjson.RPCError\<close> of the chain. The codes that only change the
  text of the returned error are not told apart.
\<close>

fun asRPCError :: "sentinel list \<Rightarrow> int option" where
  "asRPCError [] = None"
| "asRPCError (RPCError code # ts) = Some code"
| "asRPCError (t # ts) = asRPCError ts"

definition maybeResendTx :: "('w, 'db, 'raw, 'btc) relayerEnv \<Rightarrow> msgTx \<Rightarrow> (('w, 'db) relayer, unit) prog" where
  "maybeResendTx env tx =
     bindG (tryG (rpcL (rle_GetRawTransaction env (rle_TxHash env tx)))) (\<lambda>r. case r of
       Inr _ \<Rightarrow> retG ()
     | Inl err \<Rightarrow>
         if asRPCError (errChain err) = Some rpcNoTxInfo then
           bindG (tryG (sendTxToBTC env tx)) (\<lambda>r. case r of
             Inr _ \<Rightarrow> retG ()
           | Inl sendErr \<Rightarrow> if asRPCError (errChain sendErr) = Some rpcTxAlreadyInChain then retG () else failG sendErr)
         else failG err)"

definition maybeResendFromStore :: "('w, 'db, 'raw, 'btc) relayerEnv \<Rightarrow> u64 \<Rightarrow> (('w, 'db) relayer, bool) prog" where
  "maybeResendFromStore env epoch =
     bindG (dbL (LatestCheckpoint (rle_codec env) (rle_kv env))) (\<lambda>r. case r of
       None \<Rightarrow> retG False
     | Some storedCkpt \<Rightarrow>
         if sc_Epoch storedCkpt \<noteq> epoch then retG False
         else bindG (maybeResendTx env (sc_Tx1 storedCkpt)) (\<lambda>_.
           bindG (maybeResendTx env (sc_Tx2 storedCkpt)) (\<lambda>_. retG True)))"

definition btcTxInfoFromStoredTx :: "('w, 'db, 'raw, 'btc) relayerEnv \<Rightarrow> msgTx \<Rightarrow> (('w, 'db) relayer, btcTxInfo \<times> int) prog" where
  "btcTxInfoFromStoredTx env tx =
     bindG (wrapG ''failed to compute virtual size: '' (sumG (calculateTxVirtualSize env (Some tx)))) (\<lambda>size.
     bindG (wrapG ''mempool entry unavailable: '' (rpcL (rle_GetMempoolEntry env (rle_TxHash env tx)))) (\<lambda>entry.
     bindG (wrapG ''could not convert mempool fee: '' (sumG (rle_NewAmount env (me_Fee entry)))) (\<lambda>fee.
     bindG (rpcL (rle_Now env)) (\<lambda>now.
       retG (\<lparr>ti_TxID = Some (rle_TxHash env tx), ti_Tx = tx, ti_Size = size, ti_Fee = fee\<rparr>,
             if me_Time entry > 0 then 1000000000 * me_Time entry else now)))))"

definition rehydrateLastSubmittedCheckpointFromStore :: "('w, 'db, 'raw, 'btc) relayerEnv \<Rightarrow> u64 \<Rightarrow> (('w, 'db) relayer, unit) prog" where
  "rehydrateLastSubmittedCheckpointFromStore env ckptEpoch =
     bindG (wrapG ''failed to load stored checkpoint: '' (dbL (LatestCheckpoint (rle_codec env) (rle_kv env)))) (\<lambda>r. case r of
       None \<Rightarrow> retG ()
     | Some stored \<Rightarrow>
         if sc_Epoch stored \<noteq> ckptEpoch then retG ()
         else bindG (wrapG ''failed to rehydrate tx1: '' (btcTxInfoFromStoredTx env (sc_Tx1 stored))) (\<lambda>(tx1Info, _).
           bindG (wrapG ''failed to rehydrate tx2: '' (btcTxInfoFromStoredTx env (sc_Tx2 stored))) (\<lambda>(tx2Info, tx2TS).
             modG (\<lambda>s. s\<lparr>rl_lastSubmittedCheckpoint := \<lparr>ci_Epoch = sc_Epoch stored, ci_TS = tx2TS, ci_Tx1 = Some tx1Info, ci_Tx2 = Some tx2Info\<rparr>\<rparr>))))"

subsection \<open>Submitting a checkpoint\<close>

definition shouldSendCompleteCkpt :: "checkpointInfo \<Rightarrow> u64 \<Rightarrow> bool" where
  "shouldSendCompleteCkpt ckptInfo ckptEpoch \<longleftrightarrow> ci_Tx1 ckptInfo = None \<or> ci_Epoch ckptInfo < ckptEpoch"

definition shouldSendTx2 :: "checkpointInfo \<Rightarrow> u64 \<Rightarrow> bool" where
  "shouldSendTx2 ckptInfo ckptEpoch \<longleftrightarrow> (ci_Tx1 ckptInfo \<noteq> None \<or> ci_Epoch ckptInfo < ckptEpoch) \<and> ci_Tx2 ckptInfo = None"

text \<open>The checkpoint in memory as the store keeps it; \<open>Tx1.Tx\<close> and \<open>Tx2.Tx\<close> are dereferenced.\<close>

definition storeCkpt :: "('w, 'db, 'raw, 'btc) relayerEnv \<Rightarrow> checkpointInfo \<Rightarrow> (('w, 'db) relayer, unit) prog" where
  "storeCkpt env ckptInfo =
     bindG (derefG (ci_Tx1 ckptInfo)) (\<lambda>tx1. bindG (derefG (ci_Tx2 ckptInfo)) (\<lambda>tx2.
       dbL (PutCheckpoint (rle_codec env) (rle_kv env) (NewStoredCheckpoint (ti_Tx tx1) (ti_Tx tx2) (ci_Epoch ckptInfo)))))"

definition recordSubmitted :: "('w, 'db, 'raw, 'btc) relayerEnv \<Rightarrow> checkpointInfo \<Rightarrow> (('w, 'db) relayer, unit) prog" where
  "recordSubmitted env submitted =
     bindG (modG (\<lambda>s. s\<lparr>rl_lastSubmittedCheckpoint := submitted\<rparr>)) (\<lambda>_. storeCkpt env submitted)"

definition submitNew :: "('w, 'db, 'raw, 'btc) relayerEnv \<Rightarrow> rawCkptResponse \<Rightarrow> (('w, 'db) relayer, unit) prog" where
  "submitNew env ckpt =
     bindG (getG rl_lastSubmittedCheckpoint) (\<lambda>lst.
       if shouldSendCompleteCkpt lst (rcr_EpochNum ckpt) then bindG (convertCkptToTwoTxAndSubmit env ckpt) (recordSubmitted env)
       else if shouldSendTx2 lst (rcr_EpochNum ckpt) then bindG (retrySendTx2 env ckpt) (recordSubmitted env)
       else retG ())"

definition SendCheckpointToBTC :: "('w, 'db, 'raw, 'btc) relayerEnv \<Rightarrow> ckptWithMeta \<Rightarrow> (('w, 'db) relayer, unit) prog" where
  "SendCheckpointToBTC env ckpt =
     (let ckptEpoch = rcr_EpochNum (cwm_Ckpt ckpt) in
      if cwm_Status ckpt \<noteq> Sealed then retG ()
      else bindG (getG rl_lastSubmittedCheckpoint) (\<lambda>lst.
        bindG (if shouldSendCompleteCkpt lst ckptEpoch \<or> shouldSendTx2 lst ckptEpoch then maybeResendFromStore env ckptEpoch else retG False) (\<lambda>hasBeenProcessed.
          if hasBeenProcessed then
            (if ci_Tx2 lst = None then wrapG ''failed to rehydrate lastSubmittedCheckpoint: '' (rehydrateLastSubmittedCheckpointFromStore env ckptEpoch)
             else retG ())
          else submitNew env (cwm_Ckpt ckpt))))"

subsection \<open>Replacing the second transaction\<close>

definition lastTx2 :: "(('w, 'db) relayer, btcTxInfo) prog" where
  "lastTx2 = bindG (getG (ci_Tx2 \<circ> rl_lastSubmittedCheckpoint)) derefG"

text \<open>\<open>tx2\<close> is the transaction of the last submitted checkpoint: assigning to its fields changes that one.\<close>

definition updTx2 :: "(btcTxInfo \<Rightarrow> btcTxInfo) \<Rightarrow> (('w, 'db) relayer, unit) prog" where
  "updTx2 f = modG (\<lambda>s. s\<lparr>rl_lastSubmittedCheckpoint := (rl_lastSubmittedCheckpoint s)\<lparr>ci_Tx2 := map_option f (ci_Tx2 (rl_lastSubmittedCheckpoint s))\<rparr>\<rparr>)"

definition setChange :: "int \<Rightarrow> msgTx \<Rightarrow> msgTx" where
  "setChange v tx = tx\<lparr>tx_TxOut := (tx_TxOut tx)[changePosition := (tx_TxOut tx ! changePosition)\<lparr>out_Value := v\<rparr>]\<rparr>"

definition roundedFeeRate :: "('w, 'db, 'raw, 'btc) relayerEnv \<Rightarrow> int \<Rightarrow> int \<Rightarrow> f64" where
  "roundedFeeRate env txSize bumpedFee =
     (let txSizeKB = f_div (rle_rnd env) (floatOf env txSize) (Fin 1000);
          feeRate = f_div (rle_rnd env) (rle_ToBTC env bumpedFee) txSizeKB
      in f_div (rle_rnd env) (math_Round (f_mul (rle_rnd env) feeRate (Fin 1000000))) (Fin 1000000))"

text \<open>Pays the fee from the change, or with new inputs if too little would be left; yields the new fee.\<close>

definition payBumpedFee :: "('w, 'db, 'raw, 'btc) relayerEnv \<Rightarrow> btcTxInfo \<Rightarrow> int \<Rightarrow> (('w, 'db) relayer, int) prog" where
  "payBumpedFee env tx2 bumpedFee =
     (let balance = out_Value (tx_TxOut (ti_Tx tx2) ! changePosition) in
      if i64 (balance - bumpedFee) < dustThreshold then
        bindG (wrapG ''failed to fund transaction: ''
            (rpcL (rle_FundRawTransaction env (ti_Tx tx2) (roundedFeeRate env (ti_Size tx2) bumpedFee) 1))) (\<lambda>(fundedTx, fee).
        bindG (updTx2 (\<lambda>t. t\<lparr>ti_Tx := fundedTx\<rparr>)) (\<lambda>_.
        bindG (sumG (calculateTxVirtualSize env (Some fundedTx))) (\<lambda>txSize.
        bindG (updTx2 (\<lambda>t. t\<lparr>ti_Size := txSize\<rparr>)) (\<lambda>_. retG fee))))
      else bindG (updTx2 (\<lambda>t. t\<lparr>ti_Tx := setChange (i64 (balance - bumpedFee)) (ti_Tx t)\<rparr>)) (\<lambda>_. retG bumpedFee))"

definition maybeResendSecondTxOfCheckpointToBTC :: "('w, 'db, 'raw, 'btc) relayerEnv \<Rightarrow> int \<Rightarrow> (('w, 'db) relayer, btcTxInfo option) prog" where
  "maybeResendSecondTxOfCheckpointToBTC env bumpedFee =
     bindG lastTx2 (\<lambda>tx2.
       if length (tx_TxOut (ti_Tx tx2)) \<le> changePosition then failG (sentinelErr ErrNoChangeOutput)
       else bindG (derefG (ti_TxID tx2)) (\<lambda>oldTxID.
         bindG (rpcL (rle_TxDetails env oldTxID (out_PkScript (tx_TxOut (ti_Tx tx2) ! changePosition)))) (\<lambda>status.
           if status = TxInChain then retG None
           else bindG (payBumpedFee env tx2 bumpedFee) (\<lambda>newFee.
             bindG lastTx2 (\<lambda>changed.
             bindG (wrapG ''RBF requirements not met: '' (verifyRBFRequirements env (rle_TxHash env (ti_Tx tx2)) newFee (ti_Size changed))) (\<lambda>_.
             bindG (signTx env (ti_Tx changed)) (\<lambda>tx.
             bindG (sendTxToBTC env tx) (\<lambda>txID.
             bindG (updTx2 (\<lambda>t. t\<lparr>ti_Fee := newFee, ti_TxID := Some txID\<rparr>)) (\<lambda>_.
             bindG lastTx2 (\<lambda>t. retG (Some t)))))))))))"

text \<open>One attempt; \<open>lastError\<close> tells the next one how the fee has to grow.\<close>

definition resendAttempt :: "('w, 'db, 'raw, 'btc) relayerEnv \<Rightarrow> (('w, 'db) resendState, btcTxInfo option) prog" where
  "resendAttempt env =
     bindG (getG snd) (\<lambda>lastError.
     bindG (outerG (getG rl_lastSubmittedCheckpoint)) (\<lambda>ckptInfo.
     bindG (outerG (calculateBumpedFee env ckptInfo lastError)) (\<lambda>bumpedFee.
     bindG (derefG (ci_Tx2 ckptInfo)) (\<lambda>tx2.
     bindG (outerG (shouldResendCheckpoint env tx2 bumpedFee)) (\<lambda>resend.
       if \<not> resend then retG None
       else bindG (derefG (ti_TxID tx2)) (\<lambda>_.
         bindG (tryG (outerG (maybeResendSecondTxOfCheckpointToBTC env bumpedFee))) (\<lambda>r. case r of
           Inr t \<Rightarrow> retG t
         | Inl err \<Rightarrow> bindG (localG (\<lambda>_. Some err)) (\<lambda>_.
             if errors_is err ErrTooManyDescendants \<or> errors_is err ErrNoChangeOutput then retG None else failG err))))))))"

definition resendLoop :: "('w, 'db, 'raw, 'btc) relayerEnv \<Rightarrow> (('w, 'db) relayer, btcTxInfo option) prog" where
  "resendLoop env s = (case rle_retry env (Some 5) (\<lambda>_. True) (resendAttempt env) (s, None) of
       (r, (s', _)) \<Rightarrow> (r, s'))"

definition durSeconds :: "('w, 'db, 'raw, 'btc) relayerEnv \<Rightarrow> int \<Rightarrow> int \<Rightarrow> nat" where
  "durSeconds env now ts = (if now < ts then rle_machineSeconds env (now - ts) else nat ((now - ts) div 1000000000))"

definition MaybeResubmitSecondCheckpointTx :: "('w, 'db, 'raw, 'btc) relayerEnv \<Rightarrow> ckptWithMeta \<Rightarrow> (('w, 'db) relayer, unit) prog" where
  "MaybeResubmitSecondCheckpointTx env ckpt =
     (if cwm_Status ckpt \<noteq> Sealed then retG ()
      else bindG (getG rl_lastSubmittedCheckpoint) (\<lambda>lst.
        if ci_Tx1 lst = None \<or> ci_Tx2 lst = None then retG ()
        else if rcr_EpochNum (cwm_Ckpt ckpt) < ci_Epoch lst then retG ()
        else bindG (rpcL (rle_Now env)) (\<lambda>now.
          if durSeconds env now (ci_TS lst) < rle_ResendIntervalSeconds env then retG ()
          else bindG (wrapG ''failed to re-send the second tx of the checkpoint: '' (resendLoop env)) (\<lambda>r. case r of
            None \<Rightarrow> retG ()
          | Some resubmittedTx2 \<Rightarrow>
              bindG (rpcL (rle_Now env)) (\<lambda>now.
              bindG (modG (\<lambda>s. s\<lparr>rl_lastSubmittedCheckpoint := (rl_lastSubmittedCheckpoint s)\<lparr>ci_Tx2 := Some resubmittedTx2, ci_TS := now\<rparr>\<rparr>)) (\<lambda>_.
              bindG (getG rl_lastSubmittedCheckpoint) (storeCkpt env)))))))"

subsection \<open>Choosing a change address\<close>

datatype btcAddress = WitnessPubKeyHash string | WitnessScriptHash string | OtherAddress string

fun splitAddrs :: "(string \<Rightarrow> goerr + btcAddress) \<Rightarrow> string list \<Rightarrow> goerr + btcAddress list \<times> btcAddress list" where
  "splitAddrs decode [] = Inr ([], [])"
| "splitAddrs decode (a # as) = (case decode a of Inl e \<Rightarrow> Inl e
     | Inr addr \<Rightarrow> (case splitAddrs decode as of Inl e \<Rightarrow> Inl e
       | Inr (segwit, legacy) \<Rightarrow> (case addr of
           OtherAddress _ \<Rightarrow> Inr (segwit, addr # legacy) | _ \<Rightarrow> Inr (addr # segwit, legacy))))"

definition GetChangeAddress :: "(string \<Rightarrow> goerr + btcAddress) \<Rightarrow> (nat \<Rightarrow> nat) \<Rightarrow> ('w, string list) prog \<Rightarrow> ('w, btcAddress) prog" where
  "GetChangeAddress decode intN listUnspent =
     bindG listUnspent (\<lambda>addrResults.
       if addrResults = [] then failG (errorf ''no available addresses found in the wallet'')
       else (case splitAddrs decode addrResults of Inl e \<Rightarrow> failG e
         | Inr (segwit, legacy) \<Rightarrow> retG (if segwit \<noteq> [] then last segwit else legacy ! intN (length legacy))))"

end
