(* ===== verification/Relayer_Correct.thy ===== *)
theory Relayer_Correct
  imports Relayer
begin

text \<open>
  The properties of the relayer: a checkpoint is submitted once, also across a restart; the
  second transaction spends the first; fees stay in bounds; a replacement obeys the rules.
\<close>

subsection \<open>Runs\<close>

lemma rpcL_Ok: "rpcL m s = (Ok x, s') \<Longrightarrow> \<exists>w'. m (rl_world s) = (Ok x, w') \<and> s' = s\<lparr>rl_world := w'\<rparr>"
  by (auto simp: rpcL_def zoomG_def split: prod.splits)

lemma rpcL_pure: "m (rl_world s) = (r, rl_world s) \<Longrightarrow> rpcL m s = (r, s)"
  by (simp add: rpcL_def)

text \<open>What sending never touches: the database and the memory of the last checkpoint.\<close>

definition onlyWorldL :: "('w, 'db) relayer \<Rightarrow> ('w, 'db) relayer \<Rightarrow> bool" where
  "onlyWorldL s t \<longleftrightarrow> (\<exists>w. t = s\<lparr>rl_world := w\<rparr>)"

lemma onlyWorldL_refl: "onlyWorldL s s"
  unfolding onlyWorldL_def by (rule exI [of _ "rl_world s"]) simp

lemma keeps_rpcL [keeps_rules]: "keeps (onlyWorldL s) (rpcL m)"
  unfolding rpcL_def onlyWorldL_def by (rule keeps_zoomG) auto

lemma keeps_of_world:
  assumes "\<And>s. keeps (onlyWorldL s) m" and "\<And>s w. I s \<Longrightarrow> I (s\<lparr>rl_world := w\<rparr>)"
  shows "keeps I m"
  unfolding keeps_def
proof (intro allI impI)
  fix s assume "I s"
  moreover have "onlyWorldL s (snd (m s))" using assms(1) [of s] onlyWorldL_refl [of s] unfolding keeps_def by blast
  ultimately show "I (snd (m s))" using assms(2) unfolding onlyWorldL_def by auto
qed

lemma keeps_fees [keeps_rules]:
  "keeps (onlyWorldL s) (getFeeRate env)" "keeps (onlyWorldL s) (calcMinRelayFee env n)" "keeps (onlyWorldL s) (getIncrementalRelayFeerate env)"
  unfolding getFeeRate_def calcMinRelayFee_def getIncrementalRelayFeerate_def by (intro keeps_rules)+

lemma keeps_sendTx [keeps_rules]: "keeps (onlyWorldL s) (sendTxToBTC env tx)" "keeps (onlyWorldL s) (signTx env tx)"
  unfolding sendTxToBTC_def signTx_def by (intro keeps_rules)+

lemma keeps_verifyRBF [keeps_rules]: "keeps (onlyWorldL s) (verifyRBFRequirements env txID fee n)"
  unfolding verifyRBFRequirements_def Let_def by (intro keeps_rules)

lemma keeps_finalize [keeps_rules]: "keeps (onlyWorldL s) (finalizeTransaction env tx)"
  unfolding finalizeTransaction_def by (intro keeps_rules)

lemma keeps_builds [keeps_rules]:
  "keeps (onlyWorldL s) (buildDataTx env d)" "keeps (onlyWorldL s) (buildChainedDataTx env d tx)"
  unfolding buildDataTx_def buildChainedDataTx_def addChangeOutput_def by (intro keeps_rules)+

lemma keeps_buildAndSend [keeps_rules]: "keeps (onlyWorldL s) b \<Longrightarrow> keeps (onlyWorldL s) (buildAndSendTx env b)"
  unfolding buildAndSendTx_def by (intro keeps_rules)

lemma keeps_maybeResendTx [keeps_rules]: "keeps (onlyWorldL s) (maybeResendTx env tx)"
  unfolding maybeResendTx_def by (intro keeps_rules)

lemma LatestCheckpoint_pure: "snd (LatestCheckpoint co kv db) = db"
  by (simp add: LatestCheckpoint_def store_get_def kvView_def bindG_def tryG_def retG_def failG_def liftG_def split: go_splits)

lemma dbL_Latest: "LatestCheckpoint co kv (rl_db s) = (r, d) \<Longrightarrow> dbL (LatestCheckpoint co kv) s = (r, s)"
  using LatestCheckpoint_pure [of co kv "rl_db s"] by (simp add: dbL_def zoomG_def)

lemma keeps_dbL_Latest [keeps_rules]: "keeps (onlyWorldL s) (dbL (LatestCheckpoint co kv))"
  unfolding keeps_def by (metis dbL_Latest prod.collapse snd_conv)

lemma keeps_storeResend [keeps_rules]: "keeps (onlyWorldL s) (maybeResendFromStore env e)"
  unfolding maybeResendFromStore_def by (intro keeps_rules)

subsection \<open>Once per epoch\<close>

text \<open>Nothing is left to send for this epoch or a lower one.\<close>

definition settled :: "u64 \<Rightarrow> ('w, 'db) relayer \<Rightarrow> bool" where
  "settled e s \<longleftrightarrow> (let c = rl_lastSubmittedCheckpoint s in ci_Tx1 c \<noteq> None \<and> ci_Tx2 c \<noteq> None \<and> e \<le> ci_Epoch c)"

lemma settled_noop:
  assumes "settled e s" and "rcr_EpochNum (cwm_Ckpt ckpt) \<le> e"
  shows "SendCheckpointToBTC env ckpt s = (Ok (), s)"
proof -
  have "rcr_EpochNum (cwm_Ckpt ckpt) \<le> ci_Epoch (rl_lastSubmittedCheckpoint s)" using assms by (auto simp: settled_def Let_def)
  with assms(1) have n: "\<not> shouldSendCompleteCkpt (rl_lastSubmittedCheckpoint s) (rcr_EpochNum (cwm_Ckpt ckpt))"
    "\<not> shouldSendTx2 (rl_lastSubmittedCheckpoint s) (rcr_EpochNum (cwm_Ckpt ckpt))"
    by (auto simp: settled_def Let_def shouldSendCompleteCkpt_def shouldSendTx2_def not_less)
  show ?thesis by (simp add: SendCheckpointToBTC_def Let_def submitNew_def n bindG_def getG_def retG_def)
qed

text \<open>The checkpoint in memory is complete, and not behind the one on disk.\<close>

definition memoryCurrent :: "('w, 'db, 'raw, 'btc) relayerEnv \<Rightarrow> u64 \<Rightarrow> ('w, 'db) relayer \<Rightarrow> bool" where
  "memoryCurrent env e s \<longleftrightarrow> (ci_Tx2 (rl_lastSubmittedCheckpoint s) \<noteq> None \<longrightarrow> ci_Tx1 (rl_lastSubmittedCheckpoint s) \<noteq> None \<and>
     (\<forall>st. fst (LatestCheckpoint (rle_codec env) (rle_kv env) (rl_db s)) = Ok (Some st) \<and> sc_Epoch st = e \<longrightarrow> e \<le> ci_Epoch (rl_lastSubmittedCheckpoint s)))"

lemma recordSubmitted_settled:
  assumes "recordSubmitted env c s = (Ok (), s')" and "e \<le> ci_Epoch c"
  shows "settled e s'"
proof -
  from assms(1) obtain tx1 tx2 where "ci_Tx1 c = Some tx1" "ci_Tx2 c = Some tx2"
    and "dbL (PutCheckpoint (rle_codec env) (rle_kv env) (NewStoredCheckpoint (ti_Tx tx1) (ti_Tx tx2) (ci_Epoch c))) (s\<lparr>rl_lastSubmittedCheckpoint := c\<rparr>) = (Ok (), s')"
    by (auto simp: recordSubmitted_def storeCkpt_def elim!: bindG_Ok_E)
  then show ?thesis using assms(2) by (auto simp: settled_def dbL_def zoomG_def split: prod.splits)
qed

lemma convert_epoch: "convertCkptToTwoTxAndSubmit env ckpt s = (Ok c, s') \<Longrightarrow> ci_Epoch c = rcr_EpochNum ckpt"
  by (auto simp: convertCkptToTwoTxAndSubmit_def elim!: bindG_Ok_E split: prod.splits)

lemma retry_epoch: "retrySendTx2 env ckpt s = (Ok c, s') \<Longrightarrow> ci_Epoch c = rcr_EpochNum ckpt"
  by (auto simp: retrySendTx2_def elim!: bindG_Ok_E split: prod.splits option.splits)

lemma submitNew_settled:
  assumes "submitNew env ckpt s = (Ok (), s')"
  shows "settled (rcr_EpochNum ckpt) s'"
proof -
  let ?l = "rl_lastSubmittedCheckpoint s"
  consider (full) c s1 where "convertCkptToTwoTxAndSubmit env ckpt s = (Ok c, s1)" "recordSubmitted env c s1 = (Ok (), s')"
    | (tx2) c s1 where "retrySendTx2 env ckpt s = (Ok c, s1)" "recordSubmitted env c s1 = (Ok (), s')"
    | (none) "\<not> shouldSendCompleteCkpt ?l (rcr_EpochNum ckpt)" "\<not> shouldSendTx2 ?l (rcr_EpochNum ckpt)" "s' = s"
    using assms by (auto simp: submitNew_def elim!: bindG_Ok_E split: if_splits)
  then show ?thesis
  proof cases
    case full
    from recordSubmitted_settled [OF full(2)] convert_epoch [OF full(1)] show ?thesis by simp
  next
    case tx2
    from recordSubmitted_settled [OF tx2(2)] retry_epoch [OF tx2(1)] show ?thesis by simp
  next
    case none
    then show ?thesis by (auto simp: settled_def Let_def shouldSendCompleteCkpt_def shouldSendTx2_def not_less)
  qed
qed

lemma rehydrate_settled:
  assumes "rehydrateLastSubmittedCheckpointFromStore env e s = (Ok (), s')"
    and "LatestCheckpoint (rle_codec env) (rle_kv env) (rl_db s) = (Ok (Some st), d)" and "sc_Epoch st = e"
  shows "settled e s'"
  using assms(1) unfolding rehydrateLastSubmittedCheckpointFromStore_def
  by (auto elim!: bindG_Ok_E simp: dbL_Latest [OF assms(2)] assms(3) modG_def settled_def Let_def split: prod.splits)

lemma resendFromStore_True:
  assumes "maybeResendFromStore env e s = (Ok True, s')"
  obtains st d where "LatestCheckpoint (rle_codec env) (rle_kv env) (rl_db s) = (Ok (Some st), d)" "sc_Epoch st = e" "onlyWorldL s s'"
proof -
  obtain r d where l: "LatestCheckpoint (rle_codec env) (rle_kv env) (rl_db s) = (r, d)" by force
  from assms dbL_Latest [OF l] obtain st where "r = Ok (Some st)" "sc_Epoch st = e"
    unfolding maybeResendFromStore_def by (auto elim!: bindG_Ok_E split: option.splits if_splits)
  moreover have "onlyWorldL s s'" by (rule keepsD [OF keeps_storeResend onlyWorldL_refl assms])
  ultimately show thesis using that l by blast
qed


subsection \<open>Restart\<close>

lemma known_not_resent:
  assumes "rle_GetRawTransaction env (rle_TxHash env tx) (rl_world s) = (Ok tx', rl_world s)"
  shows "maybeResendTx env tx s = (Ok (), s)"
  using rpcL_pure [of "rle_GetRawTransaction env (rle_TxHash env tx)" s, OF assms] by (simp add: maybeResendTx_def bindG_def tryG_def retG_def)

definition mempoolInfo :: "('w, 'db, 'raw, 'btc) relayerEnv \<Rightarrow> 'w \<Rightarrow> msgTx \<Rightarrow> mempoolEntry \<Rightarrow> int \<Rightarrow> bool" where
  "mempoolInfo env w tx entry fee \<longleftrightarrow> rle_GetMempoolEntry env (rle_TxHash env tx) w = (Ok entry, w) \<and> rle_NewAmount env (me_Fee entry) = Inr fee"

lemma storedTx_info:
  assumes "mempoolInfo env (rl_world s) tx entry fee" and "rle_Now env (rl_world s) = (Ok now, rl_world s)"
  shows "btcTxInfoFromStoredTx env tx s = (Ok (\<lparr>ti_TxID = Some (rle_TxHash env tx), ti_Tx = tx, ti_Size = rle_GetTxVirtualSize env tx, ti_Fee = fee\<rparr>,
     if me_Time entry > 0 then 1000000000 * me_Time entry else now), s)"
  using assms rpcL_pure [of "rle_GetMempoolEntry env (rle_TxHash env tx)" s] rpcL_pure [of "rle_Now env" s]
  by (simp add: btcTxInfoFromStoredTx_def mempoolInfo_def calculateTxVirtualSize_def sumG_def liftG_def sumOutcome_def bindG_def wrapG_def retG_def)

definition restoredTx :: "('w, 'db, 'raw, 'btc) relayerEnv \<Rightarrow> msgTx \<Rightarrow> int \<Rightarrow> btcTxInfo" where
  "restoredTx env tx fee = \<lparr>ti_TxID = Some (rle_TxHash env tx), ti_Tx = tx, ti_Size = rle_GetTxVirtualSize env tx, ti_Fee = fee\<rparr>"

definition restored :: "('w, 'db, 'raw, 'btc) relayerEnv \<Rightarrow> storedCheckpoint \<Rightarrow> int \<Rightarrow> int \<Rightarrow> int \<Rightarrow> checkpointInfo" where
  "restored env st ts fee1 fee2 = \<lparr>ci_Epoch = sc_Epoch st, ci_TS = ts,
     ci_Tx1 = Some (restoredTx env (sc_Tx1 st) fee1), ci_Tx2 = Some (restoredTx env (sc_Tx2 st) fee2)\<rparr>"

lemma restart_from_store:
  fixes env :: "('w, 'db, 'raw, 'btc) relayerEnv"
  assumes "rl_world s = w" "rl_lastSubmittedCheckpoint s = emptyCheckpoint" and "LatestCheckpoint (rle_codec env) (rle_kv env) (rl_db s) = (Ok (Some st), rl_db s)"
    and "cwm_Status ckpt = Sealed" and "rcr_EpochNum (cwm_Ckpt ckpt) = sc_Epoch st"
    and "rle_GetRawTransaction env (rle_TxHash env (sc_Tx1 st)) w = (Ok t1, w)" and "rle_GetRawTransaction env (rle_TxHash env (sc_Tx2 st)) w = (Ok t2, w)"
    and "mempoolInfo env w (sc_Tx1 st) e1 fee1" and "mempoolInfo env w (sc_Tx2 st) e2 fee2" and "rle_Now env w = (Ok now, w)"
  defines "s' \<equiv> s\<lparr>rl_lastSubmittedCheckpoint := restored env st (if me_Time e2 > 0 then 1000000000 * me_Time e2 else now) fee1 fee2\<rparr>"
  shows "SendCheckpointToBTC env ckpt s = (Ok (), s')" and "SendCheckpointToBTC env ckpt s' = (Ok (), s')"
proof -
  note db = dbL_Latest [OF assms(3)]
  have "maybeResendTx env (sc_Tx1 st) s = (Ok (), s)" "maybeResendTx env (sc_Tx2 st) s = (Ok (), s)"
    using assms(1,6,7) by (auto intro: known_not_resent)
  then have from_store: "maybeResendFromStore env (sc_Epoch st) s = (Ok True, s)"
    by (simp add: maybeResendFromStore_def db bindG_def retG_def)
  have "rehydrateLastSubmittedCheckpointFromStore env (sc_Epoch st) s = (Ok (), s')"
    using storedTx_info [of env s "sc_Tx1 st" e1 fee1 now] storedTx_info [of env s "sc_Tx2 st" e2 fee2 now] assms(1,8-10)
    by (simp add: rehydrateLastSubmittedCheckpointFromStore_def db bindG_def wrapG_def modG_def restored_def restoredTx_def s'_def)
  then show "SendCheckpointToBTC env ckpt s = (Ok (), s')"
    using from_store assms(2,4,5)
    by (simp add: SendCheckpointToBTC_def Let_def shouldSendCompleteCkpt_def emptyCheckpoint_def bindG_def getG_def wrapG_def)
  show "SendCheckpointToBTC env ckpt s' = (Ok (), s')"
    using assms(5) by (intro settled_noop [of "sc_Epoch st"]) (simp_all add: settled_def Let_def s'_def restored_def)
qed


subsection \<open>The two transactions\<close>

abbreviation outpoints :: "msgTx \<Rightarrow> outPoint list" where
  "outpoints tx \<equiv> map in_PreviousOutPoint (tx_TxIn tx)"

text \<open>The wallet keeps the given inputs in front and the first output; signing keeps inputs and outputs.\<close>

definition wallet_contract :: "('w, 'db, 'raw, 'btc) relayerEnv \<Rightarrow> bool" where
  "wallet_contract env \<longleftrightarrow>
     (\<forall>tx r p w tx' fee w'. rle_FundRawTransaction env tx r p w = (Ok (tx', fee), w') \<longrightarrow>
        take (length (tx_TxIn tx)) (outpoints tx') = outpoints tx \<and> (tx_TxOut tx \<noteq> [] \<longrightarrow> tx_TxOut tx' \<noteq> [] \<and> hd (tx_TxOut tx') = hd (tx_TxOut tx))) \<and>
     (\<forall>tx w tx' w'. rle_SignRawTransactionWithWallet env tx w = (Ok (tx', True), w') \<longrightarrow> outpoints tx' = outpoints tx \<and> tx_TxOut tx' = tx_TxOut tx)"

lemma sign_run: "signTx env tx s = (Ok stx, s') \<Longrightarrow> \<exists>w w'. rle_SignRawTransactionWithWallet env tx w = (Ok (stx, True), w')"
  unfolding signTx_def by (fastforce elim!: bindG_Ok_E dest!: rpcL_Ok split: prod.splits if_splits)

lemma finalize_signs:
  assumes "finalizeTransaction env tx s = (Ok i, s')"
  shows "\<exists>w w'. rle_SignRawTransactionWithWallet env tx w = (Ok (ti_Tx i, True), w')"
proof -
  from assms obtain t t' where "signTx env tx t = (Ok (ti_Tx i), t')"
    unfolding finalizeTransaction_def by (auto elim!: bindG_Ok_E split: if_splits)
  then show ?thesis by (rule sign_run)
qed

lemma buildData_output:
  fixes s :: "('w, 'db) relayer"
  assumes "wallet_contract env" and "buildDataTx env d s = (Ok i, s')"
  shows "\<exists>script. rle_DataScript env d = Inr script \<and> tx_TxOut (ti_Tx i) \<noteq> [] \<and> hd (tx_TxOut (ti_Tx i)) = \<lparr>out_Value = 0, out_PkScript = script\<rparr>"
proof -
  from assms(2) obtain script rate s1 funded fee s2 tx s3 where sc: "rle_DataScript env d = Inr script"
    and fund: "rpcL (rle_FundRawTransaction env (dataTx [] script) (rle_ToBTC env rate) changePosition) s1 = (Ok (funded, fee), s2)"
    and ch: "(if length (tx_TxOut funded) > changePosition then retG funded else addChangeOutput env (rle_ToBTC env rate) funded) s2 = (Ok tx, s3)"
    and fin: "finalizeTransaction env tx s3 = (Ok i, s')"
    unfolding buildDataTx_def by (auto elim!: bindG_Ok_E split: prod.splits)
  have f: "tx_TxOut funded \<noteq> []" "hd (tx_TxOut funded) = \<lparr>out_Value = 0, out_PkScript = script\<rparr>"
    using assms(1) rpcL_Ok [OF fund] unfolding wallet_contract_def by (fastforce simp: dataTx_def)+
  have "tx_TxOut tx \<noteq> [] \<and> hd (tx_TxOut tx) = hd (tx_TxOut funded)"
  proof (cases "length (tx_TxOut funded) > changePosition")
    case True
    then show ?thesis using ch f by simp
  next
    case False
    then obtain p r fee' and t t' :: "('w, 'db) relayer" where "rpcL (rle_FundRawTransaction env (funded\<lparr>tx_TxOut := tx_TxOut funded @ [p]\<rparr>) r changePosition) t = (Ok (tx, fee'), t')"
      using ch unfolding addChangeOutput_def by (auto elim!: bindG_Ok_E split: prod.splits)
    then show ?thesis using assms(1) f(1) rpcL_Ok unfolding wallet_contract_def by fastforce
  qed
  moreover have "tx_TxOut (ti_Tx i) = tx_TxOut tx" using finalize_signs [OF fin] assms(1) unfolding wallet_contract_def by blast
  ultimately show ?thesis using sc f by simp
qed

lemma buildChained_input:
  assumes "wallet_contract env" and "buildChainedDataTx env d prev s = (Ok i, s')"
  shows "\<exists>script. rle_DataScript env d = Inr script \<and> tx_TxOut (ti_Tx i) \<noteq> [] \<and> hd (tx_TxOut (ti_Tx i)) = \<lparr>out_Value = 0, out_PkScript = script\<rparr>"
    and "\<exists>rest. outpoints (ti_Tx i) = \<lparr>op_Hash = rle_TxHash env prev, op_Index = 1\<rparr> # rest"
proof -
  from assms(2) obtain script rate s1 funded fee s2 where sc: "rle_DataScript env d = Inr script"
    and fund: "rpcL (rle_FundRawTransaction env (dataTx [chainedInput env prev] script) (rle_ToBTC env rate) changePosition) s1 = (Ok (funded, fee), s2)"
    and fin: "finalizeTransaction env funded s2 = (Ok i, s')"
    unfolding buildChainedDataTx_def by (auto elim!: bindG_Ok_E split: prod.splits)
  have f: "tx_TxOut funded \<noteq> []" "hd (tx_TxOut funded) = \<lparr>out_Value = 0, out_PkScript = script\<rparr>"
    "take 1 (outpoints funded) = [\<lparr>op_Hash = rle_TxHash env prev, op_Index = 1\<rparr>]"
    using assms(1) rpcL_Ok [OF fund] unfolding wallet_contract_def by (fastforce simp: dataTx_def chainedInput_def changePosition_def)+
  have g: "tx_TxOut (ti_Tx i) = tx_TxOut funded" "outpoints (ti_Tx i) = outpoints funded"
    using finalize_signs [OF fin] assms(1) unfolding wallet_contract_def by blast+
  show "\<exists>script. rle_DataScript env d = Inr script \<and> tx_TxOut (ti_Tx i) \<noteq> [] \<and> hd (tx_TxOut (ti_Tx i)) = \<lparr>out_Value = 0, out_PkScript = script\<rparr>"
    using sc f(1,2) g(1) by simp
  show "\<exists>rest. outpoints (ti_Tx i) = \<lparr>op_Hash = rle_TxHash env prev, op_Index = 1\<rparr> # rest"
    using f(3) g(2) by (cases "outpoints funded") auto
qed

lemma buildAndSend_run:
  assumes "buildAndSendTx env b s = (Ok i, s')"
  shows "\<exists>i0 s1 w w' txid. b s = (Ok i0, s1) \<and> ti_Tx i = ti_Tx i0 \<and> ti_TxID i = Some txid \<and> rle_SendRawTransaction env (ti_Tx i) w = (Ok txid, w')"
  using assms unfolding buildAndSendTx_def sendTxToBTC_def by (fastforce elim!: bindG_Ok_E dest!: rpcL_Ok simp: retG_def)

lemma convert_run:
  assumes "convertCkptToTwoTxAndSubmit env ckpt s = (Ok c, s')"
  obtains data1 data2 tx1 tx2 s1 s2 s3 s4 where "encodeCheckpointData env ckpt = Inr (data1, data2)"
    and "buildAndSendTx env (buildDataTx env data1) s1 = (Ok tx1, s2)"
    and "buildAndSendTx env (buildChainedDataTx env data2 (ti_Tx tx1)) s3 = (Ok tx2, s4)"
    and "ci_Tx1 c = Some tx1" and "ci_Tx2 c = Some tx2" and "ci_Epoch c = rcr_EpochNum ckpt"
  using assms unfolding convertCkptToTwoTxAndSubmit_def ChainTwoTxAndSend_def
  by (fastforce elim!: bindG_Ok_E split: prod.splits simp: retG_def)

text \<open>The data outputs of the two transactions.\<close>

lemma convert_outputs:
  assumes "wallet_contract env" and "convertCkptToTwoTxAndSubmit env ckpt s = (Ok c, s')"
  obtains data1 data2 script1 script2 tx1 tx2 where "encodeCheckpointData env ckpt = Inr (data1, data2)"
    and "rle_DataScript env data1 = Inr script1" and "rle_DataScript env data2 = Inr script2"
    and "ci_Tx1 c = Some tx1" and "ci_Tx2 c = Some tx2"
    and "tx_TxOut (ti_Tx tx1) \<noteq> []" and "hd (tx_TxOut (ti_Tx tx1)) = \<lparr>out_Value = 0, out_PkScript = script1\<rparr>"
    and "tx_TxOut (ti_Tx tx2) \<noteq> []" and "hd (tx_TxOut (ti_Tx tx2)) = \<lparr>out_Value = 0, out_PkScript = script2\<rparr>"
proof -
  from convert_run [OF assms(2)] obtain data1 data2 tx1 tx2 s1 s2 s3 s4 where
    enc: "encodeCheckpointData env ckpt = Inr (data1, data2)" "ci_Tx1 c = Some tx1" "ci_Tx2 c = Some tx2"
    and b: "buildAndSendTx env (buildDataTx env data1) s1 = (Ok tx1, s2)"
      "buildAndSendTx env (buildChainedDataTx env data2 (ti_Tx tx1)) s3 = (Ok tx2, s4)" .
  from buildAndSend_run [OF b(1)] obtain i1 t1 where r1: "buildDataTx env data1 s1 = (Ok i1, t1)" "ti_Tx tx1 = ti_Tx i1" by blast
  from buildAndSend_run [OF b(2)] obtain i2 t2 where r2: "buildChainedDataTx env data2 (ti_Tx tx1) s3 = (Ok i2, t2)" "ti_Tx tx2 = ti_Tx i2" by blast
  from buildData_output [OF assms(1) r1(1)] buildChained_input(1) [OF assms(1) r2(1)] enc that show thesis
    unfolding r1(2) [symmetric] r2(2) [symmetric] by blast
qed

text \<open>
  C11. The two transactions of a checkpoint are chained: each was accepted by the node and
  carries its part of the encoded checkpoint in an \<open>OP_RETURN\<close> output at position 0, and the
  first input of the second spends output 1 of the first, so neither confirms without its
  parent.
\<close>

theorem ckpt_txs_chained:
  assumes "wallet_contract env" and "convertCkptToTwoTxAndSubmit env ckpt s = (Ok c, s')"
  shows "\<exists>data1 data2 script1 script2 tx1 tx2 rest.
    encodeCheckpointData env ckpt = Inr (data1, data2) \<and> rle_DataScript env data1 = Inr script1 \<and> rle_DataScript env data2 = Inr script2
    \<and> ci_Tx1 c = Some tx1 \<and> ci_Tx2 c = Some tx2 \<and> ci_Epoch c = rcr_EpochNum ckpt
    \<and> tx_TxOut (ti_Tx tx1) \<noteq> [] \<and> hd (tx_TxOut (ti_Tx tx1)) = \<lparr>out_Value = 0, out_PkScript = script1\<rparr>
    \<and> tx_TxOut (ti_Tx tx2) \<noteq> [] \<and> hd (tx_TxOut (ti_Tx tx2)) = \<lparr>out_Value = 0, out_PkScript = script2\<rparr>
    \<and> outpoints (ti_Tx tx2) = \<lparr>op_Hash = rle_TxHash env (ti_Tx tx1), op_Index = 1\<rparr> # rest
    \<and> (\<forall>tx\<in>{tx1, tx2}. \<exists>w w' txid. rle_SendRawTransaction env (ti_Tx tx) w = (Ok txid, w') \<and> ti_TxID tx = Some txid)"
proof -
  from convert_run [OF assms(2)] obtain data1 data2 tx1 tx2 s1 s2 s3 s4 where enc: "encodeCheckpointData env ckpt = Inr (data1, data2)"
    and b1: "buildAndSendTx env (buildDataTx env data1) s1 = (Ok tx1, s2)"
    and b2: "buildAndSendTx env (buildChainedDataTx env data2 (ti_Tx tx1)) s3 = (Ok tx2, s4)"
    and c: "ci_Tx1 c = Some tx1" "ci_Tx2 c = Some tx2" "ci_Epoch c = rcr_EpochNum ckpt" .
  from buildAndSend_run [OF b1] obtain i1 t1 where r1: "buildDataTx env data1 s1 = (Ok i1, t1)" "ti_Tx tx1 = ti_Tx i1"
    and sent1: "\<exists>w w' txid. rle_SendRawTransaction env (ti_Tx tx1) w = (Ok txid, w') \<and> ti_TxID tx1 = Some txid" by blast
  from buildAndSend_run [OF b2] obtain i2 t2 where r2: "buildChainedDataTx env data2 (ti_Tx tx1) s3 = (Ok i2, t2)" "ti_Tx tx2 = ti_Tx i2"
    and sent2: "\<exists>w w' txid. rle_SendRawTransaction env (ti_Tx tx2) w = (Ok txid, w') \<and> ti_TxID tx2 = Some txid" by blast
  show ?thesis
    using enc c buildData_output [OF assms(1) r1(1)] buildChained_input [OF assms(1) r2(1)] r1(2) r2(2) sent1 sent2 by auto
qed

subsection \<open>Replacement by fee\<close>

text \<open>The rules a replacement with this fee and size obeys against the entry it replaces.\<close>

definition rbfAllowed :: "('w, 'db, 'raw, 'btc) relayerEnv \<Rightarrow> mempoolEntry \<Rightarrow> int \<Rightarrow> int \<Rightarrow> int \<Rightarrow> bool" where
  "rbfAllowed env entry incrementalFeerate newFee vsize \<longleftrightarrow>
     (let total = amountOf env (me_DescendantFees entry) in
      me_DescendantCount entry \<le> 100 \<and> newFee > total
      \<and> \<not> f_le (f_div (rle_rnd env) (floatOf env newFee) (floatOf env vsize)) (f_div (rle_rnd env) (floatOf env total) (floatOf env (me_DescendantSize entry)))
      \<and> i64 (newFee - total) \<ge> i64 (incrementalFeerate * vsize))"

lemma verifyRBF_Ok:
  assumes "verifyRBFRequirements env txID newFee vsize s = (Ok (), s')"
  shows "\<exists>entry incr w w' v v'. rle_GetMempoolEntry env txID w = (Ok entry, w') \<and> rle_GetNetworkInfo env v = (Ok incr, v')
    \<and> rbfAllowed env entry (amountOf env incr) newFee vsize"
proof -
  from assms obtain entry s1 where e: "rpcL (rle_GetMempoolEntry env txID) s = (Ok entry, s1)"
    and rest: "me_DescendantCount entry \<le> 100" "newFee > amountOf env (me_DescendantFees entry)"
      "\<not> f_le (f_div (rle_rnd env) (floatOf env newFee) (floatOf env vsize))
         (f_div (rle_rnd env) (floatOf env (amountOf env (me_DescendantFees entry))) (floatOf env (me_DescendantSize entry)))"
    and i: "bindG (tryG (getIncrementalRelayFeerate env)) (\<lambda>r. case r of
           Inl err \<Rightarrow> failG (GoErr (ErrRelayFeerate # errChain err) (errText err))
         | Inr incrementalFeerate \<Rightarrow>
             if i64 (newFee - amountOf env (me_DescendantFees entry)) < i64 (incrementalFeerate * vsize) then failG (sentinelErr ErrFeeIncrementTooSmall)
             else retG ()) s1 = (Ok (), s')"
    unfolding verifyRBFRequirements_def
    by (auto elim!: bindG_Ok_E simp: tryG_Ok_iff failG_def Let_def not_le not_less split: sum.splits if_splits)
  from i obtain incr s2 where n: "rpcL (rle_GetNetworkInfo env) s1 = (Ok incr, s2)"
    and inc: "\<not> i64 (newFee - amountOf env (me_DescendantFees entry)) < i64 (amountOf env incr * vsize)"
    unfolding getIncrementalRelayFeerate_def
    by (auto elim!: bindG_Ok_E simp: tryG_Ok_iff failG_def retG_def split: sum.splits if_splits)
  show ?thesis using rpcL_Ok [OF e] rpcL_Ok [OF n] rest inc unfolding rbfAllowed_def by (fastforce simp: Let_def)
qed

lemma lastTx2_Ok: "lastTx2 s = (Ok t, s') \<longleftrightarrow> ci_Tx2 (rl_lastSubmittedCheckpoint s) = Some t \<and> s' = s"
  by (auto simp: lastTx2_def derefG_def retG_def panicG_def split: option.splits)

lemma updTx2_run: "updTx2 f s = (Ok (), s\<lparr>rl_lastSubmittedCheckpoint := (rl_lastSubmittedCheckpoint s)\<lparr>ci_Tx2 := map_option f (ci_Tx2 (rl_lastSubmittedCheckpoint s))\<rparr>\<rparr>)"
  by (simp add: updTx2_def modG_def)

text \<open>The fee is taken from the change as long as the change stays above dust, otherwise from new inputs.\<close>

definition paidFor :: "('w, 'db, 'raw, 'btc) relayerEnv \<Rightarrow> btcTxInfo \<Rightarrow> int \<Rightarrow> btcTxInfo \<Rightarrow> int \<Rightarrow> bool" where
  "paidFor env tx2 bumpedFee changed fee \<longleftrightarrow>
     (let change = i64 (out_Value (tx_TxOut (ti_Tx tx2) ! changePosition) - bumpedFee) in
      if change < dustThreshold then ti_Size changed = rle_GetTxVirtualSize env (ti_Tx changed) \<and>
        (\<exists>w w'. rle_FundRawTransaction env (ti_Tx tx2) (roundedFeeRate env (ti_Size tx2) bumpedFee) 1 w = (Ok (ti_Tx changed, fee), w'))
      else fee = bumpedFee \<and> ti_Tx changed = setChange change (ti_Tx tx2) \<and> ti_Size changed = ti_Size tx2)"

lemma payBumpedFee_Ok:
  assumes "payBumpedFee env tx2 bumpedFee s = (Ok fee, s')" and "ci_Tx2 (rl_lastSubmittedCheckpoint s) = Some tx2"
  shows "\<exists>changed. ci_Tx2 (rl_lastSubmittedCheckpoint s') = Some changed \<and> paidFor env tx2 bumpedFee changed fee"
proof (cases "i64 (out_Value (tx_TxOut (ti_Tx tx2) ! changePosition) - bumpedFee) < dustThreshold")
  case True
  with assms obtain funded s1 where f: "rpcL (rle_FundRawTransaction env (ti_Tx tx2) (roundedFeeRate env (ti_Size tx2) bumpedFee) 1) s = (Ok (funded, fee), s1)"
    and s': "s' = s1\<lparr>rl_lastSubmittedCheckpoint := (rl_lastSubmittedCheckpoint s1)\<lparr>ci_Tx2 :=
        map_option (\<lambda>t. t\<lparr>ti_Tx := funded, ti_Size := rle_GetTxVirtualSize env funded\<rparr>) (ci_Tx2 (rl_lastSubmittedCheckpoint s1))\<rparr>\<rparr>"
    unfolding payBumpedFee_def
    by (auto elim!: bindG_Ok_E simp: Let_def updTx2_run calculateTxVirtualSize_def sumG_def liftG_def sumOutcome_def retG_def option.map_comp comp_def split: prod.splits)
  from rpcL_Ok [OF f] s' assms(2) True show ?thesis by (auto simp: paidFor_def Let_def) blast
next
  case False
  with assms show ?thesis
    by (auto simp: payBumpedFee_def paidFor_def Let_def updTx2_run retG_def elim!: bindG_Ok_E)
qed

text \<open>
  C13. A replacement is sent only if it obeys the rules of BIP 125 that the code checks: at most
  100 descendants, a fee above the fees it displaces, a higher fee rate, and an increment that
  pays for its own relay. The sent transaction is the signed form of the recorded one, which
  pays the fee from a change output that stays above dust, or with inputs added by the wallet.
  A confirmed transaction is not replaced.
\<close>

theorem replacement_rules:
  assumes "maybeResendSecondTxOfCheckpointToBTC env bumpedFee s = (Ok (Some t), s')"
  shows "\<exists>tx2 entry incr stx txid. ci_Tx2 (rl_lastSubmittedCheckpoint s) = Some tx2 \<and> ci_Tx2 (rl_lastSubmittedCheckpoint s') = Some t
    \<and> (\<exists>w w'. rle_GetMempoolEntry env (rle_TxHash env (ti_Tx tx2)) w = (Ok entry, w')) \<and> (\<exists>w w'. rle_GetNetworkInfo env w = (Ok incr, w'))
    \<and> rbfAllowed env entry (amountOf env incr) (ti_Fee t) (ti_Size t)
    \<and> paidFor env tx2 bumpedFee t (ti_Fee t)
    \<and> (\<exists>w w'. rle_SignRawTransactionWithWallet env (ti_Tx t) w = (Ok (stx, True), w'))
    \<and> (\<exists>w w'. rle_SendRawTransaction env stx w = (Ok txid, w')) \<and> ti_TxID t = Some txid
    \<and> (\<exists>old w w' status. ti_TxID tx2 = Some old \<and> status \<noteq> TxInChain
         \<and> rle_TxDetails env old (out_PkScript (tx_TxOut (ti_Tx tx2) ! changePosition)) w = (Ok status, w'))"
proof -
  from assms obtain tx2 old status s1 where tx2: "ci_Tx2 (rl_lastSubmittedCheckpoint s) = Some tx2" and old: "ti_TxID tx2 = Some old"
    and det: "rpcL (rle_TxDetails env old (out_PkScript (tx_TxOut (ti_Tx tx2) ! changePosition))) s = (Ok status, s1)" "status \<noteq> TxInChain"
    and rest: "bindG (payBumpedFee env tx2 bumpedFee) (\<lambda>newFee.
             bindG lastTx2 (\<lambda>changed.
             bindG (wrapG ''RBF requirements not met: '' (verifyRBFRequirements env (rle_TxHash env (ti_Tx tx2)) newFee (ti_Size changed))) (\<lambda>_.
             bindG (signTx env (ti_Tx changed)) (\<lambda>tx.
             bindG (sendTxToBTC env tx) (\<lambda>txID.
             bindG (updTx2 (\<lambda>t. t\<lparr>ti_Fee := newFee, ti_TxID := Some txID\<rparr>)) (\<lambda>_.
             bindG lastTx2 (\<lambda>t. retG (Some t)))))))) s1 = (Ok (Some t), s')"
    unfolding maybeResendSecondTxOfCheckpointToBTC_def
    by (auto elim!: bindG_Ok_E simp: lastTx2_Ok derefG_def retG_def panicG_def failG_def split: if_splits option.splits)
  have tx2': "ci_Tx2 (rl_lastSubmittedCheckpoint s1) = Some tx2" using rpcL_Ok [OF det(1)] tx2 by auto
  from rest obtain newFee s2 changed s3 stx s4 txid s5 where pay: "payBumpedFee env tx2 bumpedFee s1 = (Ok newFee, s2)"
    and ch: "ci_Tx2 (rl_lastSubmittedCheckpoint s2) = Some changed"
    and ver: "verifyRBFRequirements env (rle_TxHash env (ti_Tx tx2)) newFee (ti_Size changed) s2 = (Ok (), s3)"
    and sig: "signTx env (ti_Tx changed) s3 = (Ok stx, s4)" and snd: "sendTxToBTC env stx s4 = (Ok txid, s5)"
    and fin: "bindG (updTx2 (\<lambda>t. t\<lparr>ti_Fee := newFee, ti_TxID := Some txid\<rparr>)) (\<lambda>_. bindG lastTx2 (\<lambda>t. retG (Some t))) s5 = (Ok (Some t), s')"
    by (auto elim!: bindG_Ok_E simp: lastTx2_Ok)
  have "onlyWorldL s2 s3" by (rule keepsD [OF keeps_verifyRBF onlyWorldL_refl ver])
  moreover have "onlyWorldL s3 s4" by (rule keepsD [OF keeps_sendTx(2) onlyWorldL_refl sig])
  moreover have "onlyWorldL s4 s5" by (rule keepsD [OF keeps_sendTx(1) onlyWorldL_refl snd])
  ultimately have "ci_Tx2 (rl_lastSubmittedCheckpoint s5) = Some changed" using ch by (auto simp: onlyWorldL_def)
  with fin have t: "t = changed\<lparr>ti_Fee := newFee, ti_TxID := Some txid\<rparr>" "ci_Tx2 (rl_lastSubmittedCheckpoint s') = Some t"
    by (auto simp: updTx2_run lastTx2_Ok retG_def elim!: bindG_Ok_E)
  have paid: "paidFor env tx2 bumpedFee t (ti_Fee t)"
    using payBumpedFee_Ok [OF pay tx2'] ch t(1) by (auto simp: paidFor_def Let_def split: if_splits)
  have sg: "\<exists>w w'. rle_SignRawTransactionWithWallet env (ti_Tx t) w = (Ok (stx, True), w')"
    using sign_run [OF sig] t(1) by simp
  have se: "\<exists>w w'. rle_SendRawTransaction env stx w = (Ok txid, w')"
    using rpcL_Ok [OF snd [unfolded sendTxToBTC_def]] by blast
  from verifyRBF_Ok [OF ver] t(1) obtain entry incr where "\<exists>w w'. rle_GetMempoolEntry env (rle_TxHash env (ti_Tx tx2)) w = (Ok entry, w')"
    "\<exists>w w'. rle_GetNetworkInfo env w = (Ok incr, w')" "rbfAllowed env entry (amountOf env incr) (ti_Fee t) (ti_Size t)" by auto
  moreover have "\<exists>old w w' status. ti_TxID tx2 = Some old \<and> status \<noteq> TxInChain
      \<and> rle_TxDetails env old (out_PkScript (tx_TxOut (ti_Tx tx2) ! changePosition)) w = (Ok status, w')"
    using old det(2) rpcL_Ok [OF det(1)] by blast
  moreover have "ti_TxID t = Some txid" using t(1) by simp
  ultimately show ?thesis using tx2 t(2) paid sg se by blast
qed

subsection \<open>Where the relayer departs from its intent\<close>

text \<open>What a failed submission leaves of the memory: another first transaction, never another epoch.\<close>

definition sameEpochL :: "u64 \<Rightarrow> ('w, 'db) relayer \<Rightarrow> bool" where
  "sameEpochL e s \<longleftrightarrow> ci_Epoch (rl_lastSubmittedCheckpoint s) = e"

lemma keeps_convert:
  assumes "\<And>s w. I s \<Longrightarrow> I (s\<lparr>rl_world := w\<rparr>)"
    and "\<And>s t. I s \<Longrightarrow> I (s\<lparr>rl_lastSubmittedCheckpoint := (rl_lastSubmittedCheckpoint s)\<lparr>ci_Tx1 := Some t\<rparr>\<rparr>)"
  shows "keeps I (convertCkptToTwoTxAndSubmit env ckpt)"
proof -
  have 1: "keeps I (buildAndSendTx env (buildDataTx env d))" "keeps I (buildAndSendTx env (buildChainedDataTx env d tx))" "keeps I (rpcL m)" for d tx m
    by (rule keeps_of_world, intro keeps_rules, rule assms(1), assumption)+
  have 2: "keeps I (setLastTx1 t)" for t
    unfolding setLastTx1_def by (rule keeps_modG) (rule assms(2))
  show ?thesis unfolding convertCkptToTwoTxAndSubmit_def ChainTwoTxAndSend_def by (intro keeps_rules 1 2)
qed

text \<open>
  When the second transaction of a new epoch fails, the epoch in memory is not raised: the
  next attempt builds and sends a first transaction again instead of retrying the second.
\<close>

theorem tx1_sent_again:
  assumes "ci_Epoch (rl_lastSubmittedCheckpoint s) < rcr_EpochNum ckpt" and "convertCkptToTwoTxAndSubmit env ckpt s = (Err e, s')"
  shows "submitNew env ckpt s' = bindG (convertCkptToTwoTxAndSubmit env ckpt) (recordSubmitted env) s'"
proof -
  have "ci_Epoch (rl_lastSubmittedCheckpoint s') = ci_Epoch (rl_lastSubmittedCheckpoint s)"
    using keepsD [OF keeps_convert [of "sameEpochL (ci_Epoch (rl_lastSubmittedCheckpoint s))"] _ assms(2)] by (simp add: sameEpochL_def)
  then show ?thesis using assms(1) by (simp add: submitNew_def shouldSendCompleteCkpt_def)
qed

text \<open>
  A replacement that is refused by \<open>verifyRBFRequirements\<close> has already taken the fee from the
  change in memory: the next attempt takes it once more, and looks up the changed transaction,
  which was never sent.
\<close>

theorem failed_bump_drains:
  assumes "ci_Tx2 (rl_lastSubmittedCheckpoint s) = Some tx2" and "ti_TxID tx2 = Some old" and "changePosition < length (tx_TxOut (ti_Tx tx2))"
    and "rle_TxDetails env old (out_PkScript (tx_TxOut (ti_Tx tx2) ! changePosition)) (rl_world s) = (Ok TxInMemPool, rl_world s)"
    and "change = i64 (out_Value (tx_TxOut (ti_Tx tx2) ! changePosition) - bumpedFee)" and "dustThreshold \<le> change"
    and "rle_GetMempoolEntry env (rle_TxHash env (ti_Tx tx2)) (rl_world s) = (Ok entry, rl_world s)" and "me_DescendantCount entry \<le> 100"
    and "bumpedFee \<le> amountOf env (me_DescendantFees entry)"
  shows "maybeResendSecondTxOfCheckpointToBTC env bumpedFee s =
    (Err (wrapf ''RBF requirements not met: '' (sentinelErr ErrInsufficientFee)),
     s\<lparr>rl_lastSubmittedCheckpoint := (rl_lastSubmittedCheckpoint s)\<lparr>ci_Tx2 := Some (tx2\<lparr>ti_Tx := setChange change (ti_Tx tx2)\<rparr>)\<rparr>\<rparr>)"
proof -
  let ?s = "s\<lparr>rl_lastSubmittedCheckpoint := (rl_lastSubmittedCheckpoint s)\<lparr>ci_Tx2 := Some (tx2\<lparr>ti_Tx := setChange change (ti_Tx tx2)\<rparr>)\<rparr>\<rparr>"
  have d: "rpcL (rle_TxDetails env old (out_PkScript (tx_TxOut (ti_Tx tx2) ! changePosition))) s = (Ok TxInMemPool, s)"
    using assms(4) by (rule rpcL_pure [where m = "rle_TxDetails env old (out_PkScript (tx_TxOut (ti_Tx tx2) ! changePosition))"])
  have m: "rpcL (rle_GetMempoolEntry env (rle_TxHash env (ti_Tx tx2))) ?s = (Ok entry, ?s)"
    using assms(7) by (intro rpcL_pure) simp
  have v: "verifyRBFRequirements env (rle_TxHash env (ti_Tx tx2)) bumpedFee n ?s = (Err (sentinelErr ErrInsufficientFee), ?s)" for n
    using assms(8,9) by (simp add: verifyRBFRequirements_def m tryG_def bindG_def failG_def Let_def)
  have p: "payBumpedFee env tx2 bumpedFee s = (Ok bumpedFee, ?s)"
    using assms(1,5,6) by (simp add: payBumpedFee_def updTx2_run bindG_def retG_def Let_def)
  have l: "lastTx2 s = (Ok tx2, s)" "lastTx2 ?s = (Ok (tx2\<lparr>ti_Tx := setChange change (ti_Tx tx2)\<rparr>), ?s)"
    using assms(1) by (simp_all add: lastTx2_Ok)
  show ?thesis using assms(2,3) d p v l
    by (simp add: maybeResendSecondTxOfCheckpointToBTC_def bindG_def derefG_def wrapG_def retG_def)
qed

text \<open>The incremental relay fee of a node is far below one coin, and the conversion drops its fraction.\<close>

theorem incremental_feerate_zero:
  assumes "rle_GetNetworkInfo env (rl_world s) = (Ok (Fin x), w')" and "0 \<le> x" and "x < 1"
  shows "getIncrementalRelayFeerate env s = (Ok 0, s\<lparr>rl_world := w'\<rparr>)"
proof -
  have "\<lfloor>x\<rfloor> = 0" using assms(2,3) by (simp add: floor_eq_iff)
  then show ?thesis using assms(2) by (simp add: getIncrementalRelayFeerate_def rpcL_def assms(1) f_toInt64_def Let_def bindG_def wrapG_def retG_def)
qed

text \<open>Two adjustments after a refused fee never raise it above what the estimator asks for, whatever the margin.\<close>

theorem adjusted_fee_ignored:
  assumes "requiredFee \<le> bumpedFee"
  shows "adjustFeeForInsufficientFeerate env entry bumpedFee requiredFee n \<le> bumpedFee"
    and "adjustFeeForIncrementTooSmall env entry bumpedFee requiredFee tx2 s = (Ok fee, s') \<Longrightarrow> fee \<le> bumpedFee"
  using assms by (auto simp: adjustFeeForInsufficientFeerate_def adjustFeeForIncrementTooSmall_def Let_def retG_def elim!: bindG_Ok_E split: sum.splits if_splits)

subsection \<open>Concrete instances\<close>

text \<open>A wallet that adds one input and a change output; the world is the list of the transactions sent.\<close>

definition walletInput :: txIn where
  "walletInput = \<lparr>in_PreviousOutPoint = \<lparr>op_Hash = 99, op_Index = 0\<rparr>, in_SignatureScript = [], in_Witness = [], in_Sequence = 0\<rparr>"

definition sampleFund :: "msgTx \<Rightarrow> msgTx" where
  "sampleFund tx = tx\<lparr>tx_TxIn := tx_TxIn tx @ [walletInput],
     tx_TxOut := (if length (tx_TxOut tx) \<ge> 2 then tx_TxOut tx else tx_TxOut tx @ [\<lparr>out_Value = 10000, out_PkScript = [0]\<rparr>])\<rparr>"

definition sampleSign :: "msgTx \<Rightarrow> msgTx" where
  "sampleSign tx = tx\<lparr>tx_TxIn := map (\<lambda>i. i\<lparr>in_Witness := [[1]]\<rparr>) (tx_TxIn tx)\<rparr>"

definition sampleTxHash :: "msgTx \<Rightarrow> hash" where
  "sampleTxHash tx = of_nat (length (tx_TxIn tx))"

definition sampleTx1 :: msgTx where
  "sampleTx1 = sampleSign (sampleFund (dataTx [] [0x6a, 1]))"

definition sampleTx2 :: msgTx where
  "sampleTx2 = sampleSign (sampleFund (dataTx [\<lparr>in_PreviousOutPoint = \<lparr>op_Hash = 1, op_Index = 1\<rparr>,
     in_SignatureScript = [], in_Witness = [], in_Sequence = 0xffffffff - 2\<rparr>] [0x6a, 2]))"

definition pairCodec :: storeCodec where
  "pairCodec = \<lparr>co_SerializeMsgTx = (\<lambda>tx. if tx = sampleTx1 then Inr [1] else if tx = sampleTx2 then Inr [2] else Inl (errorf ''no'')),
     co_DeserializeMsgTx = (\<lambda>b. if b = [1] then Inr sampleTx1 else if b = [2] then Inr sampleTx2 else Inl (errorf ''no'')),
     co_Marshal = (\<lambda>p. if pc_Tx1 p = [1] \<and> pc_Tx2 p = [2] then Inr (be_PutUint64 (pc_Epoch p)) else Inl (errorf ''no'')),
     co_Unmarshal = (\<lambda>b. case be_Uint64 b of Ok e \<Rightarrow> Inr \<lparr>pc_Tx1 = [1], pc_Tx2 = [2], pc_Epoch = e\<rparr> | _ \<Rightarrow> Inl (errorf ''no''))\<rparr>"

lemma pairCodec_contract: "codec_contract pairCodec"
proof -
  have "be_Uint64 (be_PutUint64 e) = Ok e" for e
    using monitor_codec.dec_enc [of e] by (simp add: uint64ToBytes_def uint64FromBytes_def split: if_splits)
  then show ?thesis by (auto simp: codec_contract_def pairCodec_def split: if_splits)
qed

definition sampleRelayerEnv :: "(msgTx list, string list \<times> ((string \<times> string), bytes) gomap, unit, unit) relayerEnv" where
  "sampleRelayerEnv = \<lparr>rle_kv = sampleKv, rle_codec = pairCodec,
     rle_GetRawTransaction = (\<lambda>h w. case filter (\<lambda>tx. sampleTxHash tx = h) w of [] \<Rightarrow> (Err (GoErr [RPCError (- 5)] []), w) | tx # _ \<Rightarrow> (Ok tx, w)),
     rle_SendRawTransaction = (\<lambda>tx w. (Ok (sampleTxHash tx), w @ [tx])),
     rle_TxDetails = (\<lambda>_ _ w. (Ok TxInMemPool, w)),
     rle_FundRawTransaction = (\<lambda>tx _ _ w. (Ok (sampleFund tx, 500), w)),
     rle_WalletPassphrase = (\<lambda>w. (Ok (), w)),
     rle_SignRawTransactionWithWallet = (\<lambda>tx w. (Ok (sampleSign tx, True), w)),
     rle_GetMempoolEntry = (\<lambda>h w. (Ok \<lparr>me_DescendantCount = 1, me_DescendantFees = Fin 500, me_DescendantSize = 200, me_Fee = Fin (1 / 200000), me_Time = 1700000000\<rparr>, w)),
     rle_GetNetworkInfo = (\<lambda>w. (Ok (Fin (1 / 100000)), w)),
     rle_GetNewAddress = (\<lambda>w. (Ok ''bc1'', w)), rle_EstimateFeePerKW = (\<lambda>_ w. (Ok 250, w)), rle_RelayFeePerKW = (\<lambda>w. (Ok 250, w)),
     rle_Now = (\<lambda>w. (Ok 1700000001000000000, w)),
     rle_PayToAddrScript = (\<lambda>_. Inr [0]), rle_ExtractPkScriptAddrs = (\<lambda>_. Inr [''bc1'']), rle_DataScript = (\<lambda>d. Inr (0x6a # d)),
     rle_Serialize = (\<lambda>_. Inr []), rle_TxHash = sampleTxHash, rle_GetTxVirtualSize = (\<lambda>_. 200),
     rle_FeePerKVByte = (\<lambda>f. 4 * f), rle_FeeForVSize = (\<lambda>f n. f * n div 1000), rle_ToBTC = (\<lambda>n. Fin (of_int n / 100000000)),
     rle_NewAmount = (\<lambda>_. Inr 500), rle_MulF64 = (\<lambda>n _. 2 * n),
     rle_ToRawCheckpoint = (\<lambda>_. Inr ()), rle_FromRawCkptToBTCCkpt = (\<lambda>_. Inr ()), rle_EncodeCheckpointData = (\<lambda>_. Inr ([1], [2])),
     rle_rnd = Fin, rle_machineInt64 = (\<lambda>_. 0), rle_machineSeconds = (\<lambda>_. 0),
     rle_TargetBlockNum = 1, rle_DefaultFee = 1000, rle_TxFeeMax = 20000, rle_TxFeeMin = 1000,
     rle_ResubmitFeeMultiplier = Fin 2, rle_InsufficientFeeMargin = Fin 0, rle_InsufficientFeerateMargin = Fin 0, rle_FeeIncrementMargin = Fin 0,
     rle_ResendIntervalSeconds = 0, rle_retry = retrySample\<rparr>"

definition sampleRelayer :: "(msgTx list, string list \<times> ((string \<times> string), bytes) gomap) relayer" where
  "sampleRelayer = \<lparr>rl_lastSubmittedCheckpoint = emptyCheckpoint, rl_db = ([storedCheckpointBucketName], []), rl_world = []\<rparr>"

definition sampleCkpt :: ckptWithMeta where
  "sampleCkpt = \<lparr>cwm_Ckpt = \<lparr>rcr_EpochNum = 7, rcr_BlockHashHex = [], rcr_Bitmap = [], rcr_BlsMultiSig = []\<rparr>, cwm_Status = Sealed\<rparr>"

definition sampleInfo :: "nat \<Rightarrow> msgTx \<Rightarrow> btcTxInfo" where
  "sampleInfo n tx = \<lparr>ti_TxID = Some (of_nat n), ti_Tx = tx, ti_Size = 200, ti_Fee = 200\<rparr>"

definition sampleInfos :: checkpointInfo where
  "sampleInfos = \<lparr>ci_Epoch = 7, ci_TS = 0, ci_Tx1 = Some (sampleInfo 1 sampleTx1), ci_Tx2 = Some (sampleInfo 2 sampleTx2)\<rparr>"

lemma sampleWallet: "wallet_contract sampleRelayerEnv"
proof -
  have "hd (tx_TxOut tx @ [x]) = hd (tx_TxOut tx)" if "tx_TxOut tx \<noteq> []" for tx x using that by simp
  then show ?thesis
    by (auto simp: wallet_contract_def sampleRelayerEnv_def sampleFund_def sampleSign_def)
qed

lemma sampleSend: "fst (SendCheckpointToBTC sampleRelayerEnv sampleCkpt sampleRelayer) = Ok ()"
  by code_simp


lemma sampleRecord: "fst (recordSubmitted sampleRelayerEnv sampleInfos sampleRelayer) = Ok ()"
  by code_simp


lemma sampleConvert: "isOk (fst (convertCkptToTwoTxAndSubmit sampleRelayerEnv (cwm_Ckpt sampleCkpt) sampleRelayer))"
  by code_simp

theorem ckpt_txs_chained_witness:
  "\<exists>c s' tx1 tx2 rest. convertCkptToTwoTxAndSubmit sampleRelayerEnv (cwm_Ckpt sampleCkpt) sampleRelayer = (Ok c, s')
     \<and> ci_Tx1 c = Some tx1 \<and> ci_Tx2 c = Some tx2
     \<and> hd (tx_TxOut (ti_Tx tx1)) = \<lparr>out_Value = 0, out_PkScript = [0x6a, 1]\<rparr> \<and> hd (tx_TxOut (ti_Tx tx2)) = \<lparr>out_Value = 0, out_PkScript = [0x6a, 2]\<rparr>
     \<and> outpoints (ti_Tx tx2) = \<lparr>op_Hash = sampleTxHash (ti_Tx tx1), op_Index = 1\<rparr> # rest"
proof -
  obtain c s' where run: "convertCkptToTwoTxAndSubmit sampleRelayerEnv (cwm_Ckpt sampleCkpt) sampleRelayer = (Ok c, s')"
    using isOk_run [OF sampleConvert] by blast
  have "encodeCheckpointData sampleRelayerEnv (cwm_Ckpt sampleCkpt) = Inr ([1], [2])" "rle_DataScript sampleRelayerEnv = (\<lambda>d. Inr (0x6a # d))" "rle_TxHash sampleRelayerEnv = sampleTxHash"
    by (simp_all add: encodeCheckpointData_def sampleRelayerEnv_def)
  with ckpt_txs_chained [OF sampleWallet run] run show ?thesis by auto
qed

definition sampleSubmitted :: "(msgTx list, string list \<times> ((string \<times> string), bytes) gomap) relayer" where
  "sampleSubmitted = sampleRelayer\<lparr>rl_lastSubmittedCheckpoint := sampleInfos, rl_world := [sampleTx1, sampleTx2]\<rparr>"

lemma sampleReplace: 
  "isOk (fst (maybeResendSecondTxOfCheckpointToBTC sampleRelayerEnv 1000 sampleSubmitted))"
  "fst (maybeResendSecondTxOfCheckpointToBTC sampleRelayerEnv 1000 sampleSubmitted) \<noteq> Ok None"
  by code_simp+

theorem replacement_rules_witness:
  "\<exists>t s'. maybeResendSecondTxOfCheckpointToBTC sampleRelayerEnv 1000 sampleSubmitted = (Ok (Some t), s')
     \<and> ti_Fee t = 1000 \<and> ti_Tx t = setChange 9000 sampleTx2"
proof -
  obtain t s' where run: "maybeResendSecondTxOfCheckpointToBTC sampleRelayerEnv 1000 sampleSubmitted = (Ok (Some t), s')"
    using sampleReplace isOk_run by (metis option.exhaust prod.sel(1))
  from replacement_rules [OF run] obtain tx2 where "ci_Tx2 sampleInfos = Some tx2" "paidFor sampleRelayerEnv tx2 1000 t (ti_Fee t)"
    by (auto simp: sampleSubmitted_def)
  moreover have "out_Value (tx_TxOut sampleTx2 ! changePosition) = 10000"
    by (simp add: sampleTx2_def sampleSign_def sampleFund_def dataTx_def changePosition_def)
  ultimately have "ti_Fee t = 1000 \<and> ti_Tx t = setChange 9000 sampleTx2"
    by (auto simp: sampleInfos_def sampleInfo_def paidFor_def Let_def i64_def dustThreshold_def)
  with run show ?thesis by blast
qed

end
