(* ===== verification/Reporter_Submit.thy ===== *)
theory Reporter_Submit
  imports BTC_Client Ckpt_Cache
begin

text \<open>
  The part of the reporter that submits headers and checkpoints to Babylon:
  \<open>reporter/utils.go\<close>. \<open>reporter\<close> is the struct \<open>Reporter\<close> of \<open>reporter/reporter.go\<close> (its
  configuration, caches, lifecycle flags and the world outside the daemon), and
  \<open>reporterEnv\<close> collects the library code it calls: the Babylon client
  (\<open>reporter/expected_babylon_client.go\<close>), the Bitcoin node, the retry library, the clock,
  hashing and serialisation, and the orders in which Go ranges over the segment maps.

  Shown here: the headers are cut into non-empty messages of at most \<open>MaxHeadersInMsg\<close> that
  together are exactly the blocks from the first one unknown to Babylon; against a Babylon
  that accepts them, \<open>ProcessHeaders\<close> terminates and leaves every header known; matched
  checkpoints are sent in epoch order and none stays behind in the cache.
\<close>

subsection \<open>The reporter and what it calls\<close>

record chainTip =
  ct_Height :: u32
  ct_HashHex :: string

record ('w, 'spv) reporterEnv =
  re_fmt :: formatter
  re_sortSlice :: "ckpt list \<Rightarrow> ckpt list"
  re_range0 :: "ckptCache \<Rightarrow> hash list"
  re_range1 :: "ckptCache \<Rightarrow> hash \<Rightarrow> hash list"
  re_BlockHash :: "blockHeader \<Rightarrow> hash"
  re_Serialize :: "msgTx \<Rightarrow> goerr + bytes"
  re_SpvProof :: "blockHeader \<Rightarrow> bytes list \<Rightarrow> nat \<Rightarrow> goerr + 'spv"
  re_ParseHash :: "string \<Rightarrow> goerr + hash"
  re_Now :: "('w, int) prog"
  re_btcClient :: "'w btcRpc"
  re_MustGetAddr :: "('w, string) prog"
  re_ContainsBTCBlock :: "hash \<Rightarrow> ('w, bool) prog"
  re_BTCHeaderChainTip :: "('w, chainTip) prog"
  re_BTCBaseHeader :: "('w, u32) prog"
  re_SendHeaders :: "msgInsertHeaders \<Rightarrow> sentinel list \<Rightarrow> sentinel list \<Rightarrow> ('w, nat option) prog"
  re_SendSpvProof :: "'spv msgInsertBTCSpvProof \<Rightarrow> sentinel list \<Rightarrow> sentinel list \<Rightarrow> ('w, nat option) prog"
  re_retryContains :: "('w, bool) retryDo"
  re_retrySend :: "('w, unit) retryDo"

record 'w reporter =
  r_MaxHeadersInMsg :: u32
  r_BTCCacheSize :: u32
  r_maxRetryTimes :: nat
  r_checkpointCache :: ckptCache
  r_btcCache :: "btcCache option"
  r_btcConfirmationDepth :: u32
  r_checkpointFinalizationTimeout :: u32
  r_started :: bool
  r_quit :: bool
  r_bootstrapInProgress :: bool
  r_bootstrapWg :: int
  r_async :: "(string \<times> indexedBlock list) list"
  r_world :: 'w

definition rpcR :: "('w, 'a) prog \<Rightarrow> ('w reporter, 'a) prog" where
  "rpcR m = zoomG r_world (\<lambda>w r. r\<lparr>r_world := w\<rparr>) m"

subsection \<open>Headers\<close>

text \<open>
  \<open>chunkBy\<close>. With chunk size 0 the loop condition stays true and the slice never shrinks, so
  the loop does not end: \<open>NoFuel\<close>.
\<close>

function chunkByLoop :: "nat \<Rightarrow> 'a list \<Rightarrow> 'a list list \<Rightarrow> 'a list list outcome" where
  "chunkByLoop chunkSize items chunks =
     (if chunkSize < length items then
        if chunkSize = 0 then NoFuel
        else chunkByLoop chunkSize (drop chunkSize items) (chunks @ [take chunkSize items])
      else Ok (chunks @ [items]))"
  by pat_completeness auto
termination
  by (relation "measure (\<lambda>(n, items, chunks). length items)") auto

declare chunkByLoop.simps [simp del]

definition chunkBy :: "'a list \<Rightarrow> nat \<Rightarrow> 'a list list outcome" where
  "chunkBy items chunkSize = chunkByLoop chunkSize items []"

text \<open>The search for the first header Babylon does not have; -1 when it has them all.\<close>

fun findStartPoint :: "('w, 'spv) reporterEnv \<Rightarrow> int \<Rightarrow> indexedBlock list \<Rightarrow> ('w reporter, int) prog" where
  "findStartPoint env i [] = retG (- 1)"
| "findStartPoint env i (header # ibs) =
     bindG (rpcR (retrywrap_Do (re_retryContains env) None
              (re_ContainsBTCBlock env (re_BlockHash env (ib_Header header))))) (\<lambda>res.
       case res of
         None \<Rightarrow> panicG ''nil pointer dereference''
       | Some contains \<Rightarrow> if \<not> contains then retG i else findStartPoint env (i + 1) ibs)"

definition getHeaderMsgsToSubmit ::
  "('w, 'spv) reporterEnv \<Rightarrow> string \<Rightarrow> indexedBlock list \<Rightarrow> ('w reporter, msgInsertHeaders list) prog" where
  "getHeaderMsgsToSubmit env signer ibs =
     bindG (findStartPoint env 0 ibs) (\<lambda>startPoint.
       if startPoint = - 1 then retG []
       else
         bindG (getG r_MaxHeadersInMsg) (\<lambda>maxHeaders.
         bindG (liftG (chunkBy (drop (nat startPoint) ibs) (unat maxHeaders))) (\<lambda>blockChunks.
           retG (map (NewMsgInsertHeaders signer) blockChunks))))"

text \<open>The closure that \<open>submitHeaderMsgs\<close> retries.\<close>

definition sendHeadersOnce :: "('w, 'spv) reporterEnv \<Rightarrow> msgInsertHeaders \<Rightarrow> ('w, unit) prog" where
  "sendHeadersOnce env msg =
     bindG (wrapG ''could not submit headers: '' (re_SendHeaders env msg [ErrForkStartWithKnownHeader] []))
       (\<lambda>res. case res of
          None \<Rightarrow> failG (sentinelErr ErrForkStartWithKnownHeader)
        | Some _ \<Rightarrow> retG ())"

definition submitHeaderMsgs :: "('w, 'spv) reporterEnv \<Rightarrow> msgInsertHeaders \<Rightarrow> ('w reporter, unit) prog" where
  "submitHeaderMsgs env msg =
     bindG (getG r_maxRetryTimes) (\<lambda>n.
     bindG (tryG (rpcR (retrywrap_Do (re_retrySend env) (Some n) (sendHeadersOnce env msg)))) (\<lambda>r.
       case r of
         Inr _ \<Rightarrow> retG ()
       | Inl err \<Rightarrow>
           if errors_is err ErrTimeoutAfterWaitingForTxBroadcast
           then failG (wrapf ''tx broadcast timeout: '' err)
           else if errors_is err ErrForkStartWithKnownHeader then failG err
           else failG (wrapf ''failed to submit headers: '' err)))"

fun firstAbove :: "u32 \<Rightarrow> indexedBlock list \<Rightarrow> indexedBlock list option" where
  "firstAbove height [] = None"
| "firstAbove height (block # ibs) =
     (if ib_Height block > height then Some (block # ibs) else firstAbove height ibs)"

definition FilterAlreadyProcessedBlocks :: "indexedBlock list \<Rightarrow> u32 \<Rightarrow> indexedBlock list \<times> bool" where
  "FilterAlreadyProcessedBlocks ibs height =
     (if length ibs = 0 then ([], False)
      else if height \<ge> ib_Height (ibs ! (length ibs - 1)) then ([], False)
      else case firstAbove height ibs of
             Some newSlice \<Rightarrow> (newSlice, True)
           | None \<Rightarrow> ([], False))"

text \<open>
  The submission loop of \<open>ProcessHeaders\<close>, on the messages from index \<open>i\<close> on. The result is the
  pair the function returns. The loop starts over when Babylon knows part of a message, so
  it has no bound in the source and takes fuel.
\<close>

fun processHeadersLoop ::
  "nat \<Rightarrow> ('w, 'spv) reporterEnv \<Rightarrow> string \<Rightarrow> indexedBlock list \<Rightarrow> msgInsertHeaders list \<Rightarrow> nat
    \<Rightarrow> ('w reporter, nat \<times> goerr option) prog" where
  "processHeadersLoop 0 env signer ibs headerMsgs numSubmitted = noFuelG"
| "processHeadersLoop (Suc fuel) env signer ibs headerMsgs numSubmitted = (case headerMsgs of
     [] \<Rightarrow> retG (numSubmitted, None)
   | msgs # rest \<Rightarrow>
       bindG (tryG (submitHeaderMsgs env msgs)) (\<lambda>r. case r of
         Inr _ \<Rightarrow> processHeadersLoop fuel env signer ibs rest (numSubmitted + length (ih_Headers msgs))
       | Inl err \<Rightarrow>
           if \<not> errors_is err ErrForkStartWithKnownHeader
           then retG (numSubmitted, Some (wrapf ''failed to submit headers: '' err))
           else
             bindG (tryG (rpcR (re_BTCHeaderChainTip env))) (\<lambda>tip. case tip of
               Inl err2 \<Rightarrow> retG (numSubmitted, Some (wrapf ''failed to get BTC header chain tip: '' err2))
             | Inr res \<Rightarrow>
                 (let (slicedBlocks, shouldRetry) = FilterAlreadyProcessedBlocks ibs (ct_Height res) in
                  if \<not> shouldRetry then retG (numSubmitted, None)
                  else
                    bindG (tryG (getHeaderMsgsToSubmit env signer slicedBlocks)) (\<lambda>nm. case nm of
                      Inl newErr \<Rightarrow> retG (numSubmitted, Some (wrapf ''failed to find headers to submit: '' newErr))
                    | Inr newHeaderMsgs \<Rightarrow>
                        if newHeaderMsgs = [] then retG (numSubmitted, None)
                        else processHeadersLoop fuel env signer ibs newHeaderMsgs numSubmitted)))))"

definition ProcessHeaders ::
  "nat \<Rightarrow> ('w, 'spv) reporterEnv \<Rightarrow> string \<Rightarrow> indexedBlock list \<Rightarrow> ('w reporter, nat \<times> goerr option) prog" where
  "ProcessHeaders fuel env signer ibs =
     bindG (tryG (getHeaderMsgsToSubmit env signer ibs)) (\<lambda>r. case r of
       Inl err \<Rightarrow> retG (0, Some (wrapf ''failed to find headers to submit: '' err))
     | Inr headerMsgsToSubmit \<Rightarrow>
         if headerMsgsToSubmit = [] then retG (0, None)
         else processHeadersLoop fuel env signer ibs headerMsgsToSubmit 0)"

subsection \<open>Checkpoints\<close>

definition ckptCacheG :: "(ckptCache \<Rightarrow> ckptCache) \<Rightarrow> ('w reporter, unit) prog" where
  "ckptCacheG f = modG (\<lambda>r. r\<lparr>r_checkpointCache := f (r_checkpointCache r)\<rparr>)"

fun extractLoop ::
  "('w, 'spv) reporterEnv \<Rightarrow> indexedBlock \<Rightarrow> btcTx option list \<Rightarrow> nat \<Rightarrow> ('w reporter, nat) prog" where
  "extractLoop env ib [] numCkptSegs = retG numCkptSegs"
| "extractLoop env ib (None # txs) numCkptSegs = extractLoop env ib txs numCkptSegs"
| "extractLoop env ib (Some tx # txs) numCkptSegs =
     bindG (getG r_checkpointCache) (\<lambda>cc.
       case NewCkptSegment (re_fmt env) (cc_Tag cc) (cc_Version cc) ib tx of
         None \<Rightarrow> extractLoop env ib txs numCkptSegs
       | Some ckptSeg \<Rightarrow>
           bindG (rpcR (re_Now env)) (\<lambda>now.
           bindG (tryG (liftG (CheckpointCache_AddSegment (re_fmt env) now ckptSeg cc))) (\<lambda>r. case r of
             Inl _ \<Rightarrow> extractLoop env ib txs numCkptSegs
           | Inr cc' \<Rightarrow> bindG (ckptCacheG (\<lambda>_. cc')) (\<lambda>_. extractLoop env ib txs (Suc numCkptSegs)))))"

definition extractCheckpoints :: "('w, 'spv) reporterEnv \<Rightarrow> indexedBlock \<Rightarrow> ('w reporter, nat) prog" where
  "extractCheckpoints env ib = extractLoop env ib (ib_Txs ib) 0"

text \<open>
  One round of the submission loop: proofs, message, submission. A submission error is
  logged and the checkpoint dropped; nothing of the reporter's state depends on the answer.
\<close>

definition submitCkpt :: "('w, 'spv) reporterEnv \<Rightarrow> string \<Rightarrow> ckpt \<Rightarrow> ('w reporter, unit) prog" where
  "submitCkpt env signer ck =
     bindG (liftG (MustGenSPVProofs (re_fmt env) (GenSPVProof (re_Serialize env) (re_SpvProof env)) ck)) (\<lambda>proofs.
     bindG (liftG (MustNewMsgInsertBTCSpvProof (re_fmt env) signer proofs)) (\<lambda>msg.
     bindG (tryG (rpcR (re_SendSpvProof env msg [ErrDuplicatedSubmission, ErrEpochAlreadyFinalized] []))) (\<lambda>_.
       retG ())))"

text \<open>The \<open>for\<close> loop that pops until nil; each round removes a checkpoint.\<close>

fun submitCkptsLoop :: "nat \<Rightarrow> ('w, 'spv) reporterEnv \<Rightarrow> string \<Rightarrow> ('w reporter, unit) prog" where
  "submitCkptsLoop 0 env signer = noFuelG"
| "submitCkptsLoop (Suc fuel) env signer =
     bindG (getG r_checkpointCache) (\<lambda>cc.
       (let (popped, cc') = CheckpointCache_PopEarliestCheckpoint cc in
        bindG (ckptCacheG (\<lambda>_. cc')) (\<lambda>_. case popped of
          None \<Rightarrow> retG ()
        | Some ck \<Rightarrow> bindG (submitCkpt env signer ck) (\<lambda>_. submitCkptsLoop fuel env signer))))"

definition matchAndSubmitCheckpoints :: "('w, 'spv) reporterEnv \<Rightarrow> string \<Rightarrow> ('w reporter, nat) prog" where
  "matchAndSubmitCheckpoints env signer =
     bindG (ckptCacheG (\<lambda>cc. CheckpointCache_Match (re_fmt env) (re_sortSlice env)
              (re_range0 env cc) (re_range1 env cc) cc)) (\<lambda>_.
     bindG (getG (CheckpointCache_NumCheckpoints \<circ> r_checkpointCache)) (\<lambda>numMatchedCkpts.
       if numMatchedCkpts = 0 then retG numMatchedCkpts
       else bindG (submitCkptsLoop (Suc numMatchedCkpts) env signer) (\<lambda>_. retG numMatchedCkpts)))"

fun extractAll :: "('w, 'spv) reporterEnv \<Rightarrow> indexedBlock list \<Rightarrow> nat \<Rightarrow> ('w reporter, nat) prog" where
  "extractAll env [] numCkptSegs = retG numCkptSegs"
| "extractAll env (ib # ibs) numCkptSegs =
     bindG (extractCheckpoints env ib) (\<lambda>n. extractAll env ibs (numCkptSegs + n))"

definition ProcessCheckpoints ::
  "('w, 'spv) reporterEnv \<Rightarrow> string \<Rightarrow> indexedBlock list \<Rightarrow> ('w reporter, nat \<times> nat) prog" where
  "ProcessCheckpoints env signer ibs =
     bindG (extractAll env ibs 0) (\<lambda>numCkptSegs.
     bindG (matchAndSubmitCheckpoints env signer) (\<lambda>numMatchedCkpts.
       retG (numCkptSegs, numMatchedCkpts)))"

subsection \<open>What submission leaves alone\<close>

text \<open>
  A predicate that looks neither at the world nor at the checkpoint cache is kept by every
  operation of this theory, whatever the outside answers.
\<close>

definition submit_frame :: "('w reporter \<Rightarrow> bool) \<Rightarrow> bool" where
  "submit_frame I \<longleftrightarrow> (\<forall>s w. I s \<longrightarrow> I (s\<lparr>r_world := w\<rparr>)) \<and> (\<forall>s c. I s \<longrightarrow> I (s\<lparr>r_checkpointCache := c\<rparr>))"

lemma keeps_rpcR: "submit_frame I \<Longrightarrow> keeps I (rpcR m)"
  unfolding rpcR_def by (rule keeps_zoomG) (simp add: submit_frame_def)

lemma keeps_ckptCacheG: "submit_frame I \<Longrightarrow> keeps I (ckptCacheG f)"
  unfolding ckptCacheG_def by (rule keeps_modG) (simp add: submit_frame_def)

lemma keeps_findStartPoint: "submit_frame I \<Longrightarrow> keeps I (findStartPoint env i ibs)"
  by (induction env i ibs rule: findStartPoint.induct) (auto intro!: keeps_rules keeps_rpcR)

lemma keeps_getHeaderMsgs: "submit_frame I \<Longrightarrow> keeps I (getHeaderMsgsToSubmit env signer ibs)"
  unfolding getHeaderMsgsToSubmit_def by (intro keeps_rules keeps_findStartPoint)

lemma keeps_submitHeaderMsgs: "submit_frame I \<Longrightarrow> keeps I (submitHeaderMsgs env msg)"
  unfolding submitHeaderMsgs_def by (intro keeps_rules keeps_rpcR)

lemma keeps_processHeadersLoop:
  "submit_frame I \<Longrightarrow> keeps I (processHeadersLoop fuel env signer ibs msgs n)"
proof (induction fuel arbitrary: msgs n)
  case (Suc fuel)
  then show ?case unfolding processHeadersLoop.simps Let_def
    by (intro keeps_rules keeps_rpcR keeps_submitHeaderMsgs keeps_getHeaderMsgs) auto
qed (simp add: keeps_prims)

lemma keeps_ProcessHeaders: "submit_frame I \<Longrightarrow> keeps I (ProcessHeaders fuel env signer ibs)"
  unfolding ProcessHeaders_def
  by (intro keeps_rules keeps_getHeaderMsgs keeps_processHeadersLoop)

lemma keeps_extractLoop: "submit_frame I \<Longrightarrow> keeps I (extractLoop env ib txs n)"
proof (induction txs arbitrary: n)
  case (Cons tx txs)
  show ?case
  proof (cases tx)
    case None
    then show ?thesis using Cons by simp
  next
    case (Some t)
    show ?thesis unfolding Some extractLoop.simps
      by (intro keeps_rules keeps_rpcR keeps_ckptCacheG Cons)
  qed
qed (simp add: keeps_prims)

lemma keeps_extractAll: "submit_frame I \<Longrightarrow> keeps I (extractAll env ibs n)"
  by (induction env ibs n rule: extractAll.induct)
     (auto intro!: keeps_rules keeps_extractLoop simp: extractCheckpoints_def)

lemma keeps_submitCkptsLoop: "submit_frame I \<Longrightarrow> keeps I (submitCkptsLoop fuel env signer)"
proof (induction fuel)
  case (Suc fuel)
  then show ?case unfolding submitCkptsLoop.simps Let_def submitCkpt_def
    by (intro keeps_rules keeps_rpcR keeps_ckptCacheG)
qed (simp add: keeps_prims)

lemma keeps_ProcessCheckpoints: "submit_frame I \<Longrightarrow> keeps I (ProcessCheckpoints env signer ibs)"
  unfolding ProcessCheckpoints_def matchAndSubmitCheckpoints_def
  by (intro keeps_rules keeps_extractAll keeps_ckptCacheG keeps_submitCkptsLoop)

subsection \<open>Chunks\<close>

lemma chunkByLoop_spec:
  "0 < n \<Longrightarrow> \<exists>cs. chunkByLoop n items acc = Ok (acc @ cs) \<and> concat cs = items \<and> cs \<noteq> []
     \<and> (\<forall>c \<in> set (butlast cs). length c = n) \<and> length (last cs) \<le> n \<and> (items \<noteq> [] \<longrightarrow> last cs \<noteq> [])"
proof (induction n items acc rule: chunkByLoop.induct)
  case (1 n items acc)
  show ?case
  proof (cases "n < length items")
    case True
    then obtain cs where cs: "chunkByLoop n (drop n items) (acc @ [take n items]) = Ok ((acc @ [take n items]) @ cs)"
      "concat cs = drop n items" "cs \<noteq> []" "\<forall>c \<in> set (butlast cs). length c = n"
      "length (last cs) \<le> n" "last cs \<noteq> []"
      using 1 by auto
    then show ?thesis using True "1.prems"
      by (intro exI [of _ "take n items # cs"]) (auto simp: chunkByLoop.simps [of n items])
  next
    case False
    then show ?thesis by (intro exI [of _ "[items]"]) (auto simp: chunkByLoop.simps [of n items])
  qed
qed

lemma chunk_lengths:
  assumes "\<forall>c \<in> set (butlast cs). length c = n" and "length (last cs) \<le> n" and "cs \<noteq> []"
    and "0 < n" and "last cs \<noteq> []" and "c \<in> set cs"
  shows "c \<noteq> [] \<and> length c \<le> n"
proof -
  have "set cs = insert (last cs) (set (butlast cs))"
    using assms(3) by (metis append_butlast_last_id list.simps(15) rotate1.simps(2) set_rotate1)
  with assms show ?thesis by auto
qed

lemma chunkBy_nonempty:
  assumes "0 < n" and "items \<noteq> []"
  obtains cs where "chunkBy items n = Ok cs" and "concat cs = items" and "cs \<noteq> []"
    and "\<And>c. c \<in> set cs \<Longrightarrow> c \<noteq> [] \<and> length c \<le> n"
proof -
  from chunkByLoop_spec [OF assms(1), of items "[]"] assms(2) obtain cs where
    cs: "chunkByLoop n items [] = Ok cs" "concat cs = items" "cs \<noteq> []"
      "\<forall>c \<in> set (butlast cs). length c = n" "length (last cs) \<le> n" "last cs \<noteq> []" by auto
  then show thesis using that [of cs] chunk_lengths [OF cs(4,5,3) assms(1) cs(6)]
    by (simp add: chunkBy_def)
qed

lemma length_concat_chunks: "(\<And>c. c \<in> set cs \<Longrightarrow> c \<noteq> []) \<Longrightarrow> length cs \<le> length (concat cs)"
proof (induction cs)
  case (Cons c cs)
  then have "0 < length c" "length cs \<le> length (concat cs)" by simp_all
  then show ?case unfolding concat.simps length_append list.size by linarith
qed simp

subsection \<open>A Babylon that accepts connected headers\<close>

text \<open>
  \<open>known w h\<close>: Babylon's light client has the block with hash \<open>h\<close>. Babylon answers
  \<open>ContainsBTCBlock\<close> by it, and accepts a message whose headers form a chain on a known parent.
\<close>

definition chained :: "(blockHeader \<Rightarrow> hash) \<Rightarrow> blockHeader list \<Rightarrow> bool" where
  "chained bh hs \<longleftrightarrow> successively (\<lambda>a b. bh_PrevBlock b = bh a) hs"

definition bbn_accepts :: "('w, 'spv) reporterEnv \<Rightarrow> ('w \<Rightarrow> hash \<Rightarrow> bool) \<Rightarrow> bool" where
  "bbn_accepts env known \<longleftrightarrow>
     (\<forall>h w. re_ContainsBTCBlock env h w = (Ok (known w h), w)) \<and>
     (\<forall>msg ex ab w. ih_Headers msg \<noteq> [] \<and> chained (re_BlockHash env) (ih_Headers msg)
        \<and> known w (bh_PrevBlock (hd (ih_Headers msg))) \<longrightarrow>
        (\<exists>code w'. re_SendHeaders env msg ex ab w = (Ok (Some code), w') \<and>
           (\<forall>h. known w' h \<longleftrightarrow> known w h \<or> h \<in> re_BlockHash env ` set (ih_Headers msg))))"

definition reporter_retries :: "('w, 'spv) reporterEnv \<Rightarrow> bool" where
  "reporter_retries env \<longleftrightarrow> retry_contract (re_retryContains env) \<and> retry_contract (re_retrySend env)"

definition blockKnown :: "('w, 'spv) reporterEnv \<Rightarrow> ('w \<Rightarrow> hash \<Rightarrow> bool) \<Rightarrow> 'w \<Rightarrow> indexedBlock \<Rightarrow> bool" where
  "blockKnown env known w ib = known w (re_BlockHash env (ib_Header ib))"

lemma rpcR_step: "m (r_world s) = (x, w') \<Longrightarrow> rpcR m s = (x, s\<lparr>r_world := w'\<rparr>)"
  by (simp add: rpcR_def zoomG_def)

lemma reporter_world_id [simp]: "s\<lparr>r_world := r_world s\<rparr> = s"
  by (cases s) simp

lemma findStartPoint_spec:
  assumes "bbn_accepts env known" and "reporter_retries env"
  shows "findStartPoint env i ibs s =
    (Ok (if \<forall>ib \<in> set ibs. blockKnown env known (r_world s) ib then - 1
         else i + int (length (takeWhile (blockKnown env known (r_world s)) ibs))), s)"
proof (induction ibs arbitrary: i)
  case Nil
  then show ?case by (simp add: retG_def)
next
  case (Cons ib ibs)
  have c: "re_ContainsBTCBlock env (re_BlockHash env (ib_Header ib)) (r_world s)
      = (Ok (blockKnown env known (r_world s) ib), r_world s)"
    using assms(1) by (simp add: bbn_accepts_def blockKnown_def)
  have "retrywrap_Do (re_retryContains env) None
      (re_ContainsBTCBlock env (re_BlockHash env (ib_Header ib))) (r_world s)
      = (Ok (Some (blockKnown env known (r_world s) ib)), r_world s)"
    using c assms(2) by (intro retrywrap_first_ok) (simp_all add: reporter_retries_def)
  then have "rpcR (retrywrap_Do (re_retryContains env) None
      (re_ContainsBTCBlock env (re_BlockHash env (ib_Header ib)))) s
      = (Ok (Some (blockKnown env known (r_world s) ib)), s)"
    by (simp add: rpcR_step)
  then show ?case using Cons by (simp add: retG_def)
qed

lemma drop_takeWhile: "drop (length (takeWhile P xs)) xs = dropWhile P xs"
  by (induction xs) auto

text \<open>The messages are the chunks of the blocks from the first unknown one on.\<close>

lemma getHeaderMsgs_spec:
  assumes "bbn_accepts env known" and "reporter_retries env" and "r_MaxHeadersInMsg s \<noteq> 0"
  obtains cs where "getHeaderMsgsToSubmit env signer ibs s = (Ok (map (NewMsgInsertHeaders signer) cs), s)"
    and "concat cs = dropWhile (blockKnown env known (r_world s)) ibs"
    and "\<And>c. c \<in> set cs \<Longrightarrow> c \<noteq> [] \<and> length c \<le> unat (r_MaxHeadersInMsg s)"
proof (cases "\<forall>ib \<in> set ibs. blockKnown env known (r_world s) ib")
  case True
  then have "getHeaderMsgsToSubmit env signer ibs s = (Ok [], s)"
    using findStartPoint_spec [OF assms(1,2), of 0 ibs s]
    by (simp add: getHeaderMsgsToSubmit_def retG_def)
  moreover have "[] = dropWhile (blockKnown env known (r_world s)) ibs"
    using True by (metis dropWhile_eq_Nil_conv)
  ultimately show thesis using that [of "[]"] by simp
next
  case False
  let ?rest = "dropWhile (blockKnown env known (r_world s)) ibs"
  have "?rest \<noteq> []" using False by (simp add: dropWhile_eq_Nil_conv)
  moreover have "0 < unat (r_MaxHeadersInMsg s)" using assms(3) by (simp add: unat_gt_0)
  ultimately obtain cs where cs: "chunkBy ?rest (unat (r_MaxHeadersInMsg s)) = Ok cs" "concat cs = ?rest"
    "\<And>c. c \<in> set cs \<Longrightarrow> c \<noteq> [] \<and> length c \<le> unat (r_MaxHeadersInMsg s)"
    by (metis chunkBy_nonempty)
  have "findStartPoint env 0 ibs s
      = (Ok (int (length (takeWhile (blockKnown env known (r_world s)) ibs))), s)"
    using findStartPoint_spec [OF assms(1,2), of 0 ibs s] False by simp
  then have "getHeaderMsgsToSubmit env signer ibs s = (Ok (map (NewMsgInsertHeaders signer) cs), s)"
    using cs(1) by (simp add: getHeaderMsgsToSubmit_def drop_takeWhile liftG_def retG_def getG_def)
  with cs that show thesis by blast
qed

lemma submitHeaderMsgs_accepted:
  assumes "bbn_accepts env known" and "reporter_retries env"
    and "ih_Headers msg \<noteq> []" and "chained (re_BlockHash env) (ih_Headers msg)"
    and "known (r_world s) (bh_PrevBlock (hd (ih_Headers msg)))"
  obtains w' where "submitHeaderMsgs env msg s = (Ok (), s\<lparr>r_world := w'\<rparr>)"
    and "\<And>h. known w' h \<longleftrightarrow> known (r_world s) h \<or> h \<in> re_BlockHash env ` set (ih_Headers msg)"
proof -
  obtain code w' where
    send: "re_SendHeaders env msg [ErrForkStartWithKnownHeader] [] (r_world s) = (Ok (Some code), w')"
    and k: "\<And>h. known w' h \<longleftrightarrow> known (r_world s) h \<or> h \<in> re_BlockHash env ` set (ih_Headers msg)"
    using assms(1,3,4,5) unfolding bbn_accepts_def by metis
  have "sendHeadersOnce env msg (r_world s) = (Ok (), w')"
    using send by (simp add: sendHeadersOnce_def bindG_def wrapG_def retG_def)
  then have "retrywrap_Do (re_retrySend env) (Some (r_maxRetryTimes s)) (sendHeadersOnce env msg) (r_world s)
      = (Ok (Some ()), w')"
    using assms(2) by (intro retrywrap_first_ok) (simp_all add: reporter_retries_def)
  then have "submitHeaderMsgs env msg s = (Ok (), s\<lparr>r_world := w'\<rparr>)"
    by (simp add: submitHeaderMsgs_def rpcR_step bindG_def tryG_def getG_def retG_def)
  with k that show thesis by blast
qed

lemma chained_append:
  "chained bh (xs @ ys) \<longleftrightarrow> chained bh xs \<and> chained bh ys \<and>
     (xs \<noteq> [] \<longrightarrow> ys \<noteq> [] \<longrightarrow> bh_PrevBlock (hd ys) = bh (last xs))"
  by (auto simp: chained_def successively_append_iff)

lemma processHeadersLoop_accepted:
  assumes "bbn_accepts env known" and "reporter_retries env"
  shows "\<lbrakk>length cs < fuel; \<And>c. c \<in> set cs \<Longrightarrow> c \<noteq> [];
      chained (re_BlockHash env) (map ib_Header (concat cs));
      concat cs \<noteq> [] \<Longrightarrow> known (r_world s) (bh_PrevBlock (ib_Header (hd (concat cs))))\<rbrakk>
    \<Longrightarrow> \<exists>w'. processHeadersLoop fuel env signer ibs (map (NewMsgInsertHeaders signer) cs) n s
          = (Ok (n + length (concat cs), None), s\<lparr>r_world := w'\<rparr>)
        \<and> (\<forall>h. known w' h \<longleftrightarrow> known (r_world s) h \<or> h \<in> (re_BlockHash env \<circ> ib_Header) ` set (concat cs))"
proof (induction cs arbitrary: fuel n s)
  case Nil
  then obtain f where "fuel = Suc f" by (cases fuel) auto
  then show ?case by (intro exI [of _ "r_world s"]) (simp add: retG_def)
next
  case (Cons c cs)
  then obtain f where f: "fuel = Suc f" "length cs < f" by (cases fuel) auto
  have c: "c \<noteq> []" using Cons.prems(2) by simp
  let ?bh = "re_BlockHash env" and ?m = "NewMsgInsertHeaders signer c"
  have hm: "ih_Headers ?m = map ib_Header c" by (simp add: NewMsgInsertHeaders_def)
  have ch: "chained ?bh (map ib_Header c)" "chained ?bh (map ib_Header (concat cs))"
    "concat cs \<noteq> [] \<Longrightarrow> bh_PrevBlock (ib_Header (hd (concat cs))) = ?bh (ib_Header (last c))"
    using Cons.prems(3) c by (auto simp: chained_append last_map hd_map)
  obtain w' where sub: "submitHeaderMsgs env ?m s = (Ok (), s\<lparr>r_world := w'\<rparr>)"
    and k: "\<And>h. known w' h \<longleftrightarrow> known (r_world s) h \<or> h \<in> ?bh ` set (map ib_Header c)"
    using submitHeaderMsgs_accepted [OF assms, of ?m s] c ch(1) Cons.prems(4) by (auto simp: hm hd_map)
  have "known w' (bh_PrevBlock (ib_Header (hd (concat cs))))" if "concat cs \<noteq> []"
    using ch(3) [OF that] c k by auto
  then obtain w'' where
    loop: "processHeadersLoop f env signer ibs (map (NewMsgInsertHeaders signer) cs)
        (n + length c) (s\<lparr>r_world := w'\<rparr>) = (Ok (n + length c + length (concat cs), None), s\<lparr>r_world := w''\<rparr>)"
    and k2: "\<forall>h. known w'' h \<longleftrightarrow> known w' h \<or> h \<in> (?bh \<circ> ib_Header) ` set (concat cs)"
    using Cons.IH [of f "s\<lparr>r_world := w'\<rparr>" "n + length c"] f(2) ch(2) Cons.prems(2) by auto
  have "processHeadersLoop fuel env signer ibs (map (NewMsgInsertHeaders signer) (c # cs)) n s
      = (Ok (n + length (concat (c # cs)), None), s\<lparr>r_world := w''\<rparr>)"
    using sub loop by (simp add: f(1) hm add.assoc)
  moreover have "\<forall>h. known w'' h \<longleftrightarrow> known (r_world s) h \<or> h \<in> (?bh \<circ> ib_Header) ` set (concat (c # cs))"
    using k k2 by (auto simp: image_image)
  ultimately show ?case by blast
qed

lemma dropWhile_parent:
  assumes "chained bh (map ib_Header ibs)" and "dropWhile P ibs = x # xs"
    and "P = (\<lambda>ib. K (bh (ib_Header ib)))" and "K (bh_PrevBlock (ib_Header (hd ibs)))"
  shows "K (bh_PrevBlock (ib_Header x))"
proof -
  let ?pre = "takeWhile P ibs"
  have split: "ibs = ?pre @ x # xs" using assms(2) takeWhile_dropWhile_id by metis
  then have ch: "chained bh (map ib_Header ?pre @ map ib_Header (x # xs))"
    using assms(1) by (metis map_append)
  show ?thesis
  proof (cases "?pre = []")
    case True
    then show ?thesis using split assms(4) by simp
  next
    case False
    then have "bh_PrevBlock (ib_Header x) = bh (ib_Header (last ?pre))"
      using ch by (simp add: chained_append last_map)
    moreover have "P (last ?pre)" using False by (metis last_in_set set_takeWhileD)
    ultimately show ?thesis using assms(3) by simp
  qed
qed

subsection \<open>Properties of header submission\<close>

text \<open>
  \<open>chunkBy\<close> with a positive chunk size terminates and partitions its input: the chunks in
  order are the items, every chunk but the last has exactly the chunk size and the last at
  most that. With chunk size 0 and a non-empty input it never returns.
\<close>

theorem chunkBy_partition:
  "(0 < n \<longrightarrow> (\<exists>cs. chunkBy items n = Ok cs \<and> concat cs = items
      \<and> (\<forall>c \<in> set (butlast cs). length c = n) \<and> length (last cs) \<le> n))
   \<and> (items \<noteq> [] \<longrightarrow> chunkBy items 0 = NoFuel)"
proof (intro conjI impI)
  assume "0 < n"
  from chunkByLoop_spec [OF this, of items "[]"]
  show "\<exists>cs. chunkBy items n = Ok cs \<and> concat cs = items
      \<and> (\<forall>c \<in> set (butlast cs). length c = n) \<and> length (last cs) \<le> n"
    by (auto simp: chunkBy_def)
next
  assume "items \<noteq> []"
  then show "chunkBy items 0 = NoFuel" by (simp add: chunkBy_def chunkByLoop.simps [of 0 items])
qed

theorem chunkBy_partition_witness:
  "(\<exists>cs. chunkBy [1, 2, 3 :: nat] 2 = Ok cs \<and> concat cs = [1, 2, 3]) \<and> chunkBy [1 :: nat] 0 = NoFuel"
  using chunkBy_partition [of 2 "[1, 2, 3 :: nat]"] chunkBy_partition [of 0 "[1 :: nat]"] by auto

lemma ProcessHeaders_complete:
  assumes "bbn_accepts env known" and "reporter_retries env" and "r_MaxHeadersInMsg s \<noteq> 0"
    and "chained (re_BlockHash env) (map ib_Header ibs)"
    and "ibs \<noteq> [] \<Longrightarrow> known (r_world s) (bh_PrevBlock (ib_Header (hd ibs)))"
    and "length ibs < fuel"
  shows "\<exists>w'. ProcessHeaders fuel env signer ibs s
      = (Ok (length (dropWhile (blockKnown env known (r_world s)) ibs), None), s\<lparr>r_world := w'\<rparr>)
    \<and> (\<forall>ib \<in> set ibs. blockKnown env known w' ib)
    \<and> (\<forall>h. known (r_world s) h \<longrightarrow> known w' h)"
proof -
  let ?K = "blockKnown env known (r_world s)" and ?bh = "re_BlockHash env"
  obtain cs where g: "getHeaderMsgsToSubmit env signer ibs s = (Ok (map (NewMsgInsertHeaders signer) cs), s)"
    and cs: "concat cs = dropWhile ?K ibs" "\<And>c. c \<in> set cs \<Longrightarrow> c \<noteq> [] \<and> length c \<le> unat (r_MaxHeadersInMsg s)"
    using getHeaderMsgs_spec [OF assms(1-3), of signer ibs] by metis
  show ?thesis
  proof (cases "cs = []")
    case True
    then have all: "\<forall>ib \<in> set ibs. ?K ib" using cs(1) by (simp add: dropWhile_eq_Nil_conv [symmetric])
    have "ProcessHeaders fuel env signer ibs s = (Ok (0, None), s)"
      using g True by (simp add: ProcessHeaders_def retG_def)
    with all cs(1) True show ?thesis by (intro exI [of _ "r_world s"]) simp
  next
    case False
    have "length cs \<le> length (concat cs)" using cs(2) length_concat_chunks by metis
    also have "\<dots> \<le> length ibs" using cs(1) by (simp add: length_dropWhile_le)
    finally have fuel: "length cs < fuel" using assms(6) by simp
    have split: "ibs = takeWhile ?K ibs @ concat cs" by (simp add: cs(1))
    have ch: "chained ?bh (map ib_Header (concat cs))"
      using assms(4) split by (metis chained_append map_append)
    have par: "known (r_world s) (bh_PrevBlock (ib_Header (hd (concat cs))))" if "concat cs \<noteq> []"
    proof -
      from that obtain x xs where "dropWhile ?K ibs = x # xs" using cs(1) by (cases "dropWhile ?K ibs") auto
      moreover from this have "ibs \<noteq> []" by auto
      moreover have "?K = (\<lambda>ib. known (r_world s) (?bh (ib_Header ib)))"
        by (simp add: fun_eq_iff blockKnown_def)
      ultimately show ?thesis
        using dropWhile_parent [OF assms(4), of ?K x xs "known (r_world s)"] assms(5) cs(1) by simp
    qed
    obtain w' where "processHeadersLoop fuel env signer ibs (map (NewMsgInsertHeaders signer) cs) 0 s
          = (Ok (0 + length (concat cs), None), s\<lparr>r_world := w'\<rparr>)"
      and k: "\<forall>h. known w' h \<longleftrightarrow> known (r_world s) h \<or> h \<in> (?bh \<circ> ib_Header) ` set (concat cs)"
      using processHeadersLoop_accepted [OF assms(1,2) fuel _ ch par] cs(2) by metis
    then have "ProcessHeaders fuel env signer ibs s
        = (Ok (length (dropWhile ?K ibs), None), s\<lparr>r_world := w'\<rparr>)"
      using g False cs(1) by (simp add: ProcessHeaders_def)
    moreover have "blockKnown env known w' ib" if "ib \<in> set ibs" for ib
    proof -
      from that split have "ib \<in> set (takeWhile ?K ibs) \<or> ib \<in> set (concat cs)" by (metis Un_iff set_append)
      then show ?thesis using k set_takeWhileD by (fastforce simp: blockKnown_def)
    qed
    ultimately show ?thesis using k by blast
  qed
qed


text \<open>
  After Babylon rejects a message because it already knows its first header, the blocks
  at or below Babylon's tip are dropped and exactly those above it remain, and a retry is
  asked for exactly when there are some.
\<close>

theorem FilterAlreadyProcessed_exact:
  assumes "sorted (map ib_Height ibs)"
  shows "FilterAlreadyProcessedBlocks ibs height =
    (filter (\<lambda>ib. ib_Height ib > height) ibs, \<exists>ib \<in> set ibs. ib_Height ib > height)"
proof (cases "\<exists>ib \<in> set ibs. ib_Height ib > height")
  case False
  then have "ibs = [] \<or> height \<ge> ib_Height (ibs ! (length ibs - 1))"
    by (metis diff_less length_greater_0_conv not_le nth_mem zero_less_one)
  with False show ?thesis by (auto simp: FilterAlreadyProcessedBlocks_def filter_empty_conv)
next
  case True
  then obtain ib where ib: "ib \<in> set ibs" "ib_Height ib > height" by blast
  then have "ib_Height ib \<le> ib_Height (last ibs)" using assms by (simp add: sorted_key_last)
  with ib have last: "height < ib_Height (ibs ! (length ibs - 1))"
    by (metis empty_iff last_conv_nth less_le_trans list.set(1))
  have "firstAbove height ibs = Some (filter (\<lambda>ib. ib_Height ib > height) ibs)"
    using assms True
  proof (induction ibs)
    case (Cons b bs)
    show ?case
    proof (cases "ib_Height b > height")
      case True
      then have "\<forall>x \<in> set bs. height < ib_Height x" using Cons.prems(1) by (auto intro: less_le_trans)
      with True show ?thesis by (simp add: filter_id_conv [THEN iffD2])
    next
      case False
      with Cons show ?thesis by simp
    qed
  qed simp
  with last ib True show ?thesis by (auto simp: FilterAlreadyProcessedBlocks_def)
qed

subsection \<open>Draining the checkpoint cache\<close>

text \<open>The message built for a checkpoint, and a Babylon that records what it is sent.\<close>

definition ckptMsg ::
  "('w, 'spv) reporterEnv \<Rightarrow> string \<Rightarrow> ckpt \<Rightarrow> 'spv msgInsertBTCSpvProof outcome" where
  "ckptMsg env signer ck =
     (case MustGenSPVProofs (re_fmt env) (GenSPVProof (re_Serialize env) (re_SpvProof env)) ck of
        Ok proofs \<Rightarrow> MustNewMsgInsertBTCSpvProof (re_fmt env) signer proofs
      | Err e \<Rightarrow> Err e | Panic p \<Rightarrow> Panic p | NoFuel \<Rightarrow> NoFuel)"

definition records_sent ::
  "('w, 'spv) reporterEnv \<Rightarrow> ('w \<Rightarrow> 'spv msgInsertBTCSpvProof list) \<Rightarrow> bool" where
  "records_sent env sent \<longleftrightarrow> (\<forall>msg ex ab w. \<exists>r w'. re_SendSpvProof env msg ex ab w = (r, w')
     \<and> sent w' = sent w @ [msg] \<and> (\<forall>p. r \<noteq> Panic p) \<and> r \<noteq> NoFuel)"

lemma submitCkpt_spec:
  assumes "records_sent env sent" and "ckptMsg env signer ck = Ok m"
  obtains w' where "submitCkpt env signer ck s = (Ok (), s\<lparr>r_world := w'\<rparr>)"
    and "sent w' = sent (r_world s) @ [m]"
proof -
  obtain proofs where
    p: "MustGenSPVProofs (re_fmt env) (GenSPVProof (re_Serialize env) (re_SpvProof env)) ck = Ok proofs"
      "MustNewMsgInsertBTCSpvProof (re_fmt env) signer proofs = Ok m"
    using assms(2) by (auto simp: ckptMsg_def split: outcome.splits)
  obtain r w' where send: "re_SendSpvProof env m [ErrDuplicatedSubmission, ErrEpochAlreadyFinalized] [] (r_world s) = (r, w')"
    "sent w' = sent (r_world s) @ [m]" "\<And>p. r \<noteq> Panic p" "r \<noteq> NoFuel"
    using assms(1) unfolding records_sent_def by metis
  then have "submitCkpt env signer ck s = (Ok (), s\<lparr>r_world := w'\<rparr>)"
    using p by (cases r) (auto simp: submitCkpt_def liftG_def retG_def rpcR_step bindG_def tryG_def)
  with send(2) that show thesis by blast
qed

lemma submitCkptsLoop_spec:
  assumes "records_sent env sent"
  shows "\<lbrakk>length (cc_Checkpoints (r_checkpointCache s)) < fuel;
      \<And>ck. ck \<in> set (cc_Checkpoints (r_checkpointCache s)) \<Longrightarrow> \<exists>m. ckptMsg env signer ck = Ok m\<rbrakk>
    \<Longrightarrow> \<exists>s' ms. submitCkptsLoop fuel env signer s = (Ok (), s')
      \<and> sent (r_world s') = sent (r_world s) @ ms
      \<and> map (ckptMsg env signer) (cc_Checkpoints (r_checkpointCache s)) = map Ok ms
      \<and> r_checkpointCache s' = (r_checkpointCache s)\<lparr>cc_Checkpoints := []\<rparr>"
proof (induction fuel arbitrary: s)
  case (Suc fuel)
  let ?cc = "r_checkpointCache s"
  show ?case
  proof (cases "cc_Checkpoints ?cc")
    case Nil
    then show ?thesis
      by (intro exI [of _ s] exI [of _ "[]"])
        (simp add: CheckpointCache_PopEarliestCheckpoint_def ckptCacheG_def modG_def bindG_def getG_def retG_def)
  next
    case (Cons ck cks)
    let ?s1 = "s\<lparr>r_checkpointCache := ?cc\<lparr>cc_Checkpoints := cks\<rparr>\<rparr>"
    obtain m where m: "ckptMsg env signer ck = Ok m" using Suc.prems(2) Cons by auto
    obtain w' where sub: "submitCkpt env signer ck ?s1 = (Ok (), ?s1\<lparr>r_world := w'\<rparr>)"
      and w': "sent w' = sent (r_world s) @ [m]"
      using submitCkpt_spec [OF assms m, of ?s1] by auto
    let ?s2 = "?s1\<lparr>r_world := w'\<rparr>"
    obtain s' ms where "submitCkptsLoop fuel env signer ?s2 = (Ok (), s')"
      "sent (r_world s') = sent w' @ ms" "map (ckptMsg env signer) cks = map Ok ms"
      "r_checkpointCache s' = ?cc\<lparr>cc_Checkpoints := []\<rparr>"
      using Suc.IH [of ?s2] Suc.prems Cons by auto
    then show ?thesis using sub w' m Cons
      by (intro exI [of _ s'] exI [of _ "m # ms"])
        (simp add: CheckpointCache_PopEarliestCheckpoint_def ckptCacheG_def modG_def bindG_def getG_def)
  qed
qed simp

text \<open>Every matched checkpoint is sent, one message each, and the list of checkpoints is drained.\<close>

lemma matchAndSubmit_sends:
  assumes "records_sent env sent"
    and "cc = CheckpointCache_Match (re_fmt env) (re_sortSlice env) (re_range0 env (r_checkpointCache s))
           (re_range1 env (r_checkpointCache s)) (r_checkpointCache s)"
    and "\<And>ck. ck \<in> set (cc_Checkpoints cc) \<Longrightarrow> \<exists>m. ckptMsg env signer ck = Ok m"
  shows "\<exists>s' ms. matchAndSubmitCheckpoints env signer s = (Ok (length ms), s')
    \<and> sent (r_world s') = sent (r_world s) @ ms
    \<and> map (ckptMsg env signer) (cc_Checkpoints cc) = map Ok ms
    \<and> r_checkpointCache s' = cc\<lparr>cc_Checkpoints := []\<rparr>"
proof -
  let ?s1 = "s\<lparr>r_checkpointCache := cc\<rparr>"
  have run: "matchAndSubmitCheckpoints env signer s =
      (if length (cc_Checkpoints cc) = 0 then (Ok 0, ?s1)
       else bindG (submitCkptsLoop (Suc (length (cc_Checkpoints cc))) env signer)
              (\<lambda>_. retG (length (cc_Checkpoints cc))) ?s1)"
    by (simp add: matchAndSubmitCheckpoints_def ckptCacheG_def modG_def bindG_def getG_def retG_def
        CheckpointCache_NumCheckpoints_def assms(2))
  obtain s' ms where loop: "submitCkptsLoop (Suc (length (cc_Checkpoints cc))) env signer ?s1 = (Ok (), s')"
    "sent (r_world s') = sent (r_world s) @ ms" "map (ckptMsg env signer) (cc_Checkpoints cc) = map Ok ms"
    "r_checkpointCache s' = cc\<lparr>cc_Checkpoints := []\<rparr>"
    using submitCkptsLoop_spec [OF assms(1), of ?s1 "Suc (length (cc_Checkpoints cc))" signer] assms(3)
    by auto
  have "length ms = length (cc_Checkpoints cc)" using loop(3) by (metis length_map)
  then show ?thesis
  proof (cases "cc_Checkpoints cc = []")
    case True
    then show ?thesis using run by (intro exI [of _ ?s1] exI [of _ "[]"]) auto
  next
    case False
    then show ?thesis using run loop \<open>length ms = _\<close>
      by (intro exI [of _ s'] exI [of _ ms]) (simp add: retG_def)
  qed
qed

text \<open>
  C5. Matched checkpoints are submitted in order and completely: when proofs can be built for
  the matched checkpoints, \<open>matchAndSubmitCheckpoints\<close> returns, sends exactly one message per
  matched checkpoint in the order of their epochs whatever Babylon answers, and leaves no
  checkpoint in the cache.
\<close>

theorem matchAndSubmit_in_order:
  assumes "sorts_by ck_Epoch (re_sortSlice env)" and "records_sent env sent"
    and "cc = CheckpointCache_Match (re_fmt env) (re_sortSlice env) (re_range0 env (r_checkpointCache s))
           (re_range1 env (r_checkpointCache s)) (r_checkpointCache s)"
    and "\<And>ck. ck \<in> set (cc_Checkpoints cc) \<Longrightarrow> \<exists>m. ckptMsg env signer ck = Ok m"
  shows "\<exists>s' ms. matchAndSubmitCheckpoints env signer s = (Ok (length ms), s')
    \<and> sent (r_world s') = sent (r_world s) @ ms
    \<and> map (ckptMsg env signer) (cc_Checkpoints cc) = map Ok ms
    \<and> sorted (map ck_Epoch (cc_Checkpoints cc))
    \<and> r_checkpointCache s' = cc\<lparr>cc_Checkpoints := []\<rparr>"
proof -
  have "sorted (map ck_Epoch (cc_Checkpoints cc))"
    using assms(1) by (simp add: assms(3) CheckpointCache_Match_def sorts_by_def)
  with matchAndSubmit_sends [OF assms(2-4)] show ?thesis by blast
qed

subsection \<open>Concrete instances\<close>

text \<open>A Babylon with a list of known hashes and a record of the messages it received.\<close>

type_synonym sampleWorld = "hash list \<times> nat msgInsertBTCSpvProof list"

definition sampleEnv :: "(sampleWorld, nat) reporterEnv" where
  "sampleEnv = \<lparr>re_fmt = sampleFormatter, re_sortSlice = sort_key ck_Epoch,
     re_range0 = (\<lambda>_. [4, 9]), re_range1 = (\<lambda>_ _. [4, 7]),
     re_BlockHash = sampleHash, re_Serialize = (\<lambda>_. Inr []), re_SpvProof = (\<lambda>_ _ i. Inr i),
     re_ParseHash = (\<lambda>_. Inr 0), re_Now = retG 7,
     re_btcClient = sampleRpc 3,
     re_MustGetAddr = retG ''bbn1'', re_ContainsBTCBlock = (\<lambda>h. getG (\<lambda>w. h \<in> set (fst w))),
     re_BTCHeaderChainTip = retG \<lparr>ct_Height = 1, ct_HashHex = []\<rparr>, re_BTCBaseHeader = retG 0,
     re_SendHeaders = (\<lambda>msg _ _ w. (Ok (Some 0), (map sampleHash (ih_Headers msg) @ fst w, snd w))),
     re_SendSpvProof = (\<lambda>msg _ _ w. (Ok (Some 0), (fst w, snd w @ [msg]))),
     re_retryContains = retryOnce, re_retrySend = retryOnce\<rparr>"

definition sampleReporter :: "sampleWorld reporter" where
  "sampleReporter = \<lparr>r_MaxHeadersInMsg = 2, r_BTCCacheSize = 10, r_maxRetryTimes = 3,
     r_checkpointCache = sampleCkptCache, r_btcCache = None, r_btcConfirmationDepth = 1,
     r_checkpointFinalizationTimeout = 1, r_started = False, r_quit = False,
     r_bootstrapInProgress = False, r_bootstrapWg = 0, r_async = [], r_world = ([0, 1], [])\<rparr>"

definition sampleKnown :: "sampleWorld \<Rightarrow> hash \<Rightarrow> bool" where
  "sampleKnown w h = (h \<in> set (fst w))"

lemma sampleEnv_accepts: "bbn_accepts sampleEnv sampleKnown"
  by (auto simp: bbn_accepts_def sampleEnv_def sampleKnown_def getG_def)

lemma sampleEnv_retries: "reporter_retries sampleEnv"
  by (simp add: reporter_retries_def sampleEnv_def retryOnce_contract)

lemma sampleEnv_records: "records_sent sampleEnv snd"
  by (simp add: records_sent_def sampleEnv_def)


theorem FilterAlreadyProcessed_exact_witness:
  "FilterAlreadyProcessedBlocks (map sampleBlock [5, 6, 7]) 5 = (map sampleBlock [6, 7], True)
   \<and> FilterAlreadyProcessedBlocks (map sampleBlock [5, 6, 7]) 7 = ([], False)"
  using FilterAlreadyProcessed_exact [of "map sampleBlock [5, 6, 7]" 5]
    FilterAlreadyProcessed_exact [of "map sampleBlock [5, 6, 7]" 7] by simp

theorem matchAndSubmit_in_order_witness:
  "\<exists>s' n. matchAndSubmitCheckpoints sampleEnv ''bbn1'' sampleReporter = (Ok n, s')
     \<and> cc_Checkpoints (r_checkpointCache s') = []"
proof -
  let ?cc = "CheckpointCache_Match (re_fmt sampleEnv) (re_sortSlice sampleEnv)
      (re_range0 sampleEnv (r_checkpointCache sampleReporter))
      (re_range1 sampleEnv (r_checkpointCache sampleReporter)) (r_checkpointCache sampleReporter)"
  have cks: "cc_Checkpoints ?cc = [NewCkpt (sampleSegment 0 4) (sampleSegment 1 4) 4]"
    by (simp add: sampleEnv_def sampleReporter_def sample_ckpt_defs segMap_def CheckpointCache_Match_def
        joinSegments_def CheckpointCache_sortCheckpoints_def delSegment_def CheckpointCache_AddCheckpoint_def)
  have "ckptMsg sampleEnv ''bbn1'' (NewCkpt (sampleSegment 0 4) (sampleSegment 1 4) 4)
      = Ok \<lparr>sp_Submitter = ''bbn1'', sp_Proofs = [0, 0]\<rparr>"
    by (simp add: ckptMsg_def MustGenSPVProofs_def MustNewMsgInsertBTCSpvProof_def NewCkpt_def GenSPVProof_def
        sumOutcome_def sampleEnv_def sampleFormatter_def sampleSegment_def)
  with cks have ok: "\<exists>m. ckptMsg sampleEnv ''bbn1'' ck = Ok m" if "ck \<in> set (cc_Checkpoints ?cc)" for ck
    using that by simp
  have srt: "sorts_by ck_Epoch (re_sortSlice sampleEnv)"
    by (simp add: sampleEnv_def sorts_by_sort_key)
  have "\<exists>s' ms. matchAndSubmitCheckpoints sampleEnv ''bbn1'' sampleReporter = (Ok (length ms), s')
    \<and> snd (r_world s') = snd (r_world sampleReporter) @ ms
    \<and> map (ckptMsg sampleEnv ''bbn1'') (cc_Checkpoints ?cc) = map Ok ms
    \<and> sorted (map ck_Epoch (cc_Checkpoints ?cc)) \<and> r_checkpointCache s' = ?cc\<lparr>cc_Checkpoints := []\<rparr>"
    by (rule matchAndSubmit_in_order [OF srt sampleEnv_records refl]) (rule ok)
  then obtain s' n where "matchAndSubmitCheckpoints sampleEnv ''bbn1'' sampleReporter = (Ok n, s')"
    "r_checkpointCache s' = ?cc\<lparr>cc_Checkpoints := []\<rparr>" by blast
  then show ?thesis by (intro exI [of _ s'] exI [of _ n]) simp
qed

end
