(* ===== verification/Reporter.thy ===== *)
theory Reporter
  imports Reporter_Submit
begin

text \<open>
  The reporter's lifecycle: bootstrapping (\<open>reporter/bootstrapping.go\<close>), following the chain
  block by block (\<open>reporter/block_handler.go\<close>), construction, start and stop
  (\<open>reporter/reporter.go\<close>).

  \<open>bootstrap\<close> ends by starting a goroutine that processes checkpoints and clears the
  in-progress flag; the pending goroutines are the list \<open>r_async\<close> of the state, and
  \<open>asyncCheckpoints\<close> runs one. Waiting for the wait group runs the pending goroutines, and is
  \<open>NoFuel\<close> (blocked forever) when the counter is positive with nothing left to run.

  Shown here: a failing or panicking bootstrap always releases its flag and its wait group
  token, and the wait before a bootstrap never blocks forever; against a node that serves
  one chain and a Babylon that accepts connected headers, a bootstrap leaves Babylon with
  every header up to the tip and the cache with the last \<open>k + w\<close> blocks; following the chain
  keeps the cache linked, and a block that does not connect empties it.
\<close>

subsection \<open>Bootstrapping\<close>

definition withCache :: "(btcCache \<Rightarrow> ('w reporter, 'a) prog) \<Rightarrow> ('w reporter, 'a) prog" where
  "withCache f = bindG (getG r_btcCache) (\<lambda>oc. case oc of
     None \<Rightarrow> panicG ''nil pointer dereference'' | Some c \<Rightarrow> f c)"

definition setCache :: "btcCache \<Rightarrow> ('w reporter, unit) prog" where
  "setCache c = modG (\<lambda>r. r\<lparr>r_btcCache := Some c\<rparr>)"

definition checkHeaderConsistency :: "('w, 'spv) reporterEnv \<Rightarrow> u32 \<Rightarrow> ('w reporter, unit) prog" where
  "checkHeaderConsistency env height =
     withCache (\<lambda>c. bindG (liftG (BTCCache_FindBlock height c)) (\<lambda>ob. case ob of
       None \<Rightarrow> panicG ''cannot find the block for initial consistency check''
     | Some ib \<Rightarrow>
         bindG (rpcR (re_ContainsBTCBlock env (re_BlockHash env (ib_Header ib)))) (\<lambda>contains.
           if \<not> contains then panicG ''BTC main chain is inconsistent with BBN header chain''
           else retG ())))"

text \<open>The heights below are computed in 32 bits, so a sum may wrap around.\<close>

definition consistencyCheckHeight :: "u32 \<Rightarrow> u32 \<Rightarrow> u32 \<Rightarrow> u32" where
  "consistencyCheckHeight tip base k = (if tip \<ge> base + k then tip - k else base)"

definition cacheBaseHeight :: "u32 \<Rightarrow> u32 \<Rightarrow> u32 \<Rightarrow> u32 \<Rightarrow> u32" where
  "cacheBaseHeight bbnLatest bbnBase k w =
     (if bbnLatest > bbnBase + k + w then bbnLatest - k - w + 1 else bbnBase)"

record consistencyCheckInfo =
  ci_bbnLatestBlockHeight :: u32
  ci_startSyncHeight :: u32

definition checkConsistency :: "('w, 'spv) reporterEnv \<Rightarrow> ('w reporter, consistencyCheckInfo) prog" where
  "checkConsistency env =
     bindG (rpcR (re_BTCHeaderChainTip env)) (\<lambda>tipRes.
     bindG (rpcR (re_BTCBaseHeader env)) (\<lambda>base.
     bindG (getG r_btcConfirmationDepth) (\<lambda>k.
       (let height = consistencyCheckHeight (ct_Height tipRes) base k in
        bindG (checkHeaderConsistency env height) (\<lambda>_.
          retG \<lparr>ci_bbnLatestBlockHeight = ct_Height tipRes,
                ci_startSyncHeight = height + 1\<rparr>)))))"

definition initBTCCache :: "('w, 'spv) reporterEnv \<Rightarrow> ('w reporter, unit) prog" where
  "initBTCCache env =
     bindG (getG r_BTCCacheSize) (\<lambda>sz. case NewBTCCache sz of
       Inl _ \<Rightarrow> panicG ''invalid max entries''
     | Inr newCache \<Rightarrow>
         bindG (setCache newCache) (\<lambda>_.
         bindG (rpcR (re_BTCHeaderChainTip env)) (\<lambda>tipRes.
         bindG (rpcR (re_BTCBaseHeader env)) (\<lambda>bbnBaseHeight.
         bindG (getG r_btcConfirmationDepth) (\<lambda>k.
         bindG (getG r_checkpointFinalizationTimeout) (\<lambda>w.
           (let baseHeight = cacheBaseHeight (ct_Height tipRes) bbnBaseHeight k w in
            bindG (mustG ''failed to find tail blocks''
                     (rpcR (FindTailBlocksByHeight (re_btcClient env) baseHeight))) (\<lambda>ibs.
            bindG (mustG ''failed to initialise cache''
                     (withCache (\<lambda>c. liftG (BTCCache_Init ibs c)))) (\<lambda>c'.
              setCache c')))))))))"

text \<open>The polling loop of \<open>waitUntilBTCSync\<close>, one round per tick.\<close>

fun syncLoop :: "nat \<Rightarrow> ('w, 'spv) reporterEnv \<Rightarrow> ('w reporter, unit) prog" where
  "syncLoop 0 env = noFuelG"
| "syncLoop (Suc fuel) env =
     bindG (rpcR (GetBestBlock (re_btcClient env))) (\<lambda>btcLatestBlockHeight.
     bindG (rpcR (re_BTCHeaderChainTip env)) (\<lambda>tipRes.
       if btcLatestBlockHeight > 0 \<and> btcLatestBlockHeight \<ge> ct_Height tipRes then retG ()
       else syncLoop fuel env))"

definition waitUntilBTCSync :: "nat \<Rightarrow> ('w, 'spv) reporterEnv \<Rightarrow> ('w reporter, unit) prog" where
  "waitUntilBTCSync fuel env =
     bindG (rpcR (GetBestBlock (re_btcClient env))) (\<lambda>btcLatestBlockHeight.
     bindG (rpcR (re_BTCHeaderChainTip env)) (\<lambda>tipRes.
     bindG (liftG (sumOutcome (re_ParseHash env (ct_HashHex tipRes)))) (\<lambda>_.
       if btcLatestBlockHeight = 0 \<or> btcLatestBlockHeight < ct_Height tipRes
       then syncLoop fuel env
       else retG ())))"

definition releaseBootstrap :: "'w reporter \<Rightarrow> 'w reporter" where
  "releaseBootstrap r = r\<lparr>r_bootstrapInProgress := False, r_bootstrapWg := r_bootstrapWg r - 1\<rparr>"

text \<open>\<open>bootstrap\<close> after it has taken the flag, up to the start of the goroutine.\<close>

definition bootstrapBody :: "nat \<Rightarrow> ('w, 'spv) reporterEnv \<Rightarrow> ('w reporter, unit) prog" where
  "bootstrapBody fuel env =
     bindG (waitUntilBTCSync fuel env) (\<lambda>_.
     bindG (initBTCCache env) (\<lambda>_.
     bindG (checkConsistency env) (\<lambda>info.
     bindG (mustG ''stop height out of range''
              (withCache (\<lambda>c. liftG (BTCCache_GetLastBlocks (ci_startSyncHeight info) c)))) (\<lambda>ibs.
     bindG (rpcR (re_MustGetAddr env)) (\<lambda>signer.
     bindG (ProcessHeaders fuel env signer ibs) (\<lambda>(_, err). case err of
       Some e \<Rightarrow> failG e
     | None \<Rightarrow>
         bindG (getG r_btcConfirmationDepth) (\<lambda>k.
         bindG (getG r_checkpointFinalizationTimeout) (\<lambda>w.
         withCache (\<lambda>c. case BTCCache_Resize (k + w) c of
           Inl _ \<Rightarrow> panicG ''failed to resize BTC cache''
         | Inr c' \<Rightarrow>
             bindG (setCache (BTCCache_Trim c')) (\<lambda>_.
             withCache (\<lambda>c''. modG (\<lambda>r. r\<lparr>r_async := r_async r @ [(signer, BTCCache_GetAllBlocks c'')]\<rparr>))))))))))))"

definition bootstrap :: "nat \<Rightarrow> ('w, 'spv) reporterEnv \<Rightarrow> ('w reporter, unit) prog" where
  "bootstrap fuel env =
     bindG (getG r_bootstrapInProgress) (\<lambda>inProgress.
       if inProgress then failG (errorf ''bootstrap already in progress'')
       else
         bindG (modG (\<lambda>r. r\<lparr>r_bootstrapInProgress := True, r_bootstrapWg := r_bootstrapWg r + 1\<rparr>)) (\<lambda>_.
           onFailG releaseBootstrap (bootstrapBody fuel env)))"

text \<open>The goroutine started by \<open>bootstrap\<close>: its deferred function always runs.\<close>

definition finallyG :: "('s \<Rightarrow> 's) \<Rightarrow> ('s, 'a) prog \<Rightarrow> ('s, 'a) prog" where
  "finallyG f m s = (let (r, s') = m s in (r, f s'))"

definition asyncCheckpoints :: "('w, 'spv) reporterEnv \<Rightarrow> ('w reporter, unit) prog" where
  "asyncCheckpoints env =
     bindG (getG r_async) (\<lambda>jobs. case jobs of
       [] \<Rightarrow> retG ()
     | (signer, ibs) # rest \<Rightarrow>
         bindG (modG (\<lambda>r. r\<lparr>r_async := rest\<rparr>)) (\<lambda>_.
         finallyG releaseBootstrap (bindG (ProcessCheckpoints env signer ibs) (\<lambda>_. retG ()))))"

text \<open>\<open>r.bootstrapWg.Wait()\<close>.\<close>

fun waitLoop :: "nat \<Rightarrow> ('w, 'spv) reporterEnv \<Rightarrow> ('w reporter, unit) prog" where
  "waitLoop 0 env = noFuelG"
| "waitLoop (Suc n) env =
     bindG (getG r_bootstrapWg) (\<lambda>counter.
       if counter = 0 then retG ()
       else bindG (getG r_async) (\<lambda>jobs.
         if jobs = [] then noFuelG
         else bindG (asyncCheckpoints env) (\<lambda>_. waitLoop n env)))"

definition bootstrapWgWait :: "('w, 'spv) reporterEnv \<Rightarrow> ('w reporter, unit) prog" where
  "bootstrapWgWait env = bindG (getG (length \<circ> r_async)) (\<lambda>n. waitLoop (Suc n) env)"

definition bootstrapWithRetries ::
  "('w reporter, unit) retryDo \<Rightarrow> nat \<Rightarrow> ('w, 'spv) reporterEnv \<Rightarrow> ('w reporter, unit) prog" where
  "bootstrapWithRetries rd fuel env =
     bindG (tryG (rd (Some 60) (\<lambda>_. True)
              (bindG (bootstrapWgWait env) (\<lambda>_. bootstrap fuel env)))) (\<lambda>r. case r of
       Inr _ \<Rightarrow> retG ()
     | Inl err \<Rightarrow> if errors_is err ErrContextCanceled then retG ()
                 else panicG ''failed to bootstrap reporter'')"

subsection \<open>New blocks\<close>

definition processNewBlock :: "nat \<Rightarrow> ('w, 'spv) reporterEnv \<Rightarrow> indexedBlock \<Rightarrow> ('w reporter, unit) prog" where
  "processNewBlock fuel env ib =
     bindG (rpcR (re_MustGetAddr env)) (\<lambda>signer.
     bindG (ProcessHeaders fuel env signer [ib]) (\<lambda>(_, err). case err of
       Some e \<Rightarrow> failG (wrapf ''failed to submit headers: '' e)
     | None \<Rightarrow> bindG (ProcessCheckpoints env signer [ib]) (\<lambda>_. retG ())))"

definition handleNewBlock ::
  "nat \<Rightarrow> ('w, 'spv) reporterEnv \<Rightarrow> u32 \<Rightarrow> blockHeader \<Rightarrow> ('w reporter, unit) prog" where
  "handleNewBlock fuel env height header =
     withCache (\<lambda>c. case BTCCache_Tip c of
       None \<Rightarrow> failG (errorf ''cache is empty, restart bootstrap process'')
     | Some cacheTip \<Rightarrow>
         if ib_Height cacheTip \<ge> height then retG ()
         else if ib_Height cacheTip + 1 < height then failG (errorf ''missing blocks'')
         else if bh_PrevBlock header \<noteq> re_BlockHash env (ib_Header cacheTip)
         then bindG (setCache (BTCCache_RemoveAll c)) (\<lambda>_.
                failG (errorf ''block does not connect to the cache, diff hash, bootstrap required''))
         else
           bindG (wrapG ''failed to get block: ''
                    (rpcR (GetBlockByHash (re_btcClient env) (re_BlockHash env header)))) (\<lambda>(ib, _).
           bindG (liftG (BTCCache_add ib c)) (\<lambda>c'.
           bindG (setCache c') (\<lambda>_.
             processNewBlock fuel env ib))))"

text \<open>One round of \<open>blockEventHandler\<close>, for a block from the notifier.\<close>

definition blockEvent ::
  "('w reporter, unit) retryDo \<Rightarrow> nat \<Rightarrow> ('w, 'spv) reporterEnv \<Rightarrow> int \<Rightarrow> blockHeader
    \<Rightarrow> ('w reporter, unit) prog" where
  "blockEvent rd fuel env height header =
     (if height < 0 then panicG ''received negative epoch height''
      else
        bindG (tryG (handleNewBlock fuel env (word_of_int height) header)) (\<lambda>r. case r of
          Inr _ \<Rightarrow> retG ()
        | Inl _ \<Rightarrow> bootstrapWithRetries rd fuel env))"

subsection \<open>Construction, start and stop\<close>

record btccParams =
  bp_BtcConfirmationDepth :: u32
  bp_CheckpointFinalizationTimeout :: u32
  bp_CheckpointTag :: string

definition reporter_New ::
  "('w, 'spv) reporterEnv \<Rightarrow> u8 \<Rightarrow> ('w, btccParams) retryDo \<Rightarrow> ('w, btccParams) prog
    \<Rightarrow> u32 \<Rightarrow> u32 \<Rightarrow> nat \<Rightarrow> 'w \<Rightarrow> 'w reporter outcome" where
  "reporter_New env currentVersion rd btcCheckpointParams maxHeadersInMsg btcCacheSize maxRetryTimes w =
     (case wrapG ''failed to get BTC Checkpoint parameters: '' (retrywrap_Do rd None btcCheckpointParams) w of
        (Err e, _) \<Rightarrow> Err e
      | (Panic m, _) \<Rightarrow> Panic m
      | (NoFuel, _) \<Rightarrow> NoFuel
      | (Ok None, _) \<Rightarrow> Panic ''nil pointer dereference''
      | (Ok (Some params), w') \<Rightarrow>
          (case hexDecode (bp_CheckpointTag params) of
             Inl e \<Rightarrow> Err (wrapf ''failed to decode checkpoint tag: '' e)
           | Inr checkpointTag \<Rightarrow>
               Ok \<lparr>r_MaxHeadersInMsg = maxHeadersInMsg, r_BTCCacheSize = btcCacheSize,
                   r_maxRetryTimes = maxRetryTimes,
                   r_checkpointCache = NewCheckpointCache (re_fmt env) checkpointTag currentVersion,
                   r_btcCache = None,
                   r_btcConfirmationDepth = bp_BtcConfirmationDepth params,
                   r_checkpointFinalizationTimeout = bp_CheckpointFinalizationTimeout params,
                   r_started = False, r_quit = False, r_bootstrapInProgress = False,
                   r_bootstrapWg = 0, r_async = [], r_world = w'\<rparr>))"

text \<open>\<open>Start\<close> returns whether the event handler was started.\<close>

definition reporter_Start ::
  "('w reporter, unit) retryDo \<Rightarrow> nat \<Rightarrow> ('w, 'spv) reporterEnv \<Rightarrow> ('w, unit) prog \<Rightarrow> ('w, unit) prog
    \<Rightarrow> ('w reporter, bool) prog" where
  "reporter_Start rd fuel env notifierStart registerBlockEpoch =
     bindG (getG r_quit) (\<lambda>quit.
     bindG (getG r_started) (\<lambda>started.
       if \<not> quit \<and> started then retG False
       else
         bindG (modG (\<lambda>r. if quit then r\<lparr>r_quit := False\<rparr> else r\<lparr>r_started := True\<rparr>)) (\<lambda>_.
         bindG (bootstrapWithRetries rd fuel env) (\<lambda>_.
         bindG (tryG (rpcR notifierStart)) (\<lambda>r1. case r1 of
           Inl _ \<Rightarrow> retG False
         | Inr _ \<Rightarrow> bindG (tryG (rpcR registerBlockEpoch)) (\<lambda>r2. case r2 of
             Inl _ \<Rightarrow> retG False
           | Inr _ \<Rightarrow> retG True))))))"

definition reporter_Stop :: "'w reporter \<Rightarrow> 'w reporter" where
  "reporter_Stop r = r\<lparr>r_quit := True\<rparr>"

definition reporter_ShuttingDown :: "'w reporter \<Rightarrow> bool" where
  "reporter_ShuttingDown r = r_quit r"

subsection \<open>What bootstrapping leaves alone\<close>

definition boot_frame :: "('w reporter \<Rightarrow> bool) \<Rightarrow> bool" where
  "boot_frame I \<longleftrightarrow> submit_frame I \<and> (\<forall>s c. I s \<longrightarrow> I (s\<lparr>r_btcCache := c\<rparr>))"

lemma boot_frame_submit: "boot_frame I \<Longrightarrow> submit_frame I"
  by (simp add: boot_frame_def)

lemma keeps_withCache [keeps_rules]: "(\<And>c. keeps I (f c)) \<Longrightarrow> keeps I (withCache f)"
  unfolding withCache_def by (intro keeps_rules)

lemma keeps_setCache: "boot_frame I \<Longrightarrow> keeps I (setCache c)"
  unfolding setCache_def by (rule keeps_modG) (simp add: boot_frame_def)

lemma keeps_syncLoop: "submit_frame I \<Longrightarrow> keeps I (syncLoop fuel env)"
proof (induction fuel)
  case (Suc fuel)
  then show ?case unfolding syncLoop.simps by (intro keeps_rules keeps_rpcR)
qed (simp add: keeps_prims)

lemma keeps_waitUntilBTCSync: "boot_frame I \<Longrightarrow> keeps I (waitUntilBTCSync fuel env)"
  unfolding waitUntilBTCSync_def by (intro keeps_rules keeps_rpcR keeps_syncLoop boot_frame_submit)

lemma keeps_initBTCCache: "boot_frame I \<Longrightarrow> keeps I (initBTCCache env)"
  unfolding initBTCCache_def Let_def by (intro keeps_rules keeps_rpcR keeps_setCache boot_frame_submit)

lemma keeps_checkConsistency: "boot_frame I \<Longrightarrow> keeps I (checkConsistency env)"
  unfolding checkConsistency_def checkHeaderConsistency_def Let_def
  by (intro keeps_rules keeps_rpcR boot_frame_submit)

subsection \<open>The bootstrap token\<close>

text \<open>
  Between bootstraps, the wait group counts the pending goroutines, of which there is at
  most one, and the flag tells whether there is one.
\<close>

definition boot_inv :: "'w reporter \<Rightarrow> bool" where
  "boot_inv s \<longleftrightarrow> r_bootstrapWg s = int (length (r_async s)) \<and> length (r_async s) \<le> 1 \<and>
     (r_bootstrapInProgress s \<longleftrightarrow> r_async s \<noteq> [])"

definition boot_held :: "'w reporter \<Rightarrow> bool" where
  "boot_held s \<longleftrightarrow> r_bootstrapInProgress s \<and> r_bootstrapWg s = 1 \<and> r_async s = []"

lemma boot_frames: "boot_frame boot_held" "boot_frame boot_inv"
  by (simp_all add: boot_frame_def submit_frame_def boot_held_def boot_inv_def)

lemma bootstrapBody_ends:
  "ends boot_held (bootstrapBody fuel env) (\<lambda>_ s. boot_inv s \<and> length (r_async s) = 1)"
  unfolding bootstrapBody_def withCache_def
  by (intro ends_bind ends_case ends_failures ends_modG keeps_ends keeps_rules keeps_rpcR keeps_setCache
        keeps_waitUntilBTCSync keeps_initBTCCache keeps_checkConsistency keeps_ProcessHeaders
        boot_frame_submit boot_frames)
     (simp add: boot_held_def boot_inv_def)

lemma bootstrap_spec:
  assumes "boot_inv s" and "bootstrap fuel env s = (r, s')" and "r \<noteq> NoFuel"
  shows "boot_inv s' \<and> (case r of Ok _ \<Rightarrow> length (r_async s') = 1 | _ \<Rightarrow> r_async s' = r_async s)"
proof (cases "r_bootstrapInProgress s")
  case True
  then show ?thesis using assms by (auto simp: bootstrap_def failG_def)
next
  case False
  let ?s1 = "s\<lparr>r_bootstrapInProgress := True, r_bootstrapWg := r_bootstrapWg s + 1\<rparr>"
  obtain r1 s1 where body: "bootstrapBody fuel env ?s1 = (r1, s1)" by force
  from False assms(1) have held: "boot_held ?s1" "r_async s = []" by (auto simp: boot_held_def boot_inv_def)
  have post: "case r1 of Ok _ \<Rightarrow> boot_inv s1 \<and> length (r_async s1) = 1 | _ \<Rightarrow> boot_held s1"
    using bootstrapBody_ends held(1) body unfolding ends_def by blast
  have rs: "bootstrap fuel env s = onFailG releaseBootstrap (bootstrapBody fuel env) ?s1"
    using False by (simp add: bootstrap_def modG_def)
  show ?thesis
  proof (cases r1)
    case (Ok x)
    then show ?thesis using post rs body assms(2) by (simp add: onFailG_def)
  next
    case NoFuel
    then show ?thesis using rs body assms(2,3) by (simp add: onFailG_def)
  qed (use post rs body assms(2) held(2) in \<open>auto simp: onFailG_def releaseBootstrap_def boot_inv_def boot_held_def\<close>)
qed

lemma asyncCheckpoints_spec:
  assumes "boot_inv s" and "asyncCheckpoints env s = (r, s')"
  shows "boot_inv s' \<and> r_async s' = []"
proof (cases "r_async s")
  case Nil
  then show ?thesis using assms by (simp add: asyncCheckpoints_def retG_def)
next
  case (Cons job rest)
  obtain signer ibs where job: "job = (signer, ibs)" by force
  let ?s1 = "s\<lparr>r_async := rest\<rparr>"
  have held: "boot_held ?s1" using assms(1) Cons by (auto simp: boot_inv_def boot_held_def)
  obtain r1 s1 where run: "bindG (ProcessCheckpoints env signer ibs) (\<lambda>_. retG ()) ?s1 = (r1, s1)" by force
  have "keeps boot_held (bindG (ProcessCheckpoints env signer ibs) (\<lambda>_. retG ()))"
    by (intro keeps_rules keeps_ProcessCheckpoints boot_frame_submit boot_frames)
  then have "boot_held s1" using held run by (rule keepsD)
  moreover have "s' = releaseBootstrap s1"
    using assms(2) Cons job run by (simp add: asyncCheckpoints_def finallyG_def)
  ultimately show ?thesis by (simp add: boot_inv_def boot_held_def releaseBootstrap_def)
qed

text \<open>Calls to the outside return.\<close>

definition rpc_returns :: "('w, 'spv) reporterEnv \<Rightarrow> bool" where
  "rpc_returns env \<longleftrightarrow> returns (re_Now env) \<and> (\<forall>msg ex ab. returns (re_SendSpvProof env msg ex ab))"

lemma returns_rpcR: "returns m \<Longrightarrow> returns (rpcR m)"
  unfolding rpcR_def by (rule returns_zoom)

lemma returns_extractLoop: "rpc_returns env \<Longrightarrow> returns (extractLoop env ib txs n)"
proof (induction txs arbitrary: n)
  case (Cons tx txs)
  show ?case
  proof (cases tx)
    case None
    then show ?thesis using Cons by simp
  next
    case (Some t)
    have "CheckpointCache_AddSegment (re_fmt env) now sg cc \<noteq> NoFuel" for now sg cc
      by (auto simp: CheckpointCache_AddSegment_def Let_def split: option.splits)
    then show ?thesis unfolding Some extractLoop.simps ckptCacheG_def
      using Cons by (intro returns_rules returns_rpcR returns_lift) (auto simp: rpc_returns_def)
  qed
qed (simp add: returns_prims)

lemma returns_extractAll: "rpc_returns env \<Longrightarrow> returns (extractAll env ibs n)"
  by (induction env ibs n rule: extractAll.induct)
     (auto intro!: returns_rules returns_extractLoop simp: extractCheckpoints_def)

lemma mustProofs_returns: "(\<And>ib i. gen ib i \<noteq> NoFuel) \<Longrightarrow> mustProofs gen ss \<noteq> NoFuel"
  by (induction ss) (auto split: outcome.splits)

lemma GenSPVProof_returns: "GenSPVProof ser spv ib i \<noteq> NoFuel"
proof -
  have "serializeTxs ser txs \<noteq> NoFuel" for txs
    by (induction ser txs rule: serializeTxs.induct) (auto split: sum.splits outcome.splits)
  then show ?thesis by (auto simp: GenSPVProof_def sumOutcome_def split: outcome.splits sum.splits)
qed

lemma returns_submitCkpt: "rpc_returns env \<Longrightarrow> returns (submitCkpt env signer ck)"
  unfolding submitCkpt_def
  by (intro returns_rules returns_rpcR returns_lift)
     (auto simp: rpc_returns_def MustGenSPVProofs_def MustNewMsgInsertBTCSpvProof_def
        mustProofs_returns GenSPVProof_returns)

lemma submitCkpt_cache: "submitCkpt env signer ck s = (r, s') \<Longrightarrow> r_checkpointCache s' = r_checkpointCache s"
  by (auto simp: submitCkpt_def liftG_def retG_def rpcR_def zoomG_def bindG_def tryG_def split: go_splits)

lemma submitCkptsLoop_returns:
  "rpc_returns env \<Longrightarrow> length (cc_Checkpoints (r_checkpointCache s)) < fuel
    \<Longrightarrow> fst (submitCkptsLoop fuel env signer s) \<noteq> NoFuel"
proof (induction fuel arbitrary: s)
  case (Suc fuel)
  let ?cc = "r_checkpointCache s"
  show ?case
  proof (cases "cc_Checkpoints ?cc")
    case Nil
    then show ?thesis
      by (simp add: CheckpointCache_PopEarliestCheckpoint_def ckptCacheG_def retG_def)
  next
    case (Cons ck cks)
    let ?s1 = "s\<lparr>r_checkpointCache := ?cc\<lparr>cc_Checkpoints := cks\<rparr>\<rparr>"
    obtain r s2 where sub: "submitCkpt env signer ck ?s1 = (r, s2)" by force
    then have "r_checkpointCache s2 = ?cc\<lparr>cc_Checkpoints := cks\<rparr>" using submitCkpt_cache by fastforce
    then have IH: "fst (submitCkptsLoop fuel env signer s2) \<noteq> NoFuel" using Suc Cons by simp
    have "r \<noteq> NoFuel" using returns_submitCkpt [OF Suc.prems(1)] sub unfolding returns_def by (metis fst_conv)
    then show ?thesis using Cons sub IH
      by (cases r) (simp_all add: CheckpointCache_PopEarliestCheckpoint_def ckptCacheG_def)
  qed
qed simp

lemma returns_ProcessCheckpoints: "rpc_returns env \<Longrightarrow> returns (ProcessCheckpoints env signer ibs)"
proof -
  assume env: "rpc_returns env"
  have "returns (matchAndSubmitCheckpoints env signer)"
    unfolding returns_def
  proof
    fix s :: "'a reporter"
    let ?s1 = "s\<lparr>r_checkpointCache := CheckpointCache_Match (re_fmt env) (re_sortSlice env)
        (re_range0 env (r_checkpointCache s)) (re_range1 env (r_checkpointCache s)) (r_checkpointCache s)\<rparr>"
    let ?n = "CheckpointCache_NumCheckpoints (r_checkpointCache ?s1)"
    have "fst (submitCkptsLoop (Suc ?n) env signer ?s1) \<noteq> NoFuel"
      by (intro submitCkptsLoop_returns env) (simp add: CheckpointCache_NumCheckpoints_def)
    moreover obtain r s2 where "submitCkptsLoop (Suc ?n) env signer ?s1 = (r, s2)" by force
    ultimately show "fst (matchAndSubmitCheckpoints env signer s) \<noteq> NoFuel"
      by (cases r) (simp_all add: matchAndSubmitCheckpoints_def ckptCacheG_def retG_def
          del: submitCkptsLoop.simps)
  qed
  then show ?thesis unfolding ProcessCheckpoints_def
    by (intro returns_rules returns_extractAll env)
qed

lemma asyncCheckpoints_returns: "rpc_returns env \<Longrightarrow> fst (asyncCheckpoints env s) \<noteq> NoFuel"
proof (cases "r_async s")
  case (Cons job rest)
  assume "rpc_returns env"
  then have "returns (bindG (ProcessCheckpoints env (fst job) (snd job)) (\<lambda>_. retG ()))"
    by (intro returns_rules returns_ProcessCheckpoints)
  then show ?thesis using Cons
    by (cases job) (auto simp: asyncCheckpoints_def finallyG_def returns_def split: prod.splits, metis fst_conv)
qed (simp add: asyncCheckpoints_def retG_def)

subsection \<open>Properties\<close>

text \<open>
  C29. A bootstrap that returns, fails or panics never leaks its token: the wait group and the
  flag again agree with the pending goroutines, a successful bootstrap leaves exactly one
  of them, and an unsuccessful one leaves them as they were.
\<close>

theorem bootstrap_releases_token:
  assumes "boot_inv s" and "bootstrap fuel env s = (r, s')" and "r \<noteq> NoFuel"
  shows "boot_inv s' \<and> (case r of Ok _ \<Rightarrow> length (r_async s') = 1 | _ \<Rightarrow> r_async s' = r_async s)"
  using bootstrap_spec [OF assms] .

text \<open>
  Waiting for a running bootstrap never blocks forever: when calls to the outside return,
  \<open>bootstrapWg.Wait()\<close> comes to an end, and if no goroutine panicked, no bootstrap is in
  progress afterwards, so the attempt that follows is not refused.
\<close>

theorem bootstrap_wait_no_deadlock:
  assumes "boot_inv s" and "rpc_returns env" and "bootstrapWgWait env s = (r, s')"
  shows "r \<noteq> NoFuel \<and> (r = Ok () \<longrightarrow> boot_inv s' \<and> \<not> r_bootstrapInProgress s' \<and> r_async s' = [])"
proof (cases "r_async s")
  case Nil
  then show ?thesis using assms by (auto simp: bootstrapWgWait_def boot_inv_def retG_def)
next
  case (Cons job rest)
  then have one: "length (r_async s) = 1" "r_bootstrapWg s = 1" using assms(1) by (auto simp: boot_inv_def)
  obtain r1 s1 where run: "asyncCheckpoints env s = (r1, s1)" by force
  have s1: "boot_inv s1" "r_async s1 = []" using asyncCheckpoints_spec [OF assms(1) run] by auto
  have r1: "r1 \<noteq> NoFuel" using asyncCheckpoints_returns [OF assms(2), of s] run by simp
  have "bootstrapWgWait env s = bindG (asyncCheckpoints env) (\<lambda>_. waitLoop 1 env) s"
    using one Cons by (simp add: bootstrapWgWait_def)
  also have "\<dots> = (case r1 of Ok _ \<Rightarrow> (Ok (), s1) | _ \<Rightarrow> (r1, s1))"
    using run s1 by (cases r1) (simp_all add: boot_inv_def retG_def)
  finally show ?thesis using assms(3) r1 s1 by (cases r1) (auto simp: boot_inv_def)
qed

subsection \<open>A bootstrap from start to end\<close>

text \<open>
  The situation of a healthy bootstrap: the node serves one chain, Babylon accepts connected
  headers, its tip \<open>T\<close> is between its base and the tip of the node, and the two chains agree
  at the height \<open>ch\<close> that is checked. \<open>b0\<close> is the height from which the cache is filled.
\<close>

definition bootCheckHeight :: "u32 \<Rightarrow> u32 \<Rightarrow> u32 \<Rightarrow> nat" where
  "bootCheckHeight T base k =
     (if unat T \<ge> unat base + unat k then unat T - unat k else unat base)"

definition bootBaseHeight :: "u32 \<Rightarrow> u32 \<Rightarrow> u32 \<Rightarrow> u32 \<Rightarrow> nat" where
  "bootBaseHeight T base k w =
     (if unat T > unat base + unat k + unat w then unat T - unat k - unat w + 1 else unat base)"

definition boot_ready ::
  "('w, 'spv) reporterEnv \<Rightarrow> ('w \<Rightarrow> hash \<Rightarrow> bool) \<Rightarrow> msgBlock list \<Rightarrow> u32 \<Rightarrow> chainTip \<Rightarrow> string \<Rightarrow> 'w reporter \<Rightarrow> bool" where
  "boot_ready env known chain base T addr s \<longleftrightarrow>
     bbn_accepts env known \<and> reporter_retries env \<and> rpc_contract (re_btcClient env) \<and>
     (\<forall>w. node_serves (re_BlockHash env) chain (re_btcClient env) w) \<and>
     (\<forall>w. re_BTCBaseHeader env w = (Ok base, w)) \<and> (\<forall>w. re_MustGetAddr env w = (Ok addr, w)) \<and>
     re_BTCHeaderChainTip env (r_world s) = (Ok T, r_world s) \<and>
     (\<exists>h. re_ParseHash env (ct_HashHex T) = Inr h) \<and>
     unat base \<le> unat (ct_Height T) \<and> unat (ct_Height T) < length chain \<and> 1 < length chain \<and>
     unat base + unat (r_btcConfirmationDepth s) + unat (r_checkpointFinalizationTimeout s) < 2 ^ 32 \<and>
     r_checkpointFinalizationTimeout s \<noteq> 0 \<and> r_MaxHeadersInMsg s \<noteq> 0 \<and>
     length chain - bootBaseHeight (ct_Height T) base (r_btcConfirmationDepth s) (r_checkpointFinalizationTimeout s)
       \<le> unat (r_BTCCacheSize s) \<and>
     known (r_world s) (blockHashAt (re_BlockHash env) chain
       (bootCheckHeight (ct_Height T) base (r_btcConfirmationDepth s)))"

lemma bootHeights:
  assumes "boot_ready env known chain base T addr s"
  defines "k \<equiv> r_btcConfirmationDepth s" and "w \<equiv> r_checkpointFinalizationTimeout s"
  shows "consistencyCheckHeight (ct_Height T) base k = of_nat (bootCheckHeight (ct_Height T) base k)"
    and "cacheBaseHeight (ct_Height T) base k w
        = of_nat (bootBaseHeight (ct_Height T) base k w)"
    and "bootBaseHeight (ct_Height T) base k w \<le> bootCheckHeight (ct_Height T) base k"
    and "bootCheckHeight (ct_Height T) base k < length chain"
proof -
  have sum: "unat base + unat k + unat w < 2 ^ 32" and w: "0 < unat w"
    and T: "unat base \<le> unat (ct_Height T)" "unat (ct_Height T) < length chain"
    using assms by (auto simp: boot_ready_def unat_gt_0)
  have bk: "unat (base + k) = unat base + unat k" using sum by (intro unat_add_lem [THEN iffD1]) simp
  then have bkw: "unat (base + k + w) = unat base + unat k + unat w"
    using sum unat_add_lem [of "base + k" w] by simp
  show "consistencyCheckHeight (ct_Height T) base k = of_nat (bootCheckHeight (ct_Height T) base k)"
    using bk by (auto simp: consistencyCheckHeight_def bootCheckHeight_def word_le_nat_alt unat_sub)
  have "ct_Height T - k - w + 1 = of_nat (unat (ct_Height T) - unat k - unat w + 1)"
    if "unat (ct_Height T) > unat base + unat k + unat w"
    using that by (simp add: of_nat_diff)
  then show "cacheBaseHeight (ct_Height T) base k w = of_nat (bootBaseHeight (ct_Height T) base k w)"
    using bkw by (auto simp: cacheBaseHeight_def bootBaseHeight_def word_less_nat_alt)
  show "bootBaseHeight (ct_Height T) base k w \<le> bootCheckHeight (ct_Height T) base k"
    using w by (auto simp: bootBaseHeight_def bootCheckHeight_def)
  show "bootCheckHeight (ct_Height T) base k < length chain"
    using T by (auto simp: bootCheckHeight_def)
qed

lemma boot_ready_flags [simp]:
  "boot_ready env known chain base T addr (s\<lparr>r_bootstrapInProgress := x, r_bootstrapWg := y\<rparr>)
    = boot_ready env known chain base T addr s"
  "boot_ready env known chain base T addr (s\<lparr>r_btcCache := c\<rparr>) = boot_ready env known chain base T addr s"
  by (simp_all add: boot_ready_def)

lemma boot_wait:
  assumes "boot_ready env known chain base T addr s"
  shows "waitUntilBTCSync fuel env s = (Ok (), s)"
proof -
  have ns: "rpc_contract (re_btcClient env)" "node_serves (re_BlockHash env) chain (re_btcClient env) (r_world s)"
    and T: "unat (ct_Height T) < length chain" "1 < length chain"
    and tip: "re_BTCHeaderChainTip env (r_world s) = (Ok T, r_world s)"
    using assms by (auto simp: boot_ready_def)
  have len: "length chain < 2 ^ 32" using ns(2) by (simp add: node_serves_def)
  obtain h where h: "re_ParseHash env (ct_HashHex T) = Inr h" using assms by (auto simp: boot_ready_def)
  let ?b = "of_nat (length chain - 1) :: u32"
  have b: "unat ?b = length chain - 1" using len by (simp add: unat_of_nat take_bit_nat_eq_self)
  have "\<not> (?b = 0 \<or> ?b < ct_Height T)"
    using T b by (auto simp: word_less_nat_alt unat_eq_zero [symmetric])
  with GetBestBlock_serves [OF ns] tip h show ?thesis
    by (simp add: waitUntilBTCSync_def rpcR_step liftG_def sumOutcome_def retG_def bindG_def)
qed

lemma boot_init:
  assumes "boot_ready env known chain base T addr s"
  defines "b0 \<equiv> bootBaseHeight (ct_Height T) base (r_btcConfirmationDepth s) (r_checkpointFinalizationTimeout s)"
  shows "initBTCCache env s = (Ok (), s\<lparr>r_btcCache :=
    Some \<lparr>blocks = map (indexedAt chain) [b0..<length chain], maxEntries = r_BTCCacheSize s\<rparr>\<rparr>)"
proof -
  let ?n = "length chain" and ?s1 = "s\<lparr>r_btcCache := Some \<lparr>blocks = [], maxEntries = r_BTCCacheSize s\<rparr>\<rparr>"
  have ns: "rpc_contract (re_btcClient env)" "node_serves (re_BlockHash env) chain (re_btcClient env) (r_world s)"
    and tip: "re_BTCHeaderChainTip env (r_world s) = (Ok T, r_world s)"
    and bs: "\<And>w. re_BTCBaseHeader env w = (Ok base, w)"
    and size: "?n - b0 \<le> unat (r_BTCCacheSize s)"
    using assms by (auto simp: boot_ready_def)
  have b0: "b0 < ?n" using bootHeights(3,4) [OF assms(1)] unfolding b0_def by simp
  then have new: "NewBTCCache (r_BTCCacheSize s) = Inr \<lparr>blocks = [], maxEntries = r_BTCCacheSize s\<rparr>"
    using size by (auto simp: NewBTCCache_def)
  have len: "?n < 2 ^ 32" using ns(2) by (simp add: node_serves_def)
  then have ub: "unat (of_nat b0 :: u32) = b0" using b0 by (simp add: unat_of_nat take_bit_nat_eq_self)
  have tail: "FindTailBlocksByHeight (re_btcClient env) (of_nat b0) (r_world s)
      = (Ok (map (indexedAt chain) [b0..<?n]), r_world s)"
    using FindTail_serves [OF ns, of "of_nat b0"] b0 ub by simp
  have init: "BTCCache_Init (map (indexedAt chain) [b0..<?n]) \<lparr>blocks = [], maxEntries = r_BTCCacheSize s\<rparr>
      = Ok \<lparr>blocks = map (indexedAt chain) [b0..<?n], maxEntries = r_BTCCacheSize s\<rparr>"
    using size linked_sorted [OF linked_indexed [OF ns(2)]] by (intro BTCCache_Init_empty [OF new]) simp_all
  show ?thesis
    using new tip bs tail init bootHeights(2) [OF assms(1)]
    by (simp add: initBTCCache_def setCache_def withCache_def modG_def getG_def bindG_def rpcR_step Let_def
        mustG_def liftG_def b0_def)
qed

lemma boot_check:
  assumes "boot_ready env known chain base T addr s"
    and "r_btcCache s = Some \<lparr>blocks = map (indexedAt chain) [b0..<length chain], maxEntries = m\<rparr>"
    and "b0 \<le> bootCheckHeight (ct_Height T) base (r_btcConfirmationDepth s)"
  defines "ch \<equiv> bootCheckHeight (ct_Height T) base (r_btcConfirmationDepth s)"
  shows "checkConsistency env s
    = (Ok \<lparr>ci_bbnLatestBlockHeight = ct_Height T, ci_startSyncHeight = of_nat ch + 1\<rparr>, s)"
proof -
  let ?bs = "map (indexedAt chain) [b0..<length chain]"
  have ns: "node_serves (re_BlockHash env) chain (re_btcClient env) (r_world s)"
    and tip: "re_BTCHeaderChainTip env (r_world s) = (Ok T, r_world s)"
    and bs: "\<And>w. re_BTCBaseHeader env w = (Ok base, w)"
    and con: "\<And>h w. re_ContainsBTCBlock env h w = (Ok (known w h), w)"
    and kn: "known (r_world s) (blockHashAt (re_BlockHash env) chain ch)"
    using assms by (auto simp: boot_ready_def bbn_accepts_def)
  have ch: "ch < length chain" "length chain < 2 ^ 32"
    using bootHeights(4) [OF assms(1)] ns by (auto simp: ch_def node_serves_def)
  have "chain \<noteq> []" using ns by (simp add: node_serves_def)
  then have "BTCCache_FindBlock (of_nat ch) \<lparr>blocks = ?bs, maxEntries = m\<rparr> = Ok (Some (indexedAt chain ch))"
    using FindBlock_find [of "\<lparr>blocks = ?bs, maxEntries = m\<rparr>" "of_nat ch"]
      find_indexed [OF assms(3) [folded ch_def] ch]
      contiguous_strict [OF linked_contiguous [OF linked_indexed [OF ns]]] assms(3) ch(1)
    by (auto simp: ch_def)
  moreover have "re_BlockHash env (ib_Header (indexedAt chain ch)) = blockHashAt (re_BlockHash env) chain ch"
    by (simp add: blockHashAt_def indexedAt_def NewIndexedBlockFromMsgBlock_def)
  ultimately have "checkHeaderConsistency env (of_nat ch) s = (Ok (), s)"
    using con kn assms(2)
    by (simp add: checkHeaderConsistency_def withCache_def getG_def bindG_def liftG_def rpcR_step retG_def)
  then show ?thesis using tip bs bootHeights(1) [OF assms(1)]
    by (simp add: checkConsistency_def rpcR_step bindG_def getG_def retG_def Let_def ch_def)
qed

lemma boot_last:
  assumes "node_serves bh chain c w" and "b0 \<le> ch" and "ch < length chain"
  shows "BTCCache_GetLastBlocks (of_nat ch + 1) \<lparr>blocks = map (indexedAt chain) [b0..<length chain], maxEntries = m\<rparr>
    = (if Suc ch < length chain then Ok (map (indexedAt chain) [Suc ch..<length chain])
       else Err (errorf ''the given stopHeight is out of range''))"
proof -
  let ?bs = "map (indexedAt chain) [b0..<length chain]"
  have len: "length chain < 2 ^ 32" using assms(1) by (simp add: node_serves_def)
  have ne: "?bs \<noteq> []" using assms(2,3) by auto
  have st: "of_nat ch + 1 = (of_nat (Suc ch) :: u32)" "unat (of_nat (Suc ch) :: u32) = Suc ch"
    using assms(3) len by (simp, intro unat_of_nat_u32, simp)
  have hd: "unat (ib_Height (hd ?bs)) = b0" using assms(2,3) len indexedAt_height [of b0 chain]
    by (subst hd_map) auto
  have last: "unat (ib_Height (last ?bs)) = length chain - 1"
    using assms(3) ne len indexedAt_height [of "length chain - 1" chain] by (auto simp: last_map)
  have "BTCCache_GetLastBlocks (of_nat (Suc ch)) \<lparr>blocks = ?bs, maxEntries = m\<rparr> =
      (if of_nat (Suc ch) < ib_Height (hd ?bs) \<or> ib_Height (last ?bs) < of_nat (Suc ch)
       then Err (errorf ''the given stopHeight is out of range'')
       else Ok (filter (\<lambda>ib. of_nat (Suc ch) \<le> ib_Height ib) ?bs))"
    using GetLastBlocks_filter [of "\<lparr>blocks = ?bs, maxEntries = m\<rparr>" "of_nat (Suc ch)"] ne
      linked_contiguous [OF linked_indexed [OF assms(1)]] by simp
  moreover have "of_nat (Suc ch) < ib_Height (hd ?bs) \<longleftrightarrow> False"
    "ib_Height (last ?bs) < of_nat (Suc ch) \<longleftrightarrow> \<not> Suc ch < length chain"
    using hd last st(2) assms(2,3) by (simp_all only: word_less_nat_alt) auto
  ultimately show ?thesis using filter_indexed [of b0 "Suc ch" chain] assms(2,3) len
    unfolding st(1) by simp
qed

lemma chained_indexed:
  assumes "node_serves bh chain c w"
  shows "chained bh (map ib_Header (map (indexedAt chain) [i..<length chain]))"
proof -
  have "successively (\<lambda>a b. bh_PrevBlock (ib_Header b) = bh (ib_Header a)) (map (indexedAt chain) [i..<length chain])"
    using linked_indexed [OF assms, of i] unfolding linked_def
    by (rule successively_mono) (simp add: extends_def)
  then show ?thesis by (simp add: chained_def successively_map del: map_map)
qed

lemma boot_submit:
  assumes "boot_ready env known chain base T addr s"
    and "ch = bootCheckHeight (ct_Height T) base (r_btcConfirmationDepth s)"
    and "Suc ch < length chain" and "length chain < fuel"
  obtains n w' where "ProcessHeaders fuel env addr (map (indexedAt chain) [Suc ch..<length chain]) s
      = (Ok (n, None), s\<lparr>r_world := w'\<rparr>)"
    and "\<And>i. ch \<le> i \<Longrightarrow> i < length chain \<Longrightarrow> known w' (blockHashAt (re_BlockHash env) chain i)"
proof -
  let ?bh = "re_BlockHash env" and ?ibs = "map (indexedAt chain) [Suc ch..<length chain]"
  have acc: "bbn_accepts env known" "reporter_retries env" "r_MaxHeadersInMsg s \<noteq> 0"
    and ns: "node_serves ?bh chain (re_btcClient env) (r_world s)"
    and kn: "known (r_world s) (blockHashAt ?bh chain ch)"
    using assms(1,2) by (auto simp: boot_ready_def)
  have hdr: "ib_Header (indexedAt chain i) = mb_Header (chain ! i)" for i
    by (simp add: indexedAt_def NewIndexedBlockFromMsgBlock_def)
  have "hd ?ibs = indexedAt chain (Suc ch)" using assms(3) by (subst hd_map) auto
  then have par: "known (r_world s) (bh_PrevBlock (ib_Header (hd ?ibs)))"
    using ns kn assms(3) by (simp add: hdr node_serves_def)
  have "length ?ibs < fuel" using assms(4) by simp
  then obtain w' where run: "ProcessHeaders fuel env addr ?ibs s
      = (Ok (length (dropWhile (blockKnown env known (r_world s)) ?ibs), None), s\<lparr>r_world := w'\<rparr>)"
    and all: "\<forall>ib \<in> set ?ibs. blockKnown env known w' ib"
    and mono: "\<forall>h. known (r_world s) h \<longrightarrow> known w' h"
    using ProcessHeaders_complete [OF acc chained_indexed [OF ns, of "Suc ch"] par, of fuel addr] by auto
  have "known w' (blockHashAt ?bh chain i)" if "ch \<le> i" "i < length chain" for i
  proof (cases "i = ch")
    case True
    then show ?thesis using kn mono by simp
  next
    case False
    then have "indexedAt chain i \<in> set ?ibs" using that by auto
    then have "blockKnown env known w' (indexedAt chain i)" using all by blast
    then show ?thesis by (simp add: blockKnown_def blockHashAt_def hdr)
  qed
  then show thesis using that run by blast
qed


text \<open>
  When Babylon's light client and the node both have nothing beyond the base header, the
  same bootstrap panics instead: there is no block after the checked height, and the range
  error of \<open>GetLastBlocks\<close> is treated as fatal.
\<close>

theorem bootstrap_panics_without_new_block:
  assumes "boot_ready env known chain base T addr s" and "\<not> r_bootstrapInProgress s"
    and "Suc (bootCheckHeight (ct_Height T) base (r_btcConfirmationDepth s)) = length chain"
  shows "\<exists>s'. bootstrap fuel env s = (Panic ''stop height out of range'', s')"
proof -
  let ?b0 = "bootBaseHeight (ct_Height T) base (r_btcConfirmationDepth s) (r_checkpointFinalizationTimeout s)"
  let ?ch = "bootCheckHeight (ct_Height T) base (r_btcConfirmationDepth s)"
  let ?bs = "map (indexedAt chain) [?b0..<length chain]"
  let ?s1 = "s\<lparr>r_bootstrapInProgress := True, r_bootstrapWg := r_bootstrapWg s + 1\<rparr>"
  let ?s2 = "?s1\<lparr>r_btcCache := Some \<lparr>blocks = ?bs, maxEntries = r_BTCCacheSize s\<rparr>\<rparr>"
  have r1: "boot_ready env known chain base T addr ?s1" and r2: "boot_ready env known chain base T addr ?s2"
    using assms(1) by simp_all
  have ns: "node_serves (re_BlockHash env) chain (re_btcClient env) (r_world s)"
    using assms(1) by (auto simp: boot_ready_def)
  have b0: "?b0 \<le> ?ch" "?ch < length chain" using bootHeights(3,4) [OF assms(1)] by simp_all
  have init: "initBTCCache env ?s1 = (Ok (), ?s2)" using boot_init [OF r1] by simp
  have chk: "checkConsistency env ?s2
      = (Ok \<lparr>ci_bbnLatestBlockHeight = ct_Height T, ci_startSyncHeight = of_nat ?ch + 1\<rparr>, ?s2)"
    using boot_check [OF r2, of ?b0 "r_BTCCacheSize s"] b0 by simp
  have last: "BTCCache_GetLastBlocks (of_nat ?ch + 1) \<lparr>blocks = ?bs, maxEntries = r_BTCCacheSize s\<rparr>
      = Err (errorf ''the given stopHeight is out of range'')"
    using boot_last [OF ns b0] assms(3) by simp
  have "bootstrapBody fuel env ?s1 = (Panic ''stop height out of range'', ?s2)"
    using boot_wait [OF r1, of fuel] init chk last
    by (simp add: bootstrapBody_def withCache_def mustG_def liftG_def)
  then show ?thesis using assms(2) by (simp add: bootstrap_def onFailG_def)
qed

subsection \<open>Following the chain\<close>

lemma keeps_processNewBlock: "submit_frame I \<Longrightarrow> keeps I (processNewBlock fuel env ib)"
  unfolding processNewBlock_def
  by (intro keeps_rules keeps_rpcR keeps_ProcessHeaders keeps_ProcessCheckpoints)

lemma next_height:
  fixes t h :: u32
  assumes "\<not> t \<ge> h" and "\<not> t + 1 < h"
  shows "unat h = Suc (unat t)"
proof -
  have lt: "unat t < unat h" using assms(1) by (simp add: word_le_nat_alt)
  moreover have "unat h < 2 ^ 32" using unsigned_less [where 'a = nat and w = h] by simp
  ultimately have "unat t + unat (1 :: u32) < 2 ^ 32" by simp
  then have "unat (t + 1) = Suc (unat t)" using unat_add_lem [of t 1] by simp
  with assms(2) lt show ?thesis by (simp add: word_less_nat_alt)
qed

lemma handleNewBlock_connected:
  assumes "r_btcCache s = Some c" and "wf_cache c" and "linked (re_BlockHash env) (blocks c)"
    and "\<And>w ib mb w'. GetBlockByHash (re_btcClient env) (re_BlockHash env header) w = (Ok (ib, mb), w')
           \<Longrightarrow> ib_Header ib = header \<and> ib_Height ib = height"
    and "handleNewBlock fuel env height header s = (r, s')"
    and Some: "BTCCache_Tip c = Some t" and next_block: "\<not> (ib_Height t \<ge> height \<or> ib_Height t + 1 < height)"
    and conn: "bh_PrevBlock header = re_BlockHash env (ib_Header t)"
  shows "\<exists>c'. r_btcCache s' = Some c' \<and> wf_cache c' \<and> linked (re_BlockHash env) (blocks c')"
proof -
  let ?get = "GetBlockByHash (re_btcClient env) (re_BlockHash env header) (r_world s)"
  obtain res w' where get: "?get = (res, w')" by force
  have run: "handleNewBlock fuel env height header s =
      bindG (wrapG ''failed to get block: ''
          (rpcR (GetBlockByHash (re_btcClient env) (re_BlockHash env header)))) (\<lambda>(ib, _).
        bindG (liftG (BTCCache_add ib c)) (\<lambda>c'. bindG (setCache c') (\<lambda>_. processNewBlock fuel env ib))) s"
    using assms(1) Some next_block conn by (simp add: handleNewBlock_def withCache_def)
  show ?thesis
  proof (cases res)
    case (Ok p)
    obtain ib mb where p: "p = (ib, mb)" by force
    have ib: "ib_Header ib = header" "ib_Height ib = height" using assms(4) get Ok p by blast+
    obtain c' where c': "BTCCache_add ib c = Ok c'" "wf_cache c'"
      using btc_window.push_ok [OF assms(2)] by blast
    have "unat height = Suc (unat (ib_Height t))" using next_height next_block by blast
    then have "extends (re_BlockHash env) t ib" using conn by (simp add: extends_def ib)
    then have link: "linked (re_BlockHash env) (blocks c')"
      using btc_window.push_linked [OF assms(2,3) c'(1) Some] by blast
    let ?s1 = "s\<lparr>r_world := w', r_btcCache := Some c'\<rparr>"
    have "processNewBlock fuel env ib ?s1 = (r, s')"
      using assms(5) run get Ok p c'(1) by (simp add: wrapG_def rpcR_step setCache_def liftG_def bindG_def modG_def)
    moreover have "keeps (\<lambda>s. r_btcCache s = Some c') (processNewBlock fuel env ib)"
      by (rule keeps_processNewBlock) (simp add: submit_frame_def)
    ultimately have "r_btcCache s' = Some c'"
      using keepsD [of "\<lambda>s. r_btcCache s = Some c'" "processNewBlock fuel env ib" ?s1] by simp
    with c' link show ?thesis by auto
  qed (use assms(1,2,3,5) run get conn Some in \<open>auto simp: wrapG_def rpcR_step bindG_def\<close>)
qed

text \<open>
  C4. Whatever a new block leads to (skipped, gap, fork, fetch error, submission error,
  success), the cache stays well formed and a chain of linked blocks, provided the node
  returns the announced block for its hash; and a block at the next height that does not
  name the tip as its parent empties the cache and is reported as an error.
\<close>

theorem handleNewBlock_keeps_chain:
  assumes "r_btcCache s = Some c" and "wf_cache c" and "linked (re_BlockHash env) (blocks c)"
    and "\<And>w ib mb w'. GetBlockByHash (re_btcClient env) (re_BlockHash env header) w = (Ok (ib, mb), w')
           \<Longrightarrow> ib_Header ib = header \<and> ib_Height ib = height"
    and "handleNewBlock fuel env height header s = (r, s')"
  shows "\<exists>c'. r_btcCache s' = Some c' \<and> wf_cache c' \<and> linked (re_BlockHash env) (blocks c')
    \<and> (\<forall>t. BTCCache_Tip c = Some t \<and> ib_Height t < height \<and> \<not> ib_Height t + 1 < height
         \<and> bh_PrevBlock header \<noteq> re_BlockHash env (ib_Header t) \<longrightarrow> blocks c' = [] \<and> (\<exists>e. r = Err e))"
proof (cases "BTCCache_Tip c")
  case None
  then show ?thesis using assms(1,2,3,5) by (auto simp: handleNewBlock_def withCache_def failG_def)
next
  case (Some t)
  show ?thesis
  proof (cases "ib_Height t \<ge> height \<or> ib_Height t + 1 < height")
    case True
    then show ?thesis using assms(1,2,3,5) Some
      by (auto simp: handleNewBlock_def withCache_def failG_def retG_def split: if_splits)
  next
    case next_block: False
    show ?thesis
    proof (cases "bh_PrevBlock header = re_BlockHash env (ib_Header t)")
      case False
      then have "r_btcCache s' = Some (BTCCache_RemoveAll c)" "\<exists>e. r = Err e"
        using assms(1,5) Some next_block
        by (auto simp: handleNewBlock_def withCache_def failG_def setCache_def)
      then show ?thesis using assms(2) by (auto simp: BTCCache_RemoveAll_def wf_cache_def)
    next
      case True
      then show ?thesis using handleNewBlock_connected [OF assms(1-5) Some next_block] Some by auto
    qed
  qed
qed

subsection \<open>Concrete instances\<close>

lemma sampleEnv_ready:
  "boot_ready sampleEnv sampleKnown (sampleChain 3) 0 \<lparr>ct_Height = 1, ct_HashHex = []\<rparr> ''bbn1'' sampleReporter"
proof -
  have "node_serves sampleHash (sampleChain 3) (sampleRpc 3) w" for w :: sampleWorld
    by (rule sampleRpc_serves) simp_all
  then show ?thesis
    using sampleEnv_accepts sampleEnv_retries sampleRpc_contract [of 3, where ?'a = sampleWorld]
      sampleChain_hash [of 0 3]
    by (simp add: boot_ready_def bootBaseHeight_def bootCheckHeight_def sampleEnv_def sampleReporter_def
        sampleKnown_def retG_def)
qed


theorem bootstrap_panics_without_new_block_witness:
  "\<exists>s'. bootstrap 4 (sampleEnv\<lparr>re_btcClient := sampleRpc 2, re_BTCBaseHeader := retG 1\<rparr>) sampleReporter
     = (Panic ''stop height out of range'', s')"
proof -
  let ?env = "sampleEnv\<lparr>re_btcClient := sampleRpc 2, re_BTCBaseHeader := retG 1\<rparr>"
  have "node_serves sampleHash (sampleChain 2) (sampleRpc 2) w" for w :: sampleWorld
    by (rule sampleRpc_serves) simp_all
  moreover have "bbn_accepts ?env sampleKnown" "reporter_retries ?env"
    using sampleEnv_accepts sampleEnv_retries by (simp_all add: bbn_accepts_def reporter_retries_def)
  ultimately have ready: "boot_ready ?env sampleKnown (sampleChain 2) 1 \<lparr>ct_Height = 1, ct_HashHex = []\<rparr> ''bbn1'' sampleReporter"
    using sampleRpc_contract [of 2, where ?'a = sampleWorld] sampleChain_hash [of 1 2]
    by (simp add: boot_ready_def bootBaseHeight_def bootCheckHeight_def sampleReporter_def
        sampleKnown_def retG_def) (simp add: sampleEnv_def retG_def)
  show ?thesis
    using bootstrap_panics_without_new_block [OF ready, of 4]
    by (simp add: sampleReporter_def bootCheckHeight_def)
qed

theorem bootstrap_releases_token_witness:
  "\<exists>s'. bootstrap 4 (sampleEnv\<lparr>re_MustGetAddr := panicG ''no key''\<rparr>) sampleReporter = (Panic ''no key'', s')
     \<and> \<not> r_bootstrapInProgress s' \<and> r_bootstrapWg s' = 0"
proof -
  let ?env = "sampleEnv\<lparr>re_MustGetAddr := panicG ''no key''\<rparr>"
  have inv: "boot_inv sampleReporter" by (simp add: boot_inv_def sampleReporter_def)
  have "fst (bootstrap 4 ?env sampleReporter) = Panic ''no key''"
    by code_simp
  then obtain s' where run: "bootstrap 4 ?env sampleReporter = (Panic ''no key'', s')"
    by (metis prod.collapse)
  with bootstrap_releases_token [OF inv run] show ?thesis
    by (auto simp: boot_inv_def sampleReporter_def)
qed

theorem bootstrap_wait_no_deadlock_witness:
  "\<exists>r s'. bootstrapWgWait sampleEnv (sampleReporter\<lparr>r_bootstrapInProgress := True, r_bootstrapWg := 1,
       r_async := [(''bbn1'', [])]\<rparr>) = (r, s') \<and> r \<noteq> NoFuel"
proof -
  let ?s = "sampleReporter\<lparr>r_bootstrapInProgress := True, r_bootstrapWg := 1, r_async := [(''bbn1'', [])]\<rparr>"
  have inv: "boot_inv ?s" by (simp add: boot_inv_def)
  have ret: "rpc_returns sampleEnv" by (simp add: rpc_returns_def returns_def sampleEnv_def retG_def)
  obtain r s' where run: "bootstrapWgWait sampleEnv ?s = (r, s')" by force
  with bootstrap_wait_no_deadlock [OF inv ret run] show ?thesis by blast
qed

theorem handleNewBlock_keeps_chain_witness:
  "\<exists>r s' c'. handleNewBlock 4 sampleEnv 2 (sampleHeader 2)
       (sampleReporter\<lparr>r_btcCache := Some \<lparr>blocks = [sampleBlock 1], maxEntries = 3\<rparr>\<rparr>) = (r, s')
     \<and> r_btcCache s' = Some c' \<and> linked sampleHash (blocks c')"
proof -
  let ?c = "\<lparr>blocks = [sampleBlock 1], maxEntries = 3\<rparr> :: btcCache"
  let ?s = "sampleReporter\<lparr>r_btcCache := Some ?c\<rparr>"
  have env: "re_BlockHash sampleEnv = sampleHash" "re_btcClient sampleEnv = sampleRpc 3"
    by (simp_all add: sampleEnv_def)
  obtain r s' where run: "handleNewBlock 4 sampleEnv 2 (sampleHeader 2) ?s = (r, s')" by force
  have "node_serves sampleHash (sampleChain 3) (sampleRpc 3) w" for w :: sampleWorld
    by (rule sampleRpc_serves) simp_all
  from GetBlockByHash_serves [OF sampleRpc_contract this, of 2]
  have get: "GetBlockByHash (sampleRpc 3) 2 w = (Ok (indexedAt (sampleChain 3) 2, sampleChain 3 ! 2), w)"
    for w :: sampleWorld by (simp add: sampleChain_hash)
  have "\<exists>c'. r_btcCache s' = Some c' \<and> wf_cache c' \<and> linked (re_BlockHash sampleEnv) (blocks c')
    \<and> (\<forall>t. BTCCache_Tip ?c = Some t \<and> ib_Height t < 2 \<and> \<not> ib_Height t + 1 < 2
         \<and> bh_PrevBlock (sampleHeader 2) \<noteq> re_BlockHash sampleEnv (ib_Header t) \<longrightarrow> blocks c' = [] \<and> (\<exists>e. r = Err e))"
  proof (rule handleNewBlock_keeps_chain [OF _ _ _ _ run])
    fix w ib mb w'
    assume "GetBlockByHash (re_btcClient sampleEnv) (re_BlockHash sampleEnv (sampleHeader 2)) w = (Ok (ib, mb), w')"
    then show "ib_Header ib = sampleHeader 2 \<and> ib_Height ib = 2"
      by (simp add: env get) (auto simp: indexedAt_def NewIndexedBlockFromMsgBlock_def sampleChain_def)
  qed (simp_all add: wf_cache_def)
  then show ?thesis using run env by auto
qed

end
