(* ===== verification/Node_Setup.thy ===== *)
theory Node_Setup
  imports Config Retry_Wrap
begin

text \<open>
  Connections to the outside: the wallet and the notifier of the Bitcoin node
  (\<open>btcclient/client_wallet.go\<close>, \<open>btcclient/notifier.go\<close>), the fee estimator
  (\<open>submitter/relayer/estimator.go\<close>), the indexer (\<open>btcstaking-tracker/indexer\<close>), unspent
  outputs (\<open>types/utxo.go\<close>) and the build information (\<open>version/version.go\<close>). The libraries
  that open connections and decode JSON are arguments.
\<close>

subsection \<open>The wallet\<close>

record connConfig =
  conn_Host :: string
  conn_HTTPPostMode :: bool
  conn_User :: string
  conn_Pass :: string
  conn_DisableTLS :: bool

record 'rpc client =
  cl_Client :: 'rpc
  cl_params :: chainParams
  cl_cfg :: btcConfig
  cl_retrySleepTime :: int
  cl_maxRetrySleepTime :: int
  cl_maxRetryTimes :: nat

definition walletConn :: "btcConfig \<Rightarrow> connConfig" where
  "walletConn cfg = \<lparr>conn_Host = rpcHostURL (bc_Endpoint cfg) (bc_WalletName cfg), conn_HTTPPostMode = True,
     conn_User = bc_Username cfg, conn_Pass = bc_Password cfg, conn_DisableTLS = bc_DisableTLS cfg\<rparr>"

definition NewWallet :: "(connConfig \<Rightarrow> ('w, 'rpc) prog) \<Rightarrow> 'bbn config \<Rightarrow> ('w, 'rpc client) prog" where
  "NewWallet rpcclientNew cfg =
     bindG (sumG (GetBTCParams (bc_NetParams (cfg_BTC cfg)))) (\<lambda>params.
     bindG (wrapG ''failed to create rpc client to BTC: '' (rpcclientNew (walletConn (cfg_BTC cfg)))) (\<lambda>rpcClient.
       retG \<lparr>cl_Client = rpcClient, cl_params = params, cl_cfg = cfg_BTC cfg, cl_retrySleepTime = cc_RetrySleepTime (cfg_Common cfg),
         cl_maxRetrySleepTime = cc_MaxRetrySleepTime (cfg_Common cfg), cl_maxRetryTimes = cc_MaxRetryTimes (cfg_Common cfg)\<rparr>))"

definition GetWalletPass :: "'rpc client \<Rightarrow> string" where
  "GetWalletPass c = bc_WalletPassword (cl_cfg c)"

definition GetWalletLockTime :: "'rpc client \<Rightarrow> int" where
  "GetWalletLockTime c = bc_WalletLockTime (cl_cfg c)"

definition GetBTCConfig :: "'rpc client \<Rightarrow> btcConfig" where
  "GetBTCConfig c = cl_cfg c"

text \<open>
  \<open>SendRawTransactionWithBurnLimit\<close>: the parameters of the request are JSON values. A hex string
  has no character to escape; the encoding of floats and the decoding of the answer are arguments.
\<close>

definition defaultMaxFeeRate :: rat where "defaultMaxFeeRate = 1 / 10"

definition jsonHex :: "string \<Rightarrow> string" where
  "jsonHex s = [CHR 0x22] @ s @ [CHR 0x22]"

definition SendRawTransactionWithBurnLimit ::
  "('tx \<Rightarrow> goerr + bytes) \<Rightarrow> (rat \<Rightarrow> f64) \<Rightarrow> (f64 \<Rightarrow> goerr + string) \<Rightarrow> (string \<Rightarrow> string list \<Rightarrow> ('w, string) prog)
    \<Rightarrow> (string \<Rightarrow> goerr + string) \<Rightarrow> (string \<Rightarrow> goerr + hash) \<Rightarrow> 'tx \<Rightarrow> bool \<Rightarrow> f64 \<Rightarrow> ('w, hash) prog" where
  "SendRawTransactionWithBurnLimit serialize rnd marshalFloat rawRequest unmarshalString newHashFromStr tx allowHighFees maxBurnAmount =
     bindG (sumG (serialize tx)) (\<lambda>raw.
     bindG (sumG (marshalFloat (if allowHighFees then Fin 0 else rnd defaultMaxFeeRate))) (\<lambda>maxFeeJSON.
     bindG (sumG (marshalFloat maxBurnAmount)) (\<lambda>maxBurnJSON.
     bindG (rawRequest ''sendrawtransaction'' [jsonHex (hexEncode raw), maxFeeJSON, maxBurnJSON]) (\<lambda>rawResp.
     bindG (sumG (unmarshalString rawResp)) (\<lambda>txHashStr.
       sumG (newHashFromStr txHashStr))))))"

subsection \<open>The notifier\<close>

record bitcoind =
  bi_RPCHost :: string
  bi_RPCUser :: string
  bi_RPCPass :: string
  bi_ZMQPubRawBlock :: string
  bi_ZMQPubRawTx :: string
  bi_ZMQReadDeadline :: int
  bi_EstimateMode :: string
  bi_PrunedNodeMaxPeers :: int
  bi_RPCPolling :: bool
  bi_BlockPollingInterval :: int
  bi_TxPollingInterval :: int
  bi_BlockCacheSize :: u64

definition DefaultBitcoindConfig :: bitcoind where
  "DefaultBitcoindConfig = \<lparr>bi_RPCHost = ''127.0.01:18556'', bi_RPCUser = ''rpcuser'', bi_RPCPass = ''rpcpass'',
     bi_ZMQPubRawBlock = ''tcp://127.0.0.1:29001'', bi_ZMQPubRawTx = ''tcp://127.0.0.1:29002'', bi_ZMQReadDeadline = 30 * second,
     bi_EstimateMode = ''CONSERVATIVE'', bi_PrunedNodeMaxPeers = 0, bi_RPCPolling = True, bi_BlockPollingInterval = 30 * second,
     bi_TxPollingInterval = 30 * second, bi_BlockCacheSize = 20 * 1024 * 1024\<rparr>"

definition ToBitcoindConfig :: "btcConfig \<Rightarrow> bitcoind" where
  "ToBitcoindConfig cfg = DefaultBitcoindConfig\<lparr>bi_RPCHost := bc_Endpoint cfg, bi_RPCUser := bc_Username cfg, bi_RPCPass := bc_Password cfg,
     bi_ZMQPubRawBlock := bc_ZmqBlockEndpoint cfg, bi_ZMQPubRawTx := bc_ZmqTxEndpoint cfg, bi_EstimateMode := bc_EstimateMode cfg\<rparr>"

text \<open>How the node is watched: by polling (block and transaction interval) or over ZMQ (two hosts, two times).\<close>

datatype nodeEvents = PollingConfig int int | ZMQConfig string string int int

record nodeConn =
  nc_ChainParams :: chainParams
  nc_Host :: string
  nc_User :: string
  nc_Pass :: string
  nc_PrunedModeMaxPeers :: int
  nc_events :: nodeEvents

definition nodeConnOf :: "bitcoind \<Rightarrow> chainParams \<Rightarrow> nodeConn" where
  "nodeConnOf cfg params = \<lparr>nc_ChainParams = params, nc_Host = bi_RPCHost cfg, nc_User = bi_RPCUser cfg, nc_Pass = bi_RPCPass cfg,
     nc_PrunedModeMaxPeers = bi_PrunedNodeMaxPeers cfg,
     nc_events = (if bi_RPCPolling cfg then PollingConfig (bi_BlockPollingInterval cfg) (bi_TxPollingInterval cfg)
                  else ZMQConfig (bi_ZMQPubRawBlock cfg) (bi_ZMQPubRawTx cfg) (bi_ZMQReadDeadline cfg) (bi_TxPollingInterval cfg))\<rparr>"

definition NewNodeBackend ::
  "(nodeConn \<Rightarrow> ('w, 'conn) prog) \<Rightarrow> ('conn \<Rightarrow> ('w, unit) prog) \<Rightarrow> ('conn \<Rightarrow> chainParams \<Rightarrow> u64 \<Rightarrow> 'notifier) \<Rightarrow> bitcoind \<Rightarrow> chainParams \<Rightarrow> ('w, 'notifier) prog" where
  "NewNodeBackend newBitcoindConn start bitcoindnotifyNew cfg params =
     bindG (newBitcoindConn (nodeConnOf cfg params)) (\<lambda>bitcoindConn.
     bindG (tryG (start bitcoindConn)) (\<lambda>r. case r of
       Inl err \<Rightarrow> failG (errorf (''unable to connect to bitcoind: '' @ errText err))
     | Inr _ \<Rightarrow> retG (bitcoindnotifyNew bitcoindConn params (bi_BlockCacheSize cfg))))"

definition NewNodeBackendWithParams ::
  "(nodeConn \<Rightarrow> ('w, 'conn) prog) \<Rightarrow> ('conn \<Rightarrow> ('w, unit) prog) \<Rightarrow> ('conn \<Rightarrow> chainParams \<Rightarrow> u64 \<Rightarrow> 'notifier) \<Rightarrow> btcConfig \<Rightarrow> ('w, 'notifier) prog" where
  "NewNodeBackendWithParams newBitcoindConn start bitcoindnotifyNew cfg =
     bindG (wrapG ''failed to get BTC net params: '' (sumG (GetBTCParams (bc_NetParams cfg)))) (\<lambda>btcParams.
       wrapG ''failed to initialize notifier: '' (NewNodeBackend newBitcoindConn start bitcoindnotifyNew (ToBitcoindConfig cfg) btcParams))"

subsection \<open>The fee estimator\<close>

definition relayer_rpcHostURL :: "string \<Rightarrow> string \<Rightarrow> string" where
  "relayer_rpcHostURL host walletName = (if length walletName > 0 then host @ ''/wallet/'' @ walletName else host)"

definition NewFeeEstimator ::
  "(connConfig \<Rightarrow> string \<Rightarrow> int \<Rightarrow> ('w, 'est) prog) \<Rightarrow> ('est \<Rightarrow> ('w, unit) prog) \<Rightarrow> (int \<Rightarrow> int) \<Rightarrow> btcConfig \<Rightarrow> ('w, 'est) prog" where
  "NewFeeEstimator newBitcoindEstimator start feePerKWeight cfg =
     (let connCfg = \<lparr>conn_Host = relayer_rpcHostURL (bc_Endpoint cfg) (bc_WalletName cfg), conn_HTTPPostMode = True,
        conn_User = bc_Username cfg, conn_Pass = bc_Password cfg, conn_DisableTLS = bc_DisableTLS cfg\<rparr> in
      bindG (wrapG ''failed to create fee estimator: '' (newBitcoindEstimator connCfg (bc_EstimateMode cfg) (feePerKWeight (bc_DefaultFee cfg)))) (\<lambda>estimator.
      bindG (wrapG ''failed to initiate the fee estimator: '' (start estimator)) (\<lambda>_. retG estimator)))"

text \<open>Wallet and estimator talk to the same endpoint.\<close>

lemma estimator_same_endpoint: "relayer_rpcHostURL host w = rpcHostURL host w"
  by (simp add: relayer_rpcHostURL_def rpcHostURL_def)

subsection \<open>Unspent outputs\<close>

record listUnspentResult =
  lu_TxID :: string
  lu_Vout :: u32
  lu_Address :: string
  lu_ScriptPubKey :: string
  lu_Amount :: f64

record 'addr utxo =
  ut_TxID :: hash
  ut_Vout :: u32
  ut_ScriptPK :: bytes
  ut_Amount :: int
  ut_Addr :: 'addr

definition NewUTXO :: "(string \<Rightarrow> goerr + hash) \<Rightarrow> (string \<Rightarrow> goerr + 'addr) \<Rightarrow> (f64 \<Rightarrow> goerr + int) \<Rightarrow> listUnspentResult \<Rightarrow> goerr + 'addr utxo" where
  "NewUTXO newHashFromStr decodeAddress newAmount r = (case hexDecode (lu_ScriptPubKey r) of Inl e \<Rightarrow> Inl e
     | Inr prevPKScript \<Rightarrow> (case newHashFromStr (lu_TxID r) of Inl e \<Rightarrow> Inl e
       | Inr txID \<Rightarrow> (case decodeAddress (lu_Address r) of Inl e \<Rightarrow> Inl e
         | Inr prevAddr \<Rightarrow> (case newAmount (lu_Amount r) of Inl e \<Rightarrow> Inl e
           | Inr amount \<Rightarrow> Inr \<lparr>ut_TxID = txID, ut_Vout = lu_Vout r, ut_ScriptPK = prevPKScript, ut_Amount = amount, ut_Addr = prevAddr\<rparr>))))"

definition GetOutPoint :: "'addr utxo \<Rightarrow> outPoint" where
  "GetOutPoint u = \<lparr>op_Hash = ut_TxID u, op_Index = ut_Vout u\<rparr>"

subsection \<open>The indexer\<close>

record outspendResponse =
  os_Spent :: bool
  os_TxID :: string
  os_Vin :: int
  os_Confirmed :: bool
  os_BlockHeight :: int
  os_BlockHash :: string
  os_BlockTime :: int

definition noOutspend :: outspendResponse where
  "noOutspend = \<lparr>os_Spent = False, os_TxID = [], os_Vin = 0, os_Confirmed = False, os_BlockHeight = 0, os_BlockHash = [], os_BlockTime = 0\<rparr>"

definition maxResponseSize :: nat where "maxResponseSize = 512 * 1024"

fun decimal :: "nat \<Rightarrow> string" where
  "decimal n = (if n < 10 then [char_of (48 + n)] else decimal (n div 10) @ [char_of (48 + n mod 10)])"

declare decimal.simps [simp del]

definition outspendURL :: "string \<Rightarrow> string \<Rightarrow> u32 \<Rightarrow> string" where
  "outspendURL baseURL txID vout = baseURL @ ''/tx/'' @ txID @ ''/outspend/'' @ decimal (unat vout)"

text \<open>
  One attempt. \<open>response\<close> is a variable of the caller into which every attempt decodes: \<open>decode\<close>
  gets the bytes within the limit and the old value and yields the new one, and the error if it
  fails, with a flag for \<open>io.EOF\<close>.
\<close>

definition outspendAttempt ::
  "('w, int \<times> bytes) prog \<Rightarrow> (bytes \<Rightarrow> outspendResponse \<Rightarrow> (bool \<times> goerr) option \<times> outspendResponse) \<Rightarrow> ('w \<times> outspendResponse, unit) prog" where
  "outspendAttempt httpGet decode =
     bindG (outerG httpGet) (\<lambda>(statusCode, body).
       if statusCode \<noteq> 200 then failG (errorf ''unexpected status code'')
       else bindG (getG snd) (\<lambda>response.
         case decode (take maxResponseSize body) response of (err, response') \<Rightarrow>
           bindG (localG (\<lambda>_. response')) (\<lambda>_. case err of
             None \<Rightarrow> retG ()
           | Some (eof, e) \<Rightarrow> if eof then failG (errorf ''response exceeded maximum size'') else failG e)))"

definition GetOutspend ::
  "('w \<times> outspendResponse, unit) retryDo \<Rightarrow> (string \<Rightarrow> ('w, int \<times> bytes) prog) \<Rightarrow> (bytes \<Rightarrow> outspendResponse \<Rightarrow> (bool \<times> goerr) option \<times> outspendResponse)
    \<Rightarrow> string \<Rightarrow> string \<Rightarrow> u32 \<Rightarrow> ('w, outspendResponse) prog" where
  "GetOutspend rd httpGet decode baseURL txID vout =
     withLocal noOutspend (rd None (\<lambda>_. True) (outspendAttempt (httpGet (outspendURL baseURL txID vout)) decode))"

text \<open>An answer of the indexer was decoded from a response with status 200, from at most half a megabyte of it.\<close>

lemma outspend_decoded:
  assumes "retry_ctx_contract rd" and "GetOutspend rd httpGet decode baseURL txID vout w = (Ok r, w')"
  shows "\<exists>v body old. httpGet (outspendURL baseURL txID vout) v = (Ok (200, body), w') \<and> decode (take maxResponseSize body) old = (None, r)"
proof -
  from assms(2) have "rd None (\<lambda>_. True) (outspendAttempt (httpGet (outspendURL baseURL txID vout)) decode) (w, noOutspend) = (Ok (), (w', r))"
    by (auto simp: GetOutspend_def withLocal_def split: prod.splits outcome.splits)
  from retry_ctx_ok [OF assms(1) this] obtain v old where "outspendAttempt (httpGet (outspendURL baseURL txID vout)) decode (v, old) = (Ok (), (w', r))"
    by (metis surj_pair)
  then show ?thesis unfolding outspendAttempt_def
    by (auto elim!: bindG_Ok_E simp: outerG_def zoomG_def getG_def failG_def split: prod.splits if_splits option.splits) blast
qed

subsection \<open>Build information\<close>

fun commitLoop :: "(string \<times> string) list \<Rightarrow> nat \<Rightarrow> string \<times> string \<Rightarrow> string \<times> string" where
  "commitLoop [] hashLen (h, t) = (h, t)"
| "commitLoop ((k, v) # settings) hashLen (h, t) =
     (if k = ''vcs.revision'' then
        (let n = (if length v < hashLen then length v else hashLen) in commitLoop settings n (take n v, t))
      else if k = ''vcs.time'' then commitLoop settings hashLen (h, v)
      else commitLoop settings hashLen (h, t))"

definition CommitInfo :: "(string \<times> string) list option \<Rightarrow> string \<times> string" where
  "CommitInfo info = (case info of None \<Rightarrow> (''unknown'', ''unknown'') | Some settings \<Rightarrow> commitLoop settings 7 (''unknown'', ''unknown''))"

end
