(* ===== verification/Submitter.thy ===== *)
theory Submitter
  imports Relayer_Correct Reporter Node_Setup
begin

text \<open>
  The submitter daemon, \<open>submitter/submitter.go\<close> and \<open>submitter/poller/poller.go\<close>: one goroutine
  polls Babylon for sealed checkpoints and pushes the oldest one into a channel, another takes
  checkpoints from the channel and hands them to the relayer.

  The channel is a list bounded by its capacity. A goroutine is a value that says where it
  stands: the polling one is between two ticks or blocked in the send to the channel, the
  processing one runs its handler in one step. A tick can happen at any time. The query of the
  sealed checkpoints and of the parameters are arguments; the interleavings of the goroutines
  with \<open>Start\<close> and \<open>Stop\<close> are the steps of \<open>submitterStep\<close>.
\<close>

subsection \<open>The poller\<close>

fun oldestFrom :: "ckptWithMeta \<Rightarrow> ckptWithMeta list \<Rightarrow> ckptWithMeta" where
  "oldestFrom oldestCkpt [] = oldestCkpt"
| "oldestFrom oldestCkpt (ckpt # ckpts) =
     oldestFrom (if rcr_EpochNum (cwm_Ckpt oldestCkpt) > rcr_EpochNum (cwm_Ckpt ckpt) then ckpt else oldestCkpt) ckpts"

text \<open>The checkpoint to be pushed into the channel, if any.\<close>

definition PollSealedCheckpoints :: "('w, ckptWithMeta list) prog \<Rightarrow> ('w, ckptWithMeta option) prog" where
  "PollSealedCheckpoints rawCheckpointList =
     bindG rawCheckpointList (\<lambda>sealedCheckpoints. case sealedCheckpoints of
       [] \<Rightarrow> retG None
     | first # _ \<Rightarrow> retG (Some (oldestFrom first sealedCheckpoints)))"

subsection \<open>The daemon\<close>

datatype pollTask = PollWaiting | PollSending ckptWithMeta

record ('w, 'db) submitter =
  su_relayer :: "('w, 'db) relayer"
  su_bufferSize :: nat
  su_rawCkptChan :: "ckptWithMeta list"
  su_started :: bool
  su_quit :: bool
  su_pollers :: "pollTask list"
  su_processors :: nat

text \<open>The relayer is created with the tag and the estimator; the rest of its environment is fixed.\<close>

definition submitter_setup ::
  "(bytes \<Rightarrow> 'est \<Rightarrow> ('w, 'db, 'raw, 'btc) relayerEnv) \<Rightarrow> ('w, btccParams) retryDo \<Rightarrow> nat \<Rightarrow> ('w, btccParams) prog \<Rightarrow> ('w, 'est) prog
    \<Rightarrow> ('w, ('w, 'db, 'raw, 'btc) relayerEnv) prog" where
  "submitter_setup mkEnv rd maxRetryTimes btcCheckpointParams newFeeEstimator =
     bindG (wrapG ''failed to get checkpoint params: '' (retrywrap_Do rd (Some maxRetryTimes) btcCheckpointParams)) (\<lambda>r.
     bindG (derefG r) (\<lambda>params.
     bindG (wrapG ''failed to decode checkpoint tag: '' (sumG (hexDecode (bp_CheckpointTag params)))) (\<lambda>checkpointTag.
     bindG (wrapG ''failed to create fee estimator: '' newFeeEstimator) (\<lambda>est. retG (mkEnv checkpointTag est)))))"

definition submitter_New ::
  "(bytes \<Rightarrow> 'est \<Rightarrow> ('w, 'db, 'raw, 'btc) relayerEnv) \<Rightarrow> ('w, btccParams) retryDo \<Rightarrow> nat \<Rightarrow> ('w, btccParams) prog \<Rightarrow> ('w, 'est) prog
    \<Rightarrow> nat \<Rightarrow> 'db \<Rightarrow> 'w \<Rightarrow> (('w, 'db, 'raw, 'btc) relayerEnv \<times> ('w, 'db) submitter) outcome" where
  "submitter_New mkEnv rd maxRetryTimes btcCheckpointParams newFeeEstimator bufferSize db w =
     (case submitter_setup mkEnv rd maxRetryTimes btcCheckpointParams newFeeEstimator w of
       (Ok env, w') \<Rightarrow> (case relayer_New env w' db of
            Ok r \<Rightarrow> Ok (env, \<lparr>su_relayer = r, su_bufferSize = bufferSize, su_rawCkptChan = [], su_started = False, su_quit = False,
                             su_pollers = [], su_processors = 0\<rparr>)
          | Err e \<Rightarrow> Err e | Panic p \<Rightarrow> Panic p | NoFuel \<Rightarrow> NoFuel)
     | (Err e, _) \<Rightarrow> Err e | (Panic p, _) \<Rightarrow> Panic p | (NoFuel, _) \<Rightarrow> NoFuel)"

text \<open>\<open>WaitForShutdown\<close> returns once no goroutine is left.\<close>

definition shutDown :: "('w, 'db) submitter \<Rightarrow> bool" where
  "shutDown s \<longleftrightarrow> su_pollers s = [] \<and> su_processors s = 0"

definition ShuttingDown :: "('w, 'db) submitter \<Rightarrow> bool" where
  "ShuttingDown s = su_quit s"

definition launch :: "('w, 'db) submitter \<Rightarrow> ('w, 'db) submitter" where
  "launch s = s\<lparr>su_pollers := su_pollers s @ [PollWaiting], su_processors := su_processors s + 1\<rparr>"

text \<open>\<open>None\<close>: the call blocks in \<open>WaitForShutdown\<close>.\<close>

definition submitter_Start :: "('w, 'db) submitter \<Rightarrow> ('w, 'db) submitter option" where
  "submitter_Start s =
     (if su_quit s then (if shutDown s then Some (launch (s\<lparr>su_quit := False\<rparr>)) else None)
      else if su_started s then Some s
      else Some (launch (s\<lparr>su_started := True\<rparr>)))"

definition submitter_Stop :: "('w, 'db) submitter \<Rightarrow> ('w, 'db) submitter" where
  "submitter_Stop s = s\<lparr>su_quit := True\<rparr>"

text \<open>The body of \<open>processCheckpoints\<close> for one checkpoint; errors are logged and counted.\<close>

definition processCheckpoint :: "('w, 'db, 'raw, 'btc) relayerEnv \<Rightarrow> ckptWithMeta \<Rightarrow> (('w, 'db) relayer, unit) prog" where
  "processCheckpoint env ckpt =
     bindG (tryG (SendCheckpointToBTC env ckpt)) (\<lambda>r. case r of
       Inl _ \<Rightarrow> retG ()
     | Inr _ \<Rightarrow> bindG (tryG (MaybeResubmitSecondCheckpointTx env ckpt)) (\<lambda>_. retG ()))"

definition withWorldS :: "'w \<Rightarrow> ('w, 'db) submitter \<Rightarrow> ('w, 'db) submitter" where
  "withWorldS w s = s\<lparr>su_relayer := (su_relayer s)\<lparr>rl_world := w\<rparr>\<rparr>"

text \<open>What the polling goroutine does with the outcome of a poll: an error is logged.\<close>

fun afterPoll :: "ckptWithMeta option outcome \<Rightarrow> pollTask" where
  "afterPoll (Ok (Some ckpt)) = PollSending ckpt"
| "afterPoll _ = PollWaiting"

inductive submitterStep ::
  "('w, 'db, 'raw, 'btc) relayerEnv \<Rightarrow> ('w, ckptWithMeta list) prog \<Rightarrow> ('w, 'db) submitter \<Rightarrow> ('w, 'db) submitter \<Rightarrow> bool"
  for env rawCheckpointList where
  start: "submitter_Start s = Some s' \<Longrightarrow> submitterStep env rawCheckpointList s s'"
| stop: "submitterStep env rawCheckpointList s (submitter_Stop s)"
| tick: "su_pollers s = ts @ PollWaiting # us \<Longrightarrow>
    PollSealedCheckpoints rawCheckpointList (rl_world (su_relayer s)) = (r, w') \<Longrightarrow> isOk r \<or> (\<exists>e. r = Err e) \<Longrightarrow>
    submitterStep env rawCheckpointList s ((withWorldS w' s)\<lparr>su_pollers := ts @ afterPoll r # us\<rparr>)"
| push: "su_pollers s = ts @ PollSending ckpt # us \<Longrightarrow> length (su_rawCkptChan s) < su_bufferSize s \<Longrightarrow>
    submitterStep env rawCheckpointList s (s\<lparr>su_pollers := ts @ PollWaiting # us, su_rawCkptChan := su_rawCkptChan s @ [ckpt]\<rparr>)"
| pollQuit: "su_pollers s = ts @ PollWaiting # us \<Longrightarrow> su_quit s \<Longrightarrow>
    submitterStep env rawCheckpointList s (s\<lparr>su_pollers := ts @ us\<rparr>)"
| process: "0 < su_processors s \<Longrightarrow> su_rawCkptChan s = ckpt # rest \<Longrightarrow>
    processCheckpoint env ckpt (su_relayer s) = (Ok (), r') \<Longrightarrow>
    submitterStep env rawCheckpointList s (s\<lparr>su_relayer := r', su_rawCkptChan := rest\<rparr>)"
| processQuit: "0 < su_processors s \<Longrightarrow> su_quit s \<Longrightarrow>
    submitterStep env rawCheckpointList s (s\<lparr>su_processors := su_processors s - 1\<rparr>)"

end
