(* ===== verification/Submitter_Correct.thy ===== *)
theory Submitter_Correct
  imports Submitter
begin

text \<open>
  The properties of the submitter: the poller chooses the oldest checkpoint, the channel is
  bounded and holds sealed checkpoints only, and what has been submitted is never submitted
  again in any run of the daemon.
\<close>

subsection \<open>The poller\<close>

lemma oldestFrom_least:
  "oldestFrom c cs \<in> insert c (set cs) \<and> (\<forall>d\<in>insert c (set cs). rcr_EpochNum (cwm_Ckpt (oldestFrom c cs)) \<le> rcr_EpochNum (cwm_Ckpt d))"
proof (induction cs arbitrary: c)
  case (Cons d cs)
  let ?m = "if rcr_EpochNum (cwm_Ckpt c) > rcr_EpochNum (cwm_Ckpt d) then d else c"
  have "rcr_EpochNum (cwm_Ckpt ?m) \<le> rcr_EpochNum (cwm_Ckpt c)" "rcr_EpochNum (cwm_Ckpt ?m) \<le> rcr_EpochNum (cwm_Ckpt d)" by auto
  with Cons.IH [of ?m] show ?case by (auto intro: order_trans)
qed simp

text \<open>
  A poll pushes nothing when no checkpoint is sealed, and otherwise a listed checkpoint whose
  epoch is not above that of any other.
\<close>

theorem poll_oldest:
  assumes "rawCheckpointList w = (Ok ckpts, w')"
  shows "\<exists>r. PollSealedCheckpoints rawCheckpointList w = (Ok r, w') \<and>
    (case r of None \<Rightarrow> ckpts = [] | Some c \<Rightarrow> c \<in> set ckpts \<and> (\<forall>d\<in>set ckpts. rcr_EpochNum (cwm_Ckpt c) \<le> rcr_EpochNum (cwm_Ckpt d)))"
proof (cases ckpts)
  case Nil
  then show ?thesis using assms by (simp add: PollSealedCheckpoints_def retG_def)
next
  case (Cons c cs)
  then show ?thesis using assms oldestFrom_least [of c "c # cs"]
    by (simp add: PollSealedCheckpoints_def retG_def del: oldestFrom.simps)
qed

subsection \<open>What has been submitted stays submitted\<close>

lemma settled_world: "settled e s \<Longrightarrow> settled e (s\<lparr>rl_world := w\<rparr>)"
  by (simp add: settled_def Let_def)

lemma settled_db: "keeps (settled e) (dbL m)"
  unfolding dbL_def by (rule keeps_zoomG) (simp add: settled_def Let_def)

lemma keeps_storeCkpt: "keeps (settled e) (storeCkpt env c)"
  unfolding storeCkpt_def by (intro keeps_rules settled_db)

lemma keeps_submitNew:
  fixes env :: "('w, 'db, 'raw, 'btc) relayerEnv"
  shows "keeps (settled e) (submitNew env ckpt)"
  unfolding keeps_def
proof (intro allI impI)
  fix s :: "('w, 'db) relayer" assume s: "settled e s"
  let ?l = "rl_lastSubmittedCheckpoint s"
  have conv: "keeps (settled e) (convertCkptToTwoTxAndSubmit env ckpt)"
    by (rule keeps_convert) (auto simp: settled_def Let_def)
  have "\<not> shouldSendTx2 ?l (rcr_EpochNum ckpt)" using s by (auto simp: settled_def Let_def shouldSendTx2_def)
  moreover have "settled e (snd (bindG (convertCkptToTwoTxAndSubmit env ckpt) (recordSubmitted env) s))"
    if "shouldSendCompleteCkpt ?l (rcr_EpochNum ckpt)"
  proof -
    obtain r s1 where run: "convertCkptToTwoTxAndSubmit env ckpt s = (r, s1)" by force
    have s1: "settled e s1" by (rule keepsD [OF conv s run])
    show ?thesis
    proof (cases r)
      case (Ok c)
      with run have c: "ci_Epoch c = rcr_EpochNum ckpt" "ci_Tx1 c \<noteq> None" "ci_Tx2 c \<noteq> None"
        by (auto simp: convertCkptToTwoTxAndSubmit_def elim!: bindG_Ok_E split: prod.splits)
      have "e \<le> rcr_EpochNum ckpt" using s that by (auto simp: settled_def Let_def shouldSendCompleteCkpt_def)
      then have "settled e (s1\<lparr>rl_lastSubmittedCheckpoint := c\<rparr>)" using c by (simp add: settled_def Let_def)
      then show ?thesis using run Ok keeps_storeCkpt [of e env c] by (simp add: recordSubmitted_def keeps_def)
    qed (use run s1 in \<open>simp_all\<close>)
  qed
  ultimately show "settled e (snd (submitNew env ckpt s))" using s by (simp add: submitNew_def retG_def)
qed

lemma keeps_Send:
  fixes env :: "('w, 'db, 'raw, 'btc) relayerEnv"
  shows "keeps (settled e) (SendCheckpointToBTC env ckpt)"
  unfolding keeps_def
proof (intro allI impI)
  fix s :: "('w, 'db) relayer" assume s: "settled e s"
  let ?e = "rcr_EpochNum (cwm_Ckpt ckpt)" and ?l = "rl_lastSubmittedCheckpoint s"
  let ?m = "bindG (if shouldSendCompleteCkpt ?l ?e \<or> shouldSendTx2 ?l ?e then maybeResendFromStore env ?e else retG False)
      (\<lambda>p. if p then retG () else submitNew env (cwm_Ckpt ckpt))"
  have "keeps (settled e) (maybeResendFromStore env ?e)"
    by (rule keeps_of_world [OF keeps_storeResend]) (rule settled_world)
  then have m: "keeps (settled e) ?m" by (intro keeps_rules keeps_submitNew)
  obtain t2 where "ci_Tx2 ?l = Some t2" using s by (auto simp: settled_def Let_def)
  then have "SendCheckpointToBTC env ckpt s = (if cwm_Status ckpt = Sealed then ?m s else (Ok (), s))"
    by (simp add: SendCheckpointToBTC_def Let_def retG_def)
  moreover have "settled e (snd (?m s))" using m s unfolding keeps_def by blast
  ultimately show "settled e (snd (SendCheckpointToBTC env ckpt s))"
    using s by (cases "cwm_Status ckpt = Sealed") (simp_all only: if_True if_False snd_conv refl)
qed

lemma settled_updTx2: "keeps (settled e) (updTx2 f)"
  unfolding updTx2_def by (rule keeps_modG) (auto simp: settled_def Let_def)

lemma settled_rpcs:
  "keeps (settled e) (rpcL m)" "keeps (settled e) (getFeeRate env)" "keeps (settled e) (calcMinRelayFee env n)"
  "keeps (settled e) (getIncrementalRelayFeerate env)" "keeps (settled e) (signTx env tx)" "keeps (settled e) (sendTxToBTC env tx)"
  "keeps (settled e) (verifyRBFRequirements env h f n)"
  by (rule keeps_of_world, intro keeps_rules, rule settled_world, assumption)+

lemma keeps_replace: "keeps (settled e) (maybeResendSecondTxOfCheckpointToBTC env fee)"
  unfolding maybeResendSecondTxOfCheckpointToBTC_def payBumpedFee_def lastTx2_def Let_def
  by (intro keeps_rules settled_updTx2 settled_rpcs)

lemma keeps_bumped: "keeps (settled e) (calculateBumpedFee env c l)"
  unfolding calculateBumpedFee_def adjustFeeForIncrementTooSmall_def Let_def
  by (intro keeps_rules settled_rpcs)

lemma keeps_shouldResend: "keeps (settled e) (shouldResendCheckpoint env t n)"
  unfolding shouldResendCheckpoint_def by (intro keeps_rules settled_rpcs)

lemma keeps_resendLoop:
  fixes env :: "('w, 'db, 'raw, 'btc) relayerEnv"
  assumes "retry_ctx_contract (rle_retry env)"
  shows "keeps (settled e) (resendLoop env)"
proof -
  have "keeps (\<lambda>p. settled e (fst p)) (resendAttempt env)"
    unfolding resendAttempt_def
    by (intro keeps_rules keeps_outerG keeps_localG keeps_bumped keeps_shouldResend keeps_replace)
  note loop = keeps_retry [OF assms this, of "Some 5" "\<lambda>_. True"]
  show ?thesis unfolding keeps_def
  proof (intro allI impI)
    fix s :: "('w, 'db) relayer" assume s: "settled e s"
    obtain r s' l where run: "rle_retry env (Some 5) (\<lambda>_. True) (resendAttempt env) (s, None) = (r, (s', l))"
      by (metis prod.collapse)
    have "settled e s'" using keepsD [OF loop _ run] s by simp
    then show "settled e (snd (resendLoop env s))" by (simp add: resendLoop_def run)
  qed
qed

lemma keeps_MaybeResubmit:
  assumes "retry_ctx_contract (rle_retry env)"
  shows "keeps (settled e) (MaybeResubmitSecondCheckpointTx env ckpt)"
proof -
  have "keeps (settled e) (modG (\<lambda>s. s\<lparr>rl_lastSubmittedCheckpoint := (rl_lastSubmittedCheckpoint s)\<lparr>ci_Tx2 := Some t, ci_TS := now\<rparr>\<rparr>))" for t now
    by (rule keeps_modG) (simp add: settled_def Let_def)
  then show ?thesis unfolding MaybeResubmitSecondCheckpointTx_def
    by (intro keeps_rules settled_rpcs keeps_resendLoop [OF assms] keeps_storeCkpt)
qed

lemma keeps_process:
  "retry_ctx_contract (rle_retry env) \<Longrightarrow> keeps (settled e) (processCheckpoint env ckpt)"
  unfolding processCheckpoint_def by (intro keeps_rules keeps_Send keeps_MaybeResubmit)

subsection \<open>Runs of the daemon\<close>

inductive_cases submitterStep_E: "submitterStep env q s s'"

lemmas submitter_ops = submitter_Start_def submitter_Stop_def launch_def withWorldS_def

lemma step_settled:
  assumes "retry_ctx_contract (rle_retry env)" and "submitterStep env q s s'" and "settled e (su_relayer s)"
  shows "settled e (su_relayer s')"
  using assms(2)
proof cases
  case (process ckpt rest r')
  then show ?thesis using keepsD [OF keeps_process [OF assms(1)] assms(3)] by simp
qed (use assms(3) in \<open>auto simp: submitter_ops settled_world split: if_splits\<close>)

interpretation settled_run: step_system "submitterStep env q" "\<lambda>s. retry_ctx_contract (rle_retry env) \<longrightarrow> settled e (su_relayer s)" for env q e
  by unfold_locales (blast intro: step_settled)


text \<open>The invariant of the channel and of the goroutines.\<close>

definition chanInv :: "('w, 'db) submitter \<Rightarrow> bool" where
  "chanInv s \<longleftrightarrow> length (su_rawCkptChan s) \<le> su_bufferSize s \<and> (\<forall>c\<in>set (su_rawCkptChan s). cwm_Status c = Sealed)
     \<and> (\<forall>c. PollSending c \<in> set (su_pollers s) \<longrightarrow> cwm_Status c = Sealed)"

definition sealedOnly :: "('w, ckptWithMeta list) prog \<Rightarrow> bool" where
  "sealedOnly q \<longleftrightarrow> (\<forall>w cs w' c. q w = (Ok cs, w') \<longrightarrow> c \<in> set cs \<longrightarrow> cwm_Status c = Sealed)"

lemma poll_sealed:
  assumes "sealedOnly q" and "PollSealedCheckpoints q w = (r, w')" and "afterPoll r = PollSending c"
  shows "cwm_Status c = Sealed"
proof -
  from assms(3) have "r = Ok (Some c)" by (cases r rule: afterPoll.cases) auto
  with assms(2) obtain d ds w1 where q: "q w = (Ok (d # ds), w1)" and c: "c = oldestFrom d (d # ds)"
    unfolding PollSealedCheckpoints_def by (auto elim!: bindG_Ok_E split: list.splits)
  have "c \<in> set (d # ds)" using oldestFrom_least [of d "d # ds"] c by auto
  with q assms(1) show ?thesis unfolding sealedOnly_def by blast
qed

lemma step_chanInv:
  assumes "sealedOnly q" and "submitterStep env q s s'" and "chanInv s"
  shows "chanInv s'"
  using assms(2)
proof cases
  case (tick ts us r w')
  have "cwm_Status c = Sealed" if "PollSending c \<in> set (ts @ afterPoll r # us)" for c
    using that assms(3) tick(2) poll_sealed [OF assms(1) tick(3)] by (auto simp: chanInv_def)
  then show ?thesis using assms(3) tick(1) by (simp add: chanInv_def withWorldS_def)
next
  case start
  then show ?thesis using assms(3) by (auto simp: chanInv_def submitter_Start_def launch_def split: if_splits)
next
  case (push ts ckpt us)
  have sub: "cwm_Status c = Sealed" if "PollSending c \<in> set (ts @ PollSending ckpt # us)" for c
    using assms(3) push(2) that unfolding chanInv_def by metis
  have "cwm_Status c = Sealed" if "PollSending c \<in> set (ts @ PollWaiting # us)" for c
    using that by (intro sub) auto
  moreover have "cwm_Status ckpt = Sealed" by (rule sub) simp
  ultimately show ?thesis using assms(3) push(1,3) unfolding chanInv_def by simp
qed (use assms(3) in \<open>simp_all add: chanInv_def submitter_Stop_def\<close>)

interpretation chan_run: step_system "submitterStep env q" "\<lambda>s. sealedOnly q \<longrightarrow> chanInv s" for env q
  by unfold_locales (blast intro: step_chanInv)

interpretation buffer_run: step_system "submitterStep env q" "\<lambda>s. su_bufferSize s = n" for env q n
  by unfold_locales (auto elim!: submitterStep_E simp: submitter_ops split: if_splits)

lemma New_empty:
  assumes "submitter_New mkEnv rd n params est cap db w = Ok (env, s0)"
  shows "su_rawCkptChan s0 = [] \<and> su_pollers s0 = [] \<and> su_processors s0 = 0 \<and> su_bufferSize s0 = cap"
  using assms unfolding submitter_New_def by (clarsimp split: prod.splits outcome.splits)

text \<open>
  In every run of a new submitter the channel never holds more checkpoints than its
  capacity, and every checkpoint that is polled, waits in the channel or is handed to the
  relayer is sealed, so the relayer's guard against other states is never used.
\<close>

theorem submitter_channel:
  assumes "sealedOnly q" and "submitter_New mkEnv rd n params est cap db w = Ok (env, s0)" and "(submitterStep env q)\<^sup>*\<^sup>* s0 s"
  shows "length (su_rawCkptChan s) \<le> su_bufferSize s \<and> (\<forall>c\<in>set (su_rawCkptChan s). cwm_Status c = Sealed)"
proof -
  have "su_rawCkptChan s0 = []" "su_pollers s0 = []" using New_empty [OF assms(2)] by simp_all
  then have "chanInv s0" by (simp add: chanInv_def)
  then have "chanInv s" using chan_run.run_keeps [OF assms(3)] assms(1) by blast
  then show ?thesis by (simp add: chanInv_def)
qed

subsection \<open>Shutdown\<close>

definition blocked :: "ckptWithMeta \<Rightarrow> ('w, 'db) submitter \<Rightarrow> bool" where
  "blocked c s \<longleftrightarrow> su_quit s \<and> su_processors s = 0 \<and> PollSending c \<in> set (su_pollers s) \<and> length (su_rawCkptChan s) = su_bufferSize s"

lemma step_blocked: "submitterStep env q s s' \<Longrightarrow> blocked c s \<Longrightarrow> blocked c s'"
  by (erule submitterStep_E) (auto simp: blocked_def submitter_ops shutDown_def split: if_splits)

interpretation blocked_run: step_system "submitterStep env q" "blocked c" for env q c
  by unfold_locales (rule step_blocked)

text \<open>
  The send to the channel does not watch \<open>quit\<close>: when the channel is full and no goroutine
  receives any more, the polling goroutine stays blocked in it in every further run, and
  \<open>Start\<close> after \<open>Stop\<close> never returns.
\<close>

theorem shutdown_blocked:
  fixes s :: "('w, 'db) submitter"
  assumes "su_quit s" and "su_processors s = 0" and "PollSending c \<in> set (su_pollers s)" and "length (su_rawCkptChan s) = su_bufferSize s"
    and "(submitterStep env q)\<^sup>*\<^sup>* s s'"
  shows "PollSending c \<in> set (su_pollers s') \<and> \<not> shutDown s' \<and> submitter_Start s' = None"
proof -
  have "blocked c s" using assms(1-4) by (simp add: blocked_def)
  from blocked_run.run_keeps [OF assms(5) this]
  show ?thesis by (auto simp: blocked_def shutDown_def submitter_Start_def)
qed

text \<open>A \<open>Stop\<close> before the first \<open>Start\<close> makes the second \<open>Start\<close> launch every goroutine twice.\<close>

theorem started_twice:
  assumes "\<not> su_started s" and "shutDown s"
  shows "\<exists>s1 s2. submitter_Start (submitter_Stop s) = Some s1 \<and> submitter_Start s1 = Some s2
    \<and> su_processors s2 = 2 \<and> su_pollers s2 = [PollWaiting, PollWaiting]"
  using assms by (simp add: submitter_ops shutDown_def)

subsection \<open>Concrete runs\<close>

definition sampleList :: "(msgTx list, ckptWithMeta list) prog" where
  "sampleList w = (Ok [sampleCkpt\<lparr>cwm_Ckpt := (cwm_Ckpt sampleCkpt)\<lparr>rcr_EpochNum := 8\<rparr>\<rparr>, sampleCkpt], w)"

theorem poll_oldest_witness:
  "PollSealedCheckpoints sampleList [] = (Ok (Some sampleCkpt), [])"
  using poll_oldest [of sampleList "[]" "[sampleCkpt\<lparr>cwm_Ckpt := (cwm_Ckpt sampleCkpt)\<lparr>rcr_EpochNum := 8\<rparr>\<rparr>, sampleCkpt]" "[]"]
  by (auto simp: sampleList_def sampleCkpt_def split: option.splits)

definition sampleSubmitter :: "(msgTx list, string list \<times> ((string \<times> string), bytes) gomap) submitter" where
  "sampleSubmitter = \<lparr>su_relayer = sampleRelayer, su_bufferSize = 1, su_rawCkptChan = [], su_started = False, su_quit = False,
     su_pollers = [], su_processors = 0\<rparr>"

definition sampleParams :: "(msgTx list, btccParams) prog" where
  "sampleParams w = (Ok \<lparr>bp_BtcConfirmationDepth = 6, bp_CheckpointFinalizationTimeout = 20, bp_CheckpointTag = ''00''\<rparr>, w)"

lemma sampleNew:
  "submitter_New (\<lambda>_ _. sampleRelayerEnv) retryOnce 1 sampleParams (retG ()) 1 ([], []) [] = Ok (sampleRelayerEnv, sampleSubmitter)"
proof -
  have "hexDecode ''00'' = Inr [0]" by code_simp
  then have "submitter_setup (\<lambda>_ _. sampleRelayerEnv) retryOnce 1 sampleParams (retG ()) [] = (Ok sampleRelayerEnv, [])"
    by (simp add: submitter_setup_def retrywrap_Do_def retryOnce_def sampleParams_def bindG_def tryG_def wrapG_def retG_def derefG_def sumG_def liftG_def sumOutcome_def)
  moreover have "relayer_New sampleRelayerEnv [] ([], []) = Ok sampleRelayer"
    by (simp add: relayer_New_def NewSubmitterStore_def sampleRelayerEnv_def sampleKv_def sampleRelayer_def)
  ultimately show ?thesis by (simp add: submitter_New_def sampleSubmitter_def)
qed

lemma sampleRun: "(submitterStep sampleRelayerEnv sampleList)\<^sup>*\<^sup>* s
    ((launch (s\<lparr>su_started := True\<rparr>))\<lparr>su_pollers := [PollSending sampleCkpt]\<rparr>)"
  if "\<not> su_started s" "\<not> su_quit s" "su_pollers s = []"
proof -
  let ?s1 = "launch (s\<lparr>su_started := True\<rparr>)"
  have 1: "submitterStep sampleRelayerEnv sampleList s ?s1"
    by (rule submitterStep.start) (use that in \<open>simp add: submitter_Start_def\<close>)
  have poll: "PollSealedCheckpoints sampleList w = (Ok (Some sampleCkpt), w)" for w
    by (simp add: PollSealedCheckpoints_def sampleList_def retG_def sampleCkpt_def)
  have "submitterStep sampleRelayerEnv sampleList ?s1 ((withWorldS (rl_world (su_relayer ?s1)) ?s1)\<lparr>su_pollers := [] @ afterPoll (Ok (Some sampleCkpt)) # []\<rparr>)"
    by (rule submitterStep.tick [OF _ poll]) (use that in \<open>simp_all add: launch_def\<close>)
  then have "submitterStep sampleRelayerEnv sampleList ?s1 (?s1\<lparr>su_pollers := [PollSending sampleCkpt]\<rparr>)"
    by (simp add: withWorldS_def launch_def)
  with 1 show ?thesis by (meson converse_rtranclp_into_rtranclp rtranclp.rtrancl_refl)
qed


theorem submitter_channel_witness:
  "\<exists>s. (submitterStep sampleRelayerEnv sampleList)\<^sup>*\<^sup>* sampleSubmitter s \<and> su_rawCkptChan s = [sampleCkpt] \<and> length (su_rawCkptChan s) \<le> 1"
proof -
  let ?s1 = "(launch (sampleSubmitter\<lparr>su_started := True\<rparr>))\<lparr>su_pollers := [PollSending sampleCkpt]\<rparr>"
  let ?s = "?s1\<lparr>su_pollers := [] @ PollWaiting # [], su_rawCkptChan := su_rawCkptChan ?s1 @ [sampleCkpt]\<rparr>"
  have "(submitterStep sampleRelayerEnv sampleList)\<^sup>*\<^sup>* sampleSubmitter ?s1"
    by (rule sampleRun) (simp_all add: sampleSubmitter_def)
  moreover have "submitterStep sampleRelayerEnv sampleList ?s1 ?s"
    by (rule submitterStep.push) (simp_all add: launch_def sampleSubmitter_def)
  ultimately have run: "(submitterStep sampleRelayerEnv sampleList)\<^sup>*\<^sup>* sampleSubmitter ?s" by (rule rtranclp.rtrancl_into_rtrancl)
  have "sealedOnly sampleList" by (auto simp: sealedOnly_def sampleList_def sampleCkpt_def)
  from submitter_channel [OF this sampleNew run] run show ?thesis
    by (intro exI [of _ ?s]) (simp add: launch_def sampleSubmitter_def)
qed

end
