(* ===== verification/Config_Correct.thy ===== *)
theory Config_Correct
  imports Config Relayer_Correct Reporter
begin

text \<open>
  What a validated configuration guarantees to the daemons that run with it, and what it does
  not: the checks of \<open>config\<close> composed with the code that reads the values.
\<close>

lemmas validates = CommonConfig_Validate_def BTCConfig_Validate_def MetricsConfig_Validate_def SubmitterConfig_Validate_def
  ReporterConfig_Validate_def MonitorConfig_Validate_def BTCStakingTrackerConfig_Validate_def

lemma isOneOf_set: "isOneOf v xs \<longleftrightarrow> v \<in> set xs"
  by (induction xs) auto

lemma known_net: "\<not> unknownNet net \<Longrightarrow> \<exists>p. GetNetParams net = Ok p"
  using GetBTCParams_valid [of net] by (auto simp: unknownNet_def GetNetParams_def GetValidNetParams_def split: if_splits)

lemma Config_Validate_parts:
  assumes "Config_Validate bv parseIP cfg = Inr ()"
  shows "CommonConfig_Validate (cfg_Common cfg) = Inr ()" "BTCConfig_Validate (cfg_BTC cfg) = Inr ()" "bv (cfg_Babylon cfg) = Inr ()"
    "MetricsConfig_Validate parseIP (cfg_Metrics cfg) = Inr ()" "SubmitterConfig_Validate (cfg_Submitter cfg) = Inr ()"
    "ReporterConfig_Validate (cfg_Reporter cfg) = Inr ()" "MonitorConfig_Validate (cfg_Monitor cfg) = Inr ()"
    "BTCStakingTrackerConfig_Validate (cfg_BTCStakingTracker cfg) = Inr ()"
  using assms unfolding Config_Validate_def by auto

subsection \<open>What is guaranteed\<close>

text \<open>The environment of a relayer that reads this section.\<close>

definition readsBTC :: "btcConfig \<Rightarrow> ('w, 'db, 'raw, 'btc) relayerEnv \<Rightarrow> bool" where
  "readsBTC c env \<longleftrightarrow> rle_TargetBlockNum env = bc_TargetBlockNum c \<and> rle_TxFeeMin env = bc_TxFeeMin c
     \<and> rle_TxFeeMax env = bc_TxFeeMax c \<and> rle_DefaultFee env = bc_DefaultFee c"



subsection \<open>The defaults\<close>

lemma default_valid:
  assumes "bv bbn = Inr ()" and "parseIP ''0.0.0.0''" and "\<not> f_lt (rnd (15 / 100)) (Fin 0)"
  shows "Config_Validate bv parseIP (DefaultConfig rnd db bbn) = Inr ()"
  using assms
  by (simp add: Config_Validate_def DefaultConfig_def validates unknownNet_def GetValidNetParams_def DefaultCommonConfig_def DefaultBTCConfig_def
      DefaultMetricsConfig_def DefaultSubmitterConfig_def DefaultReporterConfig_def DefaultMonitorConfig_def DefaultBTCStakingTrackerConfig_def)

text \<open>
  The default configuration is valid, but it has no database for the slasher: opening it
  dereferences a nil pointer.
\<close>

theorem default_tracker_panics:
  "GetDBBackend getBoltBackend (tc_SlasherDatabaseConfig (cfg_BTCStakingTracker (DefaultConfig rnd db bbn))) w = (Panic ''nil pointer dereference'', w)"
  by (simp add: GetDBBackend_def DefaultConfig_def DefaultBTCStakingTrackerConfig_def derefG_def panicG_def bindG_def)

subsection \<open>What is not guaranteed\<close>

text \<open>The target is only checked from below: a validated one makes every fee estimate panic.\<close>

theorem validated_target_panics:
  assumes "readsBTC (DefaultBTCConfig\<lparr>bc_TargetBlockNum := 2 ^ 32\<rparr>) env"
  shows "BTCConfig_Validate (DefaultBTCConfig\<lparr>bc_TargetBlockNum := 2 ^ 32\<rparr>) = Inr ()"
    and "getFeeRate env s = (Panic ''targetBlockNum is out of uint32 range'', s)"
  using assms by (simp_all add: BTCConfig_Validate_def DefaultBTCConfig_def unknownNet_def GetValidNetParams_def readsBTC_def getFeeRate_def panicG_def)

text \<open>A polling interval of zero, on which \<open>time.NewTicker\<close> panics, and a NaN as multiplier pass the checks.\<close>

theorem validated_submitter_gaps:
  "SubmitterConfig_Validate ((DefaultSubmitterConfig Fin db)\<lparr>sc_PollingIntervalSeconds := 0\<rparr>) = Inr ()"
  "SubmitterConfig_Validate ((DefaultSubmitterConfig Fin db)\<lparr>sc_ResubmitFeeMultiplier := NaN\<rparr>) = Inr ()"
  by (simp_all add: SubmitterConfig_Validate_def DefaultSubmitterConfig_def unknownNet_def GetValidNetParams_def)

text \<open>The depth of the monitor is not compared with the size of its cache.\<close>

theorem validated_monitor_gap:
  "MonitorConfig_Validate ((DefaultMonitorConfig db)\<lparr>mo_BtcConfirmationDepth := 200\<rparr>) = Inr ()"
  "mo_BtcCacheSize ((DefaultMonitorConfig db)\<lparr>mo_BtcConfirmationDepth := 200\<rparr>) < 200"
  by (simp_all add: MonitorConfig_Validate_def DefaultMonitorConfig_def)

subsection \<open>Concrete instances\<close>

definition sampleConfig :: "unit config" where
  "sampleConfig = DefaultConfig Fin \<lparr>dc_DBPath = ''data'', dc_DBFileName = ''vigilante.db'', dc_NoFreelistSync = True,
     dc_AutoCompact = False, dc_AutoCompactMinAge = 0, dc_DBTimeout = 0\<rparr> ()"

lemma sampleConfig_valid: "Config_Validate (\<lambda>_. Inr ()) (\<lambda>_. True) sampleConfig = Inr ()"
  unfolding sampleConfig_def by (rule default_valid) simp_all



end
