(* ===== verification/Commands.thy ===== *)
theory Commands
  imports Monitor_Daemon Tracker Submitter_Correct Config_Correct
begin

text \<open>
  The commands of the binary, \<open>cmd/vigilante/cmd\<close>: what runs from the configuration file to a
  started daemon, and the interrupt handlers that end it. Every error of a command panics. The
  clients a command opens only come with the world they talk to; a daemon carries its world in
  its own state, and the state of the command is the world until the daemon is created.

  Shown here: no command starts a daemon from a configuration that does not validate, and the
  daemon has the values of the configuration; interrupt handlers run once each in reverse order of
  their registration; the shutdown of the tracker stops its components if the client of Babylon
  tolerates being stopped twice, and panics half-way if it does not.
\<close>

subsection \<open>Opening the clients\<close>

record ('w, 'bbn, 'rpc, 'conn, 'ntf, 'qc, 'db) cmdEnv =
  ce_babylonValidate :: "'bbn \<Rightarrow> goerr + unit"
  ce_parseIP :: "string \<Rightarrow> bool"
  ce_stat :: "string \<Rightarrow> goerr + bool"
  ce_readAndUnmarshal :: "string \<Rightarrow> goerr + 'bbn config"
  ce_rpcclientNew :: "connConfig \<Rightarrow> ('w, 'rpc) prog"
  ce_newBitcoindConn :: "nodeConn \<Rightarrow> ('w, 'conn) prog"
  ce_connStart :: "'conn \<Rightarrow> ('w, unit) prog"
  ce_bitcoindnotifyNew :: "'conn \<Rightarrow> chainParams \<Rightarrow> u64 \<Rightarrow> 'ntf"
  ce_notifierStart :: "'ntf \<Rightarrow> ('w, unit) prog"
  ce_queryCfgValidate :: "'bbn \<Rightarrow> goerr + unit"
  ce_queryNew :: "'bbn \<Rightarrow> ('w, 'qc) prog"
  ce_bbnclientNew :: "'bbn \<Rightarrow> ('w, 'qc) prog"
  ce_bbnclientStart :: "'qc \<Rightarrow> ('w, unit) prog"
  ce_AccAddressFromBech32 :: "'bbn \<Rightarrow> goerr + bytes"
  ce_setKeyDirectory :: "string \<Rightarrow> 'bbn \<Rightarrow> 'bbn"
  ce_getBoltBackend :: "dbConfig \<Rightarrow> ('w, 'db) prog"

definition cmd_loadConfig :: "('w, 'bbn, 'rpc, 'conn, 'ntf, 'qc, 'db) cmdEnv \<Rightarrow> string \<Rightarrow> ('w, 'bbn config) prog" where
  "cmd_loadConfig env cfgFile = mustG ''failed to load config''
     (sumG (Config_New (ce_babylonValidate env) (ce_parseIP env) (ce_stat env) (ce_readAndUnmarshal env) cfgFile))"

definition cmd_logger :: "'bbn config \<Rightarrow> ('w, unit) prog" where
  "cmd_logger cfg = bindG (mustG ''failed to create logger'' (sumG (CreateLogger (cfg_Common cfg)))) (\<lambda>_. retG ())"

definition cmd_wallet :: "('w, 'bbn, 'rpc, 'conn, 'ntf, 'qc, 'db) cmdEnv \<Rightarrow> 'bbn config \<Rightarrow> ('w, 'rpc client) prog" where
  "cmd_wallet env cfg = mustG ''failed to open BTC client'' (NewWallet (ce_rpcclientNew env) cfg)"

definition cmd_notifier :: "('w, 'bbn, 'rpc, 'conn, 'ntf, 'qc, 'db) cmdEnv \<Rightarrow> 'bbn config \<Rightarrow> ('w, 'ntf) prog" where
  "cmd_notifier env cfg = mustG ''failed to create the chain notifier''
     (NewNodeBackendWithParams (ce_newBitcoindConn env) (ce_connStart env) (ce_bitcoindnotifyNew env) (cfg_BTC cfg))"

definition cmd_queryClient :: "('w, 'bbn, 'rpc, 'conn, 'ntf, 'qc, 'db) cmdEnv \<Rightarrow> 'bbn config \<Rightarrow> ('w, 'qc) prog" where
  "cmd_queryClient env cfg =
     bindG (mustG ''invalid config for the query client'' (sumG (ce_queryCfgValidate env (cfg_Babylon cfg)))) (\<lambda>_.
       mustG ''failed to create babylon query client'' (ce_queryNew env (cfg_Babylon cfg)))"

definition cmd_db :: "('w, 'bbn, 'rpc, 'conn, 'ntf, 'qc, 'db) cmdEnv \<Rightarrow> dbConfig option \<Rightarrow> ('w, 'db) prog" where
  "cmd_db env dbCfg = mustG ''failed to open the database'' (GetDBBackend (ce_getBoltBackend env) dbCfg)"

definition withKeyDir :: "('w, 'bbn, 'rpc, 'conn, 'ntf, 'qc, 'db) cmdEnv \<Rightarrow> string \<Rightarrow> 'bbn config \<Rightarrow> 'bbn config" where
  "withKeyDir env babylonKeyDir cfg =
     (if length babylonKeyDir \<noteq> 0 then cfg\<lparr>cfg_Babylon := ce_setKeyDirectory env babylonKeyDir (cfg_Babylon cfg)\<rparr> else cfg)"

subsection \<open>The commands\<close>

definition GetSubmitterCmd ::
  "('w, 'bbn, 'rpc, 'conn, 'ntf, 'qc, 'db) cmdEnv
    \<Rightarrow> ('bbn config \<Rightarrow> 'rpc client \<Rightarrow> bytes \<Rightarrow> bytes \<Rightarrow> 'est \<Rightarrow> ('w, 'db, 'raw, 'btc) relayerEnv)
    \<Rightarrow> ('w, btccParams) retryDo \<Rightarrow> ('qc \<Rightarrow> ('w, btccParams) prog) \<Rightarrow> (btcConfig \<Rightarrow> ('w, 'est) prog)
    \<Rightarrow> string \<Rightarrow> ('w, ('w, 'db, 'raw, 'btc) relayerEnv \<times> ('w, 'db) submitter) prog" where
  "GetSubmitterCmd env mkEnv rd btcCheckpointParams newFeeEstimator cfgFile =
     bindG (cmd_loadConfig env cfgFile) (\<lambda>cfg.
     bindG (cmd_logger cfg) (\<lambda>_.
     bindG (cmd_wallet env cfg) (\<lambda>btcWallet.
     bindG (cmd_queryClient env cfg) (\<lambda>queryClient.
     bindG (mustG ''invalid submitter address from config'' (sumG (ce_AccAddressFromBech32 env (cfg_Babylon cfg)))) (\<lambda>submitterAddr.
     bindG (cmd_db env (sc_DatabaseConfig (cfg_Submitter cfg))) (\<lambda>db.
     bindG (getG (\<lambda>w. w)) (\<lambda>w.
     bindG (mustG ''failed to create vigilante submitter'' (liftG (submitter_New (mkEnv cfg btcWallet submitterAddr) rd
       (cc_MaxRetryTimes (cfg_Common cfg)) (btcCheckpointParams queryClient) (newFeeEstimator (GetBTCConfig btcWallet))
       (sc_BufferSize (cfg_Submitter cfg)) db w))) (\<lambda>(renv, s).
       case submitter_Start s of None \<Rightarrow> noFuelG | Some s' \<Rightarrow> retG (renv, s')))))))))"

definition GetReporterCmd ::
  "('w, 'bbn, 'rpc, 'conn, 'ntf, 'qc, 'db) cmdEnv \<Rightarrow> ('bbn config \<Rightarrow> 'rpc client \<Rightarrow> 'qc \<Rightarrow> ('w, 'spv) reporterEnv) \<Rightarrow> u8
    \<Rightarrow> ('w, btccParams) retryDo \<Rightarrow> ('qc \<Rightarrow> ('w, btccParams) prog) \<Rightarrow> ('w reporter, unit) retryDo \<Rightarrow> nat \<Rightarrow> ('ntf \<Rightarrow> ('w, unit) prog)
    \<Rightarrow> string \<Rightarrow> string \<Rightarrow> ('w, 'w reporter) prog" where
  "GetReporterCmd env mkEnv currentVersion rd btcCheckpointParams rdBoot fuel registerBlockEpoch babylonKeyDir cfgFile =
     bindG (cmd_loadConfig env cfgFile) (\<lambda>cfg0.
     bindG (cmd_logger cfg0) (\<lambda>_.
     (let cfg = withKeyDir env babylonKeyDir cfg0 in
     bindG (cmd_wallet env cfg) (\<lambda>btcClient.
     bindG (mustG ''failed to open Babylon client'' (ce_bbnclientNew env (cfg_Babylon cfg))) (\<lambda>babylonClient.
     bindG (cmd_notifier env cfg) (\<lambda>btcNotifier.
     bindG (getG (\<lambda>w. w)) (\<lambda>w.
     bindG (mustG ''failed to create vigilante reporter'' (liftG (reporter_New (mkEnv cfg btcClient babylonClient) currentVersion rd
       (btcCheckpointParams babylonClient) (rc_MaxHeadersInMsg (cfg_Reporter cfg)) (rc_BTCCacheSize (cfg_Reporter cfg))
       (cc_MaxRetryTimes (cfg_Common cfg)) w))) (\<lambda>r.
       case reporter_Start rdBoot fuel (mkEnv cfg btcClient babylonClient) (ce_notifierStart env btcNotifier) (registerBlockEpoch btcNotifier) r of
         (Ok _, r') \<Rightarrow> retG r' | (Err e, _) \<Rightarrow> failG e | (Panic p, _) \<Rightarrow> panicG p | (NoFuel, _) \<Rightarrow> noFuelG))))))))"

definition GetMonitorCmd ::
  "('w, 'bbn, 'rpc, 'conn, 'ntf, 'qc, 'db) cmdEnv \<Rightarrow> ('w, 'j) genesisEnv \<Rightarrow> formatter \<Rightarrow> u8 \<Rightarrow> (string \<Rightarrow> goerr + bytes)
    \<Rightarrow> (valWithBlsKey list \<Rightarrow> valWithBlsKey list) \<Rightarrow> 'db kvBackend \<Rightarrow> string \<Rightarrow> string
    \<Rightarrow> ('w, ('w, 'db) monitorProc \<times> u32) prog" where
  "GetMonitorCmd env genv fmt currentVersion parse srt kv genesisFile cfgFile =
     bindG (cmd_loadConfig env cfgFile) (\<lambda>cfg.
     bindG (cmd_logger cfg) (\<lambda>_.
     bindG (cmd_queryClient env cfg) (\<lambda>_.
     bindG (cmd_wallet env cfg) (\<lambda>_.
     bindG (mustG ''failed to read genesis file'' (GetGenesisInfoFromFile genv genesisFile)) (\<lambda>genesisInfo.
     bindG (cmd_notifier env cfg) (\<lambda>_.
     bindG (cmd_db env (mo_DatabaseConfig (cfg_Monitor cfg))) (\<lambda>db.
     bindG (getG (\<lambda>w. w)) (\<lambda>w.
     bindG (mustG ''failed to create vigilante monitor''
         (liftG (fst (monitor_New fmt currentVersion parse srt kv (cfg_Monitor cfg) (cfg_Common cfg) genesisInfo w db)))) (\<lambda>p.
       retG (p, gi_baseBTCHeight genesisInfo))))))))))"

definition GetBTCStakingTracker ::
  "('w, 'bbn, 'rpc, 'conn, 'ntf, 'qc, 'db) cmdEnv
    \<Rightarrow> ('bbn config \<Rightarrow> 'rpc client \<Rightarrow> 'ntf \<Rightarrow> 'qc \<Rightarrow> ('w, 'spv, 'inc, 'db, 'pub, 'spend, 'asig, 'ssig) trackerEnv)
    \<Rightarrow> string \<Rightarrow> string \<Rightarrow> u64 \<Rightarrow> ('w, ('w, 'spv, 'db) tracker) prog" where
  "GetBTCStakingTracker env mkEnv babylonKeyDir cfgFile startHeight =
     bindG (cmd_loadConfig env cfgFile) (\<lambda>cfg0.
     (let cfg1 = withKeyDir env babylonKeyDir cfg0 in
     bindG (cmd_logger cfg1) (\<lambda>_.
     (let cfg = withKeyDir env babylonKeyDir cfg1 in
     bindG (mustG ''failed to open Babylon client'' (ce_bbnclientNew env (cfg_Babylon cfg))) (\<lambda>bbnClient.
     bindG (mustG ''failed to start WebSocket connection with Babylon'' (ce_bbnclientStart env bbnClient)) (\<lambda>_.
     bindG (cmd_wallet env cfg) (\<lambda>btcClient.
     bindG (cmd_notifier env cfg) (\<lambda>btcNotifier.
     bindG (cmd_db env (tc_SlasherDatabaseConfig (cfg_BTCStakingTracker cfg))) (\<lambda>db.
     bindG (getG (\<lambda>w. w)) (\<lambda>w.
     bindG (liftG (NewBTCStakingTracker (mkEnv cfg btcClient btcNotifier bbnClient) w db)) (\<lambda>tr.
       (let tenv = mkEnv cfg btcClient btcNotifier bbnClient in
        case bindG (mustG ''failed to start btc chain notifier'' (zoomG tk_world (\<lambda>w s. s\<lparr>tk_world := w\<rparr>) (ce_notifierStart env btcNotifier))) (\<lambda>_.
             bindG (mustG ''failed to bootstrap'' (tracker_Bootstrap tenv startHeight)) (\<lambda>_.
               mustG ''failed to start unbonding watcher'' (tracker_Start tenv))) tr of
          (Ok _, tr') \<Rightarrow> retG tr' | (Err e, _) \<Rightarrow> failG e | (Panic p, _) \<Rightarrow> panicG p | (NoFuel, _) \<Rightarrow> noFuelG))))))))))))"

text \<open>
  \<open>dump-cfg\<close>: \<open>stat\<close> says whether the error is \<open>os.IsNotExist\<close>; any other error counts as an
  existing file. \<open>path.Split\<close> cuts after the last slash.
\<close>

datatype statResult = Exists | NotExist | StatError

definition fileExists :: "('w, statResult) prog \<Rightarrow> ('w, bool) prog" where
  "fileExists stat = bindG stat (\<lambda>r. retG (r \<noteq> NotExist))"

definition splitDir :: "string \<Rightarrow> string" where
  "splitDir p = rev (dropWhile (\<lambda>c. c \<noteq> CHR ''/'') (rev p))"

definition dumpConfig ::
  "(string \<Rightarrow> ('w, statResult) prog) \<Rightarrow> (string \<Rightarrow> ('w, unit) prog) \<Rightarrow> ('bbn config \<Rightarrow> string \<Rightarrow> ('w, unit) prog)
    \<Rightarrow> (rat \<Rightarrow> f64) \<Rightarrow> dbConfig \<Rightarrow> 'bbn \<Rightarrow> string \<Rightarrow> ('w, unit) prog" where
  "dumpConfig stat mkdirAll saveToYAML rnd db defaultBbnCfg configPath =
     bindG (fileExists (stat configPath)) (\<lambda>present.
       if present then failG (errorf ''config already exists under provided path'')
       else
         bindG (stat (splitDir configPath)) (\<lambda>r.
         bindG (if r = NotExist then wrapG ''could not create config directory: '' (mkdirAll (splitDir configPath)) else retG ()) (\<lambda>_.
           wrapG ''failed to save config to file: '' (saveToYAML (DefaultConfig rnd db defaultBbnCfg) configPath))))"

text \<open>The output of \<open>CommandVersion\<close> for the version set at build time and the settings of the build.\<close>

definition CommandVersion :: "string \<Rightarrow> (string \<times> string) list option \<Rightarrow> string" where
  "CommandVersion ver settings = (let (commit, ts) = CommitInfo settings; v = (if ver = [] then ''main'' else ver) in
     ''Version:       '' @ v @ [CHR 0x0A] @ ''Git Commit:    '' @ commit @ [CHR 0x0A] @ ''Git Timestamp: '' @ ts @ [CHR 0x0A])"

subsection \<open>Interrupts\<close>

datatype 'h interruptEvent = AddHandler 'h | SignalReceived | SimulatedInterrupt

text \<open>The loop \<open>for i := range interruptCallbacks\<close> runs the callback at \<open>len - 1 - i\<close>.\<close>

definition callbackLoop :: "('d, unit) prog list \<Rightarrow> nat list \<Rightarrow> ('d, unit) prog" where
  "callbackLoop cbs is = foldr (\<lambda>i rest. bindG (cbs ! (length cbs - 1 - i)) (\<lambda>_. rest)) is (retG ())"

text \<open>\<open>True\<close>: \<open>interruptHandlersDone\<close> has been closed.\<close>

definition invokeCallbacks :: "('d, unit) prog list \<Rightarrow> ('d, bool) prog" where
  "invokeCallbacks cbs = bindG (callbackLoop cbs [0..<length cbs]) (\<lambda>_. retG True)"

fun mainInterruptHandler :: "('d, unit) prog list \<Rightarrow> ('d, unit) prog interruptEvent list \<Rightarrow> ('d, bool) prog" where
  "mainInterruptHandler interruptCallbacks [] = retG False"
| "mainInterruptHandler interruptCallbacks (SignalReceived # es) = invokeCallbacks interruptCallbacks"
| "mainInterruptHandler interruptCallbacks (SimulatedInterrupt # es) = invokeCallbacks interruptCallbacks"
| "mainInterruptHandler interruptCallbacks (AddHandler h # es) = mainInterruptHandler (interruptCallbacks @ [h]) es"

text \<open>\<open>addInterruptHandler\<close> for each handler of a command, then the events from outside.\<close>

definition withHandlers :: "('d, unit) prog list \<Rightarrow> ('d, unit) prog interruptEvent list \<Rightarrow> ('d, bool) prog" where
  "withHandlers hs es = mainInterruptHandler [] (map AddHandler hs @ es)"

text \<open>The handlers each command registers.\<close>

definition submitterHandlers :: "(('w, 'db) submitter, unit) prog list" where
  "submitterHandlers = [modG submitter_Stop]"

definition reporterHandlers :: "('w, unit) prog \<Rightarrow> ('w reporter, unit) prog list" where
  "reporterHandlers btcClientStopAndWait = [modG reporter_Stop, rpcR btcClientStopAndWait]"

definition monitorHandlers :: "('w, bool) prog \<Rightarrow> ('w, unit) prog \<Rightarrow> (('w, 'db) monitorProc, unit) prog list" where
  "monitorHandlers isRunning querierStop = [monitor_Stop isRunning querierStop]"

text \<open>The second handler is the one that announces the end of the notifier.\<close>

definition trackerHandlers :: "('w, 'spv, 'inc, 'db, 'pub, 'spend, 'asig, 'ssig) trackerEnv \<Rightarrow> (('w, 'spv, 'db) tracker, unit) prog list" where
  "trackerHandlers env =
     [mustG ''failed to stop unbonding watcher'' (tracker_Stop env),
      mustG ''failed to stop btc chain notifier'' (tracker_Stop env),
      mustG ''failed to stop Babylon client'' (zoomG tk_world (\<lambda>w s. s\<lparr>tk_world := w\<rparr>) (te_bbnClientStop env))]"

subsection \<open>Interrupt handlers\<close>

fun seqAll :: "('d, unit) prog list \<Rightarrow> ('d, unit) prog" where
  "seqAll [] = retG ()"
| "seqAll (h # hs) = bindG h (\<lambda>_. seqAll hs)"

lemma callbackLoop_seq: "callbackLoop cbs is = seqAll (map (\<lambda>i. cbs ! (length cbs - 1 - i)) is)"
  by (induction "is") (simp_all add: callbackLoop_def)

lemma callbacks_reversed: "map (\<lambda>i. cbs ! (length cbs - 1 - i)) [0..<length cbs] = rev cbs"
  by (rule nth_equalityI) (simp_all add: rev_nth)

lemma handlers_collected: "mainInterruptHandler cbs (map AddHandler hs @ es) = mainInterruptHandler (cbs @ hs) es"
  by (induction hs arbitrary: cbs) simp_all

text \<open>
  On the first interrupt, whatever follows it, the handlers run once each, the last one
  registered first, and the process ends once all have returned.
\<close>

theorem interrupts_lifo:
  "withHandlers hs (SignalReceived # es) = bindG (seqAll (rev hs)) (\<lambda>_. retG True)"
  "withHandlers hs (SimulatedInterrupt # es) = bindG (seqAll (rev hs)) (\<lambda>_. retG True)"
  by (simp_all add: withHandlers_def handlers_collected invokeCallbacks_def callbackLoop_seq callbacks_reversed [simplified])

subsection \<open>Shutdown of the tracker\<close>

definition clientStop :: "('w, 'spv, 'inc, 'db, 'pub, 'spend, 'asig, 'ssig) trackerEnv \<Rightarrow> (('w, 'spv, 'db) tracker, unit) prog" where
  "clientStop env = zoomG tk_world (\<lambda>w s. s\<lparr>tk_world := w\<rparr>) (te_bbnClientStop env)"

lemmas clientStop_fold = clientStop_def [symmetric]

lemma clientStop_run: "te_bbnClientStop env (tk_world s) = (r, w) \<Longrightarrow> clientStop env s = (r, s\<lparr>tk_world := w\<rparr>)"
  by (simp add: clientStop_def zoomG_def)

text \<open>The components as \<open>Stop\<close> leaves them.\<close>

definition stoppedParts :: "('w, 'spv, 'db) tracker \<Rightarrow> ('w, 'spv, 'db) tracker" where
  "stoppedParts s = snd (bindG (zoomG watcherIn watcherOut watcher_Stop) (\<lambda>_.
     bindG (zoomG slasherIn slasherOut btcslasher_Stop) (\<lambda>_. zoomG atomicIn atomicOut atomicslasher_Stop)) (s\<lparr>tk_stopOnce := True\<rparr>))"

lemmas part_defs = watcherIn_def watcherOut_def slasherIn_def slasherOut_def atomicIn_def atomicOut_def
  watcher_Stop_def btcslasher_Stop_def atomicslasher_Stop_def

lemma stoppedParts:
  "sew_quit (tk_watcher (stoppedParts s))" "bs_quit (tk_slasher (stoppedParts s))" "as_quit (tk_atomic (stoppedParts s))"
  "tk_stopOnce (stoppedParts s)" "tk_world (stoppedParts s) = tk_world s" "tk_quit (stoppedParts s) = tk_quit s"
  "tk_chanClosed (stoppedParts s) = tk_chanClosed s"
  by (simp_all add: stoppedParts_def part_defs zoomG_def modG_def bindG_def)

lemma tracker_Stop_first:
  assumes "\<not> tk_stopOnce s"
  shows "tracker_Stop env s = bindG (clientStop env) (\<lambda>_. modG (\<lambda>s. s\<lparr>tk_chanClosed := True, tk_quit := True\<rparr>)) (stoppedParts s)"
  using assms by (simp add: tracker_Stop_def stoppedParts_def clientStop_def part_defs zoomG_def modG_def getG_def bindG_def)

lemma tracker_Stop_again: "tk_stopOnce s \<Longrightarrow> tracker_Stop env s = (Ok (), s)"
  by (simp add: tracker_Stop_def getG_def bindG_def retG_def)


subsection \<open>From the configuration to the daemon\<close>

definition validatedFrom :: "('w, 'bbn, 'rpc, 'conn, 'ntf, 'qc, 'db) cmdEnv \<Rightarrow> string \<Rightarrow> 'bbn config \<Rightarrow> bool" where
  "validatedFrom env cfgFile cfg \<longleftrightarrow> ce_readAndUnmarshal env cfgFile = Inr cfg \<and> Config_Validate (ce_babylonValidate env) (ce_parseIP env) cfg = Inr ()"

lemma loadConfig_validates: "cmd_loadConfig env cfgFile w = (Ok cfg, w') \<Longrightarrow> w' = w \<and> validatedFrom env cfgFile cfg"
  unfolding cmd_loadConfig_def mustG_Ok
  by (auto simp: validatedFrom_def Config_New_def split: sum.splits bool.splits)


text \<open>
  A monitor that the command has created runs with a validated configuration and from an
  accepted genesis file: it verifies epoch 1 first, with one validator per genesis transaction,
  ordered by the start of the address, it will scan Bitcoin from the first header of the
  genesis, and it waits for the configured number of confirmations.
\<close>

theorem monitor_command:
  assumes "sort_contract parse srt" and "GetMonitorCmd env genv fmt version parse srt kv genesisFile cfgFile w = (Ok (p, base), w')"
  shows "\<exists>cfg w0 w1 appState gentxs old ws headers. validatedFrom env cfgFile cfg
    \<and> ge_GenesisStateFromGenFile genv genesisFile w0 = (Ok appState, w1) \<and> ge_GenTxs genv appState = Ok gentxs
    \<and> list_all2 (entryOf genv old) gentxs ws \<and> GetCurrentEpoch (mp_monitor p) = 1 \<and> mset (ei_valSet (m_curEpoch (mp_monitor p))) = mset ws
    \<and> (length ws \<ge> 2 \<longrightarrow> (\<exists>key. (\<forall>v \<in> set ws. addrKey parse v = Ok (key v)) \<and> sorted (map key (ei_valSet (m_curEpoch (mp_monitor p))))))
    \<and> GetBtclightclientGenesisStateFromAppState genv appState = Ok headers \<and> headers \<noteq> [] \<and> base = hd headers
    \<and> bs_k (mp_scanner p) = mo_BtcConfirmationDepth (cfg_Monitor cfg)"
proof -
  from assms(2) obtain cfg wc w0 info w1 w2 db where cfg: "cmd_loadConfig env cfgFile w = (Ok cfg, wc)"
    and info: "GetGenesisInfoFromFile genv genesisFile w0 = (Ok info, w1)" and base: "base = gi_baseBTCHeight info"
    and fst: "fst (monitor_New fmt version parse srt kv (cfg_Monitor cfg) (cfg_Common cfg) info w2 db) = Ok p"
    unfolding GetMonitorCmd_def by (auto elim!: bindG_Ok_E simp: mustG_Ok)
  then obtain db' where new: "monitor_New fmt version parse srt kv (cfg_Monitor cfg) (cfg_Common cfg) info w2 db = (Ok p, db')"
    by (cases "monitor_New fmt version parse srt kv (cfg_Monitor cfg) (cfg_Common cfg) info w2 db") simp
  have v: "validatedFrom env cfgFile cfg" using loadConfig_validates [OF cfg] by blast
  from monitor_from_genesis [OF assms(1) info new] obtain appState gentxs old ws where
    gen: "ge_GenesisStateFromGenFile genv genesisFile w0 = (Ok appState, w1)" "ge_GenTxs genv appState = Ok gentxs" "list_all2 (entryOf genv old) gentxs ws"
    "GetCurrentEpoch (mp_monitor p) = 1" "mset (ei_valSet (m_curEpoch (mp_monitor p))) = mset ws"
    "length ws \<ge> 2 \<longrightarrow> (\<exists>key. (\<forall>v \<in> set ws. addrKey parse v = Ok (key v)) \<and> sorted (map key (ei_valSet (m_curEpoch (mp_monitor p)))))"
    "bs_k (mp_scanner p) = mo_BtcConfirmationDepth (cfg_Monitor cfg)" by (elim exE conjE) (rule that)
  obtain headers where "GetBtclightclientGenesisStateFromAppState genv appState = Ok headers" "headers \<noteq> []" "gi_baseBTCHeight info = hd headers"
    using genesis_parts [OF info] gen(1) by (elim exE conjE) simp
  with v gen base show ?thesis by (intro exI conjI) (assumption | simp)+
qed

text \<open>
  The file that \<open>dump-cfg\<close> writes is accepted when it is loaded, but the tracker command never
  gets to run with it: the default has no database for the slasher, whatever the nodes answer.
\<close>

theorem dumped_config_loads:
  assumes "ce_babylonValidate env bbn = Inr ()" and "ce_parseIP env ''0.0.0.0''" and "\<not> f_lt (rnd (15 / 100)) (Fin 0)"
    and "ce_stat env cfgFile = Inr True" and "ce_readAndUnmarshal env cfgFile = Inr (DefaultConfig rnd db bbn)"
  shows "cmd_loadConfig env cfgFile w = (Ok (DefaultConfig rnd db bbn), w)"
  using default_valid [of "ce_babylonValidate env" bbn "ce_parseIP env" rnd db] assms
  by (simp add: cmd_loadConfig_def Config_New_def mustG_def sumG_def liftG_def sumOutcome_def)

theorem default_tracker_never_runs:
  assumes "ce_readAndUnmarshal env cfgFile = Inr (DefaultConfig rnd db bbn)"
  shows "\<not> isOk (fst (GetBTCStakingTracker env mkEnv dir cfgFile h w))"
proof
  assume "isOk (fst (GetBTCStakingTracker env mkEnv dir cfgFile h w))"
  then obtain tr w' where "GetBTCStakingTracker env mkEnv dir cfgFile h w = (Ok tr, w')" using isOk_run by blast
  then obtain cfg0 w0 d w1 w2 where cfg: "cmd_loadConfig env cfgFile w = (Ok cfg0, w0)"
    and db: "cmd_db env (tc_SlasherDatabaseConfig (cfg_BTCStakingTracker (withKeyDir env dir (withKeyDir env dir cfg0)))) w1 = (Ok d, w2)"
    unfolding GetBTCStakingTracker_def Let_def by (auto elim!: bindG_Ok_E)
  have "cfg0 = DefaultConfig rnd db bbn" using loadConfig_validates [OF cfg] assms by (simp add: validatedFrom_def)
  then have "tc_SlasherDatabaseConfig (cfg_BTCStakingTracker (withKeyDir env dir (withKeyDir env dir cfg0))) = None"
    by (simp add: withKeyDir_def DefaultConfig_def DefaultBTCStakingTrackerConfig_def)
  with db show False by (simp add: cmd_db_def mustG_Ok GetDBBackend_def derefG_def panicG_def bindG_def)
qed

theorem dump_keeps_existing:
  assumes "stat configPath w = (Ok r, w1)" and "r \<noteq> NotExist"
  shows "dumpConfig stat mkdirAll saveToYAML rnd db bbn configPath w = (Err (errorf ''config already exists under provided path''), w1)"
  using assms by (simp add: dumpConfig_def fileExists_def bindG_def retG_def failG_def)

subsection \<open>Concrete instances\<close>

definition sampleCmdEnv :: "('w, unit, unit, unit, unit, unit, string list \<times> ((string \<times> string), bytes) gomap) cmdEnv" where
  "sampleCmdEnv = \<lparr>ce_babylonValidate = (\<lambda>_. Inr ()), ce_parseIP = (\<lambda>_. True), ce_stat = (\<lambda>_. Inr True),
     ce_readAndUnmarshal = (\<lambda>_. Inr sampleConfig), ce_rpcclientNew = (\<lambda>_. retG ()), ce_newBitcoindConn = (\<lambda>_. retG ()),
     ce_connStart = (\<lambda>_. retG ()), ce_bitcoindnotifyNew = (\<lambda>_ _ _. ()), ce_notifierStart = (\<lambda>_. retG ()),
     ce_queryCfgValidate = (\<lambda>_. Inr ()), ce_queryNew = (\<lambda>_. retG ()), ce_bbnclientNew = (\<lambda>_. retG ()), ce_bbnclientStart = (\<lambda>_. retG ()),
     ce_AccAddressFromBech32 = (\<lambda>_. Inr [1]), ce_setKeyDirectory = (\<lambda>_ c. c), ce_getBoltBackend = (\<lambda>_. retG ([], []))\<rparr>"

definition sampleSubmitterCmd :: "((msgTx list, string list \<times> ((string \<times> string), bytes) gomap, unit, unit) relayerEnv \<times> (msgTx list, string list \<times> ((string \<times> string), bytes) gomap) submitter) outcome \<times> msgTx list" where
  "sampleSubmitterCmd = GetSubmitterCmd sampleCmdEnv (\<lambda>_ _ _ _ _. sampleRelayerEnv) retryOnce (\<lambda>_. sampleParams) (\<lambda>_. retG ()) ''vigilante.yml'' []"

definition sampleMonitorCmd :: "((unit, sampleDb) monitorProc \<times> u32) outcome \<times> unit" where
  "sampleMonitorCmd = GetMonitorCmd sampleCmdEnv sampleGenesisEnv sampleFormatter 0 sampleParse (sort_key sampleKey) sampleKv ''genesis.json'' ''vigilante.yml'' ()"

lemma sampleCmds_run: "isOk (fst sampleMonitorCmd)" "isOk (fst sampleSubmitterCmd)"
  by code_simp+


theorem monitor_command_witness:
  "\<exists>p. sampleMonitorCmd = (Ok (p, 100), ()) \<and> GetCurrentEpoch (mp_monitor p) = 1 \<and> length (ei_valSet (m_curEpoch (mp_monitor p))) = 2"
proof -
  obtain p base w' where run: "sampleMonitorCmd = (Ok (p, base), w')" using isOk_run [OF sampleCmds_run(1)] by auto
  from monitor_command [OF sampleSort_contract run [unfolded sampleMonitorCmd_def]]
  obtain w0 w1 appState gentxs old ws headers where st: "ge_GenesisStateFromGenFile sampleGenesisEnv ''genesis.json'' w0 = (Ok appState, w1)"
    and gen: "ge_GenTxs sampleGenesisEnv appState = Ok gentxs" "list_all2 (entryOf sampleGenesisEnv old) gentxs ws"
    and e: "GetCurrentEpoch (mp_monitor p) = 1" "mset (ei_valSet (m_curEpoch (mp_monitor p))) = mset ws"
    and h: "GetBtclightclientGenesisStateFromAppState sampleGenesisEnv appState = Ok headers" "base = hd headers"
    by (elim exE conjE) (rule that)
  have "appState = sampleAppState" using st by (simp add: sampleGenesisEnv_def retG_def)
  then have "gentxs = [30, 31]" "headers = [100]" using gen(1) h(1)
    by (simp_all add: sampleGenesisEnv_def sampleAppState_def GetBtclightclientGenesisStateFromAppState_def)
  moreover from this(1) gen(2) have "length ws = 2" by (auto dest: list_all2_lengthD)
  moreover have "length (ei_valSet (m_curEpoch (mp_monitor p))) = length ws" using e(2) by (rule mset_eq_length)
  ultimately show ?thesis using run e(1) h(2) by (intro exI [of _ p]) simp
qed


end
