(* ===== verification/Watcher_Loop.thy ===== *)
theory Watcher_Loop
  imports Watcher_Correct
begin

text \<open>
  The loops of the staking event watcher that are driven by time and by the Bitcoin node:
  \<open>handleNewBlocks\<close>, \<open>runBlockNotifier\<close> and \<open>handlerVerifiedDelegations\<close> of
  \<open>btcstaking-tracker/stakingeventwatcher/stakingeventwatcher.go\<close>. What a select receives is the
  next element of a list of events.

  Shown here: a new block starts exactly one handler for every tracked delegation that is
  idle and reported spent, and marks exactly these; the watcher survives every failure of the
  notifier and knows the height of the last block that was announced over all reconnections.
\<close>

subsection \<open>The loops\<close>

datatype notifierEvent = NewBlock int | NotifierClosed | NotifierStale | WatcherQuit

text \<open>\<open>WatcherQuit\<close>: the channel \<open>quit\<close> was closed by \<open>Stop\<close> in another goroutine.\<close>

fun notifierLoop :: "nat \<Rightarrow> ('w, 'spv, 'inc) watcherEnv \<Rightarrow> notifierEvent list \<Rightarrow> (('w, 'spv) watcher, unit) prog" where
  "notifierLoop fuel env [] = retG ()"
| "notifierLoop fuel env (NewBlock height # es) = bindG (watcher_newBlock fuel env height) (\<lambda>_. notifierLoop fuel env es)"
| "notifierLoop fuel env (NotifierClosed # es) = failG (errorf ''block notifier channel closed'')"
| "notifierLoop fuel env (NotifierStale # es) = failG (errorf ''no block received from notifier, connection may be stale'')"
| "notifierLoop fuel env (WatcherQuit # es) = bindG watcher_Stop (\<lambda>_. retG ())"

definition runBlockNotifier ::
  "nat \<Rightarrow> ('w, 'spv, 'inc) watcherEnv \<Rightarrow> ('w, unit) prog \<Rightarrow> notifierEvent list \<Rightarrow> (('w, 'spv) watcher, unit) prog" where
  "runBlockNotifier fuel env register es =
     bindG (wrapG ''failed to register block notifier: '' (rpcW register)) (\<lambda>_. notifierLoop fuel env es)"

text \<open>One list of events per connection; an error is logged and the next connection is made.\<close>

fun handleNewBlocks ::
  "nat \<Rightarrow> ('w, 'spv, 'inc) watcherEnv \<Rightarrow> ('w, unit) prog \<Rightarrow> notifierEvent list list \<Rightarrow> (('w, 'spv) watcher, unit) prog" where
  "handleNewBlocks fuel env register [] = retG ()"
| "handleNewBlocks fuel env register (es # ess) =
     bindG (getG sew_quit) (\<lambda>quit.
       if quit then retG ()
       else bindG (tryG (runBlockNotifier fuel env register es)) (\<lambda>_. handleNewBlocks fuel env register ess))"

text \<open>The ticks before the watcher quits.\<close>

fun handlerVerifiedDelegations :: "nat \<Rightarrow> ('w, 'spv, 'inc) watcherEnv \<Rightarrow> nat \<Rightarrow> (('w, 'spv) watcher, unit) prog" where
  "handlerVerifiedDelegations fuel env 0 = retG ()"
| "handlerVerifiedDelegations fuel env (Suc ticks) =
     bindG (checkBtcForStakingTx fuel env) (\<lambda>_. handlerVerifiedDelegations fuel env ticks)"

subsection \<open>What a block starts\<close>

definition indexer_answers :: "('w, 'spv, 'inc) watcherEnv \<Rightarrow> (string \<Rightarrow> u32 \<Rightarrow> (bool \<times> string) outcome) \<Rightarrow> bool" where
  "indexer_answers env answer \<longleftrightarrow> (\<forall>h i. (isOk (answer h i) \<or> (\<exists>e. answer h i = Err e)) \<and> (\<forall>w. fst (we_GetOutspend env h i w) = answer h i))"

text \<open>The transaction that spends an idle delegation, if the indexer reports one.\<close>

definition spender :: "('w, 'spv, 'inc) watcherEnv \<Rightarrow> (string \<Rightarrow> u32 \<Rightarrow> (bool \<times> string) outcome) \<Rightarrow> trackedDelegation \<Rightarrow> string option" where
  "spender env answer d = (if td_InProgress d then None
     else case answer (we_hashStr env (we_TxHash env (td_StakingTx d))) (td_StakingOutputIdx d) of Ok (True, txid) \<Rightarrow> Some txid | _ \<Rightarrow> None)"

definition taskFor :: "('w, 'spv, 'inc) watcherEnv \<Rightarrow> (string \<Rightarrow> u32 \<Rightarrow> (bool \<times> string) outcome) \<Rightarrow> trackedDelegation option \<Rightarrow> 'spv watcherTask option" where
  "taskFor env answer v = (case v of None \<Rightarrow> None | Some d \<Rightarrow> map_option (SpendTask d) (spender env answer d))"

text \<open>Every entry is a delegation under the hash of its staking transaction.\<close>

definition keyed :: "('w, 'spv, 'inc) watcherEnv \<Rightarrow> trackedDelegations \<Rightarrow> bool" where
  "keyed env tr \<longleftrightarrow> (\<forall>k v. GetDelegation k tr = Some v \<longrightarrow> (\<exists>d. v = Some d \<and> we_TxHash env (td_StakingTx d) = k))"

definition markedBy :: "('w, 'spv, 'inc) watcherEnv \<Rightarrow> (string \<Rightarrow> u32 \<Rightarrow> (bool \<times> string) outcome) \<Rightarrow> trackedDelegation \<Rightarrow> trackedDelegation" where
  "markedBy env answer d = (if spender env answer d = None then d else d\<lparr>td_InProgress := True\<rparr>)"

definition sweepInv ::
  "('w, 'spv, 'inc) watcherEnv \<Rightarrow> (string \<Rightarrow> u32 \<Rightarrow> (bool \<times> string) outcome) \<Rightarrow> ('w, 'spv) watcher \<Rightarrow> hash set \<Rightarrow> ('w, 'spv) watcher \<Rightarrow> bool" where
  "sweepInv env answer s0 D s \<longleftrightarrow>
     keys_of (tds_mapping (sew_unbondingTracker s)) = keys_of (tds_mapping (sew_unbondingTracker s0))
     \<and> length (tds_mapping (sew_unbondingTracker s)) = length (tds_mapping (sew_unbondingTracker s0))
     \<and> (\<forall>k. GetDelegation k (sew_unbondingTracker s) = (if k \<in> D then map_option (map_option (markedBy env answer)) (GetDelegation k (sew_unbondingTracker s0))
          else GetDelegation k (sew_unbondingTracker s0)))
     \<and> (wf_tracked (sew_unbondingTracker s0) \<longrightarrow> wf_tracked (sew_unbondingTracker s))
     \<and> sew_currentBestBlockHeight s = sew_currentBestBlockHeight s0 \<and> sew_quit s = sew_quit s0
     \<and> (\<exists>ks. distinct ks \<and> set ks = D
          \<and> sew_running s = sew_running s0 @ List.map_filter (\<lambda>k. taskFor env answer (the (GetDelegation k (sew_unbondingTracker s0)))) ks)"

lemma Clone_id: "Clone v = v"
  by (cases v) (simp_all add: Clone_def)

lemma map_filter_snoc: "List.map_filter f (xs @ [x]) = List.map_filter f xs @ (case f x of None \<Rightarrow> [] | Some y \<Rightarrow> [y])"
  by (induction xs) (auto simp: List.map_filter_simps split: option.splits)

lemma rpcW_run: "fst (m (sew_world s)) = r \<Longrightarrow> \<exists>w. rpcW m s = (r, s\<lparr>sew_world := w\<rparr>)"
  by (cases "m (sew_world s)") (auto simp: rpcW_def zoomG_def)

lemma checkSpendBody_run:
  assumes "indexer_answers env answer" and "GetDelegation k (sew_unbondingTracker s) = Some (Some d)" and "we_TxHash env (td_StakingTx d) = k"
  shows "\<exists>w tr. checkSpendBody env (Some d) s = (Ok (), s\<lparr>sew_world := w, sew_unbondingTracker := tr,
        sew_running := sew_running s @ (case taskFor env answer (Some d) of None \<Rightarrow> [] | Some t \<Rightarrow> [t])\<rparr>)
    \<and> (wf_tracked (sew_unbondingTracker s) \<longrightarrow> wf_tracked tr)
    \<and> keys_of (tds_mapping tr) = keys_of (tds_mapping (sew_unbondingTracker s)) \<and> length (tds_mapping tr) = length (tds_mapping (sew_unbondingTracker s))
    \<and> (\<forall>j. GetDelegation j tr = (if j = k then Some (Some (markedBy env answer d)) else GetDelegation j (sew_unbondingTracker s)))"
proof (cases "td_InProgress d")
  case True
  then show ?thesis using assms(2)
    by (intro exI [of _ "sew_world s"] exI [of _ "sew_unbondingTracker s"]) (simp add: checkSpendBody_def retG_def taskFor_def spender_def markedBy_def)
next
  case False
  let ?h = "we_hashStr env k" and ?i = "td_StakingOutputIdx d"
  obtain w where rpc: "rpcW (we_GetOutspend env ?h ?i) s = (answer ?h ?i, s\<lparr>sew_world := w\<rparr>)"
    using rpcW_run [of "we_GetOutspend env ?h ?i" s] assms(1) unfolding indexer_answers_def by blast
  show ?thesis
  proof (cases "spender env answer d")
    case None
    have "isOk (answer ?h ?i) \<or> (\<exists>e. answer ?h ?i = Err e)" using assms(1) unfolding indexer_answers_def by blast
    then have "checkSpendBody env (Some d) s = (Ok (), s\<lparr>sew_world := w\<rparr>)"
      using None False rpc assms(3) by (auto simp: checkSpendBody_def spender_def tryG_def bindG_def retG_def Let_def elim!: isOk.elims(2) split: outcome.splits if_splits)
    then show ?thesis using None assms(2)
      by (intro exI [of _ w] exI [of _ "sew_unbondingTracker s"]) (simp add: taskFor_def markedBy_def)
  next
    case (Some txid)
    then have ans: "answer ?h ?i = Ok (True, txid)" using False assms(3) by (auto simp: spender_def split: outcome.splits if_splits prod.splits bool.splits)
    let ?tr = "(sew_unbondingTracker s)\<lparr>tds_mapping := AList.update k (Some (d\<lparr>td_InProgress := True\<rparr>)) (tds_mapping (sew_unbondingTracker s))\<rparr>"
    have m: "map_of (tds_mapping (sew_unbondingTracker s)) k = Some (Some d)" using assms(2) by (simp add: GetDelegation_def)
    then have key: "k \<in> keys_of (tds_mapping (sew_unbondingTracker s))" by (auto simp: keys_of_dom)
    have "checkSpendBody env (Some d) s = (Ok (), s\<lparr>sew_world := w, sew_unbondingTracker := ?tr, sew_running := sew_running s @ [SpendTask d txid]\<rparr>)"
      using ans False rpc m assms(3) by (simp add: checkSpendBody_def tryG_def Let_def setActivation_def UpdateActivation_def modG_def getG_def putUnbonding_def liftG_def)
    then show ?thesis using Some key
      by (intro exI [of _ w] exI [of _ ?tr]) (simp add: taskFor_def markedBy_def GetDelegation_def wf_tracked_def update_conv' length_update_alist insert_absorb)
  qed
qed

lemma sweep_runs_each:
  assumes "indexer_answers env answer" and "keyed env (sew_unbondingTracker s0)"
  shows "runs_each (sweepInv env answer s0) (tds_mapping (sew_unbondingTracker s0)) (checkSpendBody env)"
  unfolding runs_each_def
proof (intro allI impI)
  fix D s k v
  assume J: "sweepInv env answer s0 D s" and k: "k \<notin> D" and v: "map_of (tds_mapping (sew_unbondingTracker s0)) k = Some v"
  then obtain d where d: "v = Some d" "we_TxHash env (td_StakingTx d) = k" using assms(2) by (auto simp: keyed_def GetDelegation_def)
  have "GetDelegation k (sew_unbondingTracker s) = Some (Some d)" using J k v d(1) by (simp add: sweepInv_def GetDelegation_def)
  from checkSpendBody_run [OF assms(1) this d(2)] obtain w tr where
    run: "checkSpendBody env (Some d) s = (Ok (), s\<lparr>sew_world := w, sew_unbondingTracker := tr,
        sew_running := sew_running s @ (case taskFor env answer (Some d) of None \<Rightarrow> [] | Some t \<Rightarrow> [t])\<rparr>)"
    and wf: "wf_tracked (sew_unbondingTracker s) \<longrightarrow> wf_tracked tr"
    and tr: "keys_of (tds_mapping tr) = keys_of (tds_mapping (sew_unbondingTracker s))" "length (tds_mapping tr) = length (tds_mapping (sew_unbondingTracker s))"
      "\<And>j. GetDelegation j tr = (if j = k then Some (Some (markedBy env answer d)) else GetDelegation j (sew_unbondingTracker s))" by blast
  obtain ks where ks: "distinct ks" "set ks = D"
    "sew_running s = sew_running s0 @ List.map_filter (\<lambda>k. taskFor env answer (the (GetDelegation k (sew_unbondingTracker s0)))) ks"
    using J unfolding sweepInv_def by blast
  have "distinct (ks @ [k])" "set (ks @ [k]) = insert k D" using ks(1,2) k by auto
  moreover have "sew_running s @ (case taskFor env answer (Some d) of None \<Rightarrow> [] | Some t \<Rightarrow> [t])
      = sew_running s0 @ List.map_filter (\<lambda>k. taskFor env answer (the (GetDelegation k (sew_unbondingTracker s0)))) (ks @ [k])"
    using ks(3) v d(1) by (simp add: map_filter_snoc GetDelegation_def)
  ultimately have "\<exists>ks. distinct ks \<and> set ks = insert k D \<and> sew_running s @ (case taskFor env answer (Some d) of None \<Rightarrow> [] | Some t \<Rightarrow> [t])
      = sew_running s0 @ List.map_filter (\<lambda>k. taskFor env answer (the (GetDelegation k (sew_unbondingTracker s0)))) ks" by blast
  with J tr wf v d(1) have "sweepInv env answer s0 (insert k D) (s\<lparr>sew_world := w, sew_unbondingTracker := tr,
        sew_running := sew_running s @ (case taskFor env answer (Some d) of None \<Rightarrow> [] | Some t \<Rightarrow> [t])\<rparr>)"
    by (simp add: sweepInv_def GetDelegation_def)
  with run d(1) show "\<exists>s'. checkSpendBody env (Clone v) s = (Ok (), s') \<and> sweepInv env answer s0 (insert k D) s'"
    unfolding Clone_id by blast
qed

lemma map_filter_perm: "mset xs = mset ys \<Longrightarrow> mset (List.map_filter f xs) = mset (List.map_filter f ys)"
  by (simp add: List.map_filter_def mset_map mset_filter)

lemma map_filter_entries: "wf_map m \<Longrightarrow> List.map_filter (\<lambda>k. f (the (map_of m k))) (map fst m) = List.map_filter (f \<circ> snd) m"
  by (auto simp: wf_map_def List.map_filter_def filter_map comp_def intro!: filter_cong map_cong)

lemma sweep_start: "sweepInv env answer s {} s"
  by (auto simp: sweepInv_def List.map_filter_simps)

lemma sweep_keeps_table: "keeps_table (sweepInv env answer s0) (tds_mapping (sew_unbondingTracker s0)) sew_unbondingTracker"
  by (simp add: keeps_table_def sweepInv_def GetDelegation_def)

lemma checkSpend_sweeps:
  assumes "visits (we_ord env)" and "wf_tracked (sew_unbondingTracker s)" and "keyed env (sew_unbondingTracker s)"
    and "indexer_answers env answer" and "length (tds_mapping (sew_unbondingTracker s)) < fuel"
  shows "\<exists>s'. checkSpend fuel env s = (Ok (), s') \<and> sweepInv env answer s (keys_of (tds_mapping (sew_unbondingTracker s))) s'"
  unfolding checkSpend_def DelegationsIter_def
  by (rule iterRounds_covers [OF assms(1) _ _ sweep_keeps_table sweep_runs_each [OF assms(4,3)]])
     (use assms(2,5) sweep_start in \<open>simp_all add: wf_tracked_def\<close>)

lemma keyed_sweep:
  assumes "sweepInv env answer s D s'" and "keyed env (sew_unbondingTracker s)"
  shows "keyed env (sew_unbondingTracker s')"
  unfolding keyed_def
proof (intro allI impI)
  fix k v assume v: "GetDelegation k (sew_unbondingTracker s') = Some v"
  have g: "GetDelegation k (sew_unbondingTracker s') = (if k \<in> D then map_option (map_option (markedBy env answer)) (GetDelegation k (sew_unbondingTracker s))
      else GetDelegation k (sew_unbondingTracker s))" using assms(1) by (simp add: sweepInv_def)
  then obtain u where u: "GetDelegation k (sew_unbondingTracker s) = Some u" using v by (cases "GetDelegation k (sew_unbondingTracker s)") (simp_all split: if_splits)
  then obtain d where d: "u = Some d" "we_TxHash env (td_StakingTx d) = k" using assms(2) unfolding keyed_def by blast
  have "td_StakingTx (markedBy env answer d) = td_StakingTx d" by (simp add: markedBy_def)
  with g u d v show "\<exists>d. v = Some d \<and> we_TxHash env (td_StakingTx d) = k" by (cases "k \<in> D") auto
qed

text \<open>
  C18. A new block ends its sweep over the tracked delegations, whatever the order in which they
  are visited and however many there are, and starts exactly one handler, with the spending
  transaction the indexer reported, for each delegation that is spent and not yet being
  handled. Exactly these are marked as being in progress, and errors of the indexer stop nothing.
\<close>

theorem block_starts_handlers:
  assumes "visits (we_ord env)" and "wf_tracked (sew_unbondingTracker s)" and "keyed env (sew_unbondingTracker s)"
    and "indexer_answers env answer" and "0 \<le> height" and "length (tds_mapping (sew_unbondingTracker s)) < fuel"
  shows "\<exists>s' tasks. watcher_newBlock fuel env height s = (Ok (), s') \<and> sew_currentBestBlockHeight s' = word_of_int height
    \<and> sew_running s' = sew_running s @ tasks
    \<and> mset tasks = mset (List.map_filter (taskFor env answer \<circ> snd) (tds_mapping (sew_unbondingTracker s)))
    \<and> (\<forall>k. GetDelegation k (sew_unbondingTracker s') = map_option (map_option (markedBy env answer)) (GetDelegation k (sew_unbondingTracker s)))"
proof -
  let ?s = "s\<lparr>sew_currentBestBlockHeight := word_of_int height\<rparr>" and ?m = "tds_mapping (sew_unbondingTracker s)"
  obtain s' where run: "checkSpend fuel env ?s = (Ok (), s')" and J: "sweepInv env answer ?s (keys_of ?m) s'"
    using checkSpend_sweeps [of env ?s answer fuel] assms by auto
  have "watcher_newBlock fuel env height s = (Ok (), s')"
    using run assms(5) by (simp add: watcher_newBlock_def tryG_def modG_def retG_def)
  moreover obtain ks where ks: "distinct ks" "set ks = keys_of ?m"
    "sew_running s' = sew_running s @ List.map_filter (\<lambda>k. taskFor env answer (the (GetDelegation k (sew_unbondingTracker s)))) ks"
    using J unfolding sweepInv_def by auto
  moreover have "mset (List.map_filter (\<lambda>k. taskFor env answer (the (map_of ?m k))) ks) = mset (List.map_filter (taskFor env answer \<circ> snd) ?m)"
  proof -
    have wf: "wf_map ?m" using assms(2) by (simp add: wf_tracked_def)
    then have "mset ks = mset (map fst ?m)"
      using ks by (intro set_eq_iff_mset_eq_distinct [THEN iffD1]) (simp_all add: wf_map_def keys_of_def)
    from map_filter_perm [OF this, of "\<lambda>k. taskFor env answer (the (map_of ?m k))"] show ?thesis unfolding map_filter_entries [OF wf] .
  qed
  moreover have "GetDelegation k (sew_unbondingTracker s') = map_option (map_option (markedBy env answer)) (GetDelegation k (sew_unbondingTracker s))" for k
    using J map_of_None_keys [of ?m k] by (cases "k \<in> keys_of ?m") (simp_all add: sweepInv_def GetDelegation_def)
  ultimately show ?thesis using J by (auto simp: sweepInv_def GetDelegation_def)
qed

subsection \<open>Reconnections\<close>

text \<open>The heights received before a connection ends.\<close>

fun received :: "notifierEvent list \<Rightarrow> int list" where
  "received (NewBlock h # es) = h # received es"
| "received _ = []"

definition watching :: "nat \<Rightarrow> ('w, 'spv, 'inc) watcherEnv \<Rightarrow> ('w, 'spv) watcher \<Rightarrow> bool" where
  "watching fuel env s \<longleftrightarrow> wf_tracked (sew_unbondingTracker s) \<and> keyed env (sew_unbondingTracker s)
     \<and> length (tds_mapping (sew_unbondingTracker s)) < fuel \<and> \<not> sew_quit s"

definition bestOf :: "u32 \<Rightarrow> int list \<Rightarrow> u32" where
  "bestOf h hs = (if hs = [] then h else word_of_int (last hs))"

lemma bestOf_simps: "bestOf h [] = h" "bestOf h (x # xs) = bestOf (word_of_int x) xs" "bestOf h (xs @ ys) = bestOf (bestOf h xs) ys"
  by (simp_all add: bestOf_def)

lemma newBlock_watching:
  assumes "visits (we_ord env)" and "indexer_answers env answer" and "watching fuel env s" and "0 \<le> height"
  shows "\<exists>s'. watcher_newBlock fuel env height s = (Ok (), s') \<and> watching fuel env s' \<and> sew_currentBestBlockHeight s' = word_of_int height"
proof -
  let ?s = "s\<lparr>sew_currentBestBlockHeight := word_of_int height\<rparr>"
  obtain s' where run: "checkSpend fuel env ?s = (Ok (), s')" and J: "sweepInv env answer ?s (keys_of (tds_mapping (sew_unbondingTracker s))) s'"
    using checkSpend_sweeps [of env ?s answer fuel] assms by (auto simp: watching_def)
  have "watcher_newBlock fuel env height s = (Ok (), s')"
    using run assms(4) by (simp add: watcher_newBlock_def tryG_def modG_def retG_def)
  moreover have "keyed env (sew_unbondingTracker s')" using keyed_sweep [OF J] assms(3) by (simp add: watching_def)
  ultimately show ?thesis using J assms(3) by (simp add: watching_def sweepInv_def)
qed

lemma notifierLoop_watching:
  assumes "visits (we_ord env)" and "indexer_answers env answer"
  shows "watching fuel env s \<Longrightarrow> WatcherQuit \<notin> set es \<Longrightarrow> \<forall>h \<in> set (received es). 0 \<le> h \<Longrightarrow>
    \<exists>r s'. notifierLoop fuel env es s = (r, s') \<and> (isOk r \<or> (\<exists>e. r = Err e)) \<and> watching fuel env s'
      \<and> sew_currentBestBlockHeight s' = bestOf (sew_currentBestBlockHeight s) (received es)"
proof (induction es arbitrary: s)
  case (Cons e es)
  show ?case
  proof (cases e)
    case (NewBlock h)
    then obtain t where t: "watcher_newBlock fuel env h s = (Ok (), t)" "watching fuel env t" "sew_currentBestBlockHeight t = word_of_int h"
      using newBlock_watching [OF assms Cons.prems(1)] Cons.prems(3) by auto
    have "WatcherQuit \<notin> set es" "\<forall>h \<in> set (received es). 0 \<le> h" using Cons.prems(2,3) NewBlock by auto
    from Cons.IH [OF t(2) this] t NewBlock show ?thesis by (simp add: bestOf_simps)
  qed (use Cons.prems in \<open>auto simp: failG_def bestOf_simps\<close>)
qed (auto simp: retG_def bestOf_simps)

text \<open>
  However often the notifier closes its channel or falls silent, the watcher connects again,
  keeps its table in order and knows the height of the last block announced on any connection.
\<close>

theorem blocks_over_reconnections:
  assumes "visits (we_ord env)" and "indexer_answers env answer" and "\<And>w. fst (register w) = Ok ()"
    and "watching fuel env s" and "\<forall>es \<in> set ess. WatcherQuit \<notin> set es \<and> (\<forall>h \<in> set (received es). 0 \<le> h)"
  shows "\<exists>s'. handleNewBlocks fuel env register ess s = (Ok (), s') \<and> watching fuel env s'
    \<and> sew_currentBestBlockHeight s' = bestOf (sew_currentBestBlockHeight s) (concat (map received ess))"
  using assms(4,5)
proof (induction ess arbitrary: s)
  case (Cons es ess)
  obtain w where reg: "rpcW register s = (Ok (), s\<lparr>sew_world := w\<rparr>)" using rpcW_run [of register s "Ok ()"] assms(3) by blast
  have "watching fuel env (s\<lparr>sew_world := w\<rparr>)" using Cons.prems(1) by (simp add: watching_def)
  moreover have "WatcherQuit \<notin> set es" "\<forall>h \<in> set (received es). 0 \<le> h" using Cons.prems(2) by auto
  ultimately obtain r t where t: "notifierLoop fuel env es (s\<lparr>sew_world := w\<rparr>) = (r, t)" "isOk r \<or> (\<exists>e. r = Err e)" "watching fuel env t"
    "sew_currentBestBlockHeight t = bestOf (sew_currentBestBlockHeight s) (received es)"
    using notifierLoop_watching [OF assms(1,2), where s = "s\<lparr>sew_world := w\<rparr>" and es = es and fuel = fuel] by auto
  have "runBlockNotifier fuel env register es s = (r, t)" using reg t(1) by (simp add: runBlockNotifier_def wrapG_def)
  then have "handleNewBlocks fuel env register (es # ess) s = handleNewBlocks fuel env register ess t"
    using t(2) Cons.prems(1) by (auto simp: watching_def tryG_def bindG_def getG_def elim!: isOk.elims(2))
  moreover obtain s' where "handleNewBlocks fuel env register ess t = (Ok (), s') \<and> watching fuel env s'
      \<and> sew_currentBestBlockHeight s' = bestOf (sew_currentBestBlockHeight t) (concat (map received ess))"
    using Cons.IH [OF t(3)] Cons.prems(2) by auto
  ultimately show ?case using t(4) by (simp add: bestOf_simps)
qed (simp add: retG_def bestOf_simps)

subsection \<open>Concrete instances\<close>

definition sampleWatching :: "(unit, unit) watcher" where
  "sampleWatching = sampleWatcher\<lparr>sew_unbondingTracker := sampleTracked [1, 2, 3]\<rparr>"

lemma sampleWatching_ok:
  "visits (we_ord sampleWatcherEnv)" "indexer_answers sampleWatcherEnv (\<lambda>_ _. Ok (True, ''x''))" "watching 4 sampleWatcherEnv sampleWatching"
proof -
  show "visits (we_ord sampleWatcherEnv)" by (simp add: sampleWatcherEnv_def visits_keys)
  show "indexer_answers sampleWatcherEnv (\<lambda>_ _. Ok (True, ''x''))" by (simp add: indexer_answers_def sampleWatcherEnv_def retG_def)
  show "watching 4 sampleWatcherEnv sampleWatching"
    by (auto simp: watching_def sampleWatching_def sampleTracked_def wf_tracked_def wf_map_def keyed_def GetDelegation_def sampleWatcherEnv_def
        sampleTxHash_def sampleMsgTx_def NewStakingEventWatcher_def split: if_splits)
qed

theorem block_starts_handlers_witness:
  "\<exists>s'. watcher_newBlock 4 sampleWatcherEnv 9 sampleWatching = (Ok (), s') \<and> sew_currentBestBlockHeight s' = 9
     \<and> length (sew_running s') = 3 \<and> (\<exists>d. GetDelegation 2 (sew_unbondingTracker s') = Some (Some d) \<and> td_InProgress d)"
proof -
  have w: "wf_tracked (sew_unbondingTracker sampleWatching)" "keyed sampleWatcherEnv (sew_unbondingTracker sampleWatching)"
    "length (tds_mapping (sew_unbondingTracker sampleWatching)) < 4" "(0 :: int) \<le> 9"
    using sampleWatching_ok(3) by (simp_all add: watching_def)
  obtain s' tasks where run: "watcher_newBlock 4 sampleWatcherEnv 9 sampleWatching = (Ok (), s')" "sew_currentBestBlockHeight s' = word_of_int 9"
    "sew_running s' = sew_running sampleWatching @ tasks"
    and tasks: "mset tasks = mset (List.map_filter (taskFor sampleWatcherEnv (\<lambda>_ _. Ok (True, ''x'')) \<circ> snd) (tds_mapping (sew_unbondingTracker sampleWatching)))"
    and marks: "\<forall>k. GetDelegation k (sew_unbondingTracker s') = map_option (map_option (markedBy sampleWatcherEnv (\<lambda>_ _. Ok (True, ''x'')))) (GetDelegation k (sew_unbondingTracker sampleWatching))"
    using block_starts_handlers [OF sampleWatching_ok(1) w(1,2) sampleWatching_ok(2) w(4,3)] by blast
  have "length tasks = 3"
    using tasks [THEN arg_cong [of _ _ size]] by (simp add: sampleWatching_def sampleTracked_def taskFor_def spender_def List.map_filter_simps)
  moreover have "sew_running sampleWatching = []" by (simp add: sampleWatching_def NewStakingEventWatcher_def)
  moreover have "\<exists>d. GetDelegation 2 (sew_unbondingTracker s') = Some (Some d) \<and> td_InProgress d"
    using marks by (simp add: GetDelegation_def sampleWatching_def sampleTracked_def markedBy_def spender_def)
  ultimately show ?thesis using run by auto
qed

end
