(* ===== verification/Checkpoint_Path.thy ===== *)
theory Checkpoint_Path
  imports Reporter_Submit Relayer_Correct
begin

text \<open>
  The way of a checkpoint through the two daemons that never talk to each other: the relayer of the
  submitter writes it to Bitcoin in two transactions (\<open>submitter/relayer\<close>), the reporter finds their
  segments in blocks, joins them and reports the checkpoint to Babylon (\<open>reporter/utils.go\<close>,
  \<open>types/ckpt_cache.go\<close>). The only link is the codec of checkpoints, library code of which both use
  one side; \<open>codec_links\<close> says that the two sides fit.

  Shown here: what the extraction leaves in the segment cache, and that a checkpoint which was sent
  and mined is reported with its epoch, whatever other segments are in the blocks.
\<close>

subsection \<open>The segments of a list of blocks\<close>

definition txSegments :: "formatter \<Rightarrow> bytes \<Rightarrow> u8 \<Rightarrow> indexedBlock \<Rightarrow> btcTx option list \<Rightarrow> ckptSegment list" where
  "txSegments fmt tag version ib txs =
     List.map_filter (\<lambda>t. case t of None \<Rightarrow> None | Some tx \<Rightarrow> NewCkptSegment fmt tag version ib tx) txs"

definition blockSegments :: "formatter \<Rightarrow> bytes \<Rightarrow> u8 \<Rightarrow> indexedBlock list \<Rightarrow> ckptSegment list" where
  "blockSegments fmt tag version ibs = concat (map (\<lambda>ib. txSegments fmt tag version ib (ib_Txs ib)) ibs)"

lemma txSegments_simps [simp]:
  "txSegments fmt tag version ib [] = []"
  "txSegments fmt tag version ib (None # txs) = txSegments fmt tag version ib txs"
  "txSegments fmt tag version ib (Some tx # txs) = (case NewCkptSegment fmt tag version ib tx of
     None \<Rightarrow> txSegments fmt tag version ib txs | Some sg \<Rightarrow> sg # txSegments fmt tag version ib txs)"
  by (simp_all add: txSegments_def List.map_filter_def split: option.splits)

lemma blockSegments_simps [simp]:
  "blockSegments fmt tag version [] = []"
  "blockSegments fmt tag version (ib # ibs) = txSegments fmt tag version ib (ib_Txs ib) @ blockSegments fmt tag version ibs"
  by (simp_all add: blockSegments_def)

lemma txSegments_mem:
  "\<lbrakk>Some tx \<in> set txs; NewCkptSegment fmt tag version ib tx = Some sg\<rbrakk> \<Longrightarrow> sg \<in> set (txSegments fmt tag version ib txs)"
proof (induction txs)
  case (Cons t txs)
  then show ?case by (cases t) (auto split: option.splits)
qed simp

lemma blockSegments_mem:
  "\<lbrakk>ib \<in> set ibs; Some tx \<in> set (ib_Txs ib); NewCkptSegment fmt tag version ib tx = Some sg\<rbrakk>
    \<Longrightarrow> sg \<in> set (blockSegments fmt tag version ibs)"
  by (auto simp: blockSegments_def intro: txSegments_mem)

subsection \<open>What the extraction leaves in the cache\<close>

text \<open>
  Every cached segment is one of \<open>S\<close> up to its insertion time, under its index and the hash of its
  data. A cache grows when it keeps its tag, its version and its keys.
\<close>

abbreviation segIndex :: "ckptSegment \<Rightarrow> u8" where "segIndex sg \<equiv> bd_Index (seg_BabylonData sg)"
abbreviation segData :: "ckptSegment \<Rightarrow> bytes" where "segData sg \<equiv> bd_Data (seg_BabylonData sg)"

definition cached_from :: "formatter \<Rightarrow> ckptSegment set \<Rightarrow> ckptCache \<Rightarrow> bool" where
  "cached_from fmt S cc \<longleftrightarrow> (\<forall>i h sg. map_of (segMap cc i) h = Some sg \<longrightarrow>
     segIndex sg = i \<and> h = f_Sum256 fmt (segData sg) \<and> (\<exists>sg0\<in>S. \<exists>t. sg = sg0\<lparr>seg_Timestamp := t\<rparr>))"

definition ready :: "formatter \<Rightarrow> ckptSegment set \<Rightarrow> ckptCache \<Rightarrow> bool" where
  "ready fmt S cc \<longleftrightarrow> cached_from fmt S cc \<and> cc_Checkpoints cc = [] \<and> (\<forall>i < f_NumberOfParts fmt. i \<in> keys_of (cc_Segments cc))"

definition cacheGrows :: "ckptCache \<Rightarrow> ckptCache \<Rightarrow> bool" where
  "cacheGrows cc cc' \<longleftrightarrow> cc_Tag cc' = cc_Tag cc \<and> cc_Version cc' = cc_Version cc \<and> (\<forall>i. keys_of (segMap cc i) \<subseteq> keys_of (segMap cc' i))"

lemma cacheGrows_refl [simp]: "cacheGrows cc cc"
  by (simp add: cacheGrows_def)

lemma cacheGrows_trans: "cacheGrows a b \<Longrightarrow> cacheGrows b c \<Longrightarrow> cacheGrows a c"
  by (simp add: cacheGrows_def) blast

lemma fresh_ready: "ready fmt {} (NewCheckpointCache fmt tag version)"
proof -
  have "i \<in> keys_of (cc_Segments (NewCheckpointCache fmt tag version))" if "i < f_NumberOfParts fmt" for i
    unfolding NewCheckpointCache_def keys_of_def using that
    by (auto simp: image_image word_less_nat_alt intro!: image_eqI [of _ _ "unat i"])
  moreover have "segMap (NewCheckpointCache fmt tag version) i = []" for i
    by (auto simp: segMap_def NewCheckpointCache_def split: option.splits dest!: map_of_SomeD)
  ultimately show ?thesis by (simp add: ready_def cached_from_def) (simp add: NewCheckpointCache_def)
qed

lemma ready_mono: "ready fmt S cc \<Longrightarrow> S \<subseteq> T \<Longrightarrow> ready fmt T cc"
  unfolding ready_def cached_from_def by blast

lemma AddSegment_grows:
  assumes "ready fmt S cc" and "sg \<in> S" and "segIndex sg < f_NumberOfParts fmt"
  obtains cc' where "CheckpointCache_AddSegment fmt now sg cc = Ok cc'" and "ready fmt S cc'" and "cacheGrows cc cc'"
    and "f_Sum256 fmt (segData sg) \<in> keys_of (segMap cc' (segIndex sg))"
proof -
  let ?i = "segIndex sg" and ?h = "f_Sum256 fmt (segData sg)"
  obtain m where m: "map_of (cc_Segments cc) ?i = Some m"
    using assms(1,3) unfolding ready_def by (metis map_of_None_keys not_None_eq)
  let ?cc = "cc\<lparr>cc_Segments := AList.update ?i (AList.update ?h (sg\<lparr>seg_Timestamp := now\<rparr>) m) (cc_Segments cc)\<rparr>"
  have seg: "segMap ?cc i = (if i = ?i then AList.update ?h (sg\<lparr>seg_Timestamp := now\<rparr>) (segMap cc i) else segMap cc i)" for i
    using m by (simp add: segMap_def update_conv)
  have "CheckpointCache_AddSegment fmt now sg cc = Ok ?cc"
    using assms(3) m by (simp add: CheckpointCache_AddSegment_def Let_def)
  moreover have "cached_from fmt S ?cc"
    using assms(1,2) unfolding ready_def cached_from_def seg by (auto simp: update_conv split: if_splits)
  then have "ready fmt S ?cc" using assms(1) by (simp add: ready_def)
  moreover have "cacheGrows cc ?cc" by (auto simp: cacheGrows_def seg)
  moreover have "?h \<in> keys_of (segMap ?cc ?i)" by (simp add: seg)
  ultimately show thesis using that by blast
qed

text \<open>The clock of the reporter only reads.\<close>

definition clock_contract :: "('w, 'spv) reporterEnv \<Rightarrow> bool" where
  "clock_contract env \<longleftrightarrow> (\<forall>w. \<exists>t. re_Now env w = (Ok t, w))"

text \<open>Every segment of the list with an index in range is cached under its hash.\<close>

definition allCached :: "formatter \<Rightarrow> ckptSegment list \<Rightarrow> ckptCache \<Rightarrow> bool" where
  "allCached fmt sgs cc \<longleftrightarrow>
     (\<forall>sg\<in>set sgs. segIndex sg < f_NumberOfParts fmt \<longrightarrow> f_Sum256 fmt (segData sg) \<in> keys_of (segMap cc (segIndex sg)))"

lemma allCached_grows: "allCached fmt sgs cc \<Longrightarrow> cacheGrows cc cc' \<Longrightarrow> allCached fmt sgs cc'"
  by (auto simp: allCached_def cacheGrows_def)

lemma extract_one:
  assumes "clock_contract env" and "ready (re_fmt env) S (r_checkpointCache r)"
    and "NewCkptSegment (re_fmt env) (cc_Tag (r_checkpointCache r)) (cc_Version (r_checkpointCache r)) ib tx = Some sg" and "sg \<in> S"
  obtains cc' n' where "extractLoop env ib (Some tx # txs) n r = extractLoop env ib txs n' (r\<lparr>r_checkpointCache := cc'\<rparr>)"
    and "ready (re_fmt env) S cc'" and "cacheGrows (r_checkpointCache r) cc'" and "allCached (re_fmt env) [sg] cc'"
proof -
  let ?cc = "r_checkpointCache r"
  obtain t where now: "re_Now env (r_world r) = (Ok t, r_world r)" using assms(1) unfolding clock_contract_def by blast
  have step: "extractLoop env ib (Some tx # txs) n r = (case CheckpointCache_AddSegment (re_fmt env) t sg ?cc of
      Ok cc' \<Rightarrow> extractLoop env ib txs (Suc n) (r\<lparr>r_checkpointCache := cc'\<rparr>)
    | Err _ \<Rightarrow> extractLoop env ib txs n r | Panic p \<Rightarrow> (Panic p, r) | NoFuel \<Rightarrow> (NoFuel, r))"
    using assms(3) rpcR_step [of "re_Now env" r, OF now]
    by (simp add: bindG_def getG_def tryG_def liftG_def ckptCacheG_def modG_def retG_def split: outcome.splits)
  show thesis
  proof (cases "segIndex sg < f_NumberOfParts (re_fmt env)")
    case True
    from AddSegment_grows [OF assms(2,4) this, of t] obtain cc' where
      "CheckpointCache_AddSegment (re_fmt env) t sg ?cc = Ok cc'" "ready (re_fmt env) S cc'" "cacheGrows ?cc cc'"
      "f_Sum256 (re_fmt env) (segData sg) \<in> keys_of (segMap cc' (segIndex sg))" .
    then show thesis using step by (intro that [of "Suc n" cc']) (simp_all add: allCached_def)
  next
    case False
    then have "CheckpointCache_AddSegment (re_fmt env) t sg ?cc = Err (errorf ''the index of the ckpt segment is out of scope'')"
      by (simp add: CheckpointCache_AddSegment_def Let_def not_less)
    then show thesis using step False assms(2) by (intro that [of n ?cc]) (simp_all add: allCached_def)
  qed
qed

lemma extractLoop_spec:
  assumes "clock_contract env"
  shows "\<lbrakk>ready (re_fmt env) S (r_checkpointCache r);
      sgs = txSegments (re_fmt env) (cc_Tag (r_checkpointCache r)) (cc_Version (r_checkpointCache r)) ib txs; set sgs \<subseteq> S\<rbrakk>
    \<Longrightarrow> \<exists>n' cc'. extractLoop env ib txs n r = (Ok n', r\<lparr>r_checkpointCache := cc'\<rparr>)
      \<and> ready (re_fmt env) S cc' \<and> cacheGrows (r_checkpointCache r) cc' \<and> allCached (re_fmt env) sgs cc'"
proof (induction txs arbitrary: n r sgs)
  case Nil
  then show ?case by (intro exI [of _ n] exI [of _ "r_checkpointCache r"]) (simp add: retG_def allCached_def)
next
  case (Cons t txs)
  let ?cc = "r_checkpointCache r"
  show ?case
  proof (cases "\<exists>tx sg. t = Some tx \<and> NewCkptSegment (re_fmt env) (cc_Tag ?cc) (cc_Version ?cc) ib tx = Some sg")
    case False
    then have "extractLoop env ib (t # txs) n r = extractLoop env ib txs n r"
      and "sgs = txSegments (re_fmt env) (cc_Tag ?cc) (cc_Version ?cc) ib txs"
      using Cons.prems(2) by (cases t; auto simp: bindG_def getG_def split: option.splits)+
    then show ?thesis using Cons.IH [of r sgs n] Cons.prems by simp
  next
    case True
    then obtain tx sg where t: "t = Some tx" and sg: "NewCkptSegment (re_fmt env) (cc_Tag ?cc) (cc_Version ?cc) ib tx = Some sg" by blast
    let ?rest = "txSegments (re_fmt env) (cc_Tag ?cc) (cc_Version ?cc) ib txs"
    have sgs: "sgs = sg # ?rest" using Cons.prems(2) t sg by simp
    then have "sg \<in> S" using Cons.prems(3) by simp
    from extract_one [OF assms Cons.prems(1) sg this] obtain cc' n' where
      step: "extractLoop env ib (t # txs) n r = extractLoop env ib txs n' (r\<lparr>r_checkpointCache := cc'\<rparr>)"
      and cc': "ready (re_fmt env) S cc'" "cacheGrows ?cc cc'" "allCached (re_fmt env) [sg] cc'" unfolding t .
    have "cc_Tag cc' = cc_Tag ?cc" "cc_Version cc' = cc_Version ?cc" using cc'(2) by (simp_all add: cacheGrows_def)
    then obtain n'' cc'' where run: "extractLoop env ib txs n' (r\<lparr>r_checkpointCache := cc'\<rparr>) = (Ok n'', r\<lparr>r_checkpointCache := cc''\<rparr>)"
      and cc'': "ready (re_fmt env) S cc''" "cacheGrows cc' cc''" "allCached (re_fmt env) ?rest cc''"
      using Cons.IH [of "r\<lparr>r_checkpointCache := cc'\<rparr>" ?rest n'] cc'(1) Cons.prems(3) sgs by auto
    have "allCached (re_fmt env) sgs cc''"
      using allCached_grows [OF cc'(3) cc''(2)] cc''(3) by (simp add: sgs allCached_def)
    then show ?thesis using step run cc''(1) cacheGrows_trans [OF cc'(2) cc''(2)] by auto
  qed
qed

lemma extractAll_spec:
  assumes "clock_contract env"
  shows "\<lbrakk>ready (re_fmt env) S (r_checkpointCache r);
      sgs = blockSegments (re_fmt env) (cc_Tag (r_checkpointCache r)) (cc_Version (r_checkpointCache r)) ibs; set sgs \<subseteq> S\<rbrakk>
    \<Longrightarrow> \<exists>n' cc'. extractAll env ibs n r = (Ok n', r\<lparr>r_checkpointCache := cc'\<rparr>)
      \<and> ready (re_fmt env) S cc' \<and> cacheGrows (r_checkpointCache r) cc' \<and> allCached (re_fmt env) sgs cc'"
proof (induction ibs arbitrary: n r sgs)
  case Nil
  then show ?case by (intro exI [of _ n] exI [of _ "r_checkpointCache r"]) (simp add: retG_def allCached_def)
next
  case (Cons ib ibs)
  let ?cc = "r_checkpointCache r"
  let ?first = "txSegments (re_fmt env) (cc_Tag ?cc) (cc_Version ?cc) ib (ib_Txs ib)"
  let ?rest = "blockSegments (re_fmt env) (cc_Tag ?cc) (cc_Version ?cc) ibs"
  have sub: "set ?first \<subseteq> S" "set ?rest \<subseteq> S" using Cons.prems(2,3) by simp_all
  obtain k cc' where one: "extractCheckpoints env ib r = (Ok k, r\<lparr>r_checkpointCache := cc'\<rparr>)"
    and cc': "ready (re_fmt env) S cc'" "cacheGrows ?cc cc'" "allCached (re_fmt env) ?first cc'"
    using extractLoop_spec [OF assms Cons.prems(1) refl sub(1), of 0] unfolding extractCheckpoints_def by blast
  have "cc_Tag cc' = cc_Tag ?cc" "cc_Version cc' = cc_Version ?cc" using cc'(2) by (simp_all add: cacheGrows_def)
  then obtain n' cc'' where run: "extractAll env ibs (n + k) (r\<lparr>r_checkpointCache := cc'\<rparr>) = (Ok n', r\<lparr>r_checkpointCache := cc''\<rparr>)"
    and cc'': "ready (re_fmt env) S cc''" "cacheGrows cc' cc''" "allCached (re_fmt env) ?rest cc''"
    using Cons.IH [of "r\<lparr>r_checkpointCache := cc'\<rparr>" ?rest "n + k"] cc'(1) sub(2) by auto
  have "allCached (re_fmt env) sgs cc''"
    using allCached_grows [OF cc'(3) cc''(2)] cc''(3) by (auto simp: Cons.prems(2) allCached_def)
  then show ?case using one run cc''(1) cacheGrows_trans [OF cc'(2) cc''(2)]
    by (intro exI [of _ n'] exI [of _ cc'']) (simp add: bindG_def)
qed

subsection \<open>Joining the two halves\<close>

text \<open>
  \<open>visits_all\<close>: the two \<open>range\<close> loops visit every cached key. \<open>provable\<close>: the library proves the
  inclusion of the transactions that carry the segments. \<open>no_collisions\<close>: among the segments
  seen, no other data has the hash of one of the halves, and the second half, which contains a
  checksum of the first, connects with no other first half. Other second halves may connect.
\<close>

definition visits_all :: "('w, 'spv) reporterEnv \<Rightarrow> bool" where
  "visits_all env \<longleftrightarrow> (\<forall>cc. keys_of (segMap cc 0) \<subseteq> set (re_range0 env cc) \<and> (\<forall>h. keys_of (segMap cc 1) \<subseteq> set (re_range1 env cc h)))"

abbreviation segProof :: "('w, 'spv) reporterEnv \<Rightarrow> ckptSegment \<Rightarrow> 'spv outcome" where
  "segProof env sg \<equiv> GenSPVProof (re_Serialize env) (re_SpvProof env) (seg_AssocBlock sg) (seg_TxIdx sg)"

definition provable :: "('w, 'spv) reporterEnv \<Rightarrow> ckptSegment set \<Rightarrow> bool" where
  "provable env S \<longleftrightarrow> (\<forall>sg\<in>S. \<exists>p. segProof env sg = Ok p)"

definition no_collisions :: "formatter \<Rightarrow> u8 \<Rightarrow> ckptSegment set \<Rightarrow> bytes \<Rightarrow> bytes \<Rightarrow> bool" where
  "no_collisions fmt version S p1 p2 \<longleftrightarrow> (\<forall>sg\<in>S.
     (segIndex sg = 0 \<longrightarrow> f_Sum256 fmt (segData sg) = f_Sum256 fmt p1 \<longrightarrow> segData sg = p1) \<and>
     (segIndex sg = 1 \<longrightarrow> f_Sum256 fmt (segData sg) = f_Sum256 fmt p2 \<longrightarrow> segData sg = p2) \<and>
     (segIndex sg = 0 \<longrightarrow> segData sg \<noteq> p1 \<longrightarrow> (\<exists>e. f_ConnectParts fmt version (segData sg) p2 = Inl e)))"

definition reporter_contract :: "('w, 'spv) reporterEnv \<Rightarrow> ('w \<Rightarrow> 'spv msgInsertBTCSpvProof list) \<Rightarrow> bool" where
  "reporter_contract env sent \<longleftrightarrow> clock_contract env \<and> visits_all env \<and> sorts_by ck_Epoch (re_sortSlice env) \<and> records_sent env sent"

lemma cached_fromD:
  assumes "cached_from fmt S cc" and "map_of (segMap cc i) h = Some sg"
  obtains sg0 t where "sg0 \<in> S" and "sg = sg0\<lparr>seg_Timestamp := t\<rparr>" and "segIndex sg = i" and "h = f_Sum256 fmt (segData sg)"
  using assms unfolding cached_from_def by blast

lemma provable_ckpt:
  assumes "f_NumberOfParts (re_fmt env) = 2" and "segProof env sg1 = Ok p1" and "segProof env sg2 = Ok p2"
  shows "ckptMsg env signer (NewCkpt sg1 sg2 e) = Ok \<lparr>sp_Submitter = signer, sp_Proofs = [p1, p2]\<rparr>"
  using assms by (simp add: ckptMsg_def MustGenSPVProofs_def MustNewMsgInsertBTCSpvProof_def NewCkpt_def)

lemma cached_provable:
  assumes "cached_from fmt S cc" and "provable env S" and "map_of (segMap cc i) h = Some sg"
  obtains p where "segProof env sg = Ok p"
proof -
  from assms(1,3) obtain sg0 t where "sg0 \<in> S" "sg = sg0\<lparr>seg_Timestamp := t\<rparr>" by (rule cached_fromD)
  then have "\<exists>p. segProof env sg = Ok p" using assms(2) by (simp add: provable_def)
  with that show thesis by blast
qed

lemma matched_provable:
  assumes "ready (re_fmt env) S cc" and "provable env S" and "f_NumberOfParts (re_fmt env) = 2" and "sorts_by ck_Epoch srt"
    and "ck \<in> set (cc_Checkpoints (CheckpointCache_Match (re_fmt env) srt ord0 ord1 cc))"
  shows "\<exists>m. ckptMsg env signer ck = Ok m"
proof -
  have cached: "cached_from (re_fmt env) S cc" using assms(1) by (simp add: ready_def)
  have "ck \<in> set (cc_Checkpoints (matchOuter (re_fmt env) ord1 ord0 cc))"
    using assms(5) by (simp add: CheckpointCache_Match_def sorts_by_set [OF assms(4)])
  then have "joined_from (re_fmt env) cc ck"
    using matchOuter_sound [of ck "re_fmt env" ord1 ord0 cc cc] assms(1) by (simp add: ready_def)
  then obtain h1 h2 s1 s2 e where s: "map_of (segMap cc 0) h1 = Some s1" "map_of (segMap cc 1) h2 = Some s2" "ck = NewCkpt s1 s2 e"
    unfolding joined_from_def by blast
  obtain p1 where p1: "segProof env s1 = Ok p1" using cached assms(2) s(1) by (rule cached_provable)
  obtain p2 where p2: "segProof env s2 = Ok p2" using cached assms(2) s(2) by (rule cached_provable)
  show ?thesis using provable_ckpt [OF assms(3) p1 p2] s(3) by blast
qed

text \<open>The cached segment of a half that was seen has the data of that half.\<close>

lemma cached_half:
  assumes "cached_from fmt S cc" and "f_Sum256 fmt p \<in> keys_of (segMap cc i)"
    and "\<And>sg. sg \<in> S \<Longrightarrow> segIndex sg = i \<Longrightarrow> f_Sum256 fmt (segData sg) = f_Sum256 fmt p \<Longrightarrow> segData sg = p"
  obtains sg sg0 t where "map_of (segMap cc i) (f_Sum256 fmt p) = Some sg" and "sg0 \<in> S" and "sg = sg0\<lparr>seg_Timestamp := t\<rparr>"
    and "segIndex sg = i" and "segData sg = p"
proof -
  obtain sg where sg: "map_of (segMap cc i) (f_Sum256 fmt p) = Some sg" using assms(2) by (metis map_of_None_keys not_None_eq)
  from cached_fromD [OF assms(1) sg] obtain sg0 t where
    g: "sg0 \<in> S" "sg = sg0\<lparr>seg_Timestamp := t\<rparr>" "segIndex sg = i" "f_Sum256 fmt p = f_Sum256 fmt (segData sg)" .
  then have "segData sg = p" using assms(3) [of sg0] by simp
  with sg g that show thesis by blast
qed

lemma halves_match:
  assumes "ready fmt S cc" and "no_collisions fmt (cc_Version cc) S p1 p2" and "f_NumberOfParts fmt = 2"
    and "f_Sum256 fmt p1 \<in> keys_of (segMap cc 0)" and "f_Sum256 fmt p2 \<in> keys_of (segMap cc 1)"
    and "f_ConnectParts fmt (cc_Version cc) p1 p2 = Inr conn" and "f_DecodeRawCheckpoint fmt (cc_Version cc) conn = Inr e"
    and "keys_of (segMap cc 0) \<subseteq> set ord0" and "\<And>h. keys_of (segMap cc 1) \<subseteq> set (ord1 h)" and "sorts_by ck_Epoch srt"
  obtains sg1 sg2 where "NewCkpt sg1 sg2 e \<in> set (cc_Checkpoints (CheckpointCache_Match fmt srt ord0 ord1 cc))"
    and "map_of (segMap cc 0) (f_Sum256 fmt p1) = Some sg1" and "map_of (segMap cc 1) (f_Sum256 fmt p2) = Some sg2"
    and "segData sg1 = p1" and "segData sg2 = p2"
proof -
  have cached: "cached_from fmt S cc" using assms(1) by (simp add: ready_def)
  from cached_half [OF cached assms(4)] assms(2) obtain sg1 where
    s1: "map_of (segMap cc 0) (f_Sum256 fmt p1) = Some sg1" "segData sg1 = p1" unfolding no_collisions_def by metis
  from cached_half [OF cached assms(5)] assms(2) obtain sg2 where
    s2: "map_of (segMap cc 1) (f_Sum256 fmt p2) = Some sg2" "segData sg2 = p2" unfolding no_collisions_def by metis
  have join: "joinSegments fmt (cc_Version cc) sg1 sg2 = Some e" using s1(2) s2(2) assms(6,7) by (simp add: joinSegments_def)
  have other: "joinSegments fmt (cc_Version cc) s sg2 = None" if "h \<noteq> f_Sum256 fmt p1" "map_of (segMap cc 0) h = Some s" for h s
  proof -
    from cached_fromD [OF cached that(2)] obtain s0 t where
      s: "s0 \<in> S" "s = s0\<lparr>seg_Timestamp := t\<rparr>" "segIndex s = 0" "h = f_Sum256 fmt (segData s)" .
    then have "segData s \<noteq> p1" using that(1) by auto
    then obtain x where "f_ConnectParts fmt (cc_Version cc) (segData s) p2 = Inl x"
      using s assms(2) unfolding no_collisions_def by auto
    then show ?thesis using s2(2) by (simp add: joinSegments_def)
  qed
  have "NewCkpt sg1 sg2 e \<in> set (cc_Checkpoints (matchOuter fmt ord1 ord0 cc))"
    using assms(4,5,8,9) by (intro matchOuter_finds [OF _ _ s1(1) s2(1) join other]) auto
  then show thesis using that s1 s2 by (simp add: CheckpointCache_Match_def sorts_by_set [OF assms(10)])
qed

text \<open>The reporter reports every checkpoint whose halves are in the blocks.\<close>

lemma ProcessCheckpoints_reports:
  assumes "reporter_contract env sent" and "f_NumberOfParts (re_fmt env) = 2" and "ready (re_fmt env) S (r_checkpointCache r)"
    and "set (blockSegments (re_fmt env) (cc_Tag (r_checkpointCache r)) (cc_Version (r_checkpointCache r)) ibs) \<subseteq> S" and "provable env S"
    and "no_collisions (re_fmt env) (cc_Version (r_checkpointCache r)) S p1 p2"
    and "a1 \<in> set (blockSegments (re_fmt env) (cc_Tag (r_checkpointCache r)) (cc_Version (r_checkpointCache r)) ibs)"
    and "a2 \<in> set (blockSegments (re_fmt env) (cc_Tag (r_checkpointCache r)) (cc_Version (r_checkpointCache r)) ibs)"
    and "seg_BabylonData a1 = \<lparr>bd_Data = p1, bd_Index = 0\<rparr>" and "seg_BabylonData a2 = \<lparr>bd_Data = p2, bd_Index = 1\<rparr>"
    and "f_ConnectParts (re_fmt env) (cc_Version (r_checkpointCache r)) p1 p2 = Inr conn"
    and "f_DecodeRawCheckpoint (re_fmt env) (cc_Version (r_checkpointCache r)) conn = Inr e"
  shows "\<exists>n r' ms b1 b2 q1 q2. ProcessCheckpoints env signer ibs r = (Ok n, r') \<and> sent (r_world r') = sent (r_world r) @ ms
    \<and> \<lparr>sp_Submitter = signer, sp_Proofs = [q1, q2]\<rparr> \<in> set ms \<and> b1 \<in> S \<and> b2 \<in> S
    \<and> segProof env b1 = Ok q1 \<and> segProof env b2 = Ok q2
    \<and> seg_BabylonData b1 = \<lparr>bd_Data = p1, bd_Index = 0\<rparr> \<and> seg_BabylonData b2 = \<lparr>bd_Data = p2, bd_Index = 1\<rparr>"
proof -
  let ?fmt = "re_fmt env"
  have env: "clock_contract env" "visits_all env" "sorts_by ck_Epoch (re_sortSlice env)" "records_sent env sent"
    using assms(1) by (simp_all add: reporter_contract_def)
  obtain k cc where ext: "extractAll env ibs 0 r = (Ok k, r\<lparr>r_checkpointCache := cc\<rparr>)"
    and rd: "ready ?fmt S cc" and gr: "cacheGrows (r_checkpointCache r) cc"
    and all: "allCached ?fmt (blockSegments ?fmt (cc_Tag (r_checkpointCache r)) (cc_Version (r_checkpointCache r)) ibs) cc"
    using extractAll_spec [OF env(1) assms(3) refl assms(4), of 0] by blast
  have v: "cc_Version cc = cc_Version (r_checkpointCache r)" using gr by (simp add: cacheGrows_def)
  have cached: "cached_from ?fmt S cc" using rd by (simp add: ready_def)
  have lt: "(0 :: u8) < 2" "(1 :: u8) < 2" by simp_all
  have keys: "f_Sum256 ?fmt p1 \<in> keys_of (segMap cc 0)" "f_Sum256 ?fmt p2 \<in> keys_of (segMap cc 1)"
    using all assms(7-10) lt unfolding allCached_def assms(2) by force+
  let ?cc = "CheckpointCache_Match ?fmt (re_sortSlice env) (re_range0 env cc) (re_range1 env cc) cc"
  from halves_match [OF rd _ assms(2) keys, of conn e "re_range0 env cc" "re_range1 env cc" "re_sortSlice env"] assms(6,11,12) env(2,3)
  obtain s1 s2 where ck: "NewCkpt s1 s2 e \<in> set (cc_Checkpoints ?cc)" and s: "map_of (segMap cc 0) (f_Sum256 ?fmt p1) = Some s1"
    "map_of (segMap cc 1) (f_Sum256 ?fmt p2) = Some s2" "segData s1 = p1" "segData s2 = p2" unfolding v visits_all_def by metis
  from cached_fromD [OF cached s(1)] obtain b1 t1 where b1: "b1 \<in> S" "s1 = b1\<lparr>seg_Timestamp := t1\<rparr>" "segIndex s1 = 0" by metis
  from cached_fromD [OF cached s(2)] obtain b2 t2 where b2: "b2 \<in> S" "s2 = b2\<lparr>seg_Timestamp := t2\<rparr>" "segIndex s2 = 1" by metis
  obtain q1 q2 where q: "segProof env b1 = Ok q1" "segProof env b2 = Ok q2" using assms(5) b1(1) b2(1) unfolding provable_def by blast
  let ?m = "\<lparr>sp_Submitter = signer, sp_Proofs = [q1, q2]\<rparr>"
  have m: "ckptMsg env signer (NewCkpt s1 s2 e) = Ok ?m" using provable_ckpt [OF assms(2), of s1 q1 s2 q2] q b1(2) b2(2) by simp
  obtain r' ms where sub: "matchAndSubmitCheckpoints env signer (r\<lparr>r_checkpointCache := cc\<rparr>) = (Ok (length ms), r')"
    "sent (r_world r') = sent (r_world r) @ ms" "map (ckptMsg env signer) (cc_Checkpoints ?cc) = map Ok ms"
    using matchAndSubmit_sends [OF env(4), of ?cc "r\<lparr>r_checkpointCache := cc\<rparr>" signer] matched_provable [OF rd assms(5,2) env(3)] by auto
  have "Ok ?m \<in> set (map Ok ms)" unfolding sub(3) [symmetric] using ck m by (metis image_eqI set_map)
  then have "?m \<in> set ms" by auto
  moreover have "ProcessCheckpoints env signer ibs r = (Ok (k, length ms), r')"
    using ext sub(1) by (simp add: ProcessCheckpoints_def bindG_def retG_def)
  moreover have "seg_BabylonData b1 = \<lparr>bd_Data = p1, bd_Index = 0\<rparr>" "seg_BabylonData b2 = \<lparr>bd_Data = p2, bd_Index = 1\<rparr>"
    using s(3,4) b1 b2 by simp_all
  ultimately show ?thesis using sub(2) b1(1) b2(1) q by blast
qed

subsection \<open>From the submitter to the reporter\<close>

text \<open>
  The two sides of the codec fit. A transaction whose first output is the data script and whose
  other outputs are no data outputs gives the data back; the encoded parts of the checkpoint
  are recognised with their indices, connect, and decode to its epoch.
\<close>

definition isOpReturn :: "bytes \<Rightarrow> bool" where
  "isOpReturn script = (case script of [] \<Rightarrow> False | op # _ \<Rightarrow> op = 0x6a)"

definition oneDataOutput :: "msgTx \<Rightarrow> bool" where
  "oneDataOutput tx = (\<forall>out\<in>set (tl (tx_TxOut tx)). \<not> isOpReturn (out_PkScript out))"

definition codec_links :: "('w, 'db, 'raw, 'btc) relayerEnv \<Rightarrow> formatter \<Rightarrow> bytes \<Rightarrow> u8 \<Rightarrow> rawCkptResponse \<Rightarrow> bool" where
  "codec_links renv fmt tag version ckpt \<longleftrightarrow> f_NumberOfParts fmt = 2 \<and>
     (\<forall>d script tx. rle_DataScript renv d = Inr script \<and> tx_TxOut (bt_MsgTx tx) \<noteq> []
        \<and> hd (tx_TxOut (bt_MsgTx tx)) = \<lparr>out_Value = 0, out_PkScript = script\<rparr> \<and> oneDataOutput (bt_MsgTx tx)
        \<longrightarrow> f_ExtractStandardOpReturnData fmt tx = Inr d) \<and>
     (\<forall>d1 d2. encodeCheckpointData renv ckpt = Inr (d1, d2) \<longrightarrow>
        (\<exists>p1 p2 conn. f_IsBabylonCheckpointData fmt tag version d1 = Inr \<lparr>bd_Data = p1, bd_Index = 0\<rparr>
           \<and> f_IsBabylonCheckpointData fmt tag version d2 = Inr \<lparr>bd_Data = p2, bd_Index = 1\<rparr>
           \<and> f_ConnectParts fmt version p1 p2 = Inr conn \<and> f_DecodeRawCheckpoint fmt version conn = Inr (rcr_EpochNum ckpt)))"

definition minedIn :: "indexedBlock list \<Rightarrow> msgTx \<Rightarrow> bool" where
  "minedIn ibs tx = (\<exists>ib\<in>set ibs. \<exists>i < length (ib_Txs ib). ib_Txs ib ! i = Some \<lparr>bt_MsgTx = tx, bt_Index = int i\<rparr>)"

text \<open>The data of the segment that a part of a checkpoint becomes.\<close>

definition partData :: "formatter \<Rightarrow> bytes \<Rightarrow> u8 \<Rightarrow> bytes \<Rightarrow> bytes" where
  "partData fmt tag version d = (case f_IsBabylonCheckpointData fmt tag version d of Inl _ \<Rightarrow> [] | Inr b \<Rightarrow> bd_Data b)"

lemma mined_segment:
  assumes "minedIn ibs tx" and "\<And>i. f_ExtractStandardOpReturnData fmt \<lparr>bt_MsgTx = tx, bt_Index = i\<rparr> = Inr d"
    and "f_IsBabylonCheckpointData fmt tag version d = Inr b"
  obtains sg where "sg \<in> set (blockSegments fmt tag version ibs)" and "seg_BabylonData sg = b"
proof -
  from assms(1) obtain ib i where ib: "ib \<in> set ibs" "i < length (ib_Txs ib)" "ib_Txs ib ! i = Some \<lparr>bt_MsgTx = tx, bt_Index = int i\<rparr>"
    unfolding minedIn_def by blast
  from ib(2,3) have "Some \<lparr>bt_MsgTx = tx, bt_Index = int i\<rparr> \<in> set (ib_Txs ib)" by (metis nth_mem)
  moreover have "NewCkptSegment fmt tag version ib \<lparr>bt_MsgTx = tx, bt_Index = int i\<rparr>
      = Some \<lparr>seg_BabylonData = b, seg_TxIdx = int i, seg_AssocBlock = ib, seg_Timestamp = 0\<rparr>"
    using assms(2,3) by (simp add: NewCkptSegment_def)
  ultimately show thesis using blockSegments_mem [OF ib(1)] that by fastforce
qed

text \<open>
  C3. A checkpoint that the relayer has sent reaches Babylon: when its two transactions are in the
  blocks the reporter processes, in any order and among any other transactions, the reporter
  returns and sends a message with inclusion proofs of two transactions that carry exactly the two
  parts of this checkpoint, which connect and decode to its epoch. Foreign second halves in the
  blocks do not prevent this.
\<close>

theorem checkpoint_reaches_babylon:
  assumes "wallet_contract renv" and "convertCkptToTwoTxAndSubmit renv ckpt s = (Ok c, s')"
    and "ci_Tx1 c = Some tx1" and "ci_Tx2 c = Some tx2"
    and "oneDataOutput (ti_Tx tx1)" and "oneDataOutput (ti_Tx tx2)" and "minedIn ibs (ti_Tx tx1)" and "minedIn ibs (ti_Tx tx2)"
    and "cc = r_checkpointCache r" and "codec_links renv (re_fmt env) (cc_Tag cc) (cc_Version cc) ckpt"
    and "encodeCheckpointData renv ckpt = Inr (d1, d2)" and "p1 = partData (re_fmt env) (cc_Tag cc) (cc_Version cc) d1"
    and "p2 = partData (re_fmt env) (cc_Tag cc) (cc_Version cc) d2"
    and "reporter_contract env sent" and "ready (re_fmt env) S cc"
    and "set (blockSegments (re_fmt env) (cc_Tag cc) (cc_Version cc) ibs) \<subseteq> S" and "provable env S"
    and "no_collisions (re_fmt env) (cc_Version cc) S p1 p2"
  shows "\<exists>n r' ms b1 b2 q1 q2. ProcessCheckpoints env signer ibs r = (Ok n, r') \<and> sent (r_world r') = sent (r_world r) @ ms
    \<and> \<lparr>sp_Submitter = signer, sp_Proofs = [q1, q2]\<rparr> \<in> set ms \<and> b1 \<in> S \<and> b2 \<in> S
    \<and> segProof env b1 = Ok q1 \<and> segProof env b2 = Ok q2
    \<and> seg_BabylonData b1 = \<lparr>bd_Data = p1, bd_Index = 0\<rparr> \<and> seg_BabylonData b2 = \<lparr>bd_Data = p2, bd_Index = 1\<rparr>
    \<and> joinSegments (re_fmt env) (cc_Version cc) b1 b2 = Some (rcr_EpochNum ckpt)"
proof -
  let ?fmt = "re_fmt env"
  obtain sc1 sc2 where sc: "rle_DataScript renv d1 = Inr sc1" "rle_DataScript renv d2 = Inr sc2"
    and out1: "tx_TxOut (ti_Tx tx1) \<noteq> []" "hd (tx_TxOut (ti_Tx tx1)) = \<lparr>out_Value = 0, out_PkScript = sc1\<rparr>"
    and out2: "tx_TxOut (ti_Tx tx2) \<noteq> []" "hd (tx_TxOut (ti_Tx tx2)) = \<lparr>out_Value = 0, out_PkScript = sc2\<rparr>"
    using assms(3,4,11) by (auto intro: convert_outputs [OF assms(1,2)])
  have data: "f_ExtractStandardOpReturnData ?fmt \<lparr>bt_MsgTx = ti_Tx tx1, bt_Index = i\<rparr> = Inr d1"
    "f_ExtractStandardOpReturnData ?fmt \<lparr>bt_MsgTx = ti_Tx tx2, bt_Index = i\<rparr> = Inr d2" for i
    using assms(5,6,10) sc out1 out2 unfolding codec_links_def by auto
  from assms(10,11) obtain conn where parts: "f_NumberOfParts ?fmt = 2"
    and isB: "f_IsBabylonCheckpointData ?fmt (cc_Tag cc) (cc_Version cc) d1 = Inr \<lparr>bd_Data = p1, bd_Index = 0\<rparr>"
      "f_IsBabylonCheckpointData ?fmt (cc_Tag cc) (cc_Version cc) d2 = Inr \<lparr>bd_Data = p2, bd_Index = 1\<rparr>"
    and conn: "f_ConnectParts ?fmt (cc_Version cc) p1 p2 = Inr conn" "f_DecodeRawCheckpoint ?fmt (cc_Version cc) conn = Inr (rcr_EpochNum ckpt)"
    unfolding codec_links_def assms(12,13) partData_def by fastforce
  from mined_segment [OF assms(7) data(1) isB(1)] obtain a1 where
    a1: "a1 \<in> set (blockSegments ?fmt (cc_Tag cc) (cc_Version cc) ibs)" "seg_BabylonData a1 = \<lparr>bd_Data = p1, bd_Index = 0\<rparr>" .
  from mined_segment [OF assms(8) data(2) isB(2)] obtain a2 where
    a2: "a2 \<in> set (blockSegments ?fmt (cc_Tag cc) (cc_Version cc) ibs)" "seg_BabylonData a2 = \<lparr>bd_Data = p2, bd_Index = 1\<rparr>" .
  have join: "joinSegments ?fmt (cc_Version cc) b1 b2 = Some (rcr_EpochNum ckpt)"
    if "seg_BabylonData b1 = \<lparr>bd_Data = p1, bd_Index = 0\<rparr>" "seg_BabylonData b2 = \<lparr>bd_Data = p2, bd_Index = 1\<rparr>" for b1 b2
    using that conn by (simp add: joinSegments_def)
  from ProcessCheckpoints_reports [OF assms(14) parts assms(15,16,17,18) [unfolded assms(9)] a1(1) [unfolded assms(9)] a2(1) [unfolded assms(9)]
      a1(2) a2(2) conn [unfolded assms(9)], of signer] join
  show ?thesis by blast
qed

subsection \<open>A concrete run\<close>

text \<open>The sample relayer's transactions, mined in one block with the second before the first.\<close>

definition pathFormatter :: formatter where
  "pathFormatter = \<lparr>f_NumberOfParts = 2,
     f_ConnectParts = (\<lambda>_ a b. if a = [1] \<and> b = [2] then Inr (a @ b) else Inl (errorf ''mismatch'')),
     f_DecodeRawCheckpoint = (\<lambda>_ d. if d = [1, 2] then Inr 7 else Inl (errorf ''bad'')),
     f_ExtractStandardOpReturnData = (\<lambda>tx. case tx_TxOut (bt_MsgTx tx) of
        [] \<Rightarrow> Inl (errorf ''no output'')
      | out # _ \<Rightarrow> (case out_PkScript out of op # d \<Rightarrow> if op = 0x6a then Inr d else Inl (errorf ''no data'') | [] \<Rightarrow> Inl (errorf ''no data''))),
     f_IsBabylonCheckpointData = (\<lambda>_ _ d. if d = [1] then Inr \<lparr>bd_Data = d, bd_Index = 0\<rparr>
        else if d = [2] then Inr \<lparr>bd_Data = d, bd_Index = 1\<rparr> else Inl (errorf ''foreign'')),
     f_Sum256 = (\<lambda>d. case d of [] \<Rightarrow> 0 | x # _ \<Rightarrow> ucast x)\<rparr>"

definition pathEnv :: "(sampleWorld, nat) reporterEnv" where
  "pathEnv = sampleEnv\<lparr>re_fmt := pathFormatter, re_range0 := (\<lambda>cc. map fst (segMap cc 0)), re_range1 := (\<lambda>cc _. map fst (segMap cc 1))\<rparr>"

definition pathReporter :: "sampleWorld reporter" where
  "pathReporter = sampleReporter\<lparr>r_checkpointCache := NewCheckpointCache pathFormatter [] 0\<rparr>"

definition pathBlock :: indexedBlock where
  "pathBlock = (sampleBlock 1)\<lparr>ib_Txs := [Some \<lparr>bt_MsgTx = sampleTx2, bt_Index = 0\<rparr>, Some \<lparr>bt_MsgTx = sampleTx1, bt_Index = 1\<rparr>]\<rparr>"

definition pathSegment :: "u8 \<Rightarrow> u8 \<Rightarrow> int \<Rightarrow> ckptSegment" where
  "pathSegment d i pos = \<lparr>seg_BabylonData = \<lparr>bd_Data = [d], bd_Index = i\<rparr>, seg_TxIdx = pos, seg_AssocBlock = pathBlock, seg_Timestamp = 0\<rparr>"

lemma sampleTx_outputs:
  "tx_TxOut sampleTx1 = [\<lparr>out_Value = 0, out_PkScript = [0x6a, 1]\<rparr>, \<lparr>out_Value = 10000, out_PkScript = [0]\<rparr>]"
  "tx_TxOut sampleTx2 = [\<lparr>out_Value = 0, out_PkScript = [0x6a, 2]\<rparr>, \<lparr>out_Value = 10000, out_PkScript = [0]\<rparr>]"
  by (simp_all add: sampleTx1_def sampleTx2_def sampleSign_def sampleFund_def dataTx_def)

lemma sampleConvert_txs:
  "case fst (convertCkptToTwoTxAndSubmit sampleRelayerEnv (cwm_Ckpt sampleCkpt) sampleRelayer) of
     Ok c \<Rightarrow> map_option ti_Tx (ci_Tx1 c) = Some sampleTx1 \<and> map_option ti_Tx (ci_Tx2 c) = Some sampleTx2 | _ \<Rightarrow> False"
  by code_simp

lemma pathSegments: "blockSegments pathFormatter [] 0 [pathBlock] = [pathSegment 2 1 0, pathSegment 1 0 1]"
  by (simp add: pathBlock_def [abs_def] sampleTx_outputs NewCkptSegment_def pathFormatter_def pathSegment_def)

lemma pathEnv_contract: "reporter_contract pathEnv snd"
  by (auto simp: reporter_contract_def clock_contract_def visits_all_def records_sent_def pathEnv_def sampleEnv_def retG_def
      sorts_by_sort_key keys_of_def)

lemma path_codec: "codec_links sampleRelayerEnv pathFormatter [] 0 (cwm_Ckpt sampleCkpt)"
proof -
  have "f_ExtractStandardOpReturnData pathFormatter tx = Inr d"
    if "tx_TxOut (bt_MsgTx tx) \<noteq> []" "hd (tx_TxOut (bt_MsgTx tx)) = \<lparr>out_Value = 0, out_PkScript = 0x6a # d\<rparr>" for tx d
    using that by (cases "tx_TxOut (bt_MsgTx tx)") (auto simp: pathFormatter_def)
  moreover have "encodeCheckpointData sampleRelayerEnv (cwm_Ckpt sampleCkpt) = Inr ([1], [2])" "rle_DataScript sampleRelayerEnv = (\<lambda>d. Inr (0x6a # d))"
    by (simp_all add: encodeCheckpointData_def sampleRelayerEnv_def)
  ultimately show ?thesis unfolding codec_links_def by (auto simp: pathFormatter_def sampleCkpt_def)
qed

lemma path_proofs: "segProof pathEnv (pathSegment 2 1 0) = Ok 0" "segProof pathEnv (pathSegment 1 0 1) = Ok 1"
  by (simp_all add: GenSPVProof_def pathSegment_def pathEnv_def sampleEnv_def pathBlock_def sumOutcome_def)

lemma path_segments_ok:
  "provable pathEnv (set [pathSegment 2 1 0, pathSegment 1 0 1])"
  "no_collisions pathFormatter 0 (set [pathSegment 2 1 0, pathSegment 1 0 1]) [1] [2]"
  using path_proofs by (simp_all add: provable_def) (simp add: no_collisions_def pathSegment_def)

theorem checkpoint_reaches_babylon_witness:
  "\<exists>n r'. ProcessCheckpoints pathEnv ''bbn1'' [pathBlock] pathReporter = (Ok n, r')
     \<and> \<lparr>sp_Submitter = ''bbn1'', sp_Proofs = [1, 0]\<rparr> \<in> set (snd (r_world r'))"
proof -
  obtain c s' where run: "convertCkptToTwoTxAndSubmit sampleRelayerEnv (cwm_Ckpt sampleCkpt) sampleRelayer = (Ok c, s')"
    using isOk_run [OF sampleConvert] by blast
  with sampleConvert_txs obtain tx1 tx2 where tx: "ci_Tx1 c = Some tx1" "ci_Tx2 c = Some tx2" "ti_Tx tx1 = sampleTx1" "ti_Tx tx2 = sampleTx2" by auto
  have one: "oneDataOutput (ti_Tx tx1)" "oneDataOutput (ti_Tx tx2)"
    by (simp_all add: tx oneDataOutput_def isOpReturn_def sampleTx_outputs)
  have mined: "minedIn [pathBlock] (ti_Tx tx1)" "minedIn [pathBlock] (ti_Tx tx2)"
    unfolding minedIn_def tx by (force simp: pathBlock_def intro: exI [of _ 1])+
  have cc: "r_checkpointCache pathReporter = NewCheckpointCache pathFormatter [] 0" "re_fmt pathEnv = pathFormatter"
    "cc_Tag (NewCheckpointCache pathFormatter [] 0) = []" "cc_Version (NewCheckpointCache pathFormatter [] 0) = 0"
    by (simp_all add: pathReporter_def pathEnv_def NewCheckpointCache_def)
  have data: "encodeCheckpointData sampleRelayerEnv (cwm_Ckpt sampleCkpt) = Inr ([1], [2])"
    "[1] = partData pathFormatter [] 0 [1]" "[2] = partData pathFormatter [] 0 [2]"
    by (simp_all add: encodeCheckpointData_def sampleRelayerEnv_def partData_def pathFormatter_def)
  let ?S = "set [pathSegment 2 1 0, pathSegment 1 0 1]"
  have "ready pathFormatter ?S (NewCheckpointCache pathFormatter [] 0)" by (rule ready_mono [OF fresh_ready]) simp
  moreover have "set (blockSegments pathFormatter [] 0 [pathBlock]) \<subseteq> ?S" unfolding pathSegments by simp
  ultimately have "\<exists>n r' ms b1 b2 q1 q2. ProcessCheckpoints pathEnv ''bbn1'' [pathBlock] pathReporter = (Ok n, r')
    \<and> snd (r_world r') = snd (r_world pathReporter) @ ms
    \<and> \<lparr>sp_Submitter = ''bbn1'', sp_Proofs = [q1, q2]\<rparr> \<in> set ms \<and> b1 \<in> ?S \<and> b2 \<in> ?S
    \<and> segProof pathEnv b1 = Ok q1 \<and> segProof pathEnv b2 = Ok q2
    \<and> seg_BabylonData b1 = \<lparr>bd_Data = [1], bd_Index = 0\<rparr> \<and> seg_BabylonData b2 = \<lparr>bd_Data = [2], bd_Index = 1\<rparr>
    \<and> joinSegments pathFormatter 0 b1 b2 = Some (rcr_EpochNum (cwm_Ckpt sampleCkpt))"
    by (rule checkpoint_reaches_babylon [OF sampleWallet run tx(1,2) one mined refl, of pathEnv pathReporter, unfolded cc,
      OF path_codec data pathEnv_contract _ _ path_segments_ok])
  then obtain n r' ms b1 b2 q1 q2 where res: "ProcessCheckpoints pathEnv ''bbn1'' [pathBlock] pathReporter = (Ok n, r')"
    "snd (r_world r') = snd (r_world pathReporter) @ ms" "\<lparr>sp_Submitter = ''bbn1'', sp_Proofs = [q1, q2]\<rparr> \<in> set ms"
    and b: "b1 \<in> ?S" "b2 \<in> ?S" "segProof pathEnv b1 = Ok q1" "segProof pathEnv b2 = Ok q2"
      "seg_BabylonData b1 = \<lparr>bd_Data = [1], bd_Index = 0\<rparr>" "seg_BabylonData b2 = \<lparr>bd_Data = [2], bd_Index = 1\<rparr>"
    by (elim exE conjE) (rule that)
  have "b1 = pathSegment 1 0 1" "b2 = pathSegment 2 1 0" using b(1,2,5,6) by (auto simp: pathSegment_def)
  then have "q1 = 1" "q2 = 0" using b(3,4) path_proofs by auto
  then show ?thesis using res by auto
qed

end
