(* ===== verification/Slasher_Shutdown.thy ===== *)
theory Slasher_Shutdown
  imports Go_Prelude
begin

text \<open>
  The goroutines of the BTC slasher and how they end: \<open>quitContext\<close>, the two loops, the goroutines of
  \<open>SlashFinalityProvider\<close> with their semaphore and deferred calls, \<open>PushOrQuit\<close> and \<open>Stop\<close>
  (\<open>btcstaking-tracker/btcslasher/slasher.go\<close>, \<open>slasher_utils.go\<close>, \<open>utils/channel.go\<close>). What a
  goroutine computes is in \<open>Btc_Slasher\<close>; here a goroutine is the point it has reached, and a step
  moves one goroutine over one blocking or shared operation: a wait group, a channel, a context, a
  semaphore. The steps of all goroutines interleave freely.

  Shown here: the wait group counts exactly the goroutines that still run, it is only raised by a
  goroutine that it counts, no more goroutines than permits hold a semaphore; after \<open>Stop\<close> has
  returned nothing runs; and once quit is closed the goroutines end when no new work comes.
\<close>

subsection \<open>Goroutines\<close>

text \<open>
  The goroutine of \<open>quitContext\<close> waits in its \<open>select\<close>, then runs \<open>wg.Done\<close> and after it \<open>cancel\<close>
  (deferred calls run in reverse).
\<close>

datatype ctxPhase = CtxWaiting | CtxLeaving | CtxEnded

record quitCtx =
  qc_phase :: ctxPhase
  qc_cancelled :: bool

text \<open>
  The two loops, \<open>fetchEvidences\<close> and \<open>slashingEnforcer\<close>: in their \<open>select\<close>; querying Babylon
  or handling a message; starting the \<open>n\<close> remaining goroutines of a provider, with a semaphore; ended.
\<close>

datatype loopPhase = LoopSelect | LoopQuery | LoopSpawn nat nat | LoopEnded

text \<open>
  A goroutine of \<open>SlashFinalityProvider\<close> with the contexts it has: before its \<open>quitContext\<close>, in
  \<open>sem.Acquire\<close>, at the start of \<open>slashBTCDelegation\<close>, in the first and in the second \<open>select\<close>
  of an attempt, in \<open>PushOrQuit\<close>, and before each deferred call.
\<close>

datatype taskPhase =
    TaskStart | TaskAcquire nat | TaskSlash nat | TaskSelect nat nat | TaskSecond nat nat | TaskPush nat nat
  | TaskInnerCancel nat nat | TaskRelease nat | TaskCancel nat | TaskDone | TaskEnded

record task =
  sk_sem :: nat
  sk_phase :: taskPhase

record shutdown =
  sd_quit :: bool
  sd_stopped :: bool
  sd_wg :: int
  sd_sems :: "int list"
  sd_results :: nat
  sd_loops :: "loopPhase list"
  sd_tasks :: "task list"
  sd_ctxs :: "quitCtx list"

text \<open>After \<open>Bootstrap\<close>, which has started \<open>n\<close> goroutines for each element of \<open>ns\<close>, and \<open>Start\<close>.\<close>

definition bootTasks :: "nat list \<Rightarrow> task list" where
  "bootTasks ns = concat (map (\<lambda>(j, n). replicate n \<lparr>sk_sem = j, sk_phase = TaskStart\<rparr>) (enumerate 0 ns))"

definition startedSlasher :: "int \<Rightarrow> nat list \<Rightarrow> shutdown" where
  "startedSlasher maxSlashingConcurrency ns = \<lparr>sd_quit = False, sd_stopped = False,
     sd_wg = int (length (bootTasks ns)) + 2, sd_sems = map (\<lambda>_. maxSlashingConcurrency) ns, sd_results = 0,
     sd_loops = [LoopSelect, LoopSelect], sd_tasks = bootTasks ns, sd_ctxs = []\<rparr>"

subsection \<open>Operations on the shared state\<close>

definition wgAdd :: "int \<Rightarrow> shutdown \<Rightarrow> shutdown" where
  "wgAdd n s = s\<lparr>sd_wg := sd_wg s + n\<rparr>"

definition setLoop :: "nat \<Rightarrow> loopPhase \<Rightarrow> shutdown \<Rightarrow> shutdown" where
  "setLoop k p s = s\<lparr>sd_loops := (sd_loops s)[k := p]\<rparr>"

definition setTask :: "nat \<Rightarrow> taskPhase \<Rightarrow> shutdown \<Rightarrow> shutdown" where
  "setTask i p s = s\<lparr>sd_tasks := (sd_tasks s)[i := (sd_tasks s ! i)\<lparr>sk_phase := p\<rparr>]\<rparr>"

definition setCtx :: "nat \<Rightarrow> quitCtx \<Rightarrow> shutdown \<Rightarrow> shutdown" where
  "setCtx c q s = s\<lparr>sd_ctxs := (sd_ctxs s)[c := q]\<rparr>"

definition quitContext :: "shutdown \<Rightarrow> nat \<times> shutdown" where
  "quitContext s = (length (sd_ctxs s),
     (wgAdd 1 s)\<lparr>sd_ctxs := sd_ctxs s @ [\<lparr>qc_phase = CtxWaiting, qc_cancelled = False\<rparr>]\<rparr>)"

definition cancelCtx :: "nat \<Rightarrow> shutdown \<Rightarrow> shutdown" where
  "cancelCtx c s = setCtx c ((sd_ctxs s ! c)\<lparr>qc_cancelled := True\<rparr>) s"

definition ctxDone :: "shutdown \<Rightarrow> nat \<Rightarrow> bool" where
  "ctxDone s c = qc_cancelled (sd_ctxs s ! c)"

definition semAdd :: "nat \<Rightarrow> int \<Rightarrow> shutdown \<Rightarrow> shutdown" where
  "semAdd j n s = s\<lparr>sd_sems := (sd_sems s)[j := sd_sems s ! j + n]\<rparr>"

definition spawnTask :: "nat \<Rightarrow> shutdown \<Rightarrow> shutdown" where
  "spawnTask j s = (wgAdd 1 s)\<lparr>sd_tasks := sd_tasks s @ [\<lparr>sk_sem = j, sk_phase = TaskStart\<rparr>]\<rparr>"

definition slashResultCap :: nat where "slashResultCap = 1000"

subsection \<open>Steps\<close>

text \<open>The positions of \<open>fetchEvidences\<close> and \<open>slashingEnforcer\<close> among the loops.\<close>

definition fetchLoop :: nat where "fetchLoop = 0"
definition enforcerLoop :: nat where "enforcerLoop = 1"

text \<open>
  One step of goroutine \<open>i\<close>, \<open>k\<close> or \<open>c\<close>. A step is \<open>Work\<close> when it brings new work (a
  tick, a key or a result is taken, a query returns delegations, an attempt is repeated), \<open>Answer\<close>
  when it needs the end of a call to Babylon or Bitcoin, and \<open>Own\<close> otherwise.
  Only the enforcer receives results; only a tick of the evidence loop handles several providers.
\<close>

datatype stepKind = Own | Answer | Work

inductive slasherGo :: "int \<Rightarrow> stepKind \<Rightarrow> shutdown \<Rightarrow> shutdown \<Rightarrow> bool" for maxC where
  ctx_select: "\<lbrakk>c < length (sd_ctxs s); qc_phase (sd_ctxs s ! c) = CtxWaiting; sd_quit s \<or> ctxDone s c\<rbrakk>
    \<Longrightarrow> slasherGo maxC Own s (wgAdd (- 1) (setCtx c ((sd_ctxs s ! c)\<lparr>qc_phase := CtxLeaving\<rparr>) s))"
| ctx_cancel: "\<lbrakk>c < length (sd_ctxs s); qc_phase (sd_ctxs s ! c) = CtxLeaving\<rbrakk>
    \<Longrightarrow> slasherGo maxC Own s (setCtx c \<lparr>qc_phase = CtxEnded, qc_cancelled = True\<rparr> s)"
| loop_work: "\<lbrakk>k < length (sd_loops s); sd_loops s ! k = LoopSelect\<rbrakk> \<Longrightarrow> slasherGo maxC Work s (setLoop k LoopQuery s)"
| loop_result: "\<lbrakk>k = enforcerLoop; k < length (sd_loops s); sd_loops s ! k = LoopSelect; sd_results s = Suc r\<rbrakk> \<Longrightarrow> slasherGo maxC Work s (s\<lparr>sd_results := r\<rparr>)"
| loop_fail: "\<lbrakk>k < length (sd_loops s); sd_loops s ! k = LoopQuery\<rbrakk> \<Longrightarrow> slasherGo maxC Answer s (setLoop k LoopSelect s)"
| loop_dels: "\<lbrakk>k < length (sd_loops s); sd_loops s ! k = LoopQuery\<rbrakk>
    \<Longrightarrow> slasherGo maxC Work s (setLoop k (LoopSpawn (length (sd_sems s)) n) (s\<lparr>sd_sems := sd_sems s @ [maxC]\<rparr>))"
| loop_spawn: "\<lbrakk>k < length (sd_loops s); sd_loops s ! k = LoopSpawn j (Suc n)\<rbrakk>
    \<Longrightarrow> slasherGo maxC Own s (setLoop k (LoopSpawn j n) (spawnTask j s))"
| loop_next: "\<lbrakk>k = fetchLoop; k < length (sd_loops s); sd_loops s ! k = LoopSpawn j 0\<rbrakk> \<Longrightarrow> slasherGo maxC Work s (setLoop k LoopQuery s)"
| loop_spawned: "\<lbrakk>k < length (sd_loops s); sd_loops s ! k = LoopSpawn j 0\<rbrakk> \<Longrightarrow> slasherGo maxC Own s (setLoop k LoopSelect s)"
| loop_quit: "\<lbrakk>k < length (sd_loops s); sd_loops s ! k = LoopSelect; sd_quit s\<rbrakk>
    \<Longrightarrow> slasherGo maxC Own s (wgAdd (- 1) (setLoop k LoopEnded s))"
| task_start: "\<lbrakk>i < length (sd_tasks s); sk_phase (sd_tasks s ! i) = TaskStart; quitContext s = (c, s')\<rbrakk>
    \<Longrightarrow> slasherGo maxC Own s (setTask i (TaskAcquire c) s')"
| task_acquire: "\<lbrakk>i < length (sd_tasks s); sd_tasks s ! i = \<lparr>sk_sem = j, sk_phase = TaskAcquire c\<rparr>; sd_sems s ! j > 0\<rbrakk>
    \<Longrightarrow> slasherGo maxC Own s (setTask i (TaskSlash c) (semAdd j (- 1) s))"
| task_refused: "\<lbrakk>i < length (sd_tasks s); sk_phase (sd_tasks s ! i) = TaskAcquire c; ctxDone s c\<rbrakk>
    \<Longrightarrow> slasherGo maxC Own s (setTask i (TaskCancel c) s)"
| task_slash: "\<lbrakk>i < length (sd_tasks s); sk_phase (sd_tasks s ! i) = TaskSlash c; quitContext s = (c', s')\<rbrakk>
    \<Longrightarrow> slasherGo maxC Own s (setTask i (TaskSelect c c') s')"
| task_sent: "\<lbrakk>i < length (sd_tasks s); sk_phase (sd_tasks s ! i) = TaskSelect c c'\<rbrakk> \<Longrightarrow> slasherGo maxC Answer s (setTask i (TaskPush c c') s)"
| task_ctx_done: "\<lbrakk>i < length (sd_tasks s); sk_phase (sd_tasks s ! i) = TaskSelect c c'; ctxDone s c'\<rbrakk>
    \<Longrightarrow> slasherGo maxC Own s (setTask i (TaskPush c c') s)"
| task_first_err: "\<lbrakk>i < length (sd_tasks s); sk_phase (sd_tasks s ! i) = TaskSelect c c'\<rbrakk> \<Longrightarrow> slasherGo maxC Answer s (setTask i (TaskSecond c c') s)"
| task_answer: "\<lbrakk>i < length (sd_tasks s); sk_phase (sd_tasks s ! i) = TaskSecond c c'\<rbrakk> \<Longrightarrow> slasherGo maxC Answer s (setTask i (TaskPush c c') s)"
| task_retry: "\<lbrakk>i < length (sd_tasks s); sk_phase (sd_tasks s ! i) = TaskSecond c c'; \<not> ctxDone s c'\<rbrakk>
    \<Longrightarrow> slasherGo maxC Work s (setTask i (TaskSelect c c') s)"
| task_push: "\<lbrakk>i < length (sd_tasks s); sk_phase (sd_tasks s ! i) = TaskPush c c'; sd_results s < slashResultCap\<rbrakk>
    \<Longrightarrow> slasherGo maxC Own s (setTask i (TaskInnerCancel c c') (s\<lparr>sd_results := Suc (sd_results s)\<rparr>))"
| task_push_quit: "\<lbrakk>i < length (sd_tasks s); sk_phase (sd_tasks s ! i) = TaskPush c c'; sd_quit s\<rbrakk>
    \<Longrightarrow> slasherGo maxC Own s (setTask i (TaskInnerCancel c c') s)"
| task_inner_cancel: "\<lbrakk>i < length (sd_tasks s); sk_phase (sd_tasks s ! i) = TaskInnerCancel c c'\<rbrakk>
    \<Longrightarrow> slasherGo maxC Own s (setTask i (TaskRelease c) (cancelCtx c' s))"
| task_release: "\<lbrakk>i < length (sd_tasks s); sd_tasks s ! i = \<lparr>sk_sem = j, sk_phase = TaskRelease c\<rparr>\<rbrakk>
    \<Longrightarrow> slasherGo maxC Own s (setTask i (TaskCancel c) (semAdd j 1 s))"
| task_cancel: "\<lbrakk>i < length (sd_tasks s); sk_phase (sd_tasks s ! i) = TaskCancel c\<rbrakk> \<Longrightarrow> slasherGo maxC Own s (setTask i TaskDone (cancelCtx c s))"
| task_done: "\<lbrakk>i < length (sd_tasks s); sk_phase (sd_tasks s ! i) = TaskDone\<rbrakk> \<Longrightarrow> slasherGo maxC Own s (wgAdd (- 1) (setTask i TaskEnded s))"
| stop_quit: "\<not> sd_quit s \<Longrightarrow> slasherGo maxC Own s (s\<lparr>sd_quit := True\<rparr>)"
| stop_wait: "\<lbrakk>sd_quit s; \<not> sd_stopped s; sd_wg s = 0\<rbrakk> \<Longrightarrow> slasherGo maxC Own s (s\<lparr>sd_stopped := True\<rparr>)"

inductive_cases slasherGoE: "slasherGo maxC kind s s'"

lemmas shared_defs = wgAdd_def setLoop_def setTask_def setCtx_def cancelCtx_def semAdd_def spawnTask_def quitContext_def

subsection \<open>Sums over the goroutines\<close>

text \<open>
  The wait group, the permits and the work left are all sums over the goroutines; one set of
  equations says how the operations change such a sum.
\<close>

definition total :: "(loopPhase \<Rightarrow> int) \<Rightarrow> (task \<Rightarrow> int) \<Rightarrow> (quitCtx \<Rightarrow> int) \<Rightarrow> shutdown \<Rightarrow> int" where
  "total f g h s = (\<Sum>l\<leftarrow>sd_loops s. f l) + (\<Sum>t\<leftarrow>sd_tasks s. g t) + (\<Sum>c\<leftarrow>sd_ctxs s. h c)"

lemma sum_list_upd:
  fixes f :: "'a \<Rightarrow> 'b::ab_group_add"
  shows "i < length xs \<Longrightarrow> (\<Sum>x\<leftarrow>xs[i := y]. f x) = (\<Sum>x\<leftarrow>xs. f x) - f (xs ! i) + f y"
  by (induction xs arbitrary: i) (auto split: nat.splits)

lemma total_simps [simp]:
  "total f g h (wgAdd n s) = total f g h s"
  "total f g h (semAdd j n s) = total f g h s"
  "k < length (sd_loops s) \<Longrightarrow> total f g h (setLoop k p s) = total f g h s - f (sd_loops s ! k) + f p"
  "i < length (sd_tasks s) \<Longrightarrow> total f g h (setTask i q s) = total f g h s - g (sd_tasks s ! i) + g ((sd_tasks s ! i)\<lparr>sk_phase := q\<rparr>)"
  "c < length (sd_ctxs s) \<Longrightarrow> total f g h (setCtx c x s) = total f g h s - h (sd_ctxs s ! c) + h x"
  "total f g h (spawnTask j s) = total f g h s + g \<lparr>sk_sem = j, sk_phase = TaskStart\<rparr>"
  "total f g h (snd (quitContext s)) = total f g h s + h \<lparr>qc_phase = CtxWaiting, qc_cancelled = False\<rparr>"
  "total f g h (s\<lparr>sd_quit := q'\<rparr>) = total f g h s" "total f g h (s\<lparr>sd_stopped := q'\<rparr>) = total f g h s"
  "total f g h (s\<lparr>sd_results := r\<rparr>) = total f g h s" "total f g h (s\<lparr>sd_sems := m\<rparr>) = total f g h s"
  by (simp_all add: total_def shared_defs sum_list_upd)

lemma frame_simps [simp]:
  "sd_wg (wgAdd n s) = sd_wg s + n" "sd_wg (semAdd j n s) = sd_wg s" "sd_wg (setLoop k p s) = sd_wg s" "sd_wg (setTask i q s) = sd_wg s"
  "sd_wg (setCtx c x s) = sd_wg s" "sd_wg (spawnTask j s) = sd_wg s + 1" "sd_wg (snd (quitContext s)) = sd_wg s + 1"
  "sd_quit (wgAdd n s) = sd_quit s" "sd_quit (semAdd j n s) = sd_quit s" "sd_quit (setLoop k p s) = sd_quit s" "sd_quit (setTask i q s) = sd_quit s"
  "sd_quit (setCtx c x s) = sd_quit s" "sd_quit (spawnTask j s) = sd_quit s" "sd_quit (snd (quitContext s)) = sd_quit s"
  "sd_stopped (wgAdd n s) = sd_stopped s" "sd_stopped (semAdd j n s) = sd_stopped s" "sd_stopped (setLoop k p s) = sd_stopped s" "sd_stopped (setTask i q s) = sd_stopped s"
  "sd_stopped (setCtx c x s) = sd_stopped s" "sd_stopped (spawnTask j s) = sd_stopped s" "sd_stopped (snd (quitContext s)) = sd_stopped s"
  "sd_sems (wgAdd n s) = sd_sems s" "sd_sems (setLoop k p s) = sd_sems s" "sd_sems (setTask i q s) = sd_sems s"
  "sd_sems (setCtx c x s) = sd_sems s" "sd_sems (spawnTask j s) = sd_sems s" "sd_sems (snd (quitContext s)) = sd_sems s"
  "sd_sems (semAdd j n s) = (sd_sems s)[j := sd_sems s ! j + n]"
  "sd_tasks (wgAdd n s) = sd_tasks s" "sd_tasks (semAdd j n s) = sd_tasks s" "sd_tasks (setLoop k p s) = sd_tasks s"
  "sd_tasks (setTask i q s) = (sd_tasks s)[i := (sd_tasks s ! i)\<lparr>sk_phase := q\<rparr>]" "sd_tasks (setCtx c x s) = sd_tasks s"
  "sd_tasks (spawnTask j s) = sd_tasks s @ [\<lparr>sk_sem = j, sk_phase = TaskStart\<rparr>]" "sd_tasks (snd (quitContext s)) = sd_tasks s"
  "sd_loops (wgAdd n s) = sd_loops s" "sd_loops (semAdd j n s) = sd_loops s" "sd_loops (setLoop k p s) = (sd_loops s)[k := p]"
  "sd_loops (setTask i q s) = sd_loops s" "sd_loops (setCtx c x s) = sd_loops s" "sd_loops (spawnTask j s) = sd_loops s" "sd_loops (snd (quitContext s)) = sd_loops s"
  "sd_ctxs (wgAdd n s) = sd_ctxs s" "sd_ctxs (semAdd j n s) = sd_ctxs s" "sd_ctxs (setLoop k p s) = sd_ctxs s" "sd_ctxs (setTask i q s) = sd_ctxs s"
  "sd_ctxs (setCtx c x s) = (sd_ctxs s)[c := x]" "sd_ctxs (spawnTask j s) = sd_ctxs s"
  "sd_ctxs (snd (quitContext s)) = sd_ctxs s @ [\<lparr>qc_phase = CtxWaiting, qc_cancelled = False\<rparr>]"
  "fst (quitContext s) = length (sd_ctxs s)"
  by (simp_all add: shared_defs)

lemma quitContext_pair: "quitContext s = (c, s') \<longleftrightarrow> c = length (sd_ctxs s) \<and> s' = snd (quitContext s)"
  by (auto simp: quitContext_def)

subsection \<open>The invariants\<close>

definition liveLoop :: "loopPhase \<Rightarrow> int" where "liveLoop l = (if l = LoopEnded then 0 else 1)"
definition liveTask :: "task \<Rightarrow> int" where "liveTask t = (if sk_phase t = TaskEnded then 0 else 1)"
definition liveCtx :: "quitCtx \<Rightarrow> int" where "liveCtx q = (if qc_phase q = CtxWaiting then 1 else 0)"

text \<open>The goroutines that have not called \<open>wg.Done\<close> yet.\<close>

definition running :: "shutdown \<Rightarrow> int" where "running = total liveLoop liveTask liveCtx"

text \<open>Between the return of \<open>sem.Acquire\<close> and the deferred \<open>sem.Release\<close>.\<close>

fun holdsPermit :: "taskPhase \<Rightarrow> bool" where
  "holdsPermit (TaskSlash c) = True" | "holdsPermit (TaskSelect c c') = True" | "holdsPermit (TaskSecond c c') = True"
| "holdsPermit (TaskPush c c') = True" | "holdsPermit (TaskInnerCancel c c') = True" | "holdsPermit (TaskRelease c) = True"
| "holdsPermit _ = False"

definition holders :: "nat \<Rightarrow> shutdown \<Rightarrow> int" where
  "holders j = total (\<lambda>_. 0) (\<lambda>t. if sk_sem t = j \<and> holdsPermit (sk_phase t) then 1 else 0) (\<lambda>_. 0)"

fun phaseCtxs :: "taskPhase \<Rightarrow> nat set" where
  "phaseCtxs (TaskAcquire c) = {c}" | "phaseCtxs (TaskSlash c) = {c}" | "phaseCtxs (TaskSelect c c') = {c, c'}"
| "phaseCtxs (TaskSecond c c') = {c, c'}" | "phaseCtxs (TaskPush c c') = {c, c'}" | "phaseCtxs (TaskInnerCancel c c') = {c, c'}"
| "phaseCtxs (TaskRelease c) = {c}" | "phaseCtxs (TaskCancel c) = {c}" | "phaseCtxs _ = {}"

definition taskOk :: "shutdown \<Rightarrow> task \<Rightarrow> bool" where
  "taskOk s t \<longleftrightarrow> phaseCtxs (sk_phase t) \<subseteq> {..<length (sd_ctxs s)} \<and> sk_sem t < length (sd_sems s)"

fun loopOk :: "shutdown \<Rightarrow> loopPhase \<Rightarrow> bool" where
  "loopOk s (LoopSpawn j n) \<longleftrightarrow> j < length (sd_sems s)" | "loopOk s _ \<longleftrightarrow> True"

definition wf_shutdown :: "shutdown \<Rightarrow> bool" where
  "wf_shutdown s \<longleftrightarrow> (\<forall>t\<in>set (sd_tasks s). taskOk s t) \<and> (\<forall>l\<in>set (sd_loops s). loopOk s l)
     \<and> (\<forall>q\<in>set (sd_ctxs s). qc_phase q = CtxEnded \<longrightarrow> qc_cancelled q)"

definition shutdown_inv :: "int \<Rightarrow> shutdown \<Rightarrow> bool" where
  "shutdown_inv maxC s \<longleftrightarrow> wf_shutdown s \<and> sd_wg s = running s \<and> (sd_stopped s \<longrightarrow> sd_quit s \<and> sd_wg s = 0)
     \<and> (\<forall>j < length (sd_sems s). 0 \<le> sd_sems s ! j \<and> sd_sems s ! j + holders j s = maxC)"

lemma wf_frame:
  assumes "wf_shutdown s" and "length (sd_ctxs s) \<le> length (sd_ctxs s')" and "length (sd_sems s) \<le> length (sd_sems s')"
    and "\<And>t. t \<in> set (sd_tasks s') \<Longrightarrow> t \<in> set (sd_tasks s) \<or> taskOk s' t"
    and "\<And>l. l \<in> set (sd_loops s') \<Longrightarrow> l \<in> set (sd_loops s) \<or> loopOk s' l"
    and "\<And>q. q \<in> set (sd_ctxs s') \<Longrightarrow> q \<in> set (sd_ctxs s) \<or> (qc_phase q = CtxEnded \<longrightarrow> qc_cancelled q)"
  shows "wf_shutdown s'"
proof -
  have "taskOk s' t" if "taskOk s t" for t using that assms(2,3) by (fastforce simp: taskOk_def)
  moreover have "loopOk s' l" if "loopOk s l" for l using that assms(3) by (cases l) auto
  ultimately show ?thesis using assms(1,4-6) unfolding wf_shutdown_def by blast
qed

lemma wf_setTask:
  assumes "wf_shutdown s" and "i < length (sd_tasks s)" and "phaseCtxs p \<subseteq> {..<length (sd_ctxs s)}"
  shows "wf_shutdown (setTask i p s)"
proof -
  have "taskOk s (sd_tasks s ! i)" using assms(1,2) unfolding wf_shutdown_def by simp
  then show ?thesis using assms(3)
    by (intro wf_frame [OF assms(1)]) (auto simp: taskOk_def dest!: subsetD [OF set_update_subset_insert])
qed

lemma wf_setLoop: "wf_shutdown s \<Longrightarrow> loopOk s p \<Longrightarrow> wf_shutdown (setLoop k p s)"
  by (rule wf_frame) (auto dest!: subsetD [OF set_update_subset_insert], (cases p, auto)+)

lemma wf_setCtx: "wf_shutdown s \<Longrightarrow> (qc_phase q = CtxEnded \<longrightarrow> qc_cancelled q) \<Longrightarrow> wf_shutdown (setCtx c q s)"
  by (rule wf_frame) (auto dest!: subsetD [OF set_update_subset_insert])

lemma wf_simple:
  "wf_shutdown s \<Longrightarrow> wf_shutdown (wgAdd n s)" "wf_shutdown s \<Longrightarrow> wf_shutdown (semAdd j n s)"
  "wf_shutdown s \<Longrightarrow> wf_shutdown (snd (quitContext s))" "wf_shutdown s \<Longrightarrow> wf_shutdown (s\<lparr>sd_quit := b\<rparr>)"
  "wf_shutdown s \<Longrightarrow> wf_shutdown (s\<lparr>sd_stopped := b\<rparr>)" "wf_shutdown s \<Longrightarrow> wf_shutdown (s\<lparr>sd_results := r\<rparr>)"
  "wf_shutdown s \<Longrightarrow> wf_shutdown (s\<lparr>sd_sems := sd_sems s @ [m]\<rparr>)"
  "wf_shutdown s \<Longrightarrow> j < length (sd_sems s) \<Longrightarrow> wf_shutdown (spawnTask j s)"
  by (erule wf_frame; auto simp: taskOk_def)+

lemma wf_cancelCtx: "wf_shutdown s \<Longrightarrow> wf_shutdown (cancelCtx c s)"
  unfolding cancelCtx_def by (rule wf_setCtx) simp_all

lemma ctx_valid:
  "\<lbrakk>wf_shutdown s; i < length (sd_tasks s); c \<in> phaseCtxs (sk_phase (sd_tasks s ! i))\<rbrakk> \<Longrightarrow> c < length (sd_ctxs s)"
  unfolding wf_shutdown_def taskOk_def by (meson lessThan_iff nth_mem subsetD)

lemma sem_valid: "\<lbrakk>wf_shutdown s; k < length (sd_loops s); sd_loops s ! k = LoopSpawn j n\<rbrakk> \<Longrightarrow> j < length (sd_sems s)"
  unfolding wf_shutdown_def by (metis loopOk.simps(1) nth_mem)

lemma task_sem_valid: "\<lbrakk>wf_shutdown s; i < length (sd_tasks s)\<rbrakk> \<Longrightarrow> sk_sem (sd_tasks s ! i) < length (sd_sems s)"
  unfolding wf_shutdown_def taskOk_def by (meson nth_mem)

lemma cancel_frame [simp]:
  "length (sd_ctxs (cancelCtx c s)) = length (sd_ctxs s)" "sd_tasks (cancelCtx c s) = sd_tasks s" "sd_wg (cancelCtx c s) = sd_wg s"
  "sd_quit (cancelCtx c s) = sd_quit s" "sd_stopped (cancelCtx c s) = sd_stopped s" "sd_sems (cancelCtx c s) = sd_sems s"
  by (simp_all add: cancelCtx_def)

lemma wf_step: "slasherGo maxC kind s s' \<Longrightarrow> wf_shutdown s \<Longrightarrow> wf_shutdown s'"
proof (induction rule: slasherGo.induct)
  case (loop_spawn k s j n)
  then show ?case using sem_valid [OF loop_spawn(3,1,2)] by (intro wf_setLoop wf_simple) simp_all
qed (auto simp: quitContext_pair intro!: wf_setTask wf_setLoop wf_setCtx wf_simple wf_cancelCtx dest: ctx_valid)

lemma total_cancel:
  assumes "\<And>q. h (q\<lparr>qc_cancelled := True\<rparr>) = h q" and "c < length (sd_ctxs s)"
  shows "total f g h (cancelCtx c s) = total f g h s"
  using assms by (simp add: cancelCtx_def)

lemma wg_step: "slasherGo maxC kind s s' \<Longrightarrow> wf_shutdown s \<Longrightarrow> sd_wg s' - running s' = sd_wg s - running s"
proof (induction rule: slasherGo.induct)
  case (task_inner_cancel i s c c')
  then have "c' < length (sd_ctxs s)" by (auto intro: ctx_valid [of s i])
  then show ?case using task_inner_cancel by (simp add: running_def total_cancel liveCtx_def liveTask_def)
next
  case (task_cancel i s c)
  then have "c < length (sd_ctxs s)" by (auto intro: ctx_valid [of s i])
  then show ?case using task_cancel by (simp add: running_def total_cancel liveCtx_def liveTask_def)
qed (auto simp: running_def liveLoop_def liveTask_def liveCtx_def quitContext_pair)

lemma holders_step:
  assumes "slasherGo maxC kind s s'" and "wf_shutdown s" and "\<forall>j < length (sd_sems s). sd_sems s ! j + holders j s = maxC"
    and "j < length (sd_sems s')"
  shows "sd_sems s' ! j + holders j s' = maxC"
  using assms
proof (induction rule: slasherGo.induct)
  case (task_inner_cancel i s c c')
  then have "c' < length (sd_ctxs s)" by (auto intro: ctx_valid [of s i])
  then show ?case using task_inner_cancel by (simp add: holders_def total_cancel)
next
  case (task_cancel i s c)
  then have "c < length (sd_ctxs s)" by (auto intro: ctx_valid [of s i])
  then show ?case using task_cancel by (simp add: holders_def total_cancel)
next
  case (task_acquire i s ja c)
  then show ?case using task_sem_valid [of s i] by (auto simp: holders_def nth_list_update)
next
  case (task_release i s ja c)
  then show ?case using task_sem_valid [of s i] by (auto simp: holders_def nth_list_update)
next
  case (loop_dels k s n)
  have "holders (length (sd_sems s)) s = 0"
  proof -
    have "(\<Sum>t\<leftarrow>sd_tasks s. if sk_sem t = length (sd_sems s) \<and> holdsPermit (sk_phase t) then 1 else 0 :: int) = (\<Sum>t\<leftarrow>sd_tasks s. 0)"
      using loop_dels(3) by (intro arg_cong [of _ _ sum_list] map_cong) (auto simp: wf_shutdown_def taskOk_def)
    then show ?thesis by (simp add: holders_def total_def)
  qed
  then show ?case using loop_dels by (auto simp: holders_def nth_append less_Suc_eq)
qed (auto simp: holders_def quitContext_pair)

text \<open>After \<open>Stop\<close> has returned only the last \<open>cancel\<close> of a context is left.\<close>

lemma sum_list_zero:
  fixes f :: "'a \<Rightarrow> int"
  assumes "\<And>x. 0 \<le> f x"
  shows "(\<Sum>x\<leftarrow>xs. f x) = 0 \<longleftrightarrow> (\<forall>x\<in>set xs. f x = 0)"
  using sum_list_nonneg_eq_0_iff [of "map f xs"] assms by auto

lemma running_parts:
  "0 \<le> running s" "running s = 0 \<longleftrightarrow> (\<forall>l\<in>set (sd_loops s). l = LoopEnded) \<and> (\<forall>t\<in>set (sd_tasks s). sk_phase t = TaskEnded)
     \<and> (\<forall>q\<in>set (sd_ctxs s). qc_phase q \<noteq> CtxWaiting)"
proof -
  have n: "0 \<le> (\<Sum>l\<leftarrow>sd_loops s. liveLoop l)" "0 \<le> (\<Sum>t\<leftarrow>sd_tasks s. liveTask t)" "0 \<le> (\<Sum>q\<leftarrow>sd_ctxs s. liveCtx q)"
    by (auto simp: liveLoop_def liveTask_def liveCtx_def intro!: sum_list_nonneg)
  show "0 \<le> running s" using n by (simp add: running_def total_def)
  have "running s = 0 \<longleftrightarrow> (\<Sum>l\<leftarrow>sd_loops s. liveLoop l) = 0 \<and> (\<Sum>t\<leftarrow>sd_tasks s. liveTask t) = 0 \<and> (\<Sum>q\<leftarrow>sd_ctxs s. liveCtx q) = 0"
    using n by (auto simp: running_def total_def)
  then show "running s = 0 \<longleftrightarrow> (\<forall>l\<in>set (sd_loops s). l = LoopEnded) \<and> (\<forall>t\<in>set (sd_tasks s). sk_phase t = TaskEnded)
     \<and> (\<forall>q\<in>set (sd_ctxs s). qc_phase q \<noteq> CtxWaiting)"
    by (simp add: sum_list_zero liveLoop_def liveTask_def liveCtx_def)
qed

lemma stopped_step:
  assumes "slasherGo maxC kind s s'" and "running s = 0"
  shows "running s' = 0 \<and> sd_wg s' = sd_wg s \<and> (sd_quit s \<longrightarrow> sd_quit s') \<and> (sd_stopped s \<longrightarrow> sd_stopped s')"
proof -
  have all: "l \<in> set (sd_loops s) \<Longrightarrow> l = LoopEnded" "t \<in> set (sd_tasks s) \<Longrightarrow> sk_phase t = TaskEnded"
    "q \<in> set (sd_ctxs s) \<Longrightarrow> qc_phase q \<noteq> CtxWaiting" for l t q
    using assms(2) by (auto simp: running_parts(2))
  from assms(1) show ?thesis
  proof cases
    case (ctx_cancel c)
    then show ?thesis using assms(2) by (simp add: running_def liveCtx_def)
  qed (use all assms(2) nth_mem in \<open>force simp: running_def\<close>)+
qed

lemma nth_update_if: "j < length xs \<Longrightarrow> xs[i := x] ! j = (if i = j then x else xs ! j)"
  by simp

lemma sems_nonneg:
  "\<lbrakk>slasherGo maxC kind s s'; 0 \<le> maxC; \<forall>j < length (sd_sems s). 0 \<le> sd_sems s ! j; j < length (sd_sems s')\<rbrakk> \<Longrightarrow> 0 \<le> sd_sems s' ! j"
  by (induction rule: slasherGo.induct) (auto simp: nth_update_if nth_append less_Suc_eq quitContext_pair)

lemma stop_flag: "\<lbrakk>slasherGo maxC kind s s'; sd_stopped s'\<rbrakk> \<Longrightarrow> sd_stopped s \<or> sd_quit s \<and> sd_quit s' \<and> sd_wg s = 0 \<and> sd_wg s' = 0"
  by (induction rule: slasherGo.induct) (auto simp: quitContext_pair)

lemma shutdown_inv_step:
  assumes "0 \<le> maxC" and "slasherGo maxC kind s s'" and "shutdown_inv maxC s"
  shows "shutdown_inv maxC s'"
proof -
  have wf: "wf_shutdown s" and wg: "sd_wg s = running s" and st: "sd_stopped s \<longrightarrow> sd_quit s \<and> sd_wg s = 0"
    and sem: "\<forall>j < length (sd_sems s). 0 \<le> sd_sems s ! j" "\<forall>j < length (sd_sems s). sd_sems s ! j + holders j s = maxC"
    using assms(3) unfolding shutdown_inv_def by blast+
  have "sd_stopped s' \<longrightarrow> sd_quit s' \<and> sd_wg s' = 0"
    using stop_flag [OF assms(2)] stopped_step [OF assms(2)] st wg by metis
  then show ?thesis unfolding shutdown_inv_def
    using wf_step [OF assms(2) wf] wg_step [OF assms(2) wf] wg sems_nonneg [OF assms(2,1) sem(1)] holders_step [OF assms(2) wf sem(2)] by auto
qed

definition slasherAny :: "int \<Rightarrow> shutdown \<Rightarrow> shutdown \<Rightarrow> bool" where
  "slasherAny maxC s s' \<longleftrightarrow> (\<exists>kind. slasherGo maxC kind s s')"

interpretation shutdown_run: step_system "slasherAny (of_nat n)" "shutdown_inv (of_nat n)" for n :: nat
  by unfold_locales (auto simp: slasherAny_def intro: shutdown_inv_step)

lemma enumerate_sem: "(j, n) \<in> set (enumerate 0 ns) \<Longrightarrow> j < length ns"
  by (auto simp: set_conv_nth nth_enumerate_eq)

lemma bootTasks_start: "t \<in> set (bootTasks ns) \<Longrightarrow> sk_phase t = TaskStart \<and> sk_sem t < length ns"
  by (auto simp: bootTasks_def dest: enumerate_sem)

lemma started_inv: "shutdown_inv (int n) (startedSlasher (int n) ns)"
proof -
  let ?s = "startedSlasher (int n) ns"
  have "(\<Sum>t\<leftarrow>bootTasks ns. liveTask t) = (\<Sum>t\<leftarrow>bootTasks ns. 1)"
    by (intro arg_cong [of _ _ sum_list] map_cong) (auto simp: liveTask_def dest: bootTasks_start)
  then have "running ?s = int (length (bootTasks ns)) + 2"
    by (simp add: running_def total_def startedSlasher_def liveLoop_def sum_list_triv)
  moreover have "holders j ?s = 0" for j
  proof -
    have "(\<Sum>t\<leftarrow>bootTasks ns. if sk_sem t = j \<and> holdsPermit (sk_phase t) then 1 else 0 :: int) = (\<Sum>t\<leftarrow>bootTasks ns. 0)"
      by (intro arg_cong [of _ _ sum_list] map_cong) (auto dest: bootTasks_start)
    then show ?thesis by (simp add: holders_def total_def startedSlasher_def)
  qed
  moreover have "wf_shutdown ?s" by (auto simp: wf_shutdown_def taskOk_def startedSlasher_def dest: bootTasks_start)
  ultimately show ?thesis by (simp add: shutdown_inv_def) (simp add: startedSlasher_def)
qed

lemma holders_nonneg: "0 \<le> holders j s"
  by (auto simp: holders_def total_def intro!: sum_list_nonneg)

subsection \<open>The work left\<close>

fun loopLeft :: "loopPhase \<Rightarrow> int" where
  "loopLeft LoopEnded = 0" | "loopLeft LoopSelect = 1" | "loopLeft LoopQuery = 2" | "loopLeft (LoopSpawn j n) = 2 + 15 * int n"

fun phaseLeft :: "taskPhase \<Rightarrow> int" where
  "phaseLeft TaskEnded = 0" | "phaseLeft TaskDone = 1" | "phaseLeft (TaskCancel c) = 2" | "phaseLeft (TaskRelease c) = 3"
| "phaseLeft (TaskInnerCancel c c') = 4" | "phaseLeft (TaskPush c c') = 5" | "phaseLeft (TaskSecond c c') = 6"
| "phaseLeft (TaskSelect c c') = 7" | "phaseLeft (TaskSlash c) = 10" | "phaseLeft (TaskAcquire c) = 11" | "phaseLeft TaskStart = 14"

definition ctxLeft :: "quitCtx \<Rightarrow> int" where
  "ctxLeft q = (case qc_phase q of CtxWaiting \<Rightarrow> 2 | CtxLeaving \<Rightarrow> 1 | CtxEnded \<Rightarrow> 0)"

definition workLeft :: "shutdown \<Rightarrow> int" where
  "workLeft s = total loopLeft (phaseLeft \<circ> sk_phase) ctxLeft s + (if sd_quit s then 0 else 1) + (if sd_stopped s then 0 else 1)"

lemma loopLeft_nonneg: "0 \<le> loopLeft l"
  by (cases l) auto

lemma phaseLeft_nonneg: "0 \<le> phaseLeft p"
  by (cases p) auto

lemma workLeft_nonneg: "0 \<le> workLeft s"
  unfolding workLeft_def total_def
  by (auto intro!: add_nonneg_nonneg sum_list_nonneg simp: loopLeft_nonneg phaseLeft_nonneg ctxLeft_def split: ctxPhase.splits)

lemma work_step: "\<lbrakk>slasherGo maxC kind s s'; kind \<noteq> Work; wf_shutdown s\<rbrakk> \<Longrightarrow> workLeft s' < workLeft s"
proof (induction rule: slasherGo.induct)
  case (task_inner_cancel i s c c')
  then have "c' < length (sd_ctxs s)" by (auto intro: ctx_valid [of s i])
  then show ?case using task_inner_cancel by (simp add: workLeft_def total_cancel ctxLeft_def)
next
  case (task_cancel i s c)
  then have "c < length (sd_ctxs s)" by (auto intro: ctx_valid [of s i])
  then show ?case using task_cancel by (simp add: workLeft_def total_cancel ctxLeft_def)
qed (auto simp: workLeft_def ctxLeft_def quitContext_pair)

definition slasherEnds :: "int \<Rightarrow> shutdown \<Rightarrow> shutdown \<Rightarrow> bool" where
  "slasherEnds maxC s s' \<longleftrightarrow> slasherGo maxC Own s s' \<or> slasherGo maxC Answer s s'"

lemma ends_bounded: "\<lbrakk>(slasherEnds maxC ^^ n) s s'; wf_shutdown s\<rbrakk> \<Longrightarrow> int n + workLeft s' \<le> workLeft s \<and> wf_shutdown s'"
proof (induction n arbitrary: s')
  case (Suc n)
  then obtain t where t: "(slasherEnds maxC ^^ n) s t" "slasherEnds maxC t s'" by auto
  with Suc have "int n + workLeft t \<le> workLeft s" "wf_shutdown t" by blast+
  moreover have "workLeft s' < workLeft t" "wf_shutdown s'"
    using t(2) calculation(2) work_step wf_step unfolding slasherEnds_def by blast+
  ultimately show ?case by simp
qed simp

subsection \<open>When nothing moves\<close>

text \<open>A goroutine waits for an answer: a loop in a query, or the second \<open>select\<close> of an attempt, which does not watch the context.\<close>

definition inFlight :: "shutdown \<Rightarrow> int" where
  "inFlight = total (\<lambda>l. if l = LoopQuery then 1 else 0) (\<lambda>t. if \<exists>c c'. sk_phase t = TaskSecond c c' then 1 else 0) (\<lambda>_. 0)"

lemma stuck_loop:
  assumes "sd_quit s" and "\<And>t. \<not> slasherGo maxC Own s t" and "l \<in> set (sd_loops s)"
  shows "l = LoopQuery \<or> l = LoopEnded"
proof -
  obtain k where k: "k < length (sd_loops s)" "sd_loops s ! k = l" using assms(3) by (auto simp: in_set_conv_nth)
  show ?thesis
  proof (cases l)
    case LoopSelect
    then show ?thesis using loop_quit [of k s maxC] k assms(1,2) by simp
  next
    case (LoopSpawn j n)
    then show ?thesis using loop_spawn [of k s j _ maxC] loop_spawned [of k s j maxC] k assms(2) by (cases n) auto
  qed simp_all
qed

lemma stuck_ctx:
  assumes "wf_shutdown s" and "sd_quit s" and "\<And>t. \<not> slasherGo maxC Own s t" and "q \<in> set (sd_ctxs s)"
  shows "qc_phase q = CtxEnded" and "qc_cancelled q"
proof -
  obtain c where c: "c < length (sd_ctxs s)" "sd_ctxs s ! c = q" using assms(4) by (auto simp: in_set_conv_nth)
  show "qc_phase q = CtxEnded"
    using ctx_select [of c s maxC] ctx_cancel [of c s maxC] c assms(2,3) by (cases "qc_phase q") auto
  then show "qc_cancelled q" using assms(1,4) by (auto simp: wf_shutdown_def)
qed

lemma stuck_task:
  assumes "wf_shutdown s" and "sd_quit s" and no: "\<And>t. \<not> slasherGo maxC Own s t" and "t \<in> set (sd_tasks s)"
  shows "sk_phase t = TaskEnded \<or> (\<exists>c c'. sk_phase t = TaskSecond c c')"
proof -
  obtain i where i: "i < length (sd_tasks s)" "sd_tasks s ! i = t" using assms(4) by (auto simp: in_set_conv_nth)
  have fin: "ctxDone s c" if "c \<in> phaseCtxs (sk_phase t)" for c
    using stuck_ctx(2) [OF assms(1-3)] ctx_valid [OF assms(1) i(1)] that i(2) by (simp add: ctxDone_def)
  show ?thesis
  proof (cases "sk_phase t")
    case (TaskRelease c)
    then have "sd_tasks s ! i = \<lparr>sk_sem = sk_sem t, sk_phase = TaskRelease c\<rparr>" using i(2) by (metis task.surjective old.unit.exhaust)
    then show ?thesis using task_release [OF i(1)] no by blast
  next
    case TaskStart
    then show ?thesis using task_start [OF i(1), of "fst (quitContext s)" "snd (quitContext s)" maxC] i(2) no by (simp add: quitContext_pair)
  next
    case (TaskSlash c)
    then show ?thesis using task_slash [OF i(1), of c "fst (quitContext s)" "snd (quitContext s)" maxC] i(2) no by (simp add: quitContext_pair)
  qed (use i(2) no assms(2) fin task_refused [OF i(1)] task_ctx_done [OF i(1)] task_push_quit [OF i(1)] task_inner_cancel [OF i(1)]
      task_cancel [OF i(1)] task_done [OF i(1)] in \<open>auto\<close>)
qed

lemma stuck_inFlight:
  assumes "wf_shutdown s" and "sd_quit s" and "\<And>t. \<not> slasherGo maxC Own s t"
  shows "running s = inFlight s"
proof -
  have "(\<Sum>l\<leftarrow>sd_loops s. liveLoop l) = (\<Sum>l\<leftarrow>sd_loops s. if l = LoopQuery then 1 else 0)"
    by (intro arg_cong [of _ _ sum_list] map_cong) (auto simp: liveLoop_def dest: stuck_loop [OF assms(2,3)])
  moreover have "(\<Sum>t\<leftarrow>sd_tasks s. liveTask t) = (\<Sum>t\<leftarrow>sd_tasks s. if \<exists>c c'. sk_phase t = TaskSecond c c' then 1 else 0)"
    by (intro arg_cong [of _ _ sum_list] map_cong) (auto simp: liveTask_def dest: stuck_task [OF assms])
  moreover have "(\<Sum>q\<leftarrow>sd_ctxs s. liveCtx q) = (\<Sum>q\<leftarrow>sd_ctxs s. 0)"
    by (intro arg_cong [of _ _ sum_list] map_cong) (auto simp: liveCtx_def dest: stuck_ctx [OF assms])
  ultimately show ?thesis by (simp add: running_def inFlight_def total_def)
qed

lemma inFlight_answered:
  assumes "\<And>t. \<not> slasherGo maxC Answer s t"
  shows "inFlight s = 0"
proof -
  have "l \<noteq> LoopQuery" if "l \<in> set (sd_loops s)" for l
    using that loop_fail [of _ s maxC] assms by (metis in_set_conv_nth)
  moreover have "sk_phase t \<noteq> TaskSecond c c'" if "t \<in> set (sd_tasks s)" for t c c'
    using that task_answer [of _ s c c' maxC] assms by (metis in_set_conv_nth)
  ultimately have "(\<Sum>l\<leftarrow>sd_loops s. if l = LoopQuery then 1 else 0 :: int) = (\<Sum>l\<leftarrow>sd_loops s. 0)"
    "(\<Sum>t\<leftarrow>sd_tasks s. if \<exists>c c'. sk_phase t = TaskSecond c c' then 1 else 0 :: int) = (\<Sum>t\<leftarrow>sd_tasks s. 0)"
    by (intro arg_cong [of _ _ sum_list] map_cong; auto)+
  then show ?thesis by (simp add: inFlight_def total_def)
qed

lemma quit_kept: "slasherGo maxC kind s s' \<Longrightarrow> sd_quit s \<Longrightarrow> sd_quit s'"
  by (induction rule: slasherGo.induct) (auto simp: quitContext_pair)

lemma ends_run:
  assumes "(slasherEnds (int n))\<^sup>*\<^sup>* s s'" and "shutdown_inv (int n) s" and "sd_quit s"
  shows "shutdown_inv (int n) s' \<and> sd_quit s'"
  using assms
  by (induction rule: rtranclp_induct) (auto simp: slasherEnds_def intro: shutdown_inv_step quit_kept)

subsection \<open>Properties\<close>


text \<open>
  C25. Closing \<open>quit\<close> ends the slasher: from then on, unless new work is taken, every interleaving
  is finite; when no goroutine can move by itself, the ones left are exactly those that wait for
  an answer of Babylon or Bitcoin; and when those have come too, \<open>Stop\<close> has returned.
\<close>

theorem slasher_stop_returns:
  assumes "(slasherAny (int n))\<^sup>*\<^sup>* (startedSlasher (int n) ns) s" and "sd_quit s"
  shows "(\<forall>m s'. (slasherEnds (int n) ^^ m) s s' \<longrightarrow> int m \<le> workLeft s)
    \<and> (\<forall>s'. (slasherEnds (int n))\<^sup>*\<^sup>* s s' \<and> (\<forall>t. \<not> slasherGo (int n) Own s' t) \<longrightarrow> sd_wg s' = inFlight s')
    \<and> (\<forall>s'. (slasherEnds (int n))\<^sup>*\<^sup>* s s' \<and> (\<forall>t. \<not> slasherEnds (int n) s' t) \<longrightarrow> sd_stopped s')"
proof -
  have inv: "shutdown_inv (int n) s" using shutdown_run.run_keeps [OF assms(1) started_inv] .
  have left: "sd_wg s' = inFlight s'" if run: "(slasherEnds (int n))\<^sup>*\<^sup>* s s'" and no: "\<forall>t. \<not> slasherGo (int n) Own s' t" for s'
  proof -
    from ends_run [OF run inv assms(2)] have i: "shutdown_inv (int n) s'" "sd_quit s'" by simp_all
    then have "running s' = inFlight s'" using no by (intro stuck_inFlight) (auto simp: shutdown_inv_def)
    with i(1) show ?thesis by (simp add: shutdown_inv_def)
  qed
  moreover have "sd_stopped s'" if run: "(slasherEnds (int n))\<^sup>*\<^sup>* s s'" and no: "\<forall>t. \<not> slasherEnds (int n) s' t" for s'
  proof -
    from no have no: "\<not> slasherGo (int n) Own s' t" "\<not> slasherGo (int n) Answer s' t" for t unfolding slasherEnds_def by blast+
    then have "sd_wg s' = 0" using left [OF run] inFlight_answered [of "int n" s'] by simp
    then show ?thesis using no(1) stop_wait [of s' "int n"] ends_run [OF run inv assms(2)] by blast
  qed
  moreover have "int m \<le> workLeft s" if "(slasherEnds (int n) ^^ m) s s'" for m s'
    using ends_bounded [OF that] inv workLeft_nonneg [of s'] by (simp add: shutdown_inv_def)
  ultimately show ?thesis by blast
qed

subsection \<open>A concrete run\<close>

text \<open>One goroutine from the bootstrap starts and waits for its permit when the slasher is stopped.\<close>

definition sampleStopping :: shutdown where
  "sampleStopping = (setTask 0 (TaskAcquire 0) (snd (quitContext (startedSlasher 2 [1]))))\<lparr>sd_quit := True\<rparr>"

lemma sampleStopping_reached: "(slasherAny (int 2))\<^sup>*\<^sup>* (startedSlasher (int 2) [1]) sampleStopping"
proof -
  let ?s = "startedSlasher 2 [1]"
  have t: "length (sd_tasks ?s) = 1" "sk_phase (sd_tasks ?s ! 0) = TaskStart" "sd_ctxs ?s = []" "\<not> sd_quit ?s"
    by (simp_all add: startedSlasher_def bootTasks_def)
  then have "slasherGo 2 Own ?s (setTask 0 (TaskAcquire 0) (snd (quitContext ?s)))"
    using task_start [of 0 ?s 0 "snd (quitContext ?s)" 2] by (simp add: quitContext_pair)
  moreover have "slasherGo 2 Own (setTask 0 (TaskAcquire 0) (snd (quitContext ?s))) sampleStopping"
    unfolding sampleStopping_def using t(4) by (intro stop_quit) simp
  ultimately have "(slasherAny 2 OO slasherAny 2) ?s sampleStopping" unfolding slasherAny_def by blast
  then show ?thesis by (auto intro: rtranclp.rtrancl_into_rtrancl)
qed


theorem slasher_stop_returns_witness:
  "workLeft sampleStopping = 16 \<and> \<not> (\<exists>s'. (slasherEnds (int 2) ^^ 17) sampleStopping s')"
proof -
  have q: "sd_quit sampleStopping" and w: "workLeft sampleStopping = 16"
    by (simp_all add: sampleStopping_def startedSlasher_def bootTasks_def quitContext_def wgAdd_def setTask_def workLeft_def total_def ctxLeft_def)
  have "int 17 \<le> workLeft sampleStopping" if "(slasherEnds (int 2) ^^ 17) sampleStopping s'" for s'
    using slasher_stop_returns [OF sampleStopping_reached q] that by blast
  with w show ?thesis by auto
qed

end
