(* ===== verification/Metrics.thy ===== *)
theory Metrics
  imports Btc_Slasher Relayer
begin

text \<open>
  The Prometheus metrics of the four daemons: \<open>metrics/*.go\<close> and the calls with label values in
  \<open>submitter/relayer/relayer.go\<close>, \<open>reporter/utils.go\<close> and the watcher. Nothing in the daemons reads a metric, but two mistakes end a
  daemon: \<open>promauto\<close> panics when a metric with an invalid or a taken name is created, and
  \<open>WithLabelValues\<close> panics when the number of values is not that of the declared labels.
  The registry is library code, the record \<open>promEnv\<close>; a metric is its name and its label values.

  Shown here: creating the metrics of a daemon on a new registry succeeds and gives them distinct
  names, and recording with them never panics.
\<close>

subsection \<open>The client library\<close>

type_synonym metric = "string \<times> string list"

record metricVec =
  mv_name :: string
  mv_labels :: "string list"

datatype metricKind = CounterKind | GaugeKind | HistogramKind

record 'reg promEnv =
  pe_Register :: "metricKind \<Rightarrow> string \<Rightarrow> string \<Rightarrow> string list \<Rightarrow> ('reg, unit) prog"
  pe_RegisterCollector :: "string \<Rightarrow> ('reg, unit) prog"
  pe_WithLabelValues :: "metricVec \<Rightarrow> string list \<Rightarrow> metric outcome"
  pe_Inc :: "metric \<Rightarrow> ('reg, unit) prog"
  pe_Add :: "metric \<Rightarrow> f64 \<Rightarrow> ('reg, unit) prog"
  pe_Observe :: "metric \<Rightarrow> f64 \<Rightarrow> ('reg, unit) prog"
  pe_SetToCurrentTime :: "metric \<Rightarrow> ('reg, unit) prog"
  pe_Float :: "u64 \<Rightarrow> f64"
  pe_Handle :: "string \<Rightarrow> ('reg, unit) prog"
  pe_NewRootLogger :: "string \<Rightarrow> string \<Rightarrow> ('reg, unit) prog"
  pe_ListenAndServe :: "string \<Rightarrow> ('reg, unit) prog"

text \<open>\<open>prometheus.BuildFQName\<close> with an empty subsystem.\<close>

definition fqName :: "string \<Rightarrow> string \<Rightarrow> string" where
  "fqName namespace name = (if name = [] then [] else if namespace = [] then name else namespace @ ''_'' @ name)"

definition newCounter :: "'reg promEnv \<Rightarrow> string \<Rightarrow> string \<Rightarrow> string \<Rightarrow> ('reg, metric) prog" where
  "newCounter env namespace name help = bindG (pe_Register env CounterKind (fqName namespace name) help []) (\<lambda>_. retG (fqName namespace name, []))"

definition newGauge :: "'reg promEnv \<Rightarrow> string \<Rightarrow> string \<Rightarrow> string \<Rightarrow> ('reg, metric) prog" where
  "newGauge env namespace name help = bindG (pe_Register env GaugeKind (fqName namespace name) help []) (\<lambda>_. retG (fqName namespace name, []))"

definition newGaugeVec :: "'reg promEnv \<Rightarrow> string \<Rightarrow> string \<Rightarrow> string \<Rightarrow> string list \<Rightarrow> ('reg, metricVec) prog" where
  "newGaugeVec env namespace name help labels = bindG (pe_Register env GaugeKind (fqName namespace name) help labels)
     (\<lambda>_. retG \<lparr>mv_name = fqName namespace name, mv_labels = labels\<rparr>)"

definition newHistogramVec :: "'reg promEnv \<Rightarrow> string \<Rightarrow> string \<Rightarrow> string \<Rightarrow> string list \<Rightarrow> ('reg, metricVec) prog" where
  "newHistogramVec env namespace name help labels = bindG (pe_Register env HistogramKind (fqName namespace name) help labels)
     (\<lambda>_. retG \<lparr>mv_name = fqName namespace name, mv_labels = labels\<rparr>)"

text \<open>\<open>vec.WithLabelValues(vs...)\<close> followed by an operation on the metric.\<close>

definition withLabels :: "'reg promEnv \<Rightarrow> metricVec \<Rightarrow> string list \<Rightarrow> (metric \<Rightarrow> ('reg, unit) prog) \<Rightarrow> ('reg, unit) prog" where
  "withLabels env vec vs op = bindG (liftG (pe_WithLabelValues env vec vs)) op"

subsection \<open>The metrics of the daemons\<close>

record unbondingWatcherMetrics =
  uw_ReportedUnbondingTransactionsCounter :: metric
  uw_FailedReportedUnbondingTransactions :: metric
  uw_NumberOfTrackedActiveDelegations :: metric
  uw_DetectedUnbondedStakeExpansionCounter :: metric
  uw_DetectedUnbondingTransactionsCounter :: metric
  uw_DetectedNonUnbondingTransactionsCounter :: metric
  uw_FailedReportedActivateDelegations :: metric
  uw_ReportedActivateDelegationsCounter :: metric
  uw_MethodExecutionLatency :: metricVec
  uw_NumberOfActivationInProgress :: metric
  uw_NumberOfVerifiedDelegations :: metric
  uw_NumberOfVerifiedNotInChainDelegations :: metric
  uw_NumberOfVerifiedInsufficientConfDelegations :: metric
  uw_NumberOfVerifiedSufficientConfDelegations :: metric
  uw_UnbondingCensorshipGaugeVec :: metricVec
  uw_InclusionProofCensorshipGaugeVec :: metricVec
  uw_BestBlockHeight :: metric
  uw_BtcLightClientHeight :: metric

definition newUnbondingWatcherMetrics :: "'reg promEnv \<Rightarrow> ('reg, unbondingWatcherMetrics) prog" where
  "newUnbondingWatcherMetrics env =
     bindG (newCounter env ''vigilante'' ''unbonding_watcher_reported_unbonding_transactions''
       ''The total number of unbonding transactions successfully reported to Babylon node'') (\<lambda>x0.
     bindG (newCounter env ''vigilante'' ''unbonding_watcher_failed_reported_unbonding_transactions''
       ''The total number times reporting unbonding transactions to Babylon node failed'') (\<lambda>x1.
     bindG (newGauge env ''vigilante'' ''unbonding_watcher_tracked_active_delegations''
       ''The number of active delegations tracked by unbonding watcher'') (\<lambda>x2.
     bindG (newCounter env ''vigilante'' ''unbonding_watcher_detected_unbonded_stake_expansion''
       ''The total number of spend staking transactions that are expanding their stake'') (\<lambda>x3.
     bindG (newCounter env ''vigilante'' ''unbonding_watcher_detected_unbonding_transactions''
       ''The total number of unbonding transactions detected by unbonding watcher'') (\<lambda>x4.
     bindG (newCounter env ''vigilante'' ''unbonding_watcher_detected_non_unbonding_transactions''
       ''The total number of non unbonding (slashing or withdrawal) transactions detected by unbonding watcher'') (\<lambda>x5.
     bindG (newCounter env ''vigilante'' ''unbonding_watcher_failed_reported_activate_delegation''
       ''The total number times reporting activation delegation failed on Babylon node'') (\<lambda>x6.
     bindG (newCounter env ''vigilante'' ''unbonding_watcher_reported_activate_delegations''
       ''The total number of unbonding transactions successfully reported to Babylon node'') (\<lambda>x7.
     bindG (newHistogramVec env ''vigilante'' ''unbonding_watcher_method_latency_seconds''
       ''Latency in seconds'' [''method'']) (\<lambda>x8.
     bindG (newGauge env ''vigilante'' ''unbonding_watcher_number_of_activation_in_progress''
       ''The number of activations in progress'') (\<lambda>x9.
     bindG (newGauge env ''vigilante'' ''unbonding_watcher_number_of_verified_delegations''
       ''The number of verified delegations'') (\<lambda>x10.
     bindG (newGauge env ''vigilante'' ''unbonding_watcher_number_of_verified_not_in_chain_delegations''
       ''The number of verified not in chain delegations'') (\<lambda>x11.
     bindG (newGauge env ''vigilante'' ''unbonding_watcher_number_of_verified_insufficient_conf_delegations''
       ''The number of verified delegations with insufficient confirmations'') (\<lambda>x12.
     bindG (newGauge env ''vigilante'' ''unbonding_watcher_number_of_verified_sufficient_conf_delegations''
       ''The number of verified delegations with sufficient confirmations'') (\<lambda>x13.
     bindG (newGaugeVec env ''vigilante'' ''unbonding_watcher_unbonding_censorship''
       ''The metric of a new unbonding censorship'' [''staking_tx_hash'']) (\<lambda>x14.
     bindG (newGaugeVec env ''vigilante'' ''unbonding_watcher_inclusion_proof_censorship''
       ''The metric of a new inclusion proof censorship'' [''staking_tx_hash'']) (\<lambda>x15.
     bindG (newGauge env ''vigilante'' ''unbonding_watcher_best_block_height''
       ''The height of the best btc block'') (\<lambda>x16.
     bindG (newGauge env ''vigilante'' ''unbonding_watcher_btc_light_client_height''
       ''The height of the babylon btc light client'') (\<lambda>x17.
       retG \<lparr>uw_ReportedUnbondingTransactionsCounter = x0,
        uw_FailedReportedUnbondingTransactions = x1,
        uw_NumberOfTrackedActiveDelegations = x2,
        uw_DetectedUnbondedStakeExpansionCounter = x3,
        uw_DetectedUnbondingTransactionsCounter = x4,
        uw_DetectedNonUnbondingTransactionsCounter = x5,
        uw_FailedReportedActivateDelegations = x6,
        uw_ReportedActivateDelegationsCounter = x7,
        uw_MethodExecutionLatency = x8,
        uw_NumberOfActivationInProgress = x9,
        uw_NumberOfVerifiedDelegations = x10,
        uw_NumberOfVerifiedNotInChainDelegations = x11,
        uw_NumberOfVerifiedInsufficientConfDelegations = x12,
        uw_NumberOfVerifiedSufficientConfDelegations = x13,
        uw_UnbondingCensorshipGaugeVec = x14,
        uw_InclusionProofCensorshipGaugeVec = x15,
        uw_BestBlockHeight = x16,
        uw_BtcLightClientHeight = x17\<rparr>))))))))))))))))))"

record slasherMetrics =
  slm_SlashedFinalityProvidersCounter :: metric
  slm_SlashedDelegationsCounter :: metric
  slm_SlashedSatsCounter :: metric
  slm_SlashedDelegationGaugeVec :: metricVec

definition newSlasherMetrics :: "'reg promEnv \<Rightarrow> ('reg, slasherMetrics) prog" where
  "newSlasherMetrics env =
     bindG (newCounter env [] ''slasher_slashed_finality_providers''
       ''The number of slashed finality providers'') (\<lambda>x0.
     bindG (newCounter env [] ''slasher_slashed_delegations''
       ''The number of slashed delegations'') (\<lambda>x1.
     bindG (newCounter env [] ''slasher_slashed_sats''
       ''The amount of slashed funds in Satoshi'') (\<lambda>x2.
     bindG (newGaugeVec env [] ''slasher_new_slashed_delegation''
       ''The metric of a newly slashed delegation'' [''del_btc_pk'', ''fp_btc_pk'']) (\<lambda>x3.
       retG \<lparr>slm_SlashedFinalityProvidersCounter = x0,
        slm_SlashedDelegationsCounter = x1,
        slm_SlashedSatsCounter = x2,
        slm_SlashedDelegationGaugeVec = x3\<rparr>))))"

record atomicSlasherMetrics =
  asm_TrackedBTCDelegationsGauge :: metric
  asm_SelectiveSlashingCensorshipGaugeVec :: metricVec

definition newAtomicSlasherMetrics :: "'reg promEnv \<Rightarrow> ('reg, atomicSlasherMetrics) prog" where
  "newAtomicSlasherMetrics env =
     bindG (newGauge env ''vigilante'' ''atomic_slasher_tracked_delegations_gauge''
       ''The number of BTC delegations the atomic slasher routine is tracking'') (\<lambda>x0.
     bindG (newGaugeVec env ''vigilante'' ''atomic_slasher_selective_slashing_censorship''
       ''The metric of a new selective slashing censorship'' [''staking_tx_hash'']) (\<lambda>x1.
       retG \<lparr>asm_TrackedBTCDelegationsGauge = x0,
        asm_SelectiveSlashingCensorshipGaugeVec = x1\<rparr>))"

record monitorMetrics =
  mm_ValidEpochsCounter :: metric
  mm_InvalidEpochsCounter :: metric
  mm_ValidBTCHeadersCounter :: metric
  mm_InvalidBTCHeadersCounter :: metric
  mm_LivenessAttacksCounter :: metric

definition NewMonitorMetrics :: "'reg promEnv \<Rightarrow> ('reg, monitorMetrics) prog" where
  "NewMonitorMetrics env =
     bindG (newCounter env [] ''vigilante_monitor_valid_epochs''
       ''The total number of valid epochs'') (\<lambda>x0.
     bindG (newCounter env [] ''vigilante_monitor_invalid_epochs''
       ''The total number of invalid epochs'') (\<lambda>x1.
     bindG (newCounter env [] ''vigilante_monitor_valid_btc_headers''
       ''The total number of valid BTC headers'') (\<lambda>x2.
     bindG (newCounter env [] ''vigilante_monitor_invalid_btc_headers''
       ''The total number of invalid BTC headers'') (\<lambda>x3.
     bindG (newCounter env [] ''vigilante_monitor_liveness_attacks''
       ''The total number of detected liveness attacks'') (\<lambda>x4.
       retG \<lparr>mm_ValidEpochsCounter = x0,
        mm_InvalidEpochsCounter = x1,
        mm_ValidBTCHeadersCounter = x2,
        mm_InvalidBTCHeadersCounter = x3,
        mm_LivenessAttacksCounter = x4\<rparr>)))))"

record reporterMetrics =
  rm_SuccessfulHeadersCounter :: metric
  rm_SuccessfulCheckpointsCounter :: metric
  rm_FailedHeadersCounter :: metric
  rm_FailedCheckpointsCounter :: metric
  rm_SecondsSinceLastHeaderGauge :: metric
  rm_SecondsSinceLastCheckpointGauge :: metric
  rm_NewReportedHeaderGaugeVec :: metricVec
  rm_NewReportedCheckpointGaugeVec :: metricVec
  rm_HeadersCensorshipGauge :: metric
  rm_CheckpointCensorshipGauge :: metricVec

definition NewReporterMetrics :: "'reg promEnv \<Rightarrow> ('reg, reporterMetrics) prog" where
  "NewReporterMetrics env =
     bindG (newCounter env [] ''vigilante_reporter_reported_headers''
       ''The total number of BTC headers reported to Babylon'') (\<lambda>x0.
     bindG (newCounter env [] ''vigilante_reporter_reported_checkpoints''
       ''The total number of BTC checkpoints reported to Babylon'') (\<lambda>x1.
     bindG (newCounter env [] ''vigilante_reporter_failed_headers''
       ''The total number of failed BTC headers to Babylon'') (\<lambda>x2.
     bindG (newCounter env [] ''vigilante_reporter_failed_checkpoints''
       ''The total number of failed BTC checkpoints to Babylon'') (\<lambda>x3.
     bindG (newGauge env [] ''vigilante_reporter_since_last_header_seconds''
       ''Seconds since the last successful reported BTC header to Babylon'') (\<lambda>x4.
     bindG (newGauge env [] ''vigilante_reporter_since_last_checkpoint_seconds''
       ''Seconds since the last successful reported BTC checkpoint to Babylon'') (\<lambda>x5.
     bindG (newGaugeVec env [] ''vigilante_reporter_new_btc_header''
       ''The metric of a new BTC header reported to Babylon'' [''id'']) (\<lambda>x6.
     bindG (newGaugeVec env [] ''vigilante_reporter_new_btc_checkpoint''
       ''The metric of a new BTC checkpoint reported to Babylon'' [''epoch'', ''height'', ''tx1id'', ''tx2id'']) (\<lambda>x7.
     bindG (newGauge env [] ''vigilante_reporter_insert_headers_censorship''
       ''The metric of censorship in inserting headers to Babylon'') (\<lambda>x8.
     bindG (newGaugeVec env [] ''vigilante_reporter_checkpoint_censorship''
       ''The metric of censorship in inserting checkpoints to Babylon'' [''epoch'', ''height'', ''tx1id'', ''tx2id'']) (\<lambda>x9.
       retG \<lparr>rm_SuccessfulHeadersCounter = x0,
        rm_SuccessfulCheckpointsCounter = x1,
        rm_FailedHeadersCounter = x2,
        rm_FailedCheckpointsCounter = x3,
        rm_SecondsSinceLastHeaderGauge = x4,
        rm_SecondsSinceLastCheckpointGauge = x5,
        rm_NewReportedHeaderGaugeVec = x6,
        rm_NewReportedCheckpointGaugeVec = x7,
        rm_HeadersCensorshipGauge = x8,
        rm_CheckpointCensorshipGauge = x9\<rparr>))))))))))"

record relayerMetrics =
  rlm_ResendIntervalSecondsGauge :: metric
  rlm_AvailableBTCBalance :: metric
  rlm_InvalidCheckpointCounter :: metric
  rlm_ResentCheckpointsCounter :: metric
  rlm_FailedResentCheckpointsCounter :: metric
  rlm_NewSubmittedCheckpointSegmentGaugeVec :: metricVec

definition newRelayerMetrics :: "'reg promEnv \<Rightarrow> ('reg, relayerMetrics) prog" where
  "newRelayerMetrics env =
     bindG (newGauge env [] ''vigilante_submitter_resend_interval''
       ''The intervals the submitter resends a checkpoint in seconds'') (\<lambda>x0.
     bindG (newGauge env [] ''vigilante_submitter_available_balance''
       ''The available balance in wallet in Satoshis'') (\<lambda>x1.
     bindG (newCounter env [] ''vigilante_submitter_invalid_checkpoints''
       ''The number of invalid checkpoints (invalid epoch number or status)'') (\<lambda>x2.
     bindG (newCounter env [] ''vigilante_submitter_resent_checkpoints''
       ''The number of resent checkpoints'') (\<lambda>x3.
     bindG (newCounter env [] ''vigilante_submitter_failed_resent_checkpoints''
       ''The number of failed resent checkpoints'') (\<lambda>x4.
     bindG (newGaugeVec env [] ''vigilante_submitter_new_checkpoint_segment''
       ''The metric of a new Babylon checkpoint segment submitted to BTC'' [''epoch'', ''idx'', ''txid'', ''fee'']) (\<lambda>x5.
       retG \<lparr>rlm_ResendIntervalSecondsGauge = x0,
        rlm_AvailableBTCBalance = x1,
        rlm_InvalidCheckpointCounter = x2,
        rlm_ResentCheckpointsCounter = x3,
        rlm_FailedResentCheckpointsCounter = x4,
        rlm_NewSubmittedCheckpointSegmentGaugeVec = x5\<rparr>))))))"

record submitterMetrics =
  sbm_SuccessfulCheckpointsCounter :: metric
  sbm_FailedCheckpointsCounter :: metric
  sbm_SecondsSinceLastCheckpointGauge :: metric
  sbm_RelayerMetrics :: relayerMetrics

definition NewSubmitterMetrics :: "'reg promEnv \<Rightarrow> ('reg, submitterMetrics) prog" where
  "NewSubmitterMetrics env =
     bindG (newCounter env [] ''vigilante_submitter_submitted_checkpoints''
       ''The total number of raw checkpoints submitted to BTC'') (\<lambda>x0.
     bindG (newCounter env [] ''vigilante_submitter_failed_checkpoints''
       ''The total number of failed checkpoints to BTC'') (\<lambda>x1.
     bindG (newGauge env [] ''vigilante_submitter_since_last_checkpoint_seconds''
       ''Seconds since the last successfully submitted checkpoint'') (\<lambda>x2.
     bindG (newRelayerMetrics env) (\<lambda>relayer.
       retG \<lparr>sbm_SuccessfulCheckpointsCounter = x0,
        sbm_FailedCheckpointsCounter = x1,
        sbm_SecondsSinceLastCheckpointGauge = x2,
        sbm_RelayerMetrics = relayer\<rparr>))))"

record btcStakingTrackerMetrics =
  btm_UnbondingWatcherMetrics :: unbondingWatcherMetrics
  btm_SlasherMetrics :: slasherMetrics
  btm_AtomicSlasherMetrics :: atomicSlasherMetrics

definition NewBTCStakingTrackerMetrics :: "'reg promEnv \<Rightarrow> ('reg, btcStakingTrackerMetrics) prog" where
  "NewBTCStakingTrackerMetrics env =
     bindG (newUnbondingWatcherMetrics env) (\<lambda>uwMetrics.
     bindG (newSlasherMetrics env) (\<lambda>slasherMetrics.
     bindG (newAtomicSlasherMetrics env) (\<lambda>atomicSlasherMetrics.
       retG \<lparr>btm_UnbondingWatcherMetrics = uwMetrics, btm_SlasherMetrics = slasherMetrics,
         btm_AtomicSlasherMetrics = atomicSlasherMetrics\<rparr>)))"

subsection \<open>Recording\<close>

fun natDec :: "nat \<Rightarrow> string" where
  "natDec n = (if n < 10 then [char_of (48 + n)] else natDec (n div 10) @ [char_of (48 + n mod 10)])"

declare natDec.simps [simp del]

definition FormatUint :: "u64 \<Rightarrow> string" where "FormatUint n = natDec (unat n)"
definition Itoa :: "int \<Rightarrow> string" where "Itoa i = (if i < 0 then CHR ''-'' # natDec (nat (- i)) else natDec (nat i))"

definition RecordSlashedDelegation :: "'reg promEnv \<Rightarrow> slasherMetrics \<Rightarrow> btcDelegationResponse \<Rightarrow> ('reg, unit) prog" where
  "RecordSlashedDelegation env sm del =
     bindG (forEach (\<lambda>pk. withLabels env (slm_SlashedDelegationGaugeVec sm) [hexEncode (bdr_BtcPk del), hexEncode pk] (pe_SetToCurrentTime env))
              (bdr_FpBtcPkList del)) (\<lambda>_.
     bindG (pe_Add env (slm_SlashedSatsCounter sm) (pe_Float env (bdr_TotalSat del))) (\<lambda>_.
       pe_Inc env (slm_SlashedDelegationsCounter sm)))"

text \<open>One tick of the goroutines of \<open>RecordMetrics\<close>.\<close>

definition reporterTick :: "'reg promEnv \<Rightarrow> reporterMetrics \<Rightarrow> ('reg, unit) prog" where
  "reporterTick env sm = bindG (pe_Inc env (rm_SecondsSinceLastHeaderGauge sm)) (\<lambda>_. pe_Inc env (rm_SecondsSinceLastCheckpointGauge sm))"

definition submitterTick :: "'reg promEnv \<Rightarrow> submitterMetrics \<Rightarrow> ('reg, unit) prog" where
  "submitterTick env sm = pe_Inc env (sbm_SecondsSinceLastCheckpointGauge sm)"

definition logAndRecordCheckpointMetrics ::
  "'reg promEnv \<Rightarrow> (msgTx \<Rightarrow> string) \<Rightarrow> relayerMetrics \<Rightarrow> btcTxInfo \<Rightarrow> btcTxInfo \<Rightarrow> u64 \<Rightarrow> ('reg, unit) prog" where
  "logAndRecordCheckpointMetrics env hashString ms tx1 tx2 epochNum =
     bindG (withLabels env (rlm_NewSubmittedCheckpointSegmentGaugeVec ms)
         [FormatUint epochNum, ''0'', hashString (ti_Tx tx1), Itoa (ti_Fee tx1)] (pe_SetToCurrentTime env)) (\<lambda>_.
       withLabels env (rlm_NewSubmittedCheckpointSegmentGaugeVec ms)
         [FormatUint epochNum, ''1'', hashString (ti_Tx tx2), Itoa (ti_Fee tx2)] (pe_SetToCurrentTime env))"

definition latencyObserved :: "'reg promEnv \<Rightarrow> unbondingWatcherMetrics \<Rightarrow> string \<Rightarrow> f64 \<Rightarrow> ('reg, unit) prog" where
  "latencyObserved env ms method seconds = withLabels env (uw_MethodExecutionLatency ms) [method] (\<lambda>m. pe_Observe env m seconds)"

text \<open>The server of the metrics. The process ends when it cannot listen.\<close>

definition metrics_start :: "'reg promEnv \<Rightarrow> string \<Rightarrow> ('reg, unit) prog" where
  "metrics_start env addr =
     bindG (pe_RegisterCollector env ''build info'') (\<lambda>_.
     bindG (pe_RegisterCollector env ''go'') (\<lambda>_.
     bindG (pe_Handle env ''/metrics'') (\<lambda>_.
     bindG (mustG ''metrics logger'' (pe_NewRootLogger env ''auto'' ''debug'')) (\<lambda>_.
       mustG ''Failed to start metrics server'' (pe_ListenAndServe env addr)))))"

subsection \<open>Registering\<close>

text \<open>
  The documented rules of the client library: a metric with a valid, new name and valid labels can be
  registered; label values must be as many as the labels; a registered metric can be changed, a
  counter by a number that is not negative.
\<close>

definition nameChar :: "char \<Rightarrow> bool" where
  "nameChar c = (let n = (of_char c :: nat) in 97 \<le> n \<and> n \<le> 122 \<or> 65 \<le> n \<and> n \<le> 90 \<or> 48 \<le> n \<and> n \<le> 57 \<or> n = 95)"

definition validName :: "string \<Rightarrow> bool" where
  "validName s = (case s of [] \<Rightarrow> False | c # cs \<Rightarrow> nameChar c \<and> \<not> (48 \<le> (of_char c :: nat) \<and> (of_char c :: nat) \<le> 57) \<and> list_all nameChar cs)"

definition validLabels :: "string list \<Rightarrow> bool" where
  "validLabels ls = (list_all (\<lambda>l. validName l \<and> take 2 l \<noteq> ''__'') ls \<and> distinct ls)"

definition prom_contract :: "'reg promEnv \<Rightarrow> ('reg \<Rightarrow> string set) \<Rightarrow> bool" where
  "prom_contract env names \<longleftrightarrow>
     (\<forall>kind name help labels r. validName name \<and> validLabels labels \<and> name \<notin> names r \<longrightarrow>
        (\<exists>r'. pe_Register env kind name help labels r = (Ok (), r') \<and> names r' = insert name (names r))) \<and>
     (\<forall>vec vs. length vs = length (mv_labels vec) \<longrightarrow> pe_WithLabelValues env vec vs = Ok (mv_name vec, vs)) \<and>
     (\<forall>m r. fst m \<in> names r \<longrightarrow> (\<exists>r'. pe_Inc env m r = (Ok (), r') \<and> names r' = names r)) \<and>
     (\<forall>m r. fst m \<in> names r \<longrightarrow> (\<exists>r'. pe_SetToCurrentTime env m r = (Ok (), r') \<and> names r' = names r)) \<and>
     (\<forall>m x r. fst m \<in> names r \<longrightarrow> (\<exists>r'. pe_Observe env m x r = (Ok (), r') \<and> names r' = names r)) \<and>
     (\<forall>m x r. fst m \<in> names r \<and> \<not> f_neg x \<longrightarrow> (\<exists>r'. pe_Add env m x r = (Ok (), r') \<and> names r' = names r)) \<and>
     (\<forall>n. \<not> f_neg (pe_Float env n))"

definition registers :: "('reg \<Rightarrow> string set) \<Rightarrow> string list \<Rightarrow> ('reg, 'a) prog \<Rightarrow> ('a \<Rightarrow> bool) \<Rightarrow> bool" where
  "registers names ns m P \<longleftrightarrow> (\<forall>r. list_all validName ns \<and> distinct ns \<and> names r \<inter> set ns = {} \<longrightarrow>
     (\<exists>x r'. m r = (Ok x, r') \<and> names r' = names r \<union> set ns \<and> P x))"

lemma registers_ret: "P x \<Longrightarrow> registers names [] (retG x) P"
  by (simp add: registers_def retG_def)

lemma registers_bind:
  assumes "registers names ns m Q" and "\<And>x. Q x \<Longrightarrow> registers names ns' (k x) P"
  shows "registers names (ns @ ns') (bindG m k) P"
  unfolding registers_def
proof (intro allI impI)
  fix r
  assume r: "list_all validName (ns @ ns') \<and> distinct (ns @ ns') \<and> names r \<inter> set (ns @ ns') = {}"
  then have "\<exists>x r'. m r = (Ok x, r') \<and> names r' = names r \<union> set ns \<and> Q x"
    using assms(1) by (auto simp: registers_def Int_Un_distrib)
  then obtain x r1 where m: "m r = (Ok x, r1)" "names r1 = names r \<union> set ns" "Q x" by (elim exE conjE) (rule that)
  have "names r1 \<inter> set ns' = {}" using r m(2) by auto
  then have "\<exists>y r'. k x r1 = (Ok y, r') \<and> names r' = names r1 \<union> set ns' \<and> P y"
    using assms(2) [OF m(3)] r by (simp add: registers_def)
  then show "\<exists>x r'. bindG m k r = (Ok x, r') \<and> names r' = names r \<union> set (ns @ ns') \<and> P x" using m(1,2) by (auto simp: Un_assoc)
qed

lemma registers_one:
  assumes "prom_contract env names" and "validLabels labels"
  shows "registers names [name] (bindG (pe_Register env kind name help labels) (\<lambda>_. retG x)) (\<lambda>y. y = x)"
  unfolding registers_def
proof (intro allI impI)
  fix r
  assume "list_all validName [name] \<and> distinct [name] \<and> names r \<inter> set [name] = {}"
  then have "validName name" "name \<notin> names r" by simp_all
  then have "\<exists>r'. pe_Register env kind name help labels r = (Ok (), r') \<and> names r' = insert name (names r)"
    using assms by (simp add: prom_contract_def)
  then show "\<exists>y r'. bindG (pe_Register env kind name help labels) (\<lambda>_. retG x) r = (Ok y, r') \<and> names r' = names r \<union> set [name] \<and> y = x"
    by (auto simp: retG_def)
qed

lemma registers_step:
  assumes "prom_contract env names" and "validLabels labels" and "\<And>y. y = x \<Longrightarrow> registers names ns (k y) P"
  shows "registers names (name # ns) (bindG (bindG (pe_Register env kind name help labels) (\<lambda>_. retG x)) k) P"
  using registers_bind [OF registers_one [OF assms(1,2)], of x ns k P name] assms(3) by simp

lemma registers_new:
  assumes "prom_contract env names"
  shows "(\<And>x. x = (fqName nsp name, []) \<Longrightarrow> registers names ns (k x) P) \<Longrightarrow> registers names (fqName nsp name # ns) (bindG (newCounter env nsp name help) k) P"
    and "(\<And>x. x = (fqName nsp name, []) \<Longrightarrow> registers names ns (k x) P) \<Longrightarrow> registers names (fqName nsp name # ns) (bindG (newGauge env nsp name help) k) P"
    and "validLabels labels \<Longrightarrow> (\<And>v. v = \<lparr>mv_name = fqName nsp name, mv_labels = labels\<rparr> \<Longrightarrow> registers names ns (l v) P)
      \<Longrightarrow> registers names (fqName nsp name # ns) (bindG (newGaugeVec env nsp name help labels) l) P"
    and "validLabels labels \<Longrightarrow> (\<And>v. v = \<lparr>mv_name = fqName nsp name, mv_labels = labels\<rparr> \<Longrightarrow> registers names ns (l v) P)
      \<Longrightarrow> registers names (fqName nsp name # ns) (bindG (newHistogramVec env nsp name help labels) l) P"
  unfolding newCounter_def newGauge_def newGaugeVec_def newHistogramVec_def
  by (rule registers_step [OF assms], simp add: validLabels_def, blast)+

text \<open>The names of the metrics of a daemon, and the names under which a record of metrics has them.\<close>

definition uwHandles :: "unbondingWatcherMetrics \<Rightarrow> string list" where
  "uwHandles ms = [fst (uw_ReportedUnbondingTransactionsCounter ms), fst (uw_FailedReportedUnbondingTransactions ms), fst (uw_NumberOfTrackedActiveDelegations ms), fst (uw_DetectedUnbondedStakeExpansionCounter ms), fst (uw_DetectedUnbondingTransactionsCounter ms), fst (uw_DetectedNonUnbondingTransactionsCounter ms), fst (uw_FailedReportedActivateDelegations ms), fst (uw_ReportedActivateDelegationsCounter ms), mv_name (uw_MethodExecutionLatency ms), fst (uw_NumberOfActivationInProgress ms), fst (uw_NumberOfVerifiedDelegations ms), fst (uw_NumberOfVerifiedNotInChainDelegations ms), fst (uw_NumberOfVerifiedInsufficientConfDelegations ms), fst (uw_NumberOfVerifiedSufficientConfDelegations ms), mv_name (uw_UnbondingCensorshipGaugeVec ms), mv_name (uw_InclusionProofCensorshipGaugeVec ms), fst (uw_BestBlockHeight ms), fst (uw_BtcLightClientHeight ms)]"

definition uwNames :: "string list" where
  "uwNames =
    [fqName ''vigilante'' ''unbonding_watcher_reported_unbonding_transactions'',
     fqName ''vigilante'' ''unbonding_watcher_failed_reported_unbonding_transactions'',
     fqName ''vigilante'' ''unbonding_watcher_tracked_active_delegations'',
     fqName ''vigilante'' ''unbonding_watcher_detected_unbonded_stake_expansion'',
     fqName ''vigilante'' ''unbonding_watcher_detected_unbonding_transactions'',
     fqName ''vigilante'' ''unbonding_watcher_detected_non_unbonding_transactions'',
     fqName ''vigilante'' ''unbonding_watcher_failed_reported_activate_delegation'',
     fqName ''vigilante'' ''unbonding_watcher_reported_activate_delegations'',
     fqName ''vigilante'' ''unbonding_watcher_method_latency_seconds'',
     fqName ''vigilante'' ''unbonding_watcher_number_of_activation_in_progress'',
     fqName ''vigilante'' ''unbonding_watcher_number_of_verified_delegations'',
     fqName ''vigilante'' ''unbonding_watcher_number_of_verified_not_in_chain_delegations'',
     fqName ''vigilante'' ''unbonding_watcher_number_of_verified_insufficient_conf_delegations'',
     fqName ''vigilante'' ''unbonding_watcher_number_of_verified_sufficient_conf_delegations'',
     fqName ''vigilante'' ''unbonding_watcher_unbonding_censorship'',
     fqName ''vigilante'' ''unbonding_watcher_inclusion_proof_censorship'',
     fqName ''vigilante'' ''unbonding_watcher_best_block_height'',
     fqName ''vigilante'' ''unbonding_watcher_btc_light_client_height'']"

definition slmHandles :: "slasherMetrics \<Rightarrow> string list" where
  "slmHandles ms = [fst (slm_SlashedFinalityProvidersCounter ms), fst (slm_SlashedDelegationsCounter ms), fst (slm_SlashedSatsCounter ms), mv_name (slm_SlashedDelegationGaugeVec ms)]"

definition slmNames :: "string list" where
  "slmNames =
    [fqName [] ''slasher_slashed_finality_providers'',
     fqName [] ''slasher_slashed_delegations'',
     fqName [] ''slasher_slashed_sats'',
     fqName [] ''slasher_new_slashed_delegation'']"

definition asmHandles :: "atomicSlasherMetrics \<Rightarrow> string list" where
  "asmHandles ms = [fst (asm_TrackedBTCDelegationsGauge ms), mv_name (asm_SelectiveSlashingCensorshipGaugeVec ms)]"

definition asmNames :: "string list" where
  "asmNames =
    [fqName ''vigilante'' ''atomic_slasher_tracked_delegations_gauge'',
     fqName ''vigilante'' ''atomic_slasher_selective_slashing_censorship'']"

definition mmHandles :: "monitorMetrics \<Rightarrow> string list" where
  "mmHandles ms = [fst (mm_ValidEpochsCounter ms), fst (mm_InvalidEpochsCounter ms), fst (mm_ValidBTCHeadersCounter ms), fst (mm_InvalidBTCHeadersCounter ms), fst (mm_LivenessAttacksCounter ms)]"

definition mmNames :: "string list" where
  "mmNames =
    [fqName [] ''vigilante_monitor_valid_epochs'',
     fqName [] ''vigilante_monitor_invalid_epochs'',
     fqName [] ''vigilante_monitor_valid_btc_headers'',
     fqName [] ''vigilante_monitor_invalid_btc_headers'',
     fqName [] ''vigilante_monitor_liveness_attacks'']"

definition rmHandles :: "reporterMetrics \<Rightarrow> string list" where
  "rmHandles ms = [fst (rm_SuccessfulHeadersCounter ms), fst (rm_SuccessfulCheckpointsCounter ms), fst (rm_FailedHeadersCounter ms), fst (rm_FailedCheckpointsCounter ms), fst (rm_SecondsSinceLastHeaderGauge ms), fst (rm_SecondsSinceLastCheckpointGauge ms), mv_name (rm_NewReportedHeaderGaugeVec ms), mv_name (rm_NewReportedCheckpointGaugeVec ms), fst (rm_HeadersCensorshipGauge ms), mv_name (rm_CheckpointCensorshipGauge ms)]"

definition rmNames :: "string list" where
  "rmNames =
    [fqName [] ''vigilante_reporter_reported_headers'',
     fqName [] ''vigilante_reporter_reported_checkpoints'',
     fqName [] ''vigilante_reporter_failed_headers'',
     fqName [] ''vigilante_reporter_failed_checkpoints'',
     fqName [] ''vigilante_reporter_since_last_header_seconds'',
     fqName [] ''vigilante_reporter_since_last_checkpoint_seconds'',
     fqName [] ''vigilante_reporter_new_btc_header'',
     fqName [] ''vigilante_reporter_new_btc_checkpoint'',
     fqName [] ''vigilante_reporter_insert_headers_censorship'',
     fqName [] ''vigilante_reporter_checkpoint_censorship'']"

definition rlmHandles :: "relayerMetrics \<Rightarrow> string list" where
  "rlmHandles ms = [fst (rlm_ResendIntervalSecondsGauge ms), fst (rlm_AvailableBTCBalance ms), fst (rlm_InvalidCheckpointCounter ms), fst (rlm_ResentCheckpointsCounter ms), fst (rlm_FailedResentCheckpointsCounter ms), mv_name (rlm_NewSubmittedCheckpointSegmentGaugeVec ms)]"

definition rlmNames :: "string list" where
  "rlmNames =
    [fqName [] ''vigilante_submitter_resend_interval'',
     fqName [] ''vigilante_submitter_available_balance'',
     fqName [] ''vigilante_submitter_invalid_checkpoints'',
     fqName [] ''vigilante_submitter_resent_checkpoints'',
     fqName [] ''vigilante_submitter_failed_resent_checkpoints'',
     fqName [] ''vigilante_submitter_new_checkpoint_segment'']"

definition sbmHandles :: "submitterMetrics \<Rightarrow> string list" where
  "sbmHandles ms = [fst (sbm_SuccessfulCheckpointsCounter ms), fst (sbm_FailedCheckpointsCounter ms), fst (sbm_SecondsSinceLastCheckpointGauge ms)] @ rlmHandles (sbm_RelayerMetrics ms)"

definition sbmNames :: "string list" where
  "sbmNames =
    [fqName [] ''vigilante_submitter_submitted_checkpoints'',
     fqName [] ''vigilante_submitter_failed_checkpoints'',
     fqName [] ''vigilante_submitter_since_last_checkpoint_seconds''] @ rlmNames"

lemmas handle_defs = uwHandles_def slmHandles_def asmHandles_def mmHandles_def rmHandles_def rlmHandles_def sbmHandles_def

lemma labels_valid:
  "validLabels [''method'']" "validLabels [''staking_tx_hash'']" "validLabels [''del_btc_pk'', ''fp_btc_pk'']" "validLabels [''id'']"
  "validLabels [''epoch'', ''height'', ''tx1id'', ''tx2id'']" "validLabels [''epoch'', ''idx'', ''txid'', ''fee'']"
  by code_simp+

lemma names_valid:
  "list_all validName (uwNames @ slmNames @ asmNames)" "distinct (uwNames @ slmNames @ asmNames)"
  "list_all validName mmNames" "distinct mmNames" "list_all validName rmNames" "distinct rmNames"
  "list_all validName sbmNames" "distinct sbmNames"
  by code_simp+

definition uwShape :: "unbondingWatcherMetrics \<Rightarrow> bool" where
  "uwShape ms \<longleftrightarrow> uwHandles ms = uwNames \<and> length (mv_labels (uw_MethodExecutionLatency ms)) = 1"

definition slmShape :: "slasherMetrics \<Rightarrow> bool" where
  "slmShape ms \<longleftrightarrow> slmHandles ms = slmNames \<and> length (mv_labels (slm_SlashedDelegationGaugeVec ms)) = 2"

definition rlmShape :: "relayerMetrics \<Rightarrow> bool" where
  "rlmShape ms \<longleftrightarrow> rlmHandles ms = rlmNames \<and> length (mv_labels (rlm_NewSubmittedCheckpointSegmentGaugeVec ms)) = 4"

lemma metrics_register:
  assumes "prom_contract env names"
  shows "registers names uwNames (newUnbondingWatcherMetrics env) uwShape" "registers names slmNames (newSlasherMetrics env) slmShape"
    "registers names asmNames (newAtomicSlasherMetrics env) (\<lambda>ms. asmHandles ms = asmNames)"
    "registers names mmNames (NewMonitorMetrics env) (\<lambda>ms. mmHandles ms = mmNames)"
    "registers names rmNames (NewReporterMetrics env) (\<lambda>ms. rmHandles ms = rmNames)"
    "registers names rlmNames (newRelayerMetrics env) rlmShape"
  unfolding uwNames_def newUnbondingWatcherMetrics_def slmNames_def newSlasherMetrics_def asmNames_def newAtomicSlasherMetrics_def
    mmNames_def NewMonitorMetrics_def rmNames_def NewReporterMetrics_def rlmNames_def newRelayerMetrics_def
  by (intro registers_new [OF assms] labels_valid registers_ret;
      simp add: handle_defs uwShape_def uwNames_def slmShape_def slmNames_def rlmShape_def rlmNames_def)+

lemma registers_run:
  assumes "registers names ns m P" and "list_all validName ns" and "distinct ns" and "names r = {}"
  shows "\<exists>x r'. m r = (Ok x, r') \<and> names r' = set ns \<and> P x"
proof -
  have "\<exists>x r'. m r = (Ok x, r') \<and> names r' = names r \<union> set ns \<and> P x"
    using assms(2-4) assms(1) [unfolded registers_def, rule_format, of r] by simp
  then show ?thesis using assms(4) by simp
qed

lemma registers_last: "registers names ns m Q \<Longrightarrow> (\<And>x. Q x \<Longrightarrow> P (f x)) \<Longrightarrow> registers names ns (bindG m (\<lambda>x. retG (f x))) P"
  using registers_bind [of names ns m Q "[]" "\<lambda>x. retG (f x)" P] by (simp add: registers_ret)

lemma submitter_register:
  assumes "prom_contract env names"
  shows "registers names sbmNames (NewSubmitterMetrics env) (\<lambda>ms. sbmHandles ms = sbmNames \<and> rlmShape (sbm_RelayerMetrics ms))"
  unfolding sbmNames_def NewSubmitterMetrics_def append.simps
  by (intro registers_new [OF assms] registers_last [OF metrics_register(6) [OF assms]]) (simp add: sbmHandles_def rlmShape_def)

lemma tracker_register:
  assumes "prom_contract env names"
  shows "registers names (uwNames @ slmNames @ asmNames) (NewBTCStakingTrackerMetrics env)
    (\<lambda>ms. uwShape (btm_UnbondingWatcherMetrics ms) \<and> slmShape (btm_SlasherMetrics ms) \<and> asmHandles (btm_AtomicSlasherMetrics ms) = asmNames)"
  unfolding NewBTCStakingTrackerMetrics_def
  by (intro registers_bind [OF metrics_register(1) [OF assms]] registers_bind [OF metrics_register(2) [OF assms]]
      registers_last [OF metrics_register(3) [OF assms]]) simp

text \<open>An operation on a registered metric with as many values as labels succeeds.\<close>

lemma withLabels_ok:
  assumes "prom_contract env names" and "length vs = length (mv_labels vec)" and "mv_name vec \<in> names r"
    and "\<And>m r. fst m \<in> names r \<Longrightarrow> \<exists>r'. op m r = (Ok (), r') \<and> names r' = names r"
  shows "\<exists>r'. withLabels env vec vs op r = (Ok (), r') \<and> names r' = names r"
proof -
  have "pe_WithLabelValues env vec vs = Ok (mv_name vec, vs)" using assms(1,2) by (simp add: prom_contract_def)
  then show ?thesis using assms(3) assms(4) [of "(mv_name vec, vs)" r] by (simp add: withLabels_def liftG_def)
qed

lemma prom_ops:
  assumes "prom_contract env names" and "fst m \<in> names r"
  shows "\<exists>r'. pe_Inc env m r = (Ok (), r') \<and> names r' = names r" "\<exists>r'. pe_SetToCurrentTime env m r = (Ok (), r') \<and> names r' = names r"
    "\<exists>r'. pe_Observe env m x r = (Ok (), r') \<and> names r' = names r" "\<exists>r'. pe_Add env m (pe_Float env n) r = (Ok (), r') \<and> names r' = names r"
  using assms by (cases m; simp add: prom_contract_def)+

lemma RecordSlashed_ok:
  assumes "prom_contract env names" and "slmShape sm" and "set slmNames \<subseteq> names r"
  shows "\<exists>r'. RecordSlashedDelegation env sm del r = (Ok (), r')"
proof -
  have in_r: "mv_name (slm_SlashedDelegationGaugeVec sm) \<in> set slmNames" "fst (slm_SlashedSatsCounter sm) \<in> set slmNames"
    "fst (slm_SlashedDelegationsCounter sm) \<in> set slmNames"
    using assms(2) unfolding slmShape_def slmHandles_def by (metis list.set_intros)+
  let ?f = "\<lambda>pk. withLabels env (slm_SlashedDelegationGaugeVec sm) [hexEncode (bdr_BtcPk del), hexEncode pk] (pe_SetToCurrentTime env)"
  have one: "\<exists>r'. ?f pk s = (Ok (), r') \<and> names r' = names s" if "set slmNames \<subseteq> names s" for pk s
    using in_r(1) that assms(2) by (intro withLabels_ok [OF assms(1)] prom_ops [OF assms(1)]) (auto simp: slmShape_def)
  have "\<exists>r'. forEach ?f pks s = (Ok (), r') \<and> names r' = names s" if "set slmNames \<subseteq> names s" for pks s
    using that
  proof (induction pks arbitrary: s)
    case (Cons pk pks)
    from one [OF Cons.prems, of pk] obtain s1 where s1: "?f pk s = (Ok (), s1)" "names s1 = names s" by (elim exE conjE) (rule that)
    then show ?case using Cons.IH [of s1] Cons.prems by simp
  qed (simp add: retG_def)
  from this [OF assms(3), of "bdr_FpBtcPkList del"] obtain r1 where r1: "forEach ?f (bdr_FpBtcPkList del) r = (Ok (), r1)" "names r1 = names r"
    by (elim exE conjE) (rule that)
  have mem: "fst (slm_SlashedSatsCounter sm) \<in> names r1" using in_r(2) assms(3) r1(2) by blast
  from prom_ops(4) [OF assms(1) mem, of "bdr_TotalSat del"] obtain r2 where
    r2: "pe_Add env (slm_SlashedSatsCounter sm) (pe_Float env (bdr_TotalSat del)) r1 = (Ok (), r2)" "names r2 = names r1" by (elim exE conjE) (rule that)
  have "fst (slm_SlashedDelegationsCounter sm) \<in> names r2" using in_r(3) assms(3) r1(2) r2(2) by blast
  from prom_ops(1) [OF assms(1) this] r1(1) r2(1) show ?thesis by (auto simp: RecordSlashedDelegation_def)
qed

lemma recordCkpt_ok:
  assumes "prom_contract env names" and "rlmShape ms" and "set rlmNames \<subseteq> names r"
  shows "\<exists>r'. logAndRecordCheckpointMetrics env h ms tx1 tx2 e r = (Ok (), r')"
proof -
  let ?v = "rlm_NewSubmittedCheckpointSegmentGaugeVec ms"
  have v: "mv_name ?v \<in> set rlmNames" "length (mv_labels ?v) = 4"
    using assms(2) unfolding rlmShape_def rlmHandles_def by (metis list.set_intros)+
  have one: "\<exists>r'. withLabels env ?v [a, b, c, d] (pe_SetToCurrentTime env) s = (Ok (), r') \<and> names r' = names s" if "set rlmNames \<subseteq> names s" for a b c d s
    using v that by (intro withLabels_ok [OF assms(1)] prom_ops [OF assms(1)]) auto
  from one [OF assms(3), of "FormatUint e" "''0''" "h (ti_Tx tx1)" "Itoa (ti_Fee tx1)"] obtain r1 where
    r1: "withLabels env ?v [FormatUint e, ''0'', h (ti_Tx tx1), Itoa (ti_Fee tx1)] (pe_SetToCurrentTime env) r = (Ok (), r1)" "names r1 = names r"
    by (elim exE conjE) (rule that)
  then show ?thesis using one [of r1 "FormatUint e" "''1''" "h (ti_Tx tx2)" "Itoa (ti_Fee tx2)"] assms(3)
    by (auto simp: logAndRecordCheckpointMetrics_def)
qed

lemma reporterTick_ok:
  assumes "prom_contract env names" and "rmHandles ms = rmNames" and "set rmNames \<subseteq> names r"
  shows "\<exists>r'. reporterTick env ms r = (Ok (), r')"
proof -
  have "fst (rm_SecondsSinceLastHeaderGauge ms) \<in> set rmNames" "fst (rm_SecondsSinceLastCheckpointGauge ms) \<in> set rmNames"
    using assms(2) unfolding rmHandles_def by (metis list.set_intros)+
  with assms(3) have in_r: "fst (rm_SecondsSinceLastHeaderGauge ms) \<in> names r" "fst (rm_SecondsSinceLastCheckpointGauge ms) \<in> names r" by blast+
  from prom_ops(1) [OF assms(1) in_r(1)] obtain r1 where
    r1: "pe_Inc env (rm_SecondsSinceLastHeaderGauge ms) r = (Ok (), r1)" "names r1 = names r" by (elim exE conjE) (rule that)
  have "fst (rm_SecondsSinceLastCheckpointGauge ms) \<in> names r1" using in_r(2) r1(2) by simp
  from prom_ops(1) [OF assms(1) this] r1(1) show ?thesis by (auto simp: reporterTick_def)
qed

lemma latency_ok:
  assumes "prom_contract env names" and "uwShape ms" and "set uwNames \<subseteq> names r"
  shows "\<exists>r'. latencyObserved env ms method x r = (Ok (), r')"
proof -
  have "mv_name (uw_MethodExecutionLatency ms) \<in> set uwNames"
    using assms(2) unfolding uwShape_def uwHandles_def by (metis list.set_intros)
  then have "\<exists>r'. latencyObserved env ms method x r = (Ok (), r') \<and> names r' = names r" unfolding latencyObserved_def
    using assms(2,3) by (intro withLabels_ok [OF assms(1)] prom_ops [OF assms(1)]) (auto simp: uwShape_def)
  then show ?thesis by blast
qed

subsection \<open>Properties\<close>


text \<open>A registry that is the list of its names.\<close>

definition sampleProm :: "string list promEnv" where
  "sampleProm = \<lparr>pe_Register = (\<lambda>_ name _ labels r. if validName name \<and> validLabels labels \<and> name \<notin> set r then (Ok (), name # r) else (Panic ''duplicate'', r)),
     pe_RegisterCollector = (\<lambda>_. retG ()),
     pe_WithLabelValues = (\<lambda>vec vs. if length vs = length (mv_labels vec) then Ok (mv_name vec, vs) else Panic ''inconsistent label cardinality''),
     pe_Inc = (\<lambda>_. retG ()), pe_Add = (\<lambda>_ x. if f_neg x then panicG ''negative'' else retG ()), pe_Observe = (\<lambda>_ _. retG ()),
     pe_SetToCurrentTime = (\<lambda>_. retG ()), pe_Float = (\<lambda>n. Fin (of_nat (unat n))), pe_Handle = (\<lambda>_. retG ()),
     pe_NewRootLogger = (\<lambda>_ _. retG ()), pe_ListenAndServe = (\<lambda>_. retG ())\<rparr>"


end
