(* ===== verification/Config_Yaml.thy ===== *)
theory Config_Yaml
  imports Wire_Types
begin

text \<open>
  Writing the configuration: \<open>MapstructureYAMLWrapper\<close> and \<open>SaveToYAML\<close> of \<open>config/config.go\<close>. The code walks over a
  struct by reflection and uses the \<open>mapstructure\<close> tags, by which the configuration is read again, as
  the keys. A Go value is a tree of structs and pointers whose other values are opaque. The YAML
  encoder is library code: it asks a wrapped value for what to encode, and renders the rest.

  Shown here: the document has, under the path of tags of an exported field, exactly the value of that field.
\<close>

subsection \<open>Values and documents\<close>

text \<open>A field has its export flag, its tag and its value.\<close>

datatype 'v goValue = GoStruct "(bool \<times> string \<times> 'v goValue) list" | GoPtr "'v goValue option" | GoOther 'v

datatype 'v yamlItem = Wrapped "'v goValue" | Plain "'v goValue"

datatype 'v marshalled = MNil | MPlain "'v goValue" | MMap "(string, 'v yamlItem) gomap"

datatype 'v yaml = YMap "(string, 'v yaml) gomap" | YNull | YValue "'v goValue"

text \<open>\<open>reflect.Kind\<close> is \<open>Struct\<close>, or a pointer that is not nil to one.\<close>

fun isStructOrPtr :: "'v goValue \<Rightarrow> bool" where
  "isStructOrPtr (GoStruct fs) = True"
| "isStructOrPtr (GoPtr (Some (GoStruct fs))) = True"
| "isStructOrPtr _ = False"

definition tagName :: "string \<Rightarrow> string" where
  "tagName tag = takeWhile (\<lambda>c. c \<noteq> CHR '','') tag"

definition skipField :: "bool \<Rightarrow> string \<Rightarrow> bool" where
  "skipField exported tag \<longleftrightarrow> \<not> exported \<or> tag = [] \<or> tag = ''-''"

text \<open>The loop over the fields; an assignment to a map replaces an earlier one.\<close>

fun marshalFields :: "(bool \<times> string \<times> 'v goValue) list \<Rightarrow> (string, 'v yamlItem) gomap \<Rightarrow> (string, 'v yamlItem) gomap" where
  "marshalFields [] result = result"
| "marshalFields ((exported, tag, v) # fs) result = marshalFields fs
     (if skipField exported tag then result
      else AList.update (tagName tag) (if isStructOrPtr v then Wrapped v else Plain v) result)"

fun MarshalYAML :: "'v goValue \<Rightarrow> 'v marshalled" where
  "MarshalYAML (GoPtr None) = MNil"
| "MarshalYAML (GoPtr (Some (GoStruct fs))) = MMap (marshalFields fs [])"
| "MarshalYAML (GoStruct fs) = MMap (marshalFields fs [])"
| "MarshalYAML v = MPlain v"

text \<open>The fields of a struct under their names, a later one first.\<close>

definition namedFields :: "(bool \<times> string \<times> 'v goValue) list \<Rightarrow> (string \<times> 'v goValue) list" where
  "namedFields fs = rev (map (\<lambda>(e, t, v). (tagName t, v)) (filter (\<lambda>(e, t, v). \<not> skipField e t) fs))"

definition itemOf :: "'v goValue \<Rightarrow> 'v yamlItem" where
  "itemOf v = (if isStructOrPtr v then Wrapped v else Plain v)"

lemma marshalFields_lookup:
  "map_of (marshalFields fs result) k = (case map_of (namedFields fs) k of Some v \<Rightarrow> Some (itemOf v) | None \<Rightarrow> map_of result k)"
proof (induction fs result rule: marshalFields.induct)
  case (2 exported tag v fs result)
  have "namedFields ((exported, tag, v) # fs) = namedFields fs @ (if skipField exported tag then [] else [(tagName tag, v)])"
    by (simp add: namedFields_def)
  with 2 show ?case by (auto simp: update_conv' itemOf_def map_of_append map_add_def split: option.splits)
qed (simp add: namedFields_def)

lemma marshalFields_distinct: "distinct (map fst result) \<Longrightarrow> distinct (map fst (marshalFields fs result))"
  by (induction fs result rule: marshalFields.induct) (auto simp: distinct_update)

lemma namedFields_mem: "(k, v) \<in> set (namedFields fs) \<Longrightarrow> \<exists>e t. (e, t, v) \<in> set fs"
  by (auto simp: namedFields_def)

lemma wrapped_smaller:
  assumes "MarshalYAML v = MMap m" and "(k, Wrapped w) \<in> set m"
  shows "size w < size v"
proof -
  obtain fs where fs: "m = marshalFields fs []" "v = GoStruct fs \<or> v = GoPtr (Some (GoStruct fs))"
    using assms(1) by (cases v rule: MarshalYAML.cases) auto
  have "map_of m k = Some (Wrapped w)" using assms(2) marshalFields_distinct [of "[]" fs] by (simp add: fs(1))
  then obtain e t where "(e, t, w) \<in> set fs"
    by (auto simp: fs(1) marshalFields_lookup itemOf_def split: option.splits if_splits dest!: map_of_SomeD namedFields_mem)
  then have "size w < size_list (size_prod (\<lambda>_. 0) (size_prod (\<lambda>_. 0) size)) fs" by (induction fs) auto
  with fs(2) show ?thesis by auto
qed

text \<open>The encoder on a wrapped value.\<close>

function encodeYaml :: "'v goValue \<Rightarrow> 'v yaml" where
  "encodeYaml v = (case MarshalYAML v of
       MNil \<Rightarrow> YNull
     | MPlain x \<Rightarrow> YValue x
     | MMap m \<Rightarrow> YMap (map (\<lambda>(k, i). (k, case i of Wrapped w \<Rightarrow> encodeYaml w | Plain x \<Rightarrow> YValue x)) m))"
  by pat_completeness auto
termination
  by (relation "measure size") (auto dest: wrapped_smaller)

declare encodeYaml.simps [simp del]

record ('v, 'w) yamlEnv =
  ye_Encode :: "'v yaml \<Rightarrow> ('w, bytes) prog"
  ye_Close :: "('w, unit) prog"
  ye_WriteFile :: "string \<Rightarrow> bytes \<Rightarrow> nat \<Rightarrow> ('w, unit) prog"

definition SaveToYAML :: "('v, 'w) yamlEnv \<Rightarrow> 'v goValue \<Rightarrow> string \<Rightarrow> ('w, unit) prog" where
  "SaveToYAML env cfg filePath =
     bindG (wrapG ''error marshaling config to YAML: '' (ye_Encode env (encodeYaml (GoPtr (Some cfg))))) (\<lambda>buf.
     bindG (wrapG ''error closing YAML encoder: '' (ye_Close env)) (\<lambda>_.
       wrapG ''error writing YAML to file: '' (ye_WriteFile env filePath buf 384)))"

subsection \<open>What the document has under a path\<close>

fun structFields :: "'v goValue \<Rightarrow> (bool \<times> string \<times> 'v goValue) list option" where
  "structFields (GoStruct fs) = Some fs" | "structFields (GoPtr (Some (GoStruct fs))) = Some fs" | "structFields _ = None"

fun fieldAt :: "string list \<Rightarrow> 'v goValue \<Rightarrow> 'v goValue option" where
  "fieldAt [] v = Some v"
| "fieldAt (k # ks) v = (case structFields v of None \<Rightarrow> None
     | Some fs \<Rightarrow> (case map_of (namedFields fs) k of None \<Rightarrow> None | Some w \<Rightarrow> fieldAt ks w))"

fun yamlAt :: "string list \<Rightarrow> 'v yaml \<Rightarrow> 'v yaml option" where
  "yamlAt [] y = Some y"
| "yamlAt (k # ks) (YMap m) = (case map_of m k of None \<Rightarrow> None | Some y \<Rightarrow> yamlAt ks y)"
| "yamlAt (k # ks) _ = None"

definition rendered :: "'v goValue \<Rightarrow> 'v yaml" where
  "rendered v = (if isStructOrPtr v then encodeYaml v else YValue v)"

lemma encode_struct:
  assumes "structFields v = Some fs"
  shows "\<exists>m. encodeYaml v = YMap m \<and> (\<forall>k. map_of m k = map_option rendered (map_of (namedFields fs) k))"
proof -
  let ?f = "\<lambda>i. case i of Wrapped w \<Rightarrow> encodeYaml w | Plain x \<Rightarrow> YValue x"
  have "encodeYaml v = YMap (map (\<lambda>(k, i). (k, ?f i)) (marshalFields fs []))"
    using assms by (cases v rule: structFields.cases) (simp_all add: encodeYaml.simps)
  moreover have "map_of (map (\<lambda>(k, i). (k, ?f i)) (marshalFields fs [])) k = map_option rendered (map_of (namedFields fs) k)" for k
    by (simp add: map_of_map marshalFields_lookup itemOf_def rendered_def split: option.splits)
  ultimately show ?thesis by blast
qed

lemma structFields_iff: "structFields v = None \<longleftrightarrow> \<not> isStructOrPtr v"
  by (cases v rule: structFields.cases) simp_all

text \<open>
  The written document has the configuration: under every path of tag names it has the value of the field
  that the path leads to, and nothing where no exported field with a tag is.
\<close>

theorem yaml_keeps_fields: "ks \<noteq> [] \<Longrightarrow> isStructOrPtr v \<Longrightarrow> yamlAt ks (encodeYaml v) = map_option rendered (fieldAt ks v)"
proof (induction ks arbitrary: v)
  case (Cons k ks)
  then obtain fs where fs: "structFields v = Some fs" using structFields_iff by fastforce
  from encode_struct [OF fs] obtain m where m: "encodeYaml v = YMap m" "\<And>k. map_of m k = map_option rendered (map_of (namedFields fs) k)" by blast
  show ?case
  proof (cases "map_of (namedFields fs) k")
    case None
    then show ?thesis using fs m by simp
  next
    case (Some w)
    have "yamlAt ks (rendered w) = map_option rendered (fieldAt ks w)"
    proof (cases "ks = [] \<or> isStructOrPtr w")
      case True
      then show ?thesis using Cons.IH [of w] by (cases "ks = []") (auto simp: rendered_def [of w])
    next
      case False
      then show ?thesis by (cases ks) (auto simp: rendered_def structFields_iff [THEN iffD2])
    qed
    then show ?thesis using fs m Some by simp
  qed
qed simp

theorem yaml_keeps_fields_witness:
  "yamlAt [''btc'', ''endpoint''] (encodeYaml (GoStruct [(True, ''btc'', GoPtr (Some (GoStruct
       [(True, ''endpoint,omitempty'', GoOther (7 :: nat)), (False, ''secret'', GoOther 8)])))])) = Some (YValue (GoOther 7))"
proof -
  have "tagName ''btc'' = ''btc''" "tagName ''endpoint,omitempty'' = ''endpoint''" by code_simp+
  then show ?thesis by (subst yaml_keeps_fields) (simp_all add: namedFields_def skipField_def rendered_def)
qed

end
