(* ===== verification/Spec2Isabelle.thy ===== *)
theory Spec2Isabelle
  imports Commands Watcher_Loop Checkpoint_Path Slasher_Shutdown Metrics Config_Yaml
begin

text \<open>
  \<^bold>\<open>The vigilante daemons.\<close> The program connects Babylon, a proof-of-stake chain, with Bitcoin. One
  binary contains four daemons. The \<^emph>\<open>submitter\<close> writes the sealed checkpoints of Babylon to
  Bitcoin, two transactions each. The \<^emph>\<open>reporter\<close> follows Bitcoin, reports its headers to the light
  client of Babylon, and reassembles checkpoints from Bitcoin and reports them. The \<^emph>\<open>monitor\<close>
  verifies the checkpoints it finds on Bitcoin against the validators of Babylon and raises an alarm
  when one is not reported in time. The \<^emph>\<open>staking tracker\<close> watches the staking transactions of
  delegations, reports when they are spent or activated, and slashes delegations of misbehaving
  finality providers. This development models their Go code and proves what makes it correct.

  \<^bold>\<open>How the code is modelled.\<close> A function of the code is a function \<open>'s \<Rightarrow> 'a outcome \<times> 's\<close> on an explicit
  state (\<open>prog\<close> in \<open>Go_Prelude\<close>): \<open>Ok\<close> a normal return, \<open>Err\<close> a returned error with its chain of
  sentinels (for \<open>errors.Is\<close>), \<open>Panic\<close> a panic, \<open>NoFuel\<close> a loop or a retry that did not end. Early
  returns, wrapped errors, deferred clean-up and ignored errors are the combinators \<open>bindG\<close>, \<open>wrapG\<close>,
  \<open>mustG\<close>, \<open>tryG\<close>, \<open>onFailG\<close>, \<open>finallyG\<close>. A struct is a record, a Go map an association list with
  distinct keys whose visiting order is an argument, a slice or channel a list, a machine integer a
  word of its width, \<open>int64\<close> arithmetic \<open>int\<close> with \<open>i64\<close> for the wrap-around, a float a value of
  \<open>f64\<close> (\<open>Go_Numbers\<close>) with the rounding as an argument. Goroutines are lists of tasks, and their
  interleavings \<open>inductive\<close> step relations. A method that runs under a mutex is one step.

  Code outside the repository is a parameter: the RPC clients of Bitcoin and Babylon, the retry library,
  the key-value database, the chain notifier, BLS, Schnorr and adaptor signatures, the checkpoint
  formatter, decoders of JSON and of Cosmos modules, and hash functions are fields of an environment
  record. What the code relies on is a named predicate on that record, such as \<open>kv_contract\<close>
  (reading back what was written), \<open>retry_ctx_contract\<close> (the attempts of a retry are runs of the
  function), \<open>race_contract\<close> or \<open>sorts_by\<close>. The state of the world outside, \<open>'w\<close>, is threaded
  through every remote call, so an answer may depend on everything sent before.

  \<^bold>\<open>Theories and sources\<close> (below \<open>src/\<close>), in the order in which they build on each other:

  \<^item> \<open>Go_Prelude\<close>: outcomes, combinators, Hoare-style rules (\<open>keeps\<close>, \<open>preserves\<close>, \<open>ends\<close>,
    \<open>returns\<close>) collected as \<open>named_theorems\<close>, association lists, and \<open>step_system\<close>, the locale of
    step relations with an invariant. \<open>Go_Numbers\<close>: \<open>int64\<close> and \<open>float64\<close>.
  \<^item> \<open>Wire_Types\<close>: \<open>types/indexed_block.go\<close>, \<open>types/utils.go\<close>, wire formats, hexadecimal strings.
  \<^item> \<open>BTC_Cache\<close>: \<open>types/btccache.go\<close> with the locale \<open>block_window\<close> (a bounded window of
    linked blocks), interpreted on the cache. \<open>FindBlock\<close> is a binary search and is shown
    equal to a linear one.
  \<^item> \<open>Ckpt_Cache\<close>: \<open>types/ckpt_segment.go\<close>, \<open>types/ckpt.go\<close>, \<open>types/ckpt_cache.go\<close>: matching of the two
    halves of a checkpoint is complete and loses nothing.
  \<^item> \<open>Ckpt_Bookkeeper\<close>: \<open>types/ckpt_bookkeeper.go\<close> with the locale \<open>keyed_store\<close>, interpreted on
    the bookkeeper, the tables of delegations and the index of the atomic slasher.
  \<^item> \<open>Retry_Wrap\<close>: \<open>retrywrap/retry.go\<close>. \<open>BTC_Client\<close>: \<open>btcclient/query.go\<close>, \<open>btcclient/client.go\<close>,
    \<open>btcclient/client_wallet.go\<close>, \<open>netparams\<close>. \<open>KV_Stores\<close>: \<open>monitor/store\<close>,
    \<open>btcstaking-tracker/btcslasher/store\<close>, \<open>submitter/store\<close> with the locale \<open>u64_codec\<close>.
  \<^item> \<open>Reporter_Submit\<close> and \<open>Reporter\<close>: \<open>reporter/utils.go\<close>, \<open>reporter/bootstrapping.go\<close>,
    \<open>reporter/block_handler.go\<close>, \<open>reporter/reporter.go\<close>: a healthy bootstrap leaves Babylon with every
    header up to the tip and a linked cache; every outcome of a new block keeps the cache a chain;
    headers and checkpoints are each submitted once and in order; the bootstrap token is released.
  \<^item> \<open>Monitor\<close>: \<open>monitor/monitor.go\<close>, \<open>monitor/query.go\<close>, \<open>monitor/liveness_checker.go\<close>,
    \<open>types/epoch_info.go\<close>. \<open>BTC_Scanner\<close>: \<open>monitor/btcscanner\<close>. \<open>Genesis\<close>:
    \<open>types/genesis_info.go\<close>, \<open>types/pop.go\<close>. \<open>Monitor_Daemon\<close>: creation, receiving loop and stop. Confirmed
    blocks form a chain; a verified checkpoint has two thirds of the power behind it; a restart after any
    sequence of events resumes at the same epoch; the liveness alarm is exact.
  \<^item> \<open>Tracked_Delegations\<close>, \<open>Babylon_Adapter\<close>, \<open>Staking_Watcher\<close>, \<open>Watcher_Correct\<close>,
    \<open>Watcher_Loop\<close>: \<open>btcstaking-tracker/stakingeventwatcher\<close>, \<open>utils/channel.go\<close>. The tables refine a
    finite map; a block starts one handler per idle spent delegation; a delegation is dropped only for a
    reason; activation clears its mark; no delegation of a new Babylon block is missed.
  \<^item> \<open>Pagination\<close>, \<open>Btc_Slasher\<close>, \<open>Slasher_Correct\<close>: \<open>btcstaking-tracker/btcslasher\<close>.
    \<open>Atomic_Slasher\<close>, \<open>Atomic_Correct\<close>: \<open>btcstaking-tracker/atomicslasher\<close>. \<open>Tracker\<close>:
    \<open>btcstaking-tracker/tracker.go\<close> and the steps of all components together. Slashing covers every
    delegation over all pages; evidence is not skipped; an extracted key belongs to the provider.
    \<open>Slasher_Shutdown\<close>: the goroutines of the BTC slasher with their contexts, wait group, semaphores and
    deferred calls; nothing runs after \<open>Stop\<close>, and closing quit ends them.
  \<^item> \<open>Relayer\<close>, \<open>Relayer_Correct\<close>: \<open>submitter/relayer\<close>, \<open>types/ckpt_info.go\<close>. \<open>Submitter\<close>,
    \<open>Submitter_Correct\<close>: \<open>submitter/submitter.go\<close>, \<open>submitter/poller\<close>. No epoch is submitted twice, in any
    interleaving and over restarts; the two transactions carry the checkpoint and are chained; a
    replacement obeys the rules the code checks.
  \<^item> \<open>Checkpoint_Path\<close>: relayer and reporter together. A checkpoint that was sent and mined is found by
    the reporter and reported to Babylon with its epoch, whatever other segments the blocks have.
  \<^item> \<open>Config\<close>, \<open>Config_Correct\<close>: \<open>config\<close>. \<open>Node_Setup\<close>: creation of the wallet, the notifier and
    the fee estimator, \<open>types/utxo.go\<close>, \<open>btcstaking-tracker/indexer\<close>, \<open>version\<close>. \<open>Commands\<close>:
    \<open>cmd/vigilante/cmd\<close>, from the configuration file to the started daemon, and the interrupt handlers.
    \<open>Config_Yaml\<close>: the configuration written as YAML has every tagged field under its path.
  \<^item> \<open>Metrics\<close>: \<open>metrics\<close>. The metrics of a daemon have valid, distinct names, and label values match.

  Each theory states its properties after its definitions, and ends with concrete environments on which
  the hypotheses hold; these evaluate in the kernel.

  \<^bold>\<open>How the components interact.\<close> The reporter calls the cache, the checkpoint cache and the client;
  \<open>btc_window\<close> gives it the laws of the cache. The scanner feeds the monitor through a channel that
  the scanner also reads, which is modelled as \<open>chan_step\<close>. In the tracker the evidence loop, the
  enforcer and the atomic slasher share the channel of extracted keys and the world; \<open>tracker_step\<close>
  runs them in any order. The poller and the relayer of the submitter share a bounded channel, and
  \<open>submitterStep\<close> interleaves them with \<open>Start\<close> and \<open>Stop\<close>. A command validates the configuration
  before it creates a daemon, and \<open>Commands\<close> carries this to the runs of the daemon.
  Submitter and reporter meet only on Bitcoin; \<open>codec_links\<close> says that the encoder of one and the
  decoder of the other fit, and \<open>Checkpoint_Path\<close> follows a checkpoint through both.

  \<^bold>\<open>Loops and fuel.\<close> Recursion over data is structural. Loops without a bound in the code have fuel: the
  wait for the Bitcoin node, the pages of a query, the rounds of the table iterator and the
  submission of matched checkpoints. For each there is a bound that suffices: one more than the
  number of pages that are served, the size of the table, the number of matched checkpoints, and for
  the bootstrap the length of the chain. A retry that has no limit is an argument which may not
  return; a statement that something is returned says so under a contract that it does.

  \<^bold>\<open>Not modelled.\<close> Logs, the values of metrics and the calls that only change them, which nothing reads; the
  definition of the command line; timers, except as events; the mutex
  around a private key and the one-line wrappers around the codec of btcd (\<open>types/safeprivatekey.go\<close>,
  \<open>utils/serialize.go\<close>); methods of the client that only forward to the RPC library; generated code,
  mocks, test data generators and the end-to-end tests. Data races are outside the model: a step is
  atomic where the code holds a lock or owns the data.
\<close>

end
